(* ===== verification/Go_Prelude.thy ===== *)
theory Go_Prelude
  imports Main "HOL-Library.AList" "HOL-Library.Char_ord" "HOL-Library.List_Lexorder"
    "HOL-Library.Multiset"
begin

text \<open>
  What the models of the components share: the parts of Go and of its standard library that the
  program leans on.

  \<^item> A Go string is a sequence of bytes, so it is an Isabelle \<open>string\<close> (a list of
    8-bit characters). A \<open>range\<close> loop over a string decodes UTF-8; \<open>go_chunks\<close> does the
    same, with the replacement rune for bytes that are not UTF-8.
  \<^item> A Go map is an association list (\<open>gomap\<close>). Its order stands for the order of one
    \<open>range\<close> loop, which Go leaves open: a theorem about every list with distinct keys is a
    theorem about every iteration order.
  \<^item> A function that returns a value and an error is a function into a sum, \<open>Inl\<close> the error.
  \<^item> Helpers of \<open>strings\<close>, \<open>strconv\<close> and \<open>encoding/base64\<close>, with the facts
    that the component proofs use.
\<close>

named_theorems gomap "facts about Go maps modelled as association lists"
named_theorems gostr "facts about Go strings"

section \<open>Maps\<close>

type_synonym ('k, 'v) gomap = "('k \<times> 'v) list"
type_synonym labels = "(string, string) gomap"

definition gm_wf :: "('k, 'v) gomap \<Rightarrow> bool" where
  "gm_wf m \<longleftrightarrow> distinct (map fst m)"

abbreviation gm_get :: "('k, 'v) gomap \<Rightarrow> 'k \<Rightarrow> 'v option" where
  "gm_get m k \<equiv> map_of m k"

definition gm_put :: "'k \<Rightarrow> 'v \<Rightarrow> ('k, 'v) gomap \<Rightarrow> ('k, 'v) gomap" where
  "gm_put k v m = AList.update k v m"

definition gm_del :: "'k \<Rightarrow> ('k, 'v) gomap \<Rightarrow> ('k, 'v) gomap" where
  "gm_del k m = AList.delete k m"

definition gm_keys :: "('k, 'v) gomap \<Rightarrow> 'k set" where
  "gm_keys m = set (map fst m)"

text \<open>Indexing a map with a missing key gives the zero value, here the empty string.\<close>

definition gm_str :: "(string, string) gomap \<Rightarrow> string \<Rightarrow> string" where
  "gm_str m k = (case gm_get m k of None \<Rightarrow> '''' | Some v \<Rightarrow> v)"

lemma gm_get_put [simp, gomap]: "gm_get (gm_put k v m) = (gm_get m)(k \<mapsto> v)"
  by (rule ext) (simp add: gm_put_def update_conv)

lemma gm_get_del [simp, gomap]: "gm_get (gm_del k m) = (gm_get m)(k := None)"
  by (rule ext) (simp add: gm_del_def delete_conv)

lemma gm_wf_put [simp, gomap]: "gm_wf m \<Longrightarrow> gm_wf (gm_put k v m)"
  by (simp add: gm_wf_def gm_put_def distinct_update)

lemma gm_wf_del [simp, gomap]: "gm_wf m \<Longrightarrow> gm_wf (gm_del k m)"
  by (simp add: gm_wf_def gm_del_def distinct_delete)

lemma gm_keys_simps [simp, gomap]:
  "gm_keys [] = {}" "gm_keys ((k, v) # m) = insert k (gm_keys m)" "gm_keys (m @ m') = gm_keys m \<union> gm_keys m'"
  by (simp_all add: gm_keys_def)

lemma gm_wf_simps [simp, gomap]:
  "gm_wf []" "gm_wf ((k, v) # m) \<longleftrightarrow> k \<notin> gm_keys m \<and> gm_wf m"
  by (simp_all add: gm_keys_def gm_wf_def)

lemma gm_keys_set: "set (map fst m) = gm_keys m"
  by (simp add: gm_keys_def)

lemma gm_keys_dom: "gm_keys m = dom (gm_get m)"
  by (simp add: gm_keys_def dom_map_of_conv_image_fst)

lemma gm_keys_put [simp, gomap]: "gm_keys (gm_put k v m) = insert k (gm_keys m)"
  by (auto simp: gm_keys_dom split: if_splits)

lemma gm_keys_del [simp, gomap]: "gm_keys (gm_del k m) = gm_keys m - {k}"
  by (auto simp: gm_keys_dom split: if_splits)

lemma gm_get_None: "gm_get m k = None \<longleftrightarrow> k \<notin> gm_keys m"
  by (auto simp: gm_keys_dom)

lemma gm_keys_get: "k \<in> gm_keys m \<longleftrightarrow> (\<exists>v. gm_get m k = Some v)"
  by (auto simp: gm_keys_dom)

lemma gm_in_set: "gm_wf m \<Longrightarrow> (k, v) \<in> set m \<longleftrightarrow> gm_get m k = Some v"
  unfolding gm_wf_def by (rule map_of_eq_Some_iff [symmetric])

text \<open>
  Writing the pairs of one map into another, in iteration order: the loop behind
  \<open>maps.Copy\<close> and behind the label conversions.
\<close>

definition gm_copy :: "('k, 'v) gomap \<Rightarrow> ('k, 'v) gomap \<Rightarrow> ('k, 'v) gomap" where
  "gm_copy dst src = foldl (\<lambda>m kv. gm_put (fst kv) (snd kv) m) dst src"

lemma gm_get_copy_not_in:
  "k \<notin> gm_keys src \<Longrightarrow> gm_get (gm_copy dst src) k = gm_get dst k"
  unfolding gm_copy_def
  by (induction src arbitrary: dst) auto

lemma gm_get_copy:
  "gm_wf src \<Longrightarrow> gm_get (gm_copy dst src) k
     = (case gm_get src k of None \<Rightarrow> gm_get dst k | Some v \<Rightarrow> Some v)"
  unfolding gm_copy_def
proof (induction src arbitrary: dst)
  case Nil
  then show ?case by simp
next
  case (Cons kv src)
  obtain k' v' where [simp]: "kv = (k', v')" by (cases kv)
  from Cons.prems have "gm_wf src" and "k' \<notin> gm_keys src" by auto
  then have "gm_get src k' = None" by (simp add: gm_get_None)
  then show ?case
    using Cons.IH[OF \<open>gm_wf src\<close>, of "gm_put k' v' dst"]
    by (cases "k = k'") (simp_all split: option.split)
qed

lemma gm_wf_copy [simp, gomap]: "gm_wf dst \<Longrightarrow> gm_wf (gm_copy dst src)"
  unfolding gm_copy_def by (induction src arbitrary: dst) auto

lemma in_gm_put: "kv \<in> set (gm_put k v m) \<Longrightarrow> kv = (k, v) \<or> kv \<in> set m"
  unfolding gm_put_def by (induction m) (auto split: if_splits)

lemma gm_put_new: "k \<notin> gm_keys m \<Longrightarrow> gm_put k v m = m @ [(k, v)]"
  unfolding gm_put_def by (induction m) (auto simp: gm_keys_def)

lemma gm_copy_append: "gm_wf (dst @ src) \<Longrightarrow> gm_copy dst src = dst @ src"
  unfolding gm_copy_def
proof (induction src arbitrary: dst)
  case (Cons kv src)
  then have "fst kv \<notin> gm_keys dst" by (auto simp: gm_wf_def gm_keys_def)
  then have "gm_put (fst kv) (snd kv) dst = dst @ [kv]" by (simp add: gm_put_new)
  with Cons show ?case by simp
qed simp

lemma gm_copy_id: "gm_wf src \<Longrightarrow> gm_copy [] src = src"
  by (simp add: gm_copy_append)

lemma gm_keys_copy [simp, gomap]: "gm_keys (gm_copy dst src) = gm_keys dst \<union> gm_keys src"
  unfolding gm_copy_def by (induction src arbitrary: dst) auto

section \<open>Results and loops that stop at the first error\<close>

type_synonym ('e, 'a) result = "'e + 'a"

definition bindR :: "('e, 'a) result \<Rightarrow> ('a \<Rightarrow> ('e, 'b) result) \<Rightarrow> ('e, 'b) result" where
  "bindR r f = (case r of Inl e \<Rightarrow> Inl e | Inr a \<Rightarrow> f a)"

lemma bindR_simps [simp]: "bindR (Inl e) f = Inl e" "bindR (Inr a) f = f a"
  by (simp_all add: bindR_def)

lemma bindR_eq_Inr: "bindR r f = Inr b \<longleftrightarrow> (\<exists>a. r = Inr a \<and> f a = Inr b)"
  by (cases r) auto

lemma bindR_split:
  "P (bindR r f) \<longleftrightarrow> (\<forall>e. r = Inl e \<longrightarrow> P (Inl e)) \<and> (\<forall>a. r = Inr a \<longrightarrow> P (f a))"
  by (cases r) auto

text \<open>The first error of a list of checks, as in a loop that returns on the first one.\<close>

fun first_error :: "'e option list \<Rightarrow> 'e option" where
  "first_error [] = None"
| "first_error (c # cs) = (case c of Some e \<Rightarrow> Some e | None \<Rightarrow> first_error cs)"

lemma first_error_None: "first_error cs = None \<longleftrightarrow> (\<forall>c \<in> set cs. c = None)"
  by (induction cs) (auto split: option.splits)

lemma first_error_Some: "first_error cs = Some e \<Longrightarrow> Some e \<in> set cs"
  by (induction cs) (auto split: option.splits)

end
