(* ===== verification/Go_Strings.thy ===== *)
theory Go_Strings
  imports Go_Prelude
begin

text \<open>
  The functions of Go's \<open>strings\<close>, \<open>strconv\<close>, \<open>unicode/utf8\<close> and
  \<open>encoding/base64\<close> that the program calls, on byte strings, with the lemmas the components
  use: cutting and joining, UTF-8 runes, numerals and unpadded URL-safe base64.
\<close>

section \<open>Prefixes, suffixes, cutting\<close>

fun has_prefix :: "string \<Rightarrow> string \<Rightarrow> bool" where
  "has_prefix s [] = True"
| "has_prefix [] (p # ps) = False"
| "has_prefix (c # s) (p # ps) = (c = p \<and> has_prefix s ps)"

definition has_suffix :: "string \<Rightarrow> string \<Rightarrow> bool" where
  "has_suffix s p = has_prefix (rev s) (rev p)"

definition trim_prefix :: "string \<Rightarrow> string \<Rightarrow> string" where
  "trim_prefix s p = (if has_prefix s p then drop (length p) s else s)"

definition trim_suffix :: "string \<Rightarrow> string \<Rightarrow> string" where
  "trim_suffix s p = (if has_suffix s p then take (length s - length p) s else s)"

text \<open>\<open>strings.Cut\<close> with a one-byte separator: before, after, found.\<close>

fun cut :: "char \<Rightarrow> string \<Rightarrow> string \<times> string \<times> bool" where
  "cut c [] = ([], [], False)"
| "cut c (x # xs) =
     (if x = c then ([], xs, True)
      else (case cut c xs of (b, a, f) \<Rightarrow> (x # b, a, f)))"

text \<open>\<open>strings.Split\<close> with a one-byte separator, and \<open>strings.Join\<close>.\<close>

fun split_on :: "char \<Rightarrow> string \<Rightarrow> string list" where
  "split_on c [] = [[]]"
| "split_on c (x # xs) =
     (if x = c then [] # split_on c xs
      else (case split_on c xs of [] \<Rightarrow> [[x]] | w # ws \<Rightarrow> (x # w) # ws))"

fun join :: "string \<Rightarrow> string list \<Rightarrow> string" where
  "join sep [] = []"
| "join sep [w] = w"
| "join sep (w # ws) = w @ sep @ join sep ws"

lemma has_prefix_iff: "has_prefix s p \<longleftrightarrow> (\<exists>t. s = p @ t)"
  by (induction s p rule: has_prefix.induct) auto

lemma has_prefix_append [simp, gostr]: "has_prefix (p @ t) p"
  by (auto simp: has_prefix_iff)

lemma has_prefix_refl [simp]: "has_prefix p p"
  by (auto simp: has_prefix_iff)

lemma has_prefix_trans: "has_prefix a b \<Longrightarrow> has_prefix b c \<Longrightarrow> has_prefix a c"
  by (auto simp: has_prefix_iff)

lemma has_suffix_iff: "has_suffix s p \<longleftrightarrow> (\<exists>t. s = t @ p)"
proof
  assume "has_suffix s p"
  then obtain t where "rev s = rev p @ t" by (auto simp: has_suffix_def has_prefix_iff)
  then have "s = rev t @ p" by (metis rev_append rev_rev_ident)
  then show "\<exists>t. s = t @ p" ..
qed (auto simp: has_suffix_def has_prefix_iff)

lemma trim_prefix_append [simp, gostr]: "trim_prefix (p @ t) p = t"
  by (simp add: trim_prefix_def)

lemma split_on_not_empty [simp]: "split_on c s \<noteq> []"
  by (cases s) (auto split: list.splits)

lemma split_on_no_sep: "c \<notin> set w \<Longrightarrow> split_on c w = [w]"
  by (induction w) auto

lemma split_on_append: "c \<notin> set w \<Longrightarrow> split_on c (w @ c # r) = w # split_on c r"
  by (induction w) auto

lemma split_on_concat: "split_on c (a @ c # b) = split_on c a @ split_on c b"
  by (induction a) (auto split: list.splits)

lemma join_split_on: "join [c] (split_on c s) = s"
proof (induction s)
  case Nil
  then show ?case by simp
next
  case (Cons x xs)
  obtain w ws where w: "split_on c xs = w # ws"
    by (cases "split_on c xs") auto
  then show ?case using Cons by (cases ws) auto
qed

lemma split_on_no_sep_in: "w \<in> set (split_on c s) \<Longrightarrow> c \<notin> set w"
  by (induction s arbitrary: w) (auto split: if_splits list.splits)

lemma cut_found: "c \<notin> set b \<Longrightarrow> cut c (b @ c # a) = (b, a, True)"
  by (induction b) auto

lemma cut_not_found: "c \<notin> set s \<Longrightarrow> cut c s = (s, [], False)"
  by (induction s) auto

lemma cut_True_iff: "cut c s = (b, a, True) \<longleftrightarrow> c \<notin> set b \<and> s = b @ c # a"
proof
  assume "cut c s = (b, a, True)"
  then show "c \<notin> set b \<and> s = b @ c # a"
    by (induction s arbitrary: b a) (auto split: if_splits prod.splits)
qed (auto simp: cut_found)

section \<open>UTF-8\<close>

text \<open>
  \<open>utf8.DecodeRune\<close> on the bytes of a string: the rune and the number of bytes it takes;
  the replacement rune U+FFFD and one byte when the bytes are not UTF-8 (over-long forms,
  surrogates and values above U+10FFFF included).
\<close>

definition rune_error :: nat where
  "rune_error = 0xFFFD"

definition cont_byte :: "nat \<Rightarrow> bool" where
  "cont_byte b \<longleftrightarrow> 0x80 \<le> b \<and> b \<le> 0xBF"

definition second_ok :: "nat \<Rightarrow> nat \<Rightarrow> bool" where
  "second_ok b0 b1 =
     (if b0 = 0xE0 then 0xA0 \<le> b1 \<and> b1 \<le> 0xBF
      else if b0 = 0xED then 0x80 \<le> b1 \<and> b1 \<le> 0x9F
      else if b0 = 0xF0 then 0x90 \<le> b1 \<and> b1 \<le> 0xBF
      else if b0 = 0xF4 then 0x80 \<le> b1 \<and> b1 \<le> 0x8F
      else cont_byte b1)"

fun decode_rune :: "nat list \<Rightarrow> nat \<times> nat" where
  "decode_rune [] = (rune_error, 0)"
| "decode_rune (b0 # bs) =
     (if b0 < 0x80 then (b0, 1)
      else if 0xC2 \<le> b0 \<and> b0 \<le> 0xDF then
        (case bs of
           b1 # _ \<Rightarrow> if cont_byte b1 then ((b0 - 0xC0) * 64 + (b1 - 0x80), 2) else (rune_error, 1)
         | _ \<Rightarrow> (rune_error, 1))
      else if 0xE0 \<le> b0 \<and> b0 \<le> 0xEF then
        (case bs of
           b1 # b2 # _ \<Rightarrow>
             if second_ok b0 b1 \<and> cont_byte b2
             then ((b0 - 0xE0) * 4096 + (b1 - 0x80) * 64 + (b2 - 0x80), 3)
             else (rune_error, 1)
         | _ \<Rightarrow> (rune_error, 1))
      else if 0xF0 \<le> b0 \<and> b0 \<le> 0xF4 then
        (case bs of
           b1 # b2 # b3 # _ \<Rightarrow>
             if second_ok b0 b1 \<and> cont_byte b2 \<and> cont_byte b3
             then ((b0 - 0xF0) * 262144 + (b1 - 0x80) * 4096 + (b2 - 0x80) * 64 + (b3 - 0x80), 4)
             else (rune_error, 1)
         | _ \<Rightarrow> (rune_error, 1))
      else (rune_error, 1))"

lemma decode_rune_pos: "bs \<noteq> [] \<Longrightarrow> 0 < snd (decode_rune bs)"
  by (cases bs) (auto split: list.splits)

text \<open>A string as the pieces a \<open>range\<close> loop visits: each rune with its bytes.\<close>

function go_chunks :: "string \<Rightarrow> (nat \<times> string) list" where
  "go_chunks s =
     (if s = [] then []
      else (let rn = decode_rune (map of_char s)
            in (fst rn, take (snd rn) s) # go_chunks (drop (snd rn) s)))"
  by pat_completeness auto
termination
proof (relation "measure length")
  fix s :: string and rn
  assume "s \<noteq> []" and "rn = decode_rune (map of_char s)"
  then have "0 < snd rn" using decode_rune_pos[of "map of_char s"] by simp
  with \<open>s \<noteq> []\<close> show "(drop (snd rn) s, s) \<in> measure length" by simp
qed simp

declare go_chunks.simps [simp del]

definition go_runes :: "string \<Rightarrow> nat list" where
  "go_runes s = map fst (go_chunks s)"

text \<open>\<open>for i, r := range s\<close>: the byte index and the rune of each step.\<close>

fun index_chunks :: "nat \<Rightarrow> (nat \<times> string) list \<Rightarrow> (nat \<times> nat) list" where
  "index_chunks i [] = []"
| "index_chunks i ((r, bs) # cs) = (i, r) # index_chunks (i + length bs) cs"

definition go_range :: "string \<Rightarrow> (nat \<times> nat) list" where
  "go_range s = index_chunks 0 (go_chunks s)"

lemma go_chunks_Nil [simp]: "go_chunks [] = []"
  by (subst go_chunks.simps) simp

lemma go_chunks_ascii_Cons [simp]:
  "of_char c < (128::nat) \<Longrightarrow> go_chunks (c # s) = (of_char c, [c]) # go_chunks s"
  by (subst go_chunks.simps) simp

lemma go_chunks_concat: "concat (map snd (go_chunks s)) = s"
proof (induction s rule: go_chunks.induct)
  case (1 s)
  then show ?case by (subst go_chunks.simps) (auto simp: Let_def)
qed

definition ascii :: "string \<Rightarrow> bool" where
  "ascii s \<longleftrightarrow> (\<forall>c \<in> set s. of_char c < (128::nat))"

lemma ascii_simps [simp]:
  "ascii []" "ascii (c # s) \<longleftrightarrow> of_char c < (128::nat) \<and> ascii s"
  "ascii (s @ t) \<longleftrightarrow> ascii s \<and> ascii t"
  by (auto simp: ascii_def)

lemma go_chunks_ascii: "ascii s \<Longrightarrow> go_chunks s = map (\<lambda>c. (of_char c, [c])) s"
  by (induction s) auto

lemma go_runes_ascii: "ascii s \<Longrightarrow> go_runes s = map of_char s"
  by (simp add: go_runes_def go_chunks_ascii)

text \<open>An ASCII rune is always one byte of its own, so a loop over runes that accepts only ASCII
  runes is a loop over bytes.\<close>

lemma decode_rune_ascii:
  assumes "bs \<noteq> []" and "fst (decode_rune bs) < 128"
  shows "snd (decode_rune bs) = 1 \<and> hd bs = fst (decode_rune bs)"
  using assms
  by (cases bs) (auto simp: rune_error_def cont_byte_def second_ok_def split: if_splits list.splits)

lemma go_chunks_ascii_rune:
  "(r, bs) \<in> set (go_chunks s) \<Longrightarrow> r < 128 \<Longrightarrow> bs = [char_of r]"
proof (induction s rule: go_chunks.induct)
  case (1 s)
  then have "s \<noteq> []" by auto
  define rn where "rn = decode_rune (map of_char s)"
  have s: "go_chunks s = (fst rn, take (snd rn) s) # go_chunks (drop (snd rn) s)"
    using \<open>s \<noteq> []\<close> by (subst go_chunks.simps) (simp add: rn_def Let_def)
  show ?case
  proof (cases "(r, bs) = (fst rn, take (snd rn) s)")
    case True
    have "snd rn = 1 \<and> hd (map of_char s) = fst rn"
      unfolding rn_def
      using \<open>s \<noteq> []\<close> True 1(3) by (intro decode_rune_ascii) (auto simp: rn_def)
    with True \<open>s \<noteq> []\<close> show ?thesis by (cases s) (auto, metis char_of_char)
  next
    case False
    with 1(2) s have "(r, bs) \<in> set (go_chunks (drop (snd rn) s))" by auto
    then show ?thesis using 1(1) \<open>s \<noteq> []\<close> 1(3) rn_def by auto
  qed
qed

lemma ascii_of_runes: "\<forall>r \<in> set (go_runes s). r < 128 \<Longrightarrow> ascii s"
proof -
  assume a: "\<forall>r \<in> set (go_runes s). r < 128"
  have "\<forall>c \<in> set (concat (map snd (go_chunks s))). of_char c < (128 :: nat)"
  proof
    fix c assume "c \<in> set (concat (map snd (go_chunks s)))"
    then obtain r bs where rb: "(r, bs) \<in> set (go_chunks s)" and c: "c \<in> set bs" by auto
    from rb have "r \<in> set (go_runes s)" by (force simp: go_runes_def)
    with a have r: "r < 128" by blast
    with go_chunks_ascii_rune [OF rb] c show "of_char c < (128 :: nat)" by simp
  qed
  then show ?thesis by (simp add: go_chunks_concat ascii_def)
qed

lemma go_runes_all_ascii:
  assumes "\<And>r. P r \<Longrightarrow> r < 128"
  shows "(\<forall>r \<in> set (go_runes s). P r) \<longleftrightarrow> (\<forall>c \<in> set s. P (of_char c))"
proof
  assume a: "\<forall>r \<in> set (go_runes s). P r"
  with assms have "ascii s" by (intro ascii_of_runes) blast
  with a show "\<forall>c \<in> set s. P (of_char c)" by (simp add: go_runes_ascii)
next
  assume a: "\<forall>c \<in> set s. P (of_char c)"
  with assms have "ascii s" by (auto simp: ascii_def)
  with a show "\<forall>r \<in> set (go_runes s). P r" by (simp add: go_runes_ascii)
qed

section \<open>White space\<close>

text \<open>\<open>unicode.IsSpace\<close> and \<open>strings.TrimSpace\<close>.\<close>

definition is_space :: "nat \<Rightarrow> bool" where
  "is_space r \<longleftrightarrow>
     r \<in> {0x9, 0xA, 0xB, 0xC, 0xD, 0x20, 0x85, 0xA0, 0x1680, 0x2028, 0x2029, 0x202F, 0x205F, 0x3000}
     \<or> (0x2000 \<le> r \<and> r \<le> 0x200A)"

definition trim_space :: "string \<Rightarrow> string" where
  "trim_space s =
     concat (map snd (rev (dropWhile (is_space \<circ> fst) (rev (dropWhile (is_space \<circ> fst) (go_chunks s))))))"

lemma trim_space_id:
  assumes "\<forall>x \<in> set (go_chunks s). \<not> is_space (fst x)"
  shows "trim_space s = s"
proof -
  have no: "dropWhile (is_space \<circ> fst) xs = xs"
    if "\<forall>x \<in> set xs. \<not> is_space (fst x)" for xs :: "(nat \<times> string) list"
    using that by (cases xs) auto
  show ?thesis using assms by (simp add: trim_space_def no go_chunks_concat)
qed

section \<open>Numerals\<close>

text \<open>Digits of a number in a base (at least 2), most significant first.\<close>

function digits_base :: "nat \<Rightarrow> nat \<Rightarrow> nat list" where
  "digits_base b n = (if n < b \<or> b < 2 then [n] else digits_base b (n div b) @ [n mod b])"
  by pat_completeness auto
termination
  by (relation "measure snd") auto

declare digits_base.simps [simp del]

definition of_digits :: "nat \<Rightarrow> nat list \<Rightarrow> nat" where
  "of_digits b ds = foldl (\<lambda>a d. a * b + d) 0 ds"

definition digit_char :: "nat \<Rightarrow> char" where
  "digit_char d = (if d < 10 then char_of (48 + d) else char_of (87 + d))"

text \<open>\<open>strconv.Itoa\<close> for a number that is not negative, and the verb \<open>%x\<close>.\<close>

definition itoa :: "nat \<Rightarrow> string" where
  "itoa n = map digit_char (digits_base 10 n)"

definition hex :: "nat \<Rightarrow> string" where
  "hex n = map digit_char (digits_base 16 n)"

lemma digits_base_bound: "2 \<le> b \<Longrightarrow> d \<in> set (digits_base b n) \<Longrightarrow> d < b"
proof (induction b n rule: digits_base.induct)
  case (1 b n)
  then show ?case by (subst (asm) (2) digits_base.simps) (auto split: if_splits)
qed

lemma digits_base_value: "2 \<le> b \<Longrightarrow> of_digits b (digits_base b n) = n"
proof (induction b n rule: digits_base.induct)
  case (1 b n)
  show ?case
  proof (cases "n < b")
    case True
    then show ?thesis by (subst digits_base.simps) (simp add: of_digits_def)
  next
    case False
    with 1 have "of_digits b (digits_base b (n div b)) = n div b" by simp
    with False 1 show ?thesis
      by (subst digits_base.simps) (simp add: of_digits_def)
  qed
qed

lemma digits_base_not_Nil [simp]: "digits_base b n \<noteq> []"
  by (subst digits_base.simps) simp

lemma of_char_digit_char:
  "d < 16 \<Longrightarrow> (of_char (digit_char d) :: nat) = (if d < 10 then 48 + d else 87 + d)"
  by (simp add: digit_char_def)

lemma digit_char_inj: "d < 16 \<Longrightarrow> e < 16 \<Longrightarrow> digit_char d = digit_char e \<longleftrightarrow> d = e"
proof
  assume "d < 16" "e < 16" "digit_char d = digit_char e"
  then have "(if d < 10 then 48 + d else 87 + d) = (if e < 10 then 48 + e else 87 + e)"
    by (metis of_char_digit_char)
  then show "d = e" using \<open>d < 16\<close> \<open>e < 16\<close> by (auto split: if_splits)
qed simp

lemma map_digit_char_inj:
  "\<forall>d \<in> set ds. d < 16 \<Longrightarrow> \<forall>e \<in> set es. e < 16 \<Longrightarrow> map digit_char ds = map digit_char es \<Longrightarrow> ds = es"
proof (induction ds arbitrary: es)
  case Nil
  then show ?case by simp
next
  case (Cons d ds)
  from Cons.prems(3) obtain e es' where es: "es = e # es'" and "digit_char d = digit_char e"
    and tl: "map digit_char ds = map digit_char es'"
    by (cases es) simp_all
  with Cons.prems(1,2) have "d = e" by (simp add: digit_char_inj)
  moreover from Cons.prems(1,2) es tl have "ds = es'" by (intro Cons.IH) simp_all
  ultimately show ?case by (simp add: es)
qed

lemma numeral_text_inj:
  assumes "2 \<le> b" "b \<le> 16" and e: "map digit_char (digits_base b m) = map digit_char (digits_base b n)"
  shows "m = n"
proof -
  have lt: "\<forall>d \<in> set (digits_base b k). d < 16" for k
  proof
    fix d assume "d \<in> set (digits_base b k)"
    then have "d < b" by (rule digits_base_bound [OF assms(1)])
    then show "d < 16" using assms(2) by (rule order_less_le_trans)
  qed
  have "digits_base b m = digits_base b n"
    by (rule map_digit_char_inj [OF lt lt e])
  then have "of_digits b (digits_base b m) = of_digits b (digits_base b n)" by simp
  then show ?thesis using assms(1) by (simp add: digits_base_value)
qed

lemma itoa_inj [simp]: "itoa m = itoa n \<longleftrightarrow> m = n"
  unfolding itoa_def using numeral_text_inj [of 10 m n] by auto

lemma hex_inj [simp]: "hex m = hex n \<longleftrightarrow> m = n"
  unfolding hex_def using numeral_text_inj [of 16 m n] by auto

lemma itoa_digits:
  assumes "c \<in> set (itoa n)"
  shows "48 \<le> (of_char c :: nat) \<and> of_char c \<le> (57 :: nat)"
proof -
  from assms obtain d where d: "d \<in> set (digits_base 10 n)" and c: "c = digit_char d"
    by (auto simp: itoa_def)
  from digits_base_bound [OF _ d] have "d < 10" by simp
  then show ?thesis by (simp add: c of_char_digit_char)
qed

lemma hex_digits:
  assumes "c \<in> set (hex n)"
  shows "(48 \<le> (of_char c :: nat) \<and> of_char c \<le> (57 :: nat))
    \<or> (97 \<le> (of_char c :: nat) \<and> of_char c \<le> (102 :: nat))"
proof -
  from assms obtain d where d: "d \<in> set (digits_base 16 n)" and c: "c = digit_char d"
    by (auto simp: hex_def)
  from digits_base_bound [OF _ d] have "d < 16" by simp
  then show ?thesis by (simp add: c of_char_digit_char)
qed

lemma itoa_not_Nil [simp]: "itoa n \<noteq> []" by (simp add: itoa_def)

section \<open>Base64\<close>

text \<open>
  \<open>base64.RawURLEncoding\<close>: the URL-safe alphabet without padding. The encoder takes three
  bytes to four characters and a rest of one or two bytes to two or three. The decoder skips line
  breaks, rejects any other character outside the alphabet and a single left-over character, and
  ignores the unused bits of a short last group.
\<close>

definition b64_char :: "nat \<Rightarrow> char" where
  "b64_char n =
     char_of (if n < 26 then n + 65 else if n < 52 then n + 71 else if n < 62 then n - 4
              else if n = 62 then 45 else 95)"

definition b64_value :: "char \<Rightarrow> nat option" where
  "b64_value c =
     (let n = of_char c in
      if 65 \<le> n \<and> n \<le> 90 then Some (n - 65)
      else if 97 \<le> n \<and> n \<le> 122 then Some (n - 71)
      else if 48 \<le> n \<and> n \<le> 57 then Some (n + 4)
      else if n = 45 then Some 62
      else if n = 95 then Some 63
      else None)"

fun b64_sextets :: "nat list \<Rightarrow> nat list" where
  "b64_sextets [] = []"
| "b64_sextets [a] = [a div 4, (a mod 4) * 16]"
| "b64_sextets [a, b] = [a div 4, (a mod 4) * 16 + b div 16, (b mod 16) * 4]"
| "b64_sextets (a # b # c # r) =
     [a div 4, (a mod 4) * 16 + b div 16, (b mod 16) * 4 + c div 64, c mod 64] @ b64_sextets r"

fun b64_bytes :: "nat list \<Rightarrow> nat list option" where
  "b64_bytes [] = Some []"
| "b64_bytes [s] = None"
| "b64_bytes [s, t] = Some [s * 4 + t div 16]"
| "b64_bytes [s, t, u] = Some [s * 4 + t div 16, (t mod 16) * 16 + u div 4]"
| "b64_bytes (s # t # u # v # r) =
     (case b64_bytes r of None \<Rightarrow> None
      | Some bs \<Rightarrow> Some ([s * 4 + t div 16, (t mod 16) * 16 + u div 4, (u mod 4) * 64 + v] @ bs))"

fun values_of :: "string \<Rightarrow> nat list option" where
  "values_of [] = Some []"
| "values_of (c # cs) =
     (case b64_value c of None \<Rightarrow> None
      | Some n \<Rightarrow> (case values_of cs of None \<Rightarrow> None | Some ns \<Rightarrow> Some (n # ns)))"

definition b64_encode :: "string \<Rightarrow> string" where
  "b64_encode s = map b64_char (b64_sextets (map of_char s))"

definition b64_decode :: "string \<Rightarrow> string option" where
  "b64_decode s =
     (case values_of (filter (\<lambda>c. c \<noteq> CHR 0x0A \<and> c \<noteq> CHR 0x0D) s) of None \<Rightarrow> None
      | Some ns \<Rightarrow> (case b64_bytes ns of None \<Rightarrow> None | Some bs \<Rightarrow> Some (map char_of bs)))"

lemma b64_value_char: "n < 64 \<Longrightarrow> b64_value (b64_char n) = Some n"
  by (auto simp: b64_value_def b64_char_def Let_def)

lemma b64_char_range:
  "n < 64 \<Longrightarrow> (of_char (b64_char n) :: nat) \<in> {65..90} \<union> {97..122} \<union> {48..57} \<union> {45, 95}"
  by (auto simp: b64_char_def)

lemma b64_sextets_bound: "\<forall>a \<in> set bs. a < 256 \<Longrightarrow> n \<in> set (b64_sextets bs) \<Longrightarrow> n < 64"
  by (induction bs rule: b64_sextets.induct) auto

lemma values_of_chars: "\<forall>n \<in> set ns. n < 64 \<Longrightarrow> values_of (map b64_char ns) = Some ns"
  by (induction ns) (auto simp: b64_value_char)

lemma b64_bytes_sextets: "\<forall>a \<in> set bs. a < 256 \<Longrightarrow> b64_bytes (b64_sextets bs) = Some bs"
  by (induction bs rule: b64_sextets.induct) auto

lemma b64_encode_range:
  assumes "c \<in> set (b64_encode s)"
  shows "(of_char c :: nat) \<in> {65..90} \<union> {97..122} \<union> {48..57} \<union> {45, 95}"
proof -
  from assms obtain n where "n \<in> set (b64_sextets (map of_char s))" and c: "c = b64_char n"
    by (auto simp: b64_encode_def)
  then have "n < 64" by (intro b64_sextets_bound [of "map of_char s"]) auto
  then show ?thesis unfolding c by (rule b64_char_range)
qed

lemma b64_decode_encode: "b64_decode (b64_encode s) = Some s"
proof -
  have bytes: "\<forall>a \<in> set (map of_char s). a < (256 :: nat)" by auto
  have "filter (\<lambda>c. c \<noteq> CHR 0x0A \<and> c \<noteq> CHR 0x0D) (b64_encode s) = b64_encode s"
    using b64_encode_range by (fastforce simp: filter_id_conv)
  moreover have "values_of (b64_encode s) = Some (b64_sextets (map of_char s))"
    unfolding b64_encode_def using b64_sextets_bound [OF bytes] by (intro values_of_chars) blast
  ultimately show ?thesis
    by (simp add: b64_decode_def b64_bytes_sextets [OF bytes])
qed

end
