(* ===== verification/Ownership.thy ===== *)
theory Ownership
  imports Go_Strings
begin

text \<open>
  Ownership labels (internal/ownership/labels.go): the labels serverpro stamps on provider
  resources, their flat-tag form for providers without key-value labels, and the checks that
  decide whether a live resource belongs to a namespace and server. The lemmas show that stamping
  and reading back agree on every input, that tags stay inside the provider's character set, and
  that the check before a mutation and the recovery used by import accept the same resources.
\<close>

definition ManagedByKey :: string where "ManagedByKey = ''managed-by''"
definition ManagedByValue :: string where "ManagedByValue = ''serverpro''"
definition NamespaceKey :: string where "NamespaceKey = ''serverpro.namespace''"
definition ServerKey :: string where "ServerKey = ''serverpro.server''"
definition ProviderTagNamespaceKey :: string where "ProviderTagNamespaceKey = ''serverpro-namespace''"
definition ProviderTagServerKey :: string where "ProviderTagServerKey = ''serverpro-server''"
definition providerTagEncodedPrefix :: string where "providerTagEncodedPrefix = ''b64:''"

lemmas key_defs = ManagedByKey_def ManagedByValue_def NamespaceKey_def ServerKey_def
  ProviderTagNamespaceKey_def ProviderTagServerKey_def

lemma keys_distinct [simp]:
  "ManagedByKey \<noteq> NamespaceKey" "ManagedByKey \<noteq> ServerKey"
  "ManagedByKey \<noteq> ProviderTagNamespaceKey" "ManagedByKey \<noteq> ProviderTagServerKey"
  "NamespaceKey \<noteq> ManagedByKey" "NamespaceKey \<noteq> ServerKey"
  "NamespaceKey \<noteq> ProviderTagNamespaceKey" "NamespaceKey \<noteq> ProviderTagServerKey"
  "ServerKey \<noteq> ManagedByKey" "ServerKey \<noteq> NamespaceKey"
  "ServerKey \<noteq> ProviderTagNamespaceKey" "ServerKey \<noteq> ProviderTagServerKey"
  "ProviderTagNamespaceKey \<noteq> ManagedByKey" "ProviderTagNamespaceKey \<noteq> NamespaceKey"
  "ProviderTagNamespaceKey \<noteq> ServerKey" "ProviderTagNamespaceKey \<noteq> ProviderTagServerKey"
  "ProviderTagServerKey \<noteq> ManagedByKey" "ProviderTagServerKey \<noteq> NamespaceKey"
  "ProviderTagServerKey \<noteq> ServerKey" "ProviderTagServerKey \<noteq> ProviderTagNamespaceKey"
  by (simp_all add: key_defs)

text \<open>The complements of the two regular expressions of the file, on one rune.\<close>

definition tag_key_rune :: "nat \<Rightarrow> bool" where
  "tag_key_rune r \<longleftrightarrow>
     (65 \<le> r \<and> r \<le> 90) \<or> (97 \<le> r \<and> r \<le> 122) \<or> (48 \<le> r \<and> r \<le> 57) \<or> r = 95 \<or> r = 45"

definition tag_value_rune :: "nat \<Rightarrow> bool" where
  "tag_value_rune r \<longleftrightarrow> tag_key_rune r \<or> r = 58"

text \<open>\<open>providerTagKeyInvalidChars.ReplaceAllString(value, "-")\<close>: one dash per bad rune.\<close>

definition providerTagPart :: "string \<Rightarrow> string" where
  "providerTagPart value =
     concat (map (\<lambda>rb. if tag_key_rune (fst rb) then snd rb else ''-'') (go_chunks value))"

definition providerTagKey :: "string \<Rightarrow> string" where
  "providerTagKey key =
     (if key = NamespaceKey \<or> key = ProviderTagNamespaceKey then ProviderTagNamespaceKey
      else if key = ServerKey \<or> key = ProviderTagServerKey then ProviderTagServerKey
      else providerTagPart key)"

definition labelKeyFromProviderTag :: "string \<Rightarrow> string" where
  "labelKeyFromProviderTag key =
     (if key = ProviderTagNamespaceKey then NamespaceKey
      else if key = ProviderTagServerKey then ServerKey
      else key)"

definition providerTagValue :: "string \<Rightarrow> string" where
  "providerTagValue value =
     (if value = '''' \<or> ((\<forall>r \<in> set (go_runes value). tag_value_rune r)
                        \<and> \<not> has_prefix value providerTagEncodedPrefix)
      then value
      else providerTagEncodedPrefix @ b64_encode value)"

definition decodeProviderTagValue :: "string \<Rightarrow> string" where
  "decodeProviderTagValue value =
     (if \<not> has_prefix value providerTagEncodedPrefix then value
      else (case b64_decode (trim_prefix value providerTagEncodedPrefix) of
              None \<Rightarrow> value
            | Some decoded \<Rightarrow> decoded))"

definition reservedProviderLabelKey :: "string \<Rightarrow> bool" where
  "reservedProviderLabelKey key \<longleftrightarrow>
     key \<in> {''project'', ''server'', ManagedByKey, NamespaceKey, ServerKey,
            ProviderTagNamespaceKey, ProviderTagServerKey}"

definition copyLabels :: "labels \<Rightarrow> labels" where
  "copyLabels m = gm_copy [] m"

definition ConfigLabels :: "string \<Rightarrow> string \<Rightarrow> labels \<Rightarrow> labels" where
  "ConfigLabels namespace server extra =
     (let l0 = copyLabels extra;
          l1 = gm_del ''project'' l0;
          l2 = gm_del ''server'' l1;
          l3 = gm_put ManagedByKey ManagedByValue l2;
          l4 = (if namespace \<noteq> '''' then gm_put NamespaceKey namespace l3 else l3)
      in if server \<noteq> '''' then gm_put ServerKey server l4 else l4)"

text \<open>The loop over \<open>extra\<close>, in its iteration order, then the three ownership labels.\<close>

fun provider_extra :: "labels \<Rightarrow> labels \<Rightarrow> labels" where
  "provider_extra acc [] = acc"
| "provider_extra acc ((key, value) # rest) =
     (if reservedProviderLabelKey key then provider_extra acc rest
      else provider_extra (gm_put (providerTagKey key) value acc) rest)"

definition ProviderLabels :: "string \<Rightarrow> string \<Rightarrow> labels \<Rightarrow> labels" where
  "ProviderLabels namespace server extra =
     gm_put ProviderTagServerKey server
       (gm_put ProviderTagNamespaceKey namespace
         (gm_put ManagedByKey ManagedByValue (provider_extra [] extra)))"

definition canonicalProviderLabels :: "labels \<Rightarrow> labels" where
  "canonicalProviderLabels m =
     (let c0 = copyLabels m;
          c1 = (case gm_get m ProviderTagNamespaceKey of None \<Rightarrow> c0
                | Some value \<Rightarrow> gm_put NamespaceKey (decodeProviderTagValue value) c0)
      in (case gm_get m ProviderTagServerKey of None \<Rightarrow> c1
          | Some value \<Rightarrow> gm_put ServerKey (decodeProviderTagValue value) c1))"

definition OwnershipFromLabels :: "labels \<Rightarrow> string \<times> string \<times> bool" where
  "OwnershipFromLabels m =
     (if m = [] then ('''', '''', False)
      else (let canonical = canonicalProviderLabels m in
        if gm_str canonical ManagedByKey \<noteq> ManagedByValue then ('''', '''', False)
        else (let namespace = gm_str canonical NamespaceKey; server = gm_str canonical ServerKey in
          if namespace = '''' \<or> server = '''' then ('''', '''', False)
          else (namespace, server, True))))"

definition ProviderTags :: "labels \<Rightarrow> string list" where
  "ProviderTags m =
     map (\<lambda>key. providerTagKey key @ '':'' @ providerTagValue (gm_str m key)) (sort (map fst m))"

definition add_provider_tag :: "labels \<Rightarrow> string \<Rightarrow> labels" where
  "add_provider_tag m tag =
     (case cut CHR '':'' tag of (key, value, ok) \<Rightarrow>
        if \<not> ok then m
        else gm_put (labelKeyFromProviderTag key) (decodeProviderTagValue value) m)"

definition LabelsFromProviderTags :: "string list \<Rightarrow> labels" where
  "LabelsFromProviderTags tags = foldl add_provider_tag [] tags"

datatype ownership_error =
    NoOwnershipLabels
  | ManagedByMismatch string
  | StateKeyMissing string
  | LiveLabelMissing string
  | LiveLabelMismatch string string string

definition validateLabel :: "labels \<Rightarrow> string \<Rightarrow> string \<Rightarrow> ownership_error option" where
  "validateLabel m key want =
     (if want = '''' then Some (StateKeyMissing key)
      else (case gm_get m key of
              None \<Rightarrow> Some (LiveLabelMissing key)
            | Some got \<Rightarrow> if got \<noteq> want then Some (LiveLabelMismatch key got want) else None))"

definition ValidateLiveLabels :: "labels \<Rightarrow> string \<Rightarrow> string \<Rightarrow> ownership_error option" where
  "ValidateLiveLabels m namespace server =
     (if m = [] then Some NoOwnershipLabels
      else (let canonical = canonicalProviderLabels m; got = gm_str canonical ManagedByKey in
        if got \<noteq> ManagedByValue then Some (ManagedByMismatch got)
        else (case validateLabel canonical NamespaceKey namespace of
                Some e \<Rightarrow> Some e
              | None \<Rightarrow> validateLabel canonical ServerKey server)))"

definition LiveLabelsMatch :: "labels \<Rightarrow> string \<Rightarrow> string \<Rightarrow> bool" where
  "LiveLabelsMatch m namespace server \<longleftrightarrow> ValidateLiveLabels m namespace server = None"

section \<open>Tags\<close>

lemma decode_providerTagValue [simp]: "decodeProviderTagValue (providerTagValue v) = v"
proof (cases "v = [] \<or> ((\<forall>r \<in> set (go_runes v). tag_value_rune r)
    \<and> \<not> has_prefix v providerTagEncodedPrefix)")
  case True
  then have "providerTagValue v = v" by (simp add: providerTagValue_def)
  moreover have "\<not> has_prefix v providerTagEncodedPrefix"
    using True by (auto simp: providerTagEncodedPrefix_def)
  ultimately show ?thesis by (simp add: decodeProviderTagValue_def)
next
  case False
  then have "providerTagValue v = providerTagEncodedPrefix @ b64_encode v"
    unfolding providerTagValue_def by (rule if_not_P)
  then show ?thesis by (simp add: decodeProviderTagValue_def b64_decode_encode)
qed

lemma tag_key_rune_ascii: "tag_key_rune r \<Longrightarrow> r < 128"
  by (auto simp: tag_key_rune_def)

lemma tag_value_rune_ascii: "tag_value_rune r \<Longrightarrow> r < 128"
  by (auto simp: tag_value_rune_def tag_key_rune_ascii)

lemma providerTagPart_runes:
  assumes "c \<in> set (providerTagPart s)"
  shows "tag_key_rune (of_char c)"
proof -
  let ?f = "\<lambda>rb. if tag_key_rune (fst rb) then snd rb else ''-''"
  from assms obtain rb' where "rb' \<in> set (go_chunks s)" and "c \<in> set (?f rb')"
    unfolding providerTagPart_def set_concat set_map by blast
  then obtain r bs where rb: "(r, bs) \<in> set (go_chunks s)"
    and c: "c \<in> set (if tag_key_rune r then bs else ''-'')"
    by (metis prod.collapse)
  show ?thesis
  proof (cases "tag_key_rune r")
    case True
    with go_chunks_ascii_rune [OF rb] c tag_key_rune_ascii[of r] show ?thesis by auto
  next
    case False
    with c show ?thesis by (auto simp: tag_key_rune_def)
  qed
qed

lemma providerTagPart_id:
  assumes "\<forall>c \<in> set s. tag_key_rune (of_char c)"
  shows "providerTagPart s = s"
proof -
  have "ascii s" using assms tag_key_rune_ascii by (auto simp: ascii_def)
  then have "map (\<lambda>rb. if tag_key_rune (fst rb) then snd rb else ''-'') (go_chunks s) = map (\<lambda>c. [c]) s"
    using assms by (simp add: go_chunks_ascii)
  then show ?thesis by (simp add: providerTagPart_def)
qed

lemma providerTagKey_runes: "c \<in> set (providerTagKey s) \<Longrightarrow> tag_key_rune (of_char c)"
proof -
  assume c: "c \<in> set (providerTagKey s)"
  have "\<forall>c \<in> set ProviderTagNamespaceKey. tag_key_rune (of_char c)"
    "\<forall>c \<in> set ProviderTagServerKey. tag_key_rune (of_char c)"
    by (simp_all add: key_defs tag_key_rune_def)
  with c show ?thesis
    by (auto simp: providerTagKey_def split: if_splits dest: providerTagPart_runes)
qed

lemma providerTagKey_idem [simp]: "providerTagKey (providerTagKey k) = providerTagKey k"
proof -
  have part: "providerTagPart (providerTagPart k) = providerTagPart k"
    by (rule providerTagPart_id) (blast dest: providerTagPart_runes)
  have "CHR ''.'' \<notin> set (providerTagPart k)"
    using providerTagPart_runes[of "CHR ''.''" k] by (auto simp: tag_key_rune_def)
  then have "providerTagPart k \<noteq> NamespaceKey" "providerTagPart k \<noteq> ServerKey"
    by (auto simp: key_defs)
  with part show ?thesis by (auto simp: providerTagKey_def)
qed

text \<open>A key in tag form: what \<open>providerTagKey\<close> gives.\<close>

definition tag_form :: "string \<Rightarrow> bool" where
  "tag_form k \<longleftrightarrow> providerTagKey k = k"

lemma tag_form_providerTagKey [simp]: "tag_form (providerTagKey k)"
  by (simp add: tag_form_def)

lemma tag_form_consts [simp]:
  "tag_form ManagedByKey" "tag_form ProviderTagNamespaceKey" "tag_form ProviderTagServerKey"
proof -
  have "providerTagPart ManagedByKey = ManagedByKey"
    by (rule providerTagPart_id) (simp add: ManagedByKey_def tag_key_rune_def)
  then show "tag_form ManagedByKey" by (simp add: tag_form_def providerTagKey_def key_defs)
qed (simp_all add: tag_form_def providerTagKey_def)

lemma tag_form_chars: "tag_form k \<Longrightarrow> c \<in> set k \<Longrightarrow> tag_key_rune (of_char c)"
  unfolding tag_form_def by (metis providerTagKey_runes)

lemma tag_form_no_colon: "tag_form k \<Longrightarrow> CHR '':'' \<notin> set k"
  using tag_form_chars[of k "CHR '':''"] by (auto simp: tag_key_rune_def)

lemma tag_form_not_dotted: "tag_form k \<Longrightarrow> k \<noteq> NamespaceKey \<and> k \<noteq> ServerKey"
  using tag_form_chars[of k "CHR ''.''"] by (auto simp: tag_key_rune_def key_defs)

lemma labelKey_inj:
  "tag_form k \<Longrightarrow> tag_form l \<Longrightarrow> labelKeyFromProviderTag k = labelKeyFromProviderTag l \<Longrightarrow> k = l"
  using tag_form_not_dotted[of k] tag_form_not_dotted[of l]
  by (auto simp: labelKeyFromProviderTag_def split: if_splits)


lemma gm_get_copyLabels [simp]: "gm_wf m \<Longrightarrow> gm_get (copyLabels m) = gm_get m"
  by (rule ext) (simp add: copyLabels_def gm_get_copy split: option.split)

lemma gm_wf_copyLabels [simp]: "gm_wf (copyLabels m)"
  by (simp add: copyLabels_def)

lemma provider_extra_wf: "gm_wf acc \<Longrightarrow> gm_wf (provider_extra acc extra)"
  by (induction acc extra rule: provider_extra.induct) auto

lemma provider_extra_tag_form:
  "\<forall>k \<in> gm_keys acc. tag_form k \<Longrightarrow> \<forall>k \<in> gm_keys (provider_extra acc extra). tag_form k"
  by (induction acc extra rule: provider_extra.induct) auto

lemma ProviderLabels_wf [simp]: "gm_wf (ProviderLabels ns sv extra)"
  by (simp add: ProviderLabels_def provider_extra_wf)

lemma ProviderLabels_tag_form:
  "k \<in> gm_keys (ProviderLabels ns sv extra) \<Longrightarrow> tag_form k"
  using provider_extra_tag_form [of "[]" extra] by (auto simp: ProviderLabels_def)

lemma ProviderLabels_get [simp]:
  "gm_get (ProviderLabels ns sv extra) ManagedByKey = Some ManagedByValue"
  "gm_get (ProviderLabels ns sv extra) ProviderTagNamespaceKey = Some ns"
  "gm_get (ProviderLabels ns sv extra) ProviderTagServerKey = Some sv"
  by (simp_all add: ProviderLabels_def)

lemma add_provider_tag_pair:
  "CHR '':'' \<notin> set k \<Longrightarrow>
     add_provider_tag m (k @ '':'' @ v) = gm_put (labelKeyFromProviderTag k) (decodeProviderTagValue v) m"
  by (simp add: add_provider_tag_def cut_found)

lemma labels_of_tags:
  assumes "\<forall>k \<in> set ks. tag_form k"
  shows "foldl add_provider_tag acc (map (\<lambda>k. providerTagKey k @ '':'' @ providerTagValue (f k)) ks)
    = gm_copy acc (map (\<lambda>k. (labelKeyFromProviderTag k, f k)) ks)"
  using assms
proof (induction ks arbitrary: acc)
  case Nil
  then show ?case by (simp add: gm_copy_def)
next
  case (Cons k ks)
  then have "CHR '':'' \<notin> set k" and "providerTagKey k = k"
    using tag_form_no_colon[of k] by (auto simp: tag_form_def)
  then have "add_provider_tag acc (providerTagKey k @ '':'' @ providerTagValue (f k))
      = gm_put (labelKeyFromProviderTag k) (f k) acc"
    using add_provider_tag_pair [of k acc "providerTagValue (f k)"] by simp
  then show ?case using Cons by (simp add: gm_copy_def)
qed

text \<open>Reading the tags of a label map back gives each value under its canonical key.\<close>

lemma tags_roundtrip_get:
  assumes wf: "gm_wf m" and tf: "\<forall>k \<in> gm_keys m. tag_form k"
  shows "tag_form k \<Longrightarrow> gm_get (LabelsFromProviderTags (ProviderTags m)) (labelKeyFromProviderTag k) = gm_get m k"
    and "gm_wf (LabelsFromProviderTags (ProviderTags m))"
    and "gm_keys (LabelsFromProviderTags (ProviderTags m)) = labelKeyFromProviderTag ` gm_keys m"
proof -
  let ?ks = "sort (map fst m)"
  let ?src = "map (\<lambda>k. (labelKeyFromProviderTag k, gm_str m k)) ?ks"
  have eq: "LabelsFromProviderTags (ProviderTags m) = gm_copy [] ?src"
    unfolding LabelsFromProviderTags_def ProviderTags_def using tf
    by (intro labels_of_tags) (simp add: gm_keys_def)
  have ks: "set ?ks = gm_keys m" by (simp add: gm_keys_def)
  have inj: "inj_on labelKeyFromProviderTag (set ?ks)"
    using tf unfolding ks by (auto intro!: inj_onI labelKey_inj)
  have src: "gm_wf ?src"
    using wf inj by (simp add: gm_wf_def distinct_map comp_def)
  have src_keys: "gm_keys ?src = labelKeyFromProviderTag ` gm_keys m"
    unfolding gm_keys_def by (simp add: image_image)
  show "gm_wf (LabelsFromProviderTags (ProviderTags m))" by (simp add: eq)
  show "gm_keys (LabelsFromProviderTags (ProviderTags m)) = labelKeyFromProviderTag ` gm_keys m"
    by (simp only: eq gm_keys_copy gm_keys_simps src_keys Un_empty_left)
  assume k: "tag_form k"
  have "gm_get ?src (labelKeyFromProviderTag k) = gm_get m k"
  proof (cases "gm_get m k")
    case None
    then have "k \<notin> gm_keys m" by (simp add: gm_get_None)
    then have "labelKeyFromProviderTag k \<notin> gm_keys ?src"
      unfolding src_keys using tf k by (auto dest!: labelKey_inj)
    then show ?thesis using None gm_get_None by metis
  next
    case (Some v)
    then have "k \<in> set ?ks" unfolding ks by (simp add: gm_keys_get)
    then have "(labelKeyFromProviderTag k, gm_str m k) \<in> set ?src" by auto
    then have "gm_get ?src (labelKeyFromProviderTag k) = Some (gm_str m k)"
      using src by (simp only: gm_in_set)
    then show ?thesis using Some by (simp add: gm_str_def)
  qed
  then show "gm_get (LabelsFromProviderTags (ProviderTags m)) (labelKeyFromProviderTag k) = gm_get m k"
    unfolding eq using src by (simp add: gm_get_copy split: option.split)
qed


section \<open>The ownership checks\<close>

lemma gm_get_canonical:
  "gm_wf m \<Longrightarrow> gm_get (canonicalProviderLabels m) k =
     (if k = ServerKey \<and> gm_get m ProviderTagServerKey \<noteq> None
        then map_option decodeProviderTagValue (gm_get m ProviderTagServerKey)
      else if k = NamespaceKey \<and> gm_get m ProviderTagNamespaceKey \<noteq> None
        then map_option decodeProviderTagValue (gm_get m ProviderTagNamespaceKey)
      else gm_get m k)"
  by (auto simp: canonicalProviderLabels_def Let_def split: option.splits)

lemma OwnershipFromLabels_True:
  "OwnershipFromLabels m = (ns, sv, True) \<longleftrightarrow>
     m \<noteq> [] \<and> ns \<noteq> [] \<and> sv \<noteq> []
     \<and> gm_get (canonicalProviderLabels m) ManagedByKey = Some ManagedByValue
     \<and> gm_get (canonicalProviderLabels m) NamespaceKey = Some ns
     \<and> gm_get (canonicalProviderLabels m) ServerKey = Some sv"
  by (auto simp: OwnershipFromLabels_def Let_def gm_str_def ManagedByValue_def
        split: option.splits if_splits)

lemma validateLabel_None:
  "validateLabel m key want = None \<longleftrightarrow> want \<noteq> [] \<and> gm_get m key = Some want"
  by (auto simp: validateLabel_def split: option.splits)

lemma ValidateLiveLabels_None:
  "ValidateLiveLabels m ns sv = None \<longleftrightarrow>
     ns \<noteq> [] \<and> sv \<noteq> [] \<and> OwnershipFromLabels m = (ns, sv, True)"
  unfolding OwnershipFromLabels_True ValidateLiveLabels_def Let_def
  by (cases "validateLabel (canonicalProviderLabels m) NamespaceKey ns")
    (auto simp: validateLabel_None gm_str_def ManagedByValue_def
        dest: validateLabel_None [THEN iffD1] validateLabel_None [THEN iffD2, OF conjI]
        split: option.splits if_splits)

lemma ownership_of_tags:
  assumes "ns \<noteq> []" "sv \<noteq> []"
  shows "OwnershipFromLabels (LabelsFromProviderTags (ProviderTags (ProviderLabels ns sv extra)))
    = (ns, sv, True)"
proof -
  let ?m = "ProviderLabels ns sv extra"
  let ?t = "LabelsFromProviderTags (ProviderTags ?m)"
  have tf: "\<forall>k \<in> gm_keys ?m. tag_form k" by (blast intro: ProviderLabels_tag_form)
  note rt = tags_roundtrip_get [OF ProviderLabels_wf tf]
  have "gm_get ?t (labelKeyFromProviderTag ManagedByKey) = Some ManagedByValue"
    and "gm_get ?t (labelKeyFromProviderTag ProviderTagNamespaceKey) = Some ns"
    and "gm_get ?t (labelKeyFromProviderTag ProviderTagServerKey) = Some sv"
    by (simp_all add: rt(1))
  then have get: "gm_get ?t ManagedByKey = Some ManagedByValue" "gm_get ?t NamespaceKey = Some ns"
    "gm_get ?t ServerKey = Some sv"
    by (simp_all add: labelKeyFromProviderTag_def)
  have "gm_get ?t ProviderTagNamespaceKey = None" "gm_get ?t ProviderTagServerKey = None"
    using tf tag_form_not_dotted
    by (auto simp: gm_get_None rt(3) labelKeyFromProviderTag_def split: if_splits)
  with get rt(2) show ?thesis
    using assms by (auto simp: OwnershipFromLabels_True gm_get_canonical)
qed

lemma provider_extra_get:
  assumes "gm_wf extra" and "\<forall>k \<in> gm_keys extra. tag_form k"
  shows "gm_get (provider_extra acc extra) k =
    (if \<not> reservedProviderLabelKey k \<and> k \<in> gm_keys extra then gm_get extra k else gm_get acc k)"
  using assms
  by (induction acc extra rule: provider_extra.induct) (auto simp: tag_form_def)

lemma providerTagPart_no_dash: "CHR ''-'' \<notin> set (providerTagPart s) \<Longrightarrow> providerTagPart s = s"
proof -
  assume no: "CHR ''-'' \<notin> set (providerTagPart s)"
  have "tag_key_rune (fst rb)" if "rb \<in> set (go_chunks s)" for rb
  proof (rule ccontr)
    assume "\<not> tag_key_rune (fst rb)"
    then have "CHR ''-'' \<in> set (if tag_key_rune (fst rb) then snd rb else ''-'')" by simp
    with that no show False unfolding providerTagPart_def set_concat set_map by blast
  qed
  then have "map (\<lambda>rb. if tag_key_rune (fst rb) then snd rb else ''-'') (go_chunks s) = map snd (go_chunks s)"
    by simp
  then show ?thesis unfolding providerTagPart_def by (simp only: go_chunks_concat)
qed

lemma encoded_runes:
  assumes "c \<in> set (providerTagEncodedPrefix @ b64_encode v)"
  shows "tag_value_rune (of_char c)"
proof -
  have "\<forall>c \<in> set providerTagEncodedPrefix. tag_value_rune (of_char c)"
    by (simp add: providerTagEncodedPrefix_def tag_value_rune_def tag_key_rune_def)
  moreover have "tag_value_rune (of_char c)" if "c \<in> set (b64_encode v)"
    using b64_encode_range [OF that] by (auto simp: tag_value_rune_def tag_key_rune_def)
  ultimately show ?thesis using assms by auto
qed

lemma providerTagValue_runes:
  assumes "c \<in> set (providerTagValue v)"
  shows "tag_value_rune (of_char c)"
proof (cases "providerTagValue v = v")
  case True
  have "v = [] \<or> (\<forall>r \<in> set (go_runes v). tag_value_rune r) \<or> v = providerTagEncodedPrefix @ b64_encode v"
    using True unfolding providerTagValue_def by metis
  then show ?thesis
  proof (elim disjE)
    assume "\<forall>r \<in> set (go_runes v). tag_value_rune r"
    then have "\<forall>c \<in> set v. tag_value_rune (of_char c)"
      using go_runes_all_ascii [of tag_value_rune v, OF tag_value_rune_ascii] by blast
    with assms True show ?thesis by simp
  next
    assume "v = providerTagEncodedPrefix @ b64_encode v"
    with assms True have "c \<in> set (providerTagEncodedPrefix @ b64_encode v)" by metis
    then show ?thesis by (rule encoded_runes)
  qed (use assms True in simp)
next
  case False
  then have "providerTagValue v = providerTagEncodedPrefix @ b64_encode v"
    unfolding providerTagValue_def by metis
  with assms show ?thesis by (metis encoded_runes)
qed

lemma provider_extra_not_legacy:
  assumes "k \<in> {''project'', ''server''}" and "k \<notin> gm_keys acc"
  shows "k \<notin> gm_keys (provider_extra acc extra)"
  using assms
proof (induction acc extra rule: provider_extra.induct)
  case (2 acc key v rest)
  have "providerTagKey key \<noteq> k" if "\<not> reservedProviderLabelKey key"
  proof
    assume "providerTagKey key = k"
    with that have p: "providerTagPart key = k"
      by (auto simp: providerTagKey_def reservedProviderLabelKey_def)
    with "2.prems"(1) have "CHR ''-'' \<notin> set (providerTagPart key)" by auto
    then have "key = k" using p providerTagPart_no_dash [of key] by simp
    with that "2.prems"(1) show False by (auto simp: reservedProviderLabelKey_def)
  qed
  with 2 show ?case by auto
qed simp

lemma tag_form_reserved:
  "tag_form k \<Longrightarrow> reservedProviderLabelKey k \<Longrightarrow>
     k \<in> {''project'', ''server'', ManagedByKey, ProviderTagNamespaceKey, ProviderTagServerKey}"
  using tag_form_not_dotted by (auto simp: reservedProviderLabelKey_def)

section \<open>Properties\<close>

text \<open>
  C21. Stamping and recovery agree through the flat tags of a provider: for any extra labels, a
  resource stamped for a namespace and server (neither empty) passes the ownership check for
  exactly that namespace and server, so no other server of the account can claim it.
\<close>

theorem ownership_tags_isolated:
  assumes "ns \<noteq> []" and "sv \<noteq> []"
  shows "LiveLabelsMatch (LabelsFromProviderTags (ProviderTags (ProviderLabels ns sv extra))) ns' sv'
    \<longleftrightarrow> ns' = ns \<and> sv' = sv"
  using assms by (auto simp: LiveLabelsMatch_def ValidateLiveLabels_None ownership_of_tags)

theorem ownership_tags_isolated_witness:
  "LiveLabelsMatch (LabelsFromProviderTags (ProviderTags
      (ProviderLabels ''b64:x'' ''web 1'' [(''a b'', ''c'')]))) ''b64:x'' ''web 1''
   \<and> \<not> LiveLabelsMatch (LabelsFromProviderTags (ProviderTags
      (ProviderLabels ''b64:x'' ''web 1'' [(''a b'', ''c'')]))) ''b64:x'' ''web''"
  using ownership_tags_isolated [of "''b64:x''" "''web 1''" "[(''a b'', ''c'')]" "''b64:x''" "''web 1''"]
    ownership_tags_isolated [of "''b64:x''" "''web 1''" "[(''a b'', ''c'')]" "''b64:x''" "''web''"]
  by simp

text \<open>
  The check before a mutation (\<open>ValidateLiveLabels\<close>) and the recovery that import uses
  (\<open>OwnershipFromLabels\<close>) accept the same resources: the check passes for a namespace and
  server exactly when recovery reports that pair, both parts non-empty.
\<close>

theorem live_labels_match_iff_recovered:
  "LiveLabelsMatch m ns sv \<longleftrightarrow> ns \<noteq> [] \<and> sv \<noteq> [] \<and> OwnershipFromLabels m = (ns, sv, True)"
  by (simp add: LiveLabelsMatch_def ValidateLiveLabels_None)

text \<open>
  C22. Every tag made from any labels holds only letters, digits, underscore, hyphen and colon, the
  characters the provider allows in a tag, whatever bytes the keys and values hold.
\<close>

theorem provider_tags_charset:
  "list_all (list_all (\<lambda>c. tag_value_rune (of_char c))) (ProviderTags m)"
proof -
  have "tag_value_rune (of_char c)" if "c \<in> set (providerTagKey k)" for c k
    using providerTagKey_runes [OF that] by (simp add: tag_value_rune_def)
  moreover have "tag_value_rune (of_char c)" if "c \<in> set (providerTagValue v)" for c v
    using that by (rule providerTagValue_runes)
  moreover have "tag_value_rune (of_char CHR '':'')" by (simp add: tag_value_rune_def)
  ultimately show ?thesis by (auto simp: ProviderTags_def list_all_iff simp del: of_char_Char)
qed

text \<open>
  Labelling is idempotent: the adapter labels an intent that lifecycle already labelled, and
  the second pass changes no label, for any extra labels.
\<close>

theorem provider_labels_idempotent:
  "gm_get (ProviderLabels ns sv (ProviderLabels ns sv extra)) k = gm_get (ProviderLabels ns sv extra) k"
proof -
  let ?m = "ProviderLabels ns sv extra"
  have tf: "\<forall>k \<in> gm_keys ?m. tag_form k" by (blast intro: ProviderLabels_tag_form)
  have legacy: "l \<notin> gm_keys ?m" if "l \<in> {''project'', ''server''}" for l
    using that provider_extra_not_legacy [OF that, of "[]" extra]
    by (auto simp: ProviderLabels_def key_defs)
  consider "k \<in> {ManagedByKey, ProviderTagNamespaceKey, ProviderTagServerKey}"
    | "k \<notin> {ManagedByKey, ProviderTagNamespaceKey, ProviderTagServerKey}"
    by blast
  then show ?thesis
  proof cases
    case 1
    then show ?thesis by auto
  next
    case 2
    then have "gm_get (ProviderLabels ns sv ?m) k = gm_get (provider_extra [] ?m) k"
      by (auto simp: ProviderLabels_def [of ns sv ?m])
    also have "\<dots> = (if \<not> reservedProviderLabelKey k \<and> k \<in> gm_keys ?m then gm_get ?m k else None)"
      using provider_extra_get [OF ProviderLabels_wf tf, of "[]" k] by simp
    also have "\<dots> = gm_get ?m k"
    proof (cases "k \<in> gm_keys ?m")
      case True
      with tf have "tag_form k" by blast
      with True 2 legacy have "\<not> reservedProviderLabelKey k"
        by (auto dest!: tag_form_reserved)
      with True show ?thesis by simp
    next
      case False
      then have "gm_get ?m k = None" by (simp only: gm_get_None not_False_eq_True)
      with False show ?thesis by simp
    qed
    finally show ?thesis .
  qed
qed

end
