(* ===== verification/Go_Json.thy ===== *)
theory Go_Json
  imports Go_Strings
begin

text \<open>
  JSON values and the parts of \<open>encoding/json\<close> that the program uses. A \<open>json\<close> is a value
  with the members of an object in text order. \<open>json_norm\<close> is the decoding into \<open>any\<close>:
  an object becomes a Go map, held as the list of its members in key order with the last value of
  a repeated name, so two decoded values are equal in the sense of \<open>reflect.DeepEqual\<close> exactly
  when they are equal here (\<open>json_wf\<close> is that form). Numbers keep their text, as \<open>UseNumber\<close>
  does.
\<close>

datatype json =
    JNull
  | JBool bool
  | JNum string
  | JStr string
  | JArr "json list"
  | JObj "(string \<times> json) list"

fun json_wf :: "json \<Rightarrow> bool" where
  "json_wf (JArr xs) = (\<forall>x \<in> set xs. json_wf x)"
| "json_wf (JObj ms) = (sorted_wrt (<) (map fst ms) \<and> (\<forall>kv \<in> set ms. json_wf (snd kv)))"
| "json_wf _ = True"

text \<open>Objects in key order: insertion of a member, as a Go map that is encoded with sorted keys.\<close>

fun obj_put :: "string \<Rightarrow> json \<Rightarrow> (string \<times> json) list \<Rightarrow> (string \<times> json) list" where
  "obj_put k v [] = [(k, v)]"
| "obj_put k v ((k', v') # r) =
     (if k < k' then (k, v) # (k', v') # r
      else if k = k' then (k, v) # r
      else (k', v') # obj_put k v r)"

abbreviation obj_sorted :: "(string \<times> json) list \<Rightarrow> bool" where
  "obj_sorted ob \<equiv> sorted_wrt (<) (map fst ob)"

definition obj_of :: "(string \<times> json) list \<Rightarrow> (string \<times> json) list" where
  "obj_of ms = foldl (\<lambda>ob kv. obj_put (fst kv) (snd kv) ob) [] ms"

fun json_norm :: "json \<Rightarrow> json" where
  "json_norm (JArr xs) = JArr (map json_norm xs)"
| "json_norm (JObj ms) = JObj (obj_of (map (\<lambda>kv. (fst kv, json_norm (snd kv))) ms))"
| "json_norm j = j"

lemma map_of_obj_put: "map_of (obj_put k v ob) = (map_of ob)(k \<mapsto> v)"
  if "obj_sorted ob"
  using that
proof (induction k v ob rule: obj_put.induct)
  case (2 k v k' v' r)
  then show ?case
    by (auto simp: fun_eq_iff map_of_eq_None_iff)
qed simp

lemma keys_obj_put: "fst ` set (obj_put k v ob) = insert k (fst ` set ob)"
  by (induction k v ob rule: obj_put.induct) auto

lemma set_obj_put: "set (obj_put k v ob) \<subseteq> insert (k, v) (set ob)"
  by (induction k v ob rule: obj_put.induct) auto

lemma obj_sorted_put: "obj_sorted ob \<Longrightarrow> obj_sorted (obj_put k v ob)"
proof (induction k v ob rule: obj_put.induct)
  case (2 k v k' v' r)
  have "set (map fst (obj_put k v r)) = insert k (set (map fst r))"
    using keys_obj_put [of k v r] by simp
  with 2 show ?case by auto
qed simp

lemma obj_sorted_distinct: "obj_sorted ob \<Longrightarrow> distinct (map fst ob)"
  by (simp add: strict_sorted_iff)

text \<open>Objects in key order with the same members are the same object.\<close>

lemma obj_eqI:
  assumes "obj_sorted a" "obj_sorted b" "map_of a = map_of b"
  shows "a = b"
proof -
  have set: "set a = set b"
    using assms by (simp add: obj_sorted_distinct map_of_inject_set)
  have "sorted (map fst a)" "sorted (map fst b)" "distinct (map fst a)" "distinct (map fst b)"
    using assms by (simp_all add: strict_sorted_iff)
  then show ?thesis
    using set by (intro map_sorted_distinct_set_unique [of fst]) (simp_all add: distinct_map)
qed

lemma obj_of_invariant:
  assumes "obj_sorted ob"
  shows "obj_sorted (foldl (\<lambda>ob kv. obj_put (fst kv) (snd kv) ob) ob ms)
    \<and> map_of (foldl (\<lambda>ob kv. obj_put (fst kv) (snd kv) ob) ob ms) = map_of ob ++ map_of (rev ms)
    \<and> set (foldl (\<lambda>ob kv. obj_put (fst kv) (snd kv) ob) ob ms) \<subseteq> set ob \<union> set ms"
  using assms
proof (induction ms arbitrary: ob)
  case (Cons kv ms)
  have "obj_sorted (obj_put (fst kv) (snd kv) ob)" using Cons.prems by (rule obj_sorted_put)
  from Cons.IH [OF this] show ?case
    using Cons.prems set_obj_put [of "fst kv" "snd kv" ob] by (auto simp: map_of_obj_put fun_eq_iff map_add_def split: option.split)
qed simp

lemma obj_of_sorted: "obj_sorted (obj_of ms)"
  and map_of_obj_of: "map_of (obj_of ms) = map_of (rev ms)"
  and set_obj_of: "set (obj_of ms) \<subseteq> set ms"
  using obj_of_invariant [of "[]" ms] by (simp_all add: obj_of_def)

lemma map_of_rev_distinct: "distinct (map fst xs) \<Longrightarrow> map_of (rev xs) = map_of xs"
  by (subst map_of_inject_set) (simp_all add: rev_map [symmetric])

lemma obj_of_id: "obj_sorted ms \<Longrightarrow> obj_of ms = ms"
  by (rule obj_eqI) (simp_all add: obj_of_sorted map_of_obj_of map_of_rev_distinct obj_sorted_distinct)

lemma map_of_filter_fst: "map_of (filter (\<lambda>kv. P (fst kv)) xs) k = (if P k then map_of xs k else None)"
  by (induction xs) auto

lemma json_wf_norm: "json_wf (json_norm j)"
proof (induction j rule: json_norm.induct)
  case (2 ms)
  have "json_wf (snd kv)" if "kv \<in> set (obj_of (map (\<lambda>kv. (fst kv, json_norm (snd kv))) ms))" for kv
    using set_obj_of [of "map (\<lambda>kv. (fst kv, json_norm (snd kv))) ms"] that 2 by auto
  then show ?case by (simp add: obj_of_sorted)
qed auto

lemma json_norm_id: "json_wf j \<Longrightarrow> json_norm j = j"
proof (induction j rule: json_norm.induct)
  case (1 xs)
  then show ?case by (simp add: map_idI)
next
  case (2 ms)
  then have "map (\<lambda>kv. (fst kv, json_norm (snd kv))) ms = ms" by (intro map_idI) auto
  with 2 show ?case by (simp add: obj_of_id)
qed auto

section \<open>Decoding into structs\<close>

text \<open>
  A member goes to the struct field whose name it equals, or equals up to case: ASCII letters fold,
  and so do the long s (U+017F) and the Kelvin sign (U+212A). The values that reach one field are
  taken in text order; the last one stays, and a value of the wrong kind is an error even when a
  later one replaces it. \<open>null\<close> leaves a string as it is and empties a slice. A nil slice is
  \<open>None\<close>, so a slice of strings is a \<open>string list option\<close>. (When a document repeats a
  slice's name, Go decodes the second value over the first one's elements, which shows only for
  \<open>null\<close> elements; they are the empty string here.)
\<close>

definition fold_rune :: "nat \<Rightarrow> nat" where
  "fold_rune r = (if 65 \<le> r \<and> r \<le> 90 then r + 32 else if r = 383 then 115 else if r = 8490 then 107 else r)"

definition json_fold :: "string \<Rightarrow> nat list" where
  "json_fold s = map fold_rune (go_runes s)"

definition json_values :: "string \<Rightarrow> (string \<times> json) list \<Rightarrow> json list" where
  "json_values name ms = map snd (filter (\<lambda>kv. fst kv = name \<or> json_fold (fst kv) = json_fold name) ms)"

type_synonym slice = "string list option"

definition items :: "'a list option \<Rightarrow> 'a list" where
  "items s = (case s of None \<Rightarrow> [] | Some xs \<Rightarrow> xs)"

lemma items_simps [simp]: "items None = []" "items (Some xs) = xs"
  by (simp_all add: items_def)

fun dec_string :: "string \<Rightarrow> json list \<Rightarrow> string option" where
  "dec_string s [] = Some s"
| "dec_string s (JNull # vs) = dec_string s vs"
| "dec_string s (JStr t # vs) = dec_string t vs"
| "dec_string s (_ # vs) = None"

fun dec_elems :: "json list \<Rightarrow> string list option" where
  "dec_elems [] = Some []"
| "dec_elems (JStr t # vs) = map_option (Cons t) (dec_elems vs)"
| "dec_elems (JNull # vs) = map_option (Cons []) (dec_elems vs)"
| "dec_elems (_ # vs) = None"

fun dec_slice :: "slice \<Rightarrow> json list \<Rightarrow> slice option" where
  "dec_slice s [] = Some s"
| "dec_slice s (JNull # vs) = dec_slice None vs"
| "dec_slice s (JArr xs # vs) = Option.bind (dec_elems xs) (\<lambda>t. dec_slice (Some t) vs)"
| "dec_slice s (_ # vs) = None"

definition enc_slice :: "slice \<Rightarrow> json" where
  "enc_slice s = (case s of None \<Rightarrow> JNull | Some xs \<Rightarrow> JArr (map JStr xs))"

lemma dec_elems_enc [simp]: "dec_elems (map JStr xs) = Some xs"
  by (induction xs) simp_all

lemma dec_slice_enc [simp]: "dec_slice s [enc_slice t] = Some t"
  by (cases t) (simp_all add: enc_slice_def)

text \<open>Decoding each element of an array, or of a map in iteration order, stops at the first error.\<close>

fun dec_all :: "('a \<Rightarrow> 'b option) \<Rightarrow> 'a list \<Rightarrow> 'b list option" where
  "dec_all f [] = Some []"
| "dec_all f (x # xs) = Option.bind (f x) (\<lambda>y. map_option (Cons y) (dec_all f xs))"

lemma dec_all_map: "(\<And>x. x \<in> set xs \<Longrightarrow> f (g x) = Some x) \<Longrightarrow> dec_all f (map g xs) = Some xs"
  by (induction xs) simp_all

end
