(* ===== verification/Policy_Patch.thy ===== *)
theory Policy_Patch
  imports Go_Json "HOL-Library.Sublist"
begin

text \<open>
  The HuJSON patch writer (internal/provider/tailscale/policy_patch.go). An edited tailnet policy
  is written back as an RFC 6902 patch of the operator's file, so comments and order outside the
  edit stay. The theory models the differ as the code has it, gives RFC 6902 its meaning on JSON
  values as the specification, and proves that the patch, applied to the old document, gives the
  new one.

  Documents are decoded JSON values in the form of \<open>Go_Json\<close>. \<open>sortedKeys\<close> is the order of
  that form.
\<close>

section \<open>The differ\<close>

definition maxArrayDiffCells :: nat where
  "maxArrayDiffCells = 2 ^ 20"

record patch_operation =
  Op :: string
  Path :: string
  Value :: "json option"

definition patchOpAdd :: string where "patchOpAdd = ''add''"
definition patchOpRemove :: string where "patchOpRemove = ''remove''"
definition patchOpReplace :: string where "patchOpReplace = ''replace''"

datatype patch_error =
    RootMustStayObject
  | DecodeFailed      \<comment> \<open>the file does not decode as JSON\<close>
  | PatchFailed       \<comment> \<open>\<open>hujson\<close> refused the patch\<close>
  | RenderMismatch    \<comment> \<open>\<open>ErrPolicyRenderMismatch\<close>\<close>

type_synonym ops_result = "(patch_error, patch_operation list) result"
type_synonym value_differ = "string \<Rightarrow> json \<Rightarrow> json \<Rightarrow> ops_result"

text \<open>The RFC 6901 escaper, a replacer that reads the key once from left to right.\<close>

definition pointer_escape :: "string \<Rightarrow> string" where
  "pointer_escape key =
     concat (map (\<lambda>c. if c = CHR ''~'' then ''~0'' else if c = CHR ''/'' then ''~1'' else [c]) key)"

text \<open>
  \<open>emit\<close>: the operation that is appended to the differ's list. A removal carries no value.
  Encoding a decoded JSON value cannot fail, so the operation carries the value itself.
\<close>

definition emit :: "string \<Rightarrow> string \<Rightarrow> json option \<Rightarrow> patch_operation" where
  "emit op path val =
     \<lparr>Op = op, Path = path, Value = (if op \<noteq> patchOpRemove then val else None)\<rparr>"

text \<open>
  \<open>lcsTable\<close>: row \<open>i\<close>, column \<open>j\<close> holds the length of a longest common subsequence of
  the suffixes from \<open>i\<close> and \<open>j\<close>. Rows are filled from the last one up, each from the right.
\<close>

fun lcs_row :: "json \<Rightarrow> json list \<Rightarrow> nat list \<Rightarrow> nat list" where
  "lcs_row x [] below = [0]"
| "lcs_row x (y # ys) below =
     (let r = lcs_row x ys (tl below)
      in (if x = y then hd (tl below) + 1 else max (hd below) (hd r)) # r)"

fun lcsTable :: "json list \<Rightarrow> json list \<Rightarrow> nat list list" where
  "lcsTable [] after = [replicate (length after + 1) 0]"
| "lcsTable (x # before) after =
     (let t = lcsTable before after in lcs_row x after (hd t) # t)"

text \<open>
  The inner loop of \<open>array\<close>: from positions \<open>i\<close> and \<open>j\<close>, collect removed and added
  elements until both sides agree again or both are used up.
\<close>

function gather_run ::
  "nat list list \<Rightarrow> json list \<Rightarrow> json list \<Rightarrow> nat \<Rightarrow> nat \<Rightarrow> json list \<Rightarrow> json list
     \<Rightarrow> nat \<times> nat \<times> json list \<times> json list" where
  "gather_run lcs before after i j removed added =
     (if i < length before \<or> j < length after then
        (if i < length before \<and> j < length after \<and> before ! i = after ! j then (i, j, removed, added)
         else if j < length after \<and> (i = length before \<or> lcs ! (i + 1) ! j \<le> lcs ! i ! (j + 1))
           then gather_run lcs before after i (j + 1) removed (added @ [after ! j])
         else if i < length before
           then gather_run lcs before after (i + 1) j (removed @ [before ! i]) added
         else (i, j, removed, added))
      else (i, j, removed, added))"
  by pat_completeness auto
termination
  by (relation "measure (\<lambda>(lcs, b, a, i, j, _). (length b - i) + (length a - j))") auto

declare gather_run.simps [simp del]

text \<open>\<open>arrayRun\<close>: pairs are diffed in place, the rest is removed or added at the index.\<close>

fun run_pairs :: "value_differ \<Rightarrow> string \<Rightarrow> nat \<Rightarrow> json list \<Rightarrow> json list \<Rightarrow> (patch_error, patch_operation list \<times> nat) result" where
  "run_pairs value_of path index (r # removed) (a # added) =
     bindR (value_of (path @ ''/'' @ itoa index) r a)
       (\<lambda>ops. bindR (run_pairs value_of path (index + 1) removed added)
         (\<lambda>(ops', index'). Inr (ops @ ops', index')))"
| "run_pairs value_of path index _ _ = Inr ([], index)"

fun run_adds :: "string \<Rightarrow> nat \<Rightarrow> json list \<Rightarrow> patch_operation list \<times> nat" where
  "run_adds path index [] = ([], index)"
| "run_adds path index (x # xs) =
     (case run_adds path (index + 1) xs of
        (ops, index') \<Rightarrow> (emit patchOpAdd (path @ ''/'' @ itoa index) (Some x) # ops, index'))"

definition arrayRun :: "value_differ \<Rightarrow> string \<Rightarrow> nat \<Rightarrow> json list \<Rightarrow> json list \<Rightarrow> (patch_error, patch_operation list \<times> nat) result" where
  "arrayRun value_of path index removed added =
     (let paired = min (length removed) (length added) in
      bindR (run_pairs value_of path index (take paired removed) (take paired added))
        (\<lambda>(ops, index1).
           let removes = map (\<lambda>_. emit patchOpRemove (path @ ''/'' @ itoa index1) None) (drop paired removed);
               (adds, index2) = run_adds path index1 (drop paired added)
           in Inr (ops @ removes @ adds, index2)))"

text \<open>
  The outer loop of \<open>array\<close>. Each turn steps over an equal pair or handles one run, so
  \<open>length before + length after\<close> turns are enough; the fuel is that number plus one, and
  \<open>array_loop_ok\<close> below shows that it never runs out.
\<close>

fun array_loop ::
  "value_differ \<Rightarrow> string \<Rightarrow> nat list list \<Rightarrow> json list \<Rightarrow> json list \<Rightarrow> nat \<Rightarrow> nat \<Rightarrow> nat \<Rightarrow> nat
     \<Rightarrow> ops_result option" where
  "array_loop value_of path lcs before after 0 i j index = None"
| "array_loop value_of path lcs before after (Suc fuel) i j index =
     (if i < length before \<or> j < length after then
        (if i < length before \<and> j < length after \<and> before ! i = after ! j
         then array_loop value_of path lcs before after fuel (i + 1) (j + 1) (index + 1)
         else (case gather_run lcs before after i j [] [] of (i', j', removed, added) \<Rightarrow>
                (case arrayRun value_of path index removed added of
                   Inl e \<Rightarrow> Some (Inl e)
                 | Inr (ops, next_index) \<Rightarrow>
                    map_option (\<lambda>r. bindR r (\<lambda>ops'. Inr (ops @ ops')))
                      (array_loop value_of path lcs before after fuel i' j' next_index))))
      else Some (Inr []))"

definition array_diff :: "value_differ \<Rightarrow> string \<Rightarrow> json list \<Rightarrow> json list \<Rightarrow> ops_result" where
  "array_diff value_of path before after =
     (if maxArrayDiffCells < length before * length after
      then Inr [emit patchOpReplace path (Some (JArr after))]
      else (case array_loop value_of path (lcsTable before after) before after
                   (Suc (length before + length after)) 0 0 0 of
              None \<Rightarrow> Inr [] \<comment> \<open>never reached\<close>
            | Some r \<Rightarrow> r))"

text \<open>\<open>object\<close>: the old keys in sorted order, then the new keys in sorted order.\<close>

fun object_old :: "value_differ \<Rightarrow> string \<Rightarrow> (string \<times> json) list \<Rightarrow> (string \<times> json) list \<Rightarrow> ops_result" where
  "object_old value_of path [] after = Inr []"
| "object_old value_of path ((key, v) # before) after =
     (let child = path @ ''/'' @ pointer_escape key in
      case map_of after key of
        None \<Rightarrow> bindR (object_old value_of path before after)
                  (\<lambda>ops. Inr (emit patchOpRemove child None # ops))
      | Some next_v \<Rightarrow>
          bindR (value_of child v next_v)
            (\<lambda>ops. bindR (object_old value_of path before after) (\<lambda>ops'. Inr (ops @ ops'))))"

definition object_new :: "string \<Rightarrow> (string \<times> json) list \<Rightarrow> (string \<times> json) list \<Rightarrow> patch_operation list" where
  "object_new path before after =
     map (\<lambda>kv. emit patchOpAdd (path @ ''/'' @ pointer_escape (fst kv)) (Some (snd kv)))
       (filter (\<lambda>kv. map_of before (fst kv) = None) after)"

definition object_diff :: "value_differ \<Rightarrow> string \<Rightarrow> (string \<times> json) list \<Rightarrow> (string \<times> json) list \<Rightarrow> ops_result" where
  "object_diff value_of path before after =
     bindR (object_old value_of path before after) (\<lambda>ops. Inr (ops @ object_new path before after))"

text \<open>
  What a run collects: the removed elements are the old ones between the positions, the added ones
  the new ones, and the run ends where both sides agree or both are used up.
\<close>

definition run_over :: "json list \<Rightarrow> json list \<Rightarrow> nat \<Rightarrow> nat \<Rightarrow> bool" where
  "run_over before after i j \<longleftrightarrow>
     (length before \<le> i \<and> length after \<le> j) \<or> (i < length before \<and> j < length after \<and> before ! i = after ! j)"

lemma gather_run_step:
  "run_over before after i j \<Longrightarrow> gather_run lcs before after i j removed added = (i, j, removed, added)"
  "\<not> run_over before after i j \<Longrightarrow> i \<le> length before \<Longrightarrow>
     gather_run lcs before after i j removed added =
       (if j < length after \<and> (i = length before \<or> lcs ! (i + 1) ! j \<le> lcs ! i ! (j + 1))
        then gather_run lcs before after i (j + 1) removed (added @ [after ! j])
        else gather_run lcs before after (i + 1) j (removed @ [before ! i]) added)"
  by (subst gather_run.simps, auto simp: run_over_def)+

lemma gather_run_spec:
  assumes "gather_run lcs before after i j removed added = (i', j', removed', added')"
    and "i \<le> length before" "j \<le> length after"
  shows "removed' @ drop i' before = removed @ drop i before \<and> added' @ drop j' after = added @ drop j after
    \<and> i \<le> i' \<and> i' \<le> length before \<and> j \<le> j' \<and> j' \<le> length after \<and> run_over before after i' j'"
  using assms
proof (induction "(length before - i) + (length after - j)" arbitrary: i j removed added rule: less_induct)
  case less
  show ?case
  proof (cases "run_over before after i j")
    case True
    with less.prems show ?thesis by (auto simp: gather_run_step(1))
  next
    case False
    note step = gather_run_step(2) [OF False less.prems(2), of lcs removed added]
    show ?thesis
    proof (cases "j < length after \<and> (i = length before \<or> lcs ! (i + 1) ! j \<le> lcs ! i ! (j + 1))")
      case True
      with step less.prems(1)
      have "gather_run lcs before after i (j + 1) removed (added @ [after ! j]) = (i', j', removed', added')"
        by simp
      moreover have "length before - i + (length after - (j + 1)) < length before - i + (length after - j)"
        using True by linarith
      ultimately have "removed' @ drop i' before = removed @ drop i before
          \<and> added' @ drop j' after = (added @ [after ! j]) @ drop (j + 1) after
          \<and> i \<le> i' \<and> i' \<le> length before \<and> j + 1 \<le> j' \<and> j' \<le> length after \<and> run_over before after i' j'"
        using True less.prems(2) by (intro less.hyps) simp_all
      then show ?thesis using True by (simp add: Cons_nth_drop_Suc)
    next
      case no: False
      with False less.prems(2,3) have i: "i < length before" by (auto simp: run_over_def)
      from no step less.prems(1)
      have "gather_run lcs before after (i + 1) j (removed @ [before ! i]) added = (i', j', removed', added')"
        by (simp only: if_False)
      moreover have "length before - (i + 1) + (length after - j) < length before - i + (length after - j)"
        using i by linarith
      ultimately have "removed' @ drop i' before = (removed @ [before ! i]) @ drop (i + 1) before
          \<and> added' @ drop j' after = added @ drop j after
          \<and> i + 1 \<le> i' \<and> i' \<le> length before \<and> j \<le> j' \<and> j' \<le> length after \<and> run_over before after i' j'"
        using i less.prems(3) by (intro less.hyps) simp_all
      then show ?thesis using i by (simp add: Cons_nth_drop_Suc)
    qed
  qed
qed

lemma gather_run_removed:
  assumes "gather_run lcs before after i j [] [] = (i', j', removed', added')"
    and "i \<le> length before" "j \<le> length after"
  shows "set removed' \<subseteq> set before"
proof -
  from gather_run_spec [OF assms] have "removed' @ drop i' before = drop i before" by simp
  then have "set removed' \<subseteq> set (drop i before)" by (metis le_sup_iff order_refl set_append)
  then show ?thesis by (meson set_drop_subset subset_trans)
qed

lemma run_pairs_cong [fundef_cong]:
  assumes "path = path'" "index = index'" "removed = removed'" "added = added'"
    and "\<And>p r a. r \<in> set removed' \<Longrightarrow> f p r a = g p r a"
  shows "run_pairs f path index removed added = run_pairs g path' index' removed' added'"
  using assms(5) unfolding assms(1-4)
  by (induction g path' index' removed' added' rule: run_pairs.induct) auto

lemma arrayRun_cong:
  assumes "\<And>p r a. r \<in> set removed \<Longrightarrow> f p r a = g p r a"
  shows "arrayRun f path index removed added = arrayRun g path index removed added"
proof -
  have "run_pairs f path index (take n removed) (take n added)
      = run_pairs g path index (take n removed) (take n added)" for n
    using assms by (intro run_pairs_cong) (auto dest: in_set_takeD)
  then show ?thesis by (simp add: arrayRun_def)
qed

lemma array_loop_cong:
  assumes "\<And>p r a. r \<in> set before \<Longrightarrow> f p r a = g p r a"
    and "i \<le> length before" "j \<le> length after"
  shows "array_loop f path lcs before after fuel i j index = array_loop g path lcs before after fuel i j index"
  using assms(2,3)
proof (induction fuel arbitrary: i j index)
  case 0
  then show ?case by simp
next
  case (Suc fuel)
  obtain i' j' removed added where g: "gather_run lcs before after i j [] [] = (i', j', removed, added)"
    by (metis prod_cases4)
  have "arrayRun f path index removed added = arrayRun g path index removed added"
    using gather_run_removed [OF g Suc.prems] assms(1) by (intro arrayRun_cong) blast
  moreover have "i' \<le> length before" "j' \<le> length after"
    using gather_run_spec [OF g Suc.prems] by simp_all
  ultimately have run: "arrayRun f path index removed added = arrayRun g path index removed added"
    and rest: "array_loop f path lcs before after fuel i' j' n = array_loop g path lcs before after fuel i' j' n" for n
    using Suc.IH by blast+
  have match: "array_loop f path lcs before after fuel (i + 1) (j + 1) (index + 1)
      = array_loop g path lcs before after fuel (i + 1) (j + 1) (index + 1)"
    if "i < length before \<and> j < length after \<and> before ! i = after ! j"
    using that by (intro Suc.IH) simp_all
  show ?case
    unfolding array_loop.simps g prod.case run rest by (intro if_cong refl match)
qed

lemma array_diff_cong [fundef_cong]:
  assumes "path = path'" "before = before'" "after = after'"
    and "\<And>p r a. r \<in> set before' \<Longrightarrow> f p r a = g p r a"
  shows "array_diff f path before after = array_diff g path' before' after'"
proof -
  have "array_loop f path' lcs before' after' n 0 0 0 = array_loop g path' lcs before' after' n 0 0 0" for lcs n
    using assms(4) by (intro array_loop_cong) simp_all
  then show ?thesis by (simp only: array_diff_def assms(1-3))
qed

lemma object_diff_cong [fundef_cong]:
  assumes "path = path'" "before = before'" "after = after'"
    and "\<And>p r a. r \<in> snd ` set before' \<Longrightarrow> f p r a = g p r a"
  shows "object_diff f path before after = object_diff g path' before' after'"
proof -
  have "object_old f path' before' after' = object_old g path' before' after'"
    using assms(4) by (induction g path' before' after' rule: object_old.induct) (auto simp: Let_def split: option.split)
  then show ?thesis by (simp add: object_diff_def assms(1-3))
qed

text \<open>\<open>patchDiffer.value\<close>, the recursion over both values, and \<open>policyPatch\<close>.\<close>

function value_diff :: "string \<Rightarrow> json \<Rightarrow> json \<Rightarrow> ops_result" where
  "value_diff path before after =
     (if before = after then Inr []
      else (case (before, after) of
              (JObj b, JObj a) \<Rightarrow> object_diff value_diff path b a
            | (JArr b, JArr a) \<Rightarrow> array_diff value_diff path b a
            | _ \<Rightarrow> if path = [] then Inl RootMustStayObject
                   else Inr [emit patchOpReplace path (Some after)]))"
  by pat_completeness auto
termination
proof (relation "measure (\<lambda>(path, before, after). size before)", goal_cases)
  case 1
  show ?case by simp
next
  case (2 path before after x y b a p r v)
  then have "before = JArr b" by simp
  with 2 show ?case using size_list_estimation' [of r b "size r" size] by simp
next
  case (3 path before after x y b a p r v)
  then obtain kv where kv: "kv \<in> set b" and r: "r = snd kv" by blast
  from r have "size r \<le> size_prod (\<lambda>_. 0) size kv" by (cases kv) (simp only: snd_conv, simp)
  with kv have "size r \<le> size_list (size_prod (\<lambda>_. 0) size) b"
    by (meson order_trans size_list_estimation')
  moreover from 3 have "before = JObj b" by simp
  ultimately show ?case by simp
qed

declare value_diff.simps [simp del]

definition policyPatch :: "json \<Rightarrow> json \<Rightarrow> ops_result" where
  "policyPatch before after = value_diff [] before after"

section \<open>The specification: RFC 6902 on JSON values\<close>

text \<open>
  What the operations mean by RFC 6902 and RFC 6901: \<open>hujson\<close> applies a patch by these rules.
  A pointer is cut at slashes and unescaped; an operation on a location that does not exist is an
  error (\<open>None\<close>), but for an added member or element.
\<close>

fun pointer_unescape :: "string \<Rightarrow> string" where
  "pointer_unescape [] = []"
| "pointer_unescape [c] = [c]"
| "pointer_unescape (c # d # r) =
     (if c = CHR ''~'' \<and> d = CHR ''1'' then CHR ''/'' # pointer_unescape r
      else if c = CHR ''~'' \<and> d = CHR ''0'' then CHR ''~'' # pointer_unescape r
      else c # pointer_unescape (d # r))"

definition pointer_tokens :: "string \<Rightarrow> string list" where
  "pointer_tokens path = map pointer_unescape (tl (split_on CHR ''/'' path))"

text \<open>An array index: a decimal numeral without leading zeros.\<close>

definition pointer_index :: "string \<Rightarrow> nat option" where
  "pointer_index s =
     (let n = of_digits 10 (map (\<lambda>c. of_char c - 48) s) in if itoa n = s then Some n else None)"

definition obj_del :: "string \<Rightarrow> (string \<times> json) list \<Rightarrow> (string \<times> json) list" where
  "obj_del k ob = filter (\<lambda>kv. fst kv \<noteq> k) ob"

fun apply_at :: "string \<Rightarrow> json option \<Rightarrow> string list \<Rightarrow> json \<Rightarrow> json option" where
  "apply_at op val [] j = (if op = patchOpRemove then None else val)"
| "apply_at op val (t # ts) (JObj ob) =
     (case map_of ob t of
        Some c \<Rightarrow>
          if ts = [] \<and> op = patchOpRemove then Some (JObj (obj_del t ob))
          else map_option (\<lambda>c'. JObj (obj_put t c' ob)) (apply_at op val ts c)
      | None \<Rightarrow>
          if ts = [] \<and> op = patchOpAdd then map_option (\<lambda>v. JObj (obj_put t v ob)) val else None)"
| "apply_at op val (t # ts) (JArr xs) =
     (if ts = [] \<and> op = patchOpAdd \<and> t = ''-'' then map_option (\<lambda>v. JArr (xs @ [v])) val
      else case pointer_index t of
        None \<Rightarrow> None
      | Some n \<Rightarrow>
          if ts = [] \<and> op = patchOpAdd
          then (if n \<le> length xs then map_option (\<lambda>v. JArr (take n xs @ v # drop n xs)) val else None)
          else if length xs \<le> n then None
          else if ts = [] \<and> op = patchOpRemove then Some (JArr (take n xs @ drop (Suc n) xs))
          else map_option (\<lambda>c'. JArr (xs[n := c'])) (apply_at op val ts (xs ! n)))"
| "apply_at op val (t # ts) _ = None"

definition apply_operation :: "patch_operation \<Rightarrow> json \<Rightarrow> json option" where
  "apply_operation p j = apply_at (Op p) (Value p) (pointer_tokens (Path p)) j"

fun apply_patch :: "patch_operation list \<Rightarrow> json \<Rightarrow> json option" where
  "apply_patch [] j = Some j"
| "apply_patch (p # ps) j = Option.bind (apply_operation p j) (apply_patch ps)"

section \<open>Pointers\<close>

lemma pointer_escape_no_slash: "CHR ''/'' \<notin> set (pointer_escape key)"
  by (auto simp: pointer_escape_def)

lemma pointer_escape_simps [simp]:
  "pointer_escape [] = []"
  "pointer_escape (c # r) =
     (if c = CHR ''~'' then ''~0'' else if c = CHR ''/'' then ''~1'' else [c]) @ pointer_escape r"
  by (simp_all add: pointer_escape_def)

lemma pointer_unescape_other:
  "c \<noteq> CHR ''~'' \<Longrightarrow> pointer_unescape (c # r) = c # pointer_unescape r"
  by (cases r) auto

lemma pointer_unescape_escape [simp]: "pointer_unescape (pointer_escape key) = key"
  by (induction key) (auto simp: pointer_unescape_other)

lemma pointer_tokens_Nil [simp]: "pointer_tokens [] = []"
  by (simp add: pointer_tokens_def)

lemma pointer_tokens_child:
  assumes "CHR ''/'' \<notin> set w"
  shows "pointer_tokens (path @ ''/'' @ w) = pointer_tokens path @ [pointer_unescape w]"
proof -
  have "split_on CHR ''/'' (path @ ''/'' @ w) = split_on CHR ''/'' path @ [w]"
    using split_on_concat [of "CHR ''/''" path w] split_on_no_sep [OF assms] by simp
  then show ?thesis by (simp add: pointer_tokens_def tl_append split: list.splits)
qed

lemma pointer_tokens_key [simp]:
  "pointer_tokens (path @ CHR ''/'' # pointer_escape key) = pointer_tokens path @ [key]"
  using pointer_tokens_child [OF pointer_escape_no_slash, of path key] by simp

lemma itoa_plain: "c \<in> set (itoa n) \<Longrightarrow> c \<noteq> CHR ''/'' \<and> c \<noteq> CHR ''~'' \<and> c \<noteq> CHR ''-''"
  using itoa_digits [of c n] by auto

lemma pointer_unescape_plain: "CHR ''~'' \<notin> set s \<Longrightarrow> pointer_unescape s = s"
  by (induction s) (auto simp: pointer_unescape_other)

lemma pointer_tokens_index [simp]:
  "pointer_tokens (path @ CHR ''/'' # itoa n) = pointer_tokens path @ [itoa n]"
proof -
  have "CHR ''/'' \<notin> set (itoa n)" "CHR ''~'' \<notin> set (itoa n)" using itoa_plain by blast+
  then show ?thesis
    using pointer_tokens_child [of "itoa n" path] by (simp add: pointer_unescape_plain)
qed

lemma pointer_index_itoa [simp]: "pointer_index (itoa n) = Some n"
proof -
  have "map (\<lambda>c. of_char c - 48) (itoa n) = digits_base 10 n"
  proof -
    have "(of_char (digit_char d) :: nat) - 48 = d" if "d \<in> set (digits_base 10 n)" for d
      using digits_base_bound [OF _ that] by (simp add: of_char_digit_char)
    then show ?thesis by (simp add: itoa_def map_idI)
  qed
  then have "of_digits 10 (map (\<lambda>c. of_char c - 48) (itoa n)) = n"
    by (simp add: digits_base_value)
  then show ?thesis by (simp add: pointer_index_def)
qed

lemma itoa_not_dash [simp]: "itoa n \<noteq> ''-''"
  using itoa_plain [of "CHR ''-''" n] by auto

section \<open>Objects in key order\<close>

lemma map_of_obj_del: "map_of (obj_del k ob) = (map_of ob)(k := None)"
  by (induction ob) (auto simp: obj_del_def fun_eq_iff)

lemma obj_sorted_del: "obj_sorted ob \<Longrightarrow> obj_sorted (obj_del k ob)"
  unfolding obj_del_def by (induction ob) auto

section \<open>Operations below a location\<close>

text \<open>
  \<open>apply_rel n\<close> applies operations with the first \<open>n\<close> tokens of each pointer dropped: the
  effect of operations below one location, seen from there. \<open>below\<close> says that all pointers go
  through a location; only a replacement may name the location itself.
\<close>

fun apply_rel :: "nat \<Rightarrow> patch_operation list \<Rightarrow> json \<Rightarrow> json option" where
  "apply_rel n [] j = Some j"
| "apply_rel n (p # ps) j =
     Option.bind (apply_at (Op p) (Value p) (drop n (pointer_tokens (Path p))) j) (apply_rel n ps)"

definition below :: "string list \<Rightarrow> patch_operation list \<Rightarrow> bool" where
  "below ts ops \<longleftrightarrow>
     (\<forall>p \<in> set ops. \<exists>us. pointer_tokens (Path p) = ts @ us \<and> (us = [] \<longrightarrow> Op p = patchOpReplace))"

lemma apply_patch_rel: "apply_patch ps j = apply_rel 0 ps j"
  by (induction ps arbitrary: j) (auto simp: apply_operation_def split: Option.bind_splits)

lemma apply_rel_append: "apply_rel n (ps @ qs) j = Option.bind (apply_rel n ps j) (apply_rel n qs)"
  by (induction ps arbitrary: j) (auto split: Option.bind_splits)

lemma below_simps [simp]:
  "below ts []" "below ts (ps @ qs) \<longleftrightarrow> below ts ps \<and> below ts qs"
  by (auto simp: below_def)

lemma below_Cons:
  "below ts (p # ps) \<longleftrightarrow>
     (\<exists>us. pointer_tokens (Path p) = ts @ us \<and> (us = [] \<longrightarrow> Op p = patchOpReplace)) \<and> below ts ps"
  by (auto simp: below_def)

lemma below_child: "below (ts @ [t]) ops \<Longrightarrow> below ts ops"
  by (force simp: below_def)

lemma op_names [simp]:
  "patchOpReplace \<noteq> patchOpAdd" "patchOpAdd \<noteq> patchOpReplace" "patchOpReplace \<noteq> patchOpRemove"
  "patchOpRemove \<noteq> patchOpReplace" "patchOpAdd \<noteq> patchOpRemove" "patchOpRemove \<noteq> patchOpAdd"
  by (simp_all add: patchOpAdd_def patchOpRemove_def patchOpReplace_def)

text \<open>Operations below a member of an object act on that member alone.\<close>

lemma obj_put_put:
  assumes "obj_sorted ob"
  shows "obj_put k v' (obj_put k v ob) = obj_put k v' ob"
  using assms by (intro obj_eqI) (simp_all add: obj_sorted_put map_of_obj_put)

lemma obj_put_same:
  assumes "obj_sorted ob" "map_of ob k = Some v"
  shows "obj_put k v ob = ob"
  using assms by (intro obj_eqI) (auto simp: obj_sorted_put map_of_obj_put)

lemma apply_rel_member:
  assumes "below (ts @ [k]) ops" "obj_sorted ob" "map_of ob k = Some c"
    and "apply_rel (Suc (length ts)) ops c = Some c'"
  shows "apply_rel (length ts) ops (JObj ob) = Some (JObj (obj_put k c' ob))"
  using assms
proof (induction ops arbitrary: ob c)
  case Nil
  then show ?case by (simp add: obj_put_same)
next
  case (Cons p ps)
  from Cons.prems(1) obtain us where us: "pointer_tokens (Path p) = ts @ k # us"
    and rep: "us = [] \<longrightarrow> Op p = patchOpReplace" and below: "below (ts @ [k]) ps"
    by (auto simp: below_Cons)
  from Cons.prems(4) us obtain c1 where c1: "apply_at (Op p) (Value p) us c = Some c1"
    and rest: "apply_rel (Suc (length ts)) ps c1 = Some c'"
    by (auto simp: bind_eq_Some_conv)
  have "apply_at (Op p) (Value p) (k # us) (JObj ob) = Some (JObj (obj_put k c1 ob))"
    using c1 rep Cons.prems(3) by auto
  moreover have "apply_rel (length ts) ps (JObj (obj_put k c1 ob)) = Some (JObj (obj_put k c' (obj_put k c1 ob)))"
    using Cons.prems(2) below rest by (intro Cons.IH) (simp_all add: obj_sorted_put map_of_obj_put)
  ultimately show ?case using us Cons.prems(2) by (simp add: obj_put_put)
qed

text \<open>The same for an element of an array.\<close>

lemma apply_rel_element:
  assumes "below (ts @ [itoa i]) ops" "i < length xs"
    and "apply_rel (Suc (length ts)) ops (xs ! i) = Some c'"
  shows "apply_rel (length ts) ops (JArr xs) = Some (JArr (xs[i := c']))"
  using assms
proof (induction ops arbitrary: xs)
  case Nil
  then show ?case by (auto simp: list_update_id)
next
  case (Cons p ps)
  from Cons.prems(1) obtain us where us: "pointer_tokens (Path p) = ts @ itoa i # us"
    and rep: "us = [] \<longrightarrow> Op p = patchOpReplace" and below: "below (ts @ [itoa i]) ps"
    by (auto simp: below_Cons)
  from Cons.prems(3) us obtain c1 where c1: "apply_at (Op p) (Value p) us (xs ! i) = Some c1"
    and rest: "apply_rel (Suc (length ts)) ps c1 = Some c'"
    by (auto simp: bind_eq_Some_conv)
  have "apply_at (Op p) (Value p) (itoa i # us) (JArr xs) = Some (JArr (xs[i := c1]))"
    using c1 rep Cons.prems(2) by auto
  moreover have "apply_rel (length ts) ps (JArr (xs[i := c1])) = Some (JArr ((xs[i := c1])[i := c']))"
    using Cons.prems(2) below rest by (intro Cons.IH) simp_all
  ultimately show ?case using us by simp
qed

section \<open>The patch reproduces the new document\<close>

text \<open>
  What the differ must guarantee for one pair of values at a path: the operations stay below the
  path and turn the old value into the new one. The parts of the differ are correct when the
  differ of the parts is.
\<close>

definition diff_ok :: "value_differ \<Rightarrow> json \<Rightarrow> bool" where
  "diff_ok f r \<longleftrightarrow>
     (\<forall>path a. path \<noteq> [] \<longrightarrow> json_wf a \<longrightarrow>
        (\<exists>ops. f path r a = Inr ops \<and> below (pointer_tokens path) ops
             \<and> apply_rel (length (pointer_tokens path)) ops r = Some a))"

lemma diff_okD:
  assumes "diff_ok f r" "path \<noteq> []" "json_wf a"
  obtains ops where "f path r a = Inr ops" "below (pointer_tokens path) ops"
    "apply_rel (length (pointer_tokens path)) ops r = Some a"
  using assms unfolding diff_ok_def by blast

lemma object_old_ok:
  assumes "\<forall>r \<in> snd ` set before. diff_ok f r" and "\<forall>kv \<in> set after. json_wf (snd kv)"
    and "obj_sorted cur" "obj_sorted before" "\<forall>kv \<in> set before. map_of cur (fst kv) = Some (snd kv)"
  shows "\<exists>ops cur'. object_old f path before after = Inr ops \<and> below (pointer_tokens path) ops
    \<and> apply_rel (length (pointer_tokens path)) ops (JObj cur) = Some (JObj cur') \<and> obj_sorted cur'
    \<and> map_of cur' = (\<lambda>k. if k \<in> fst ` set before then map_of after k else map_of cur k)"
  using assms
proof (induction before arbitrary: cur)
  case Nil
  then show ?case by auto
next
  case (Cons kv before)
  obtain key v where kv: "kv = (key, v)" by (cases kv)
  let ?ts = "pointer_tokens path" and ?child = "path @ ''/'' @ pointer_escape key"
  from Cons.prems(4) kv have fresh: "key \<notin> fst ` set before" by (auto simp: sorted_wrt_map)
  have sorted: "obj_sorted before" using Cons.prems(4) by simp
  have v: "map_of cur key = Some v" using Cons.prems(5) kv by simp
  show ?case
  proof (cases "map_of after key")
    case None
    let ?cur = "obj_del key cur"
    have "\<forall>kv \<in> set before. map_of ?cur (fst kv) = Some (snd kv)"
      using Cons.prems(5) fresh by (force simp: map_of_obj_del)
    from Cons.IH [OF _ Cons.prems(2) obj_sorted_del [OF Cons.prems(3)] sorted this]
    obtain ops cur' where ih: "object_old f path before after = Inr ops" "below ?ts ops"
      "apply_rel (length ?ts) ops (JObj ?cur) = Some (JObj cur')" "obj_sorted cur'"
      "map_of cur' = (\<lambda>k. if k \<in> fst ` set before then map_of after k else map_of ?cur k)"
      using Cons.prems(1) by auto
    have "apply_rel (length ?ts) (emit patchOpRemove ?child None # ops) (JObj cur) = Some (JObj cur')"
      using v ih(3) by (simp add: emit_def)
    then show ?thesis
      using ih None by (auto simp: kv emit_def below_Cons map_of_obj_del fun_eq_iff)
  next
    case (Some a)
    have "json_wf a" using Some Cons.prems(2) by (force dest: map_of_SomeD)
    then obtain ops1 where ops1: "f ?child v a = Inr ops1" "below (?ts @ [key]) ops1"
      "apply_rel (Suc (length ?ts)) ops1 v = Some a"
      using Cons.prems(1) kv diff_okD [of f v ?child a thesis] by simp
    let ?cur = "obj_put key a cur"
    have "\<forall>kv \<in> set before. map_of ?cur (fst kv) = Some (snd kv)"
      using Cons.prems(5) fresh Cons.prems(3) by (force simp: map_of_obj_put)
    from Cons.IH [OF _ Cons.prems(2) obj_sorted_put [OF Cons.prems(3)] sorted this]
    obtain ops cur' where ih: "object_old f path before after = Inr ops" "below ?ts ops"
      "apply_rel (length ?ts) ops (JObj ?cur) = Some (JObj cur')" "obj_sorted cur'"
      "map_of cur' = (\<lambda>k. if k \<in> fst ` set before then map_of after k else map_of ?cur k)"
      using Cons.prems(1) by auto
    have "apply_rel (length ?ts) (ops1 @ ops) (JObj cur) = Some (JObj cur')"
      using apply_rel_member [OF ops1(2) Cons.prems(3) v ops1(3)] ih(3) by (simp add: apply_rel_append)
    then show ?thesis
      using ih Some ops1 Cons.prems(3) below_child [OF ops1(2)]
      by (auto simp: kv map_of_obj_put fun_eq_iff)
  qed
qed

text \<open>The members that are new: each addition puts one member, whatever the order.\<close>

lemma adds_ok:
  assumes "obj_sorted cur"
  shows "\<exists>cur'. apply_rel (length (pointer_tokens path))
      (map (\<lambda>kv. emit patchOpAdd (path @ ''/'' @ pointer_escape (fst kv)) (Some (snd kv))) kvs) (JObj cur)
    = Some (JObj cur') \<and> obj_sorted cur' \<and> map_of cur' = map_of cur ++ map_of (rev kvs)"
  using assms
proof (induction kvs arbitrary: cur)
  case Nil
  then show ?case by simp
next
  case (Cons kv kvs)
  let ?ts = "pointer_tokens path"
  let ?cur = "obj_put (fst kv) (snd kv) cur"
  have step: "apply_at patchOpAdd (Some (snd kv)) [fst kv] (JObj cur) = Some (JObj ?cur)"
    by (simp split: option.split)
  from Cons.IH [OF obj_sorted_put [OF Cons.prems]] obtain cur' where ih:
    "apply_rel (length ?ts) (map (\<lambda>kv. emit patchOpAdd (path @ ''/'' @ pointer_escape (fst kv)) (Some (snd kv))) kvs)
      (JObj ?cur) = Some (JObj cur')" "obj_sorted cur'" "map_of cur' = map_of ?cur ++ map_of (rev kvs)"
    by blast
  have "map_of cur' = map_of cur ++ map_of (rev (kv # kvs))"
    using ih(3) Cons.prems by (cases kv) (simp add: map_of_obj_put fun_eq_iff map_add_def split: option.split)
  then show ?case using ih step by (auto simp: emit_def)
qed

lemma object_diff_ok:
  assumes "\<forall>r \<in> snd ` set before. diff_ok f r" and "json_wf (JObj before)" "json_wf (JObj after)"
  shows "\<exists>ops. object_diff f path before after = Inr ops \<and> below (pointer_tokens path) ops
    \<and> apply_rel (length (pointer_tokens path)) ops (JObj before) = Some (JObj after)"
proof -
  let ?ts = "pointer_tokens path" and ?new = "filter (\<lambda>kv. map_of before (fst kv) = None) after"
  have sb: "obj_sorted before" and sa: "obj_sorted after" using assms(2,3) by simp_all
  have "\<forall>kv \<in> set before. map_of before (fst kv) = Some (snd kv)"
    using obj_sorted_distinct [OF sb] by auto
  from object_old_ok [OF assms(1) _ sb sb this, of after path] assms(3)
  obtain ops cur' where old: "object_old f path before after = Inr ops" "below ?ts ops"
    "apply_rel (length ?ts) ops (JObj before) = Some (JObj cur')" "obj_sorted cur'"
    "map_of cur' = (\<lambda>k. if k \<in> fst ` set before then map_of after k else map_of before k)"
    by auto
  from adds_ok [OF old(4), of path ?new] obtain cur2 where new:
    "apply_rel (length ?ts) (object_new path before after) (JObj cur') = Some (JObj cur2)"
    "obj_sorted cur2" "map_of cur2 = map_of cur' ++ map_of (rev ?new)"
    by (auto simp: object_new_def)
  have "map_of (rev ?new) = (\<lambda>k. if map_of before k = None then map_of after k else None)"
  proof -
    have d: "distinct (map fst ?new)"
      using obj_sorted_distinct [OF sa] by (simp add: distinct_map_filter)
    then have "map_of (rev ?new) = map_of ?new"
      by (subst map_of_inject_set) (simp_all flip: rev_map)
    also have "\<dots> = map_of after |` {k. map_of before k = None}"
      by (rule map_of_filter)
    finally show ?thesis by (simp add: restrict_map_def fun_eq_iff)
  qed
  then have cur2: "map_of cur2 k = (case if map_of before k = None then map_of after k else None of
      None \<Rightarrow> if k \<in> fst ` set before then map_of after k else map_of before k | Some v \<Rightarrow> Some v)" for k
    by (simp add: new(3) old(5) map_add_def)
  have "map_of cur2 = map_of after"
  proof
    fix k
    show "map_of cur2 k = map_of after k"
    proof (cases "map_of before k")
      case None
      moreover from None have "k \<notin> fst ` set before" by (simp only: map_of_eq_None_iff not_False_eq_True)
      ultimately show ?thesis unfolding cur2 by (simp split: option.split)
    next
      case (Some v)
      then have "k \<in> fst ` set before" by (force dest: map_of_SomeD)
      with Some show ?thesis unfolding cur2 by simp
    qed
  qed
  then have "cur2 = after" using new(2) sa by (intro obj_eqI)
  moreover have "below ?ts (object_new path before after)"
    by (auto simp: object_new_def below_def emit_def)
  ultimately show ?thesis
    using old new by (simp add: object_diff_def apply_rel_append)
qed

text \<open>Arrays: pairs replace in place, removals and additions work at the running index.\<close>

lemma run_pairs_ok:
  assumes "\<forall>r \<in> set removed. diff_ok f r" "\<forall>a \<in> set added. json_wf a" "length removed = length added"
  shows "\<exists>ops. run_pairs f path (length pre) removed added = Inr (ops, length pre + length added)
    \<and> below (pointer_tokens path) ops
    \<and> apply_rel (length (pointer_tokens path)) ops (JArr (pre @ removed @ post)) = Some (JArr (pre @ added @ post))"
  using assms
proof (induction removed arbitrary: added pre)
  case Nil
  then show ?case by simp
next
  case (Cons r removed)
  let ?ts = "pointer_tokens path"
  from Cons.prems(3) obtain a added' where added: "added = a # added'" by (cases added) auto
  from Cons.prems added obtain ops1 where ops1:
    "f (path @ ''/'' @ itoa (length pre)) r a = Inr ops1" "below (?ts @ [itoa (length pre)]) ops1"
    "apply_rel (Suc (length ?ts)) ops1 r = Some a"
    using diff_okD [of f r "path @ ''/'' @ itoa (length pre)" a thesis] by simp
  from Cons.IH [of added' "pre @ [a]"] Cons.prems added obtain ops where ih:
    "run_pairs f path (Suc (length pre)) removed added' = Inr (ops, Suc (length pre + length added'))"
    "below ?ts ops"
    "apply_rel (length ?ts) ops (JArr (pre @ a # removed @ post)) = Some (JArr (pre @ a # added' @ post))"
    by auto
  have "apply_rel (length ?ts) ops1 (JArr (pre @ (r # removed) @ post)) = Some (JArr (pre @ a # removed @ post))"
    using apply_rel_element [OF ops1(2), of "pre @ (r # removed) @ post" a] ops1(3) by (simp add: nth_append)
  then show ?case
    using ops1 ih below_child [OF ops1(2)] by (simp add: added apply_rel_append)
qed

lemma run_removes_ok:
  "apply_rel (length (pointer_tokens path))
     (map (\<lambda>_. emit patchOpRemove (path @ ''/'' @ itoa (length pre)) None) xs) (JArr (pre @ xs @ post))
   = Some (JArr (pre @ post))"
  by (induction xs) (simp_all add: emit_def)

lemma run_adds_ok:
  "\<exists>ops. run_adds path (length pre) xs = (ops, length pre + length xs) \<and> below (pointer_tokens path) ops
    \<and> apply_rel (length (pointer_tokens path)) ops (JArr (pre @ post)) = Some (JArr (pre @ xs @ post))"
proof (induction xs arbitrary: pre)
  case Nil
  then show ?case by simp
next
  case (Cons x xs)
  from Cons.IH [of "pre @ [x]"] obtain ops where
    "run_adds path (Suc (length pre)) xs = (ops, Suc (length pre + length xs))" "below (pointer_tokens path) ops"
    "apply_rel (length (pointer_tokens path)) ops (JArr (pre @ x # post)) = Some (JArr (pre @ x # xs @ post))"
    by auto
  then show ?case by (auto simp: emit_def below_Cons)
qed

lemma take_drop_append: "take n xs @ drop n xs @ post = xs @ post"
  by (simp flip: append_assoc)

lemma arrayRun_ok:
  assumes "\<forall>r \<in> set removed. diff_ok f r" "\<forall>a \<in> set added. json_wf a"
  shows "\<exists>ops. arrayRun f path (length pre) removed added = Inr (ops, length pre + length added)
    \<and> below (pointer_tokens path) ops
    \<and> apply_rel (length (pointer_tokens path)) ops (JArr (pre @ removed @ post)) = Some (JArr (pre @ added @ post))"
proof -
  let ?ts = "pointer_tokens path" and ?n = "min (length removed) (length added)"
  let ?pre = "pre @ take ?n added"
  have len: "length ?pre = length pre + ?n" by simp
  have part: "\<forall>r \<in> set (take ?n removed). diff_ok f r" "\<forall>a \<in> set (take ?n added). json_wf a"
    "length (take ?n removed) = length (take ?n added)"
    using assms by (auto dest: in_set_takeD)
  obtain ops1 where pairs: "run_pairs f path (length pre) (take ?n removed) (take ?n added) = Inr (ops1, length ?pre)"
    "below ?ts ops1" "apply_rel (length ?ts) ops1 (JArr (pre @ removed @ post))
      = Some (JArr (?pre @ drop ?n removed @ post))"
    using run_pairs_ok [OF part, of path pre "drop ?n removed @ post"] by (auto simp: take_drop_append)
  obtain ops3 where adds: "run_adds path (length ?pre) (drop ?n added) = (ops3, length ?pre + length (drop ?n added))"
    "below ?ts ops3"
    "apply_rel (length ?ts) ops3 (JArr (?pre @ post)) = Some (JArr (?pre @ drop ?n added @ post))"
    using run_adds_ok [of path ?pre "drop ?n added" post] by blast
  let ?ops2 = "map (\<lambda>_. emit patchOpRemove (path @ ''/'' @ itoa (length ?pre)) None) (drop ?n removed)"
  have "below ?ts ?ops2" by (auto simp: below_def emit_def)
  moreover have "?pre @ drop ?n added @ post = pre @ added @ post" by (simp add: take_drop_append)
  ultimately show ?thesis
    using pairs adds run_removes_ok [of path ?pre "drop ?n removed" post]
    by (intro exI [of _ "ops1 @ ?ops2 @ ops3"])
      (simp add: arrayRun_def apply_rel_append Let_def take_drop_append)
qed

text \<open>
  The array loop: at positions \<open>i\<close> and \<open>j\<close> the array under edit is the new elements before
  \<open>j\<close> followed by the old ones from \<open>i\<close>, and the running index is \<open>j\<close>. Each turn makes
  progress, so the fuel is enough.
\<close>

lemma array_loop_ok:
  assumes "\<forall>r \<in> set before. diff_ok f r" "\<forall>a \<in> set after. json_wf a"
    and "i \<le> length before" "j \<le> length after" "(length before - i) + (length after - j) < fuel"
  shows "\<exists>ops. array_loop f path lcs before after fuel i j j = Some (Inr ops) \<and> below (pointer_tokens path) ops
    \<and> apply_rel (length (pointer_tokens path)) ops (JArr (take j after @ drop i before)) = Some (JArr after)"
  using assms(3-5)
proof (induction fuel arbitrary: i j)
  case 0
  then show ?case by simp
next
  case (Suc fuel)
  let ?ts = "pointer_tokens path"
  show ?case
  proof (cases "i < length before \<or> j < length after")
    case False
    with Suc.prems show ?thesis by simp
  next
    case more: True
    show ?thesis
    proof (cases "i < length before \<and> j < length after \<and> before ! i = after ! j")
      case True
      then have same: "take (j + 1) after @ drop (i + 1) before = take j after @ drop i before"
        using Cons_nth_drop_Suc [of i before] by (simp add: take_Suc_conv_app_nth)
      from True Suc.prems have "\<exists>ops. array_loop f path lcs before after fuel (i + 1) (j + 1) (j + 1) = Some (Inr ops)
        \<and> below ?ts ops \<and> apply_rel (length ?ts) ops (JArr (take (j + 1) after @ drop (i + 1) before)) = Some (JArr after)"
        by (intro Suc.IH) auto
      with True more show ?thesis unfolding same by simp
    next
      case False
      obtain i' j' removed added where g: "gather_run lcs before after i j [] [] = (i', j', removed, added)"
        by (metis prod_cases4)
      note spec = gather_run_spec [OF g Suc.prems(1,2), simplified]
      from spec have rm: "drop i before = removed @ drop i' before" and ad: "drop j after = added @ drop j' after"
        by simp_all
      have pos: "i < i' \<or> j < j'"
      proof (rule ccontr)
        assume "\<not> (i < i' \<or> j < j')"
        with spec have "i' = i" "j' = j" by auto
        with spec have "run_over before after i j" by simp
        with False more Suc.prems(1,2) show False by (auto simp: run_over_def)
      qed
      have "set removed \<subseteq> set before" "set added \<subseteq> set after"
        using rm ad by (metis Un_upper1 set_append set_drop_subset subset_trans)+
      then obtain ops where run: "arrayRun f path (length (take j after)) removed added
          = Inr (ops, length (take j after) + length added)" "below ?ts ops"
        "apply_rel (length ?ts) ops (JArr (take j after @ removed @ drop i' before))
          = Some (JArr (take j after @ added @ drop i' before))"
        using arrayRun_ok [of removed f added path "take j after" "drop i' before"] assms(1,2) by blast
      have lenj: "j + length added = j'"
      proof -
        have "length (drop j after) = length added + length (drop j' after)" by (simp only: ad length_append)
        with spec Suc.prems(2) show ?thesis by auto
      qed
      have "take j' after = take j after @ added"
        using ad lenj by (metis append_eq_append_conv_if append_take_drop_id length_append take_add append_eq_conv_conj)
      moreover from spec pos Suc.prems have "length before - i' + (length after - j') < fuel" by auto
      then obtain ops' where "array_loop f path lcs before after fuel i' j' j' = Some (Inr ops')" "below ?ts ops'"
        "apply_rel (length ?ts) ops' (JArr (take j' after @ drop i' before)) = Some (JArr after)"
        using Suc.IH [of i' j'] spec by blast
      ultimately show ?thesis
        using run more False g lenj Suc.prems(2) rm by (auto simp: apply_rel_append)
    qed
  qed
qed

lemma array_diff_ok:
  assumes "\<forall>r \<in> set before. diff_ok f r" "\<forall>a \<in> set after. json_wf a"
  shows "\<exists>ops. array_diff f path before after = Inr ops \<and> below (pointer_tokens path) ops
    \<and> apply_rel (length (pointer_tokens path)) ops (JArr before) = Some (JArr after)"
proof (cases "maxArrayDiffCells < length before * length after")
  case True
  then show ?thesis by (simp add: array_diff_def below_Cons emit_def)
next
  case False
  obtain ops where
    "array_loop f path (lcsTable before after) before after (Suc (length before + length after)) 0 0 0 = Some (Inr ops)"
    "below (pointer_tokens path) ops"
    "apply_rel (length (pointer_tokens path)) ops (JArr before) = Some (JArr after)"
    using array_loop_ok [OF assms, of 0 0 "Suc (length before + length after)" path "lcsTable before after"] by auto
  with False show ?thesis by (simp add: array_diff_def del: array_loop.simps)
qed

text \<open>The cases of \<open>patchDiffer.value\<close>.\<close>

lemma value_diff_cases:
  obtains (same) "b = a" | (objects) ob oa where "b \<noteq> a" "b = JObj ob" "a = JObj oa"
  | (arrays) xb xa where "b \<noteq> a" "b = JArr xb" "a = JArr xa"
  | (differ) "b \<noteq> a" "\<nexists>ob oa. b = JObj ob \<and> a = JObj oa" "\<nexists>xb xa. b = JArr xb \<and> a = JArr xa" "\<And>path. value_diff path b a = (if path = [] then Inl RootMustStayObject
        else Inr [emit patchOpReplace path (Some a)])"
proof (cases "b = a \<or> (\<exists>ob oa. b = JObj ob \<and> a = JObj oa) \<or> (\<exists>xb xa. b = JArr xb \<and> a = JArr xa)")
  case True
  then show thesis using same objects arrays by blast
next
  case False
  then have "value_diff path b a = (if path = [] then Inl RootMustStayObject
        else Inr [emit patchOpReplace path (Some a)])" for path
    by (subst value_diff.simps) (cases b; cases a; simp)
  with False show thesis using differ by blast
qed

lemma value_diff_ok: "json_wf b \<Longrightarrow> diff_ok value_diff b"
proof (induction "size b" arbitrary: b rule: less_induct)
  case less
  have smaller: "diff_ok value_diff r" if "b = JArr xs \<and> r \<in> set xs \<or> b = JObj ob \<and> r \<in> snd ` set ob" for r xs ob
  proof -
    from that have "size r < size b" and "json_wf r"
      using less.prems size_list_estimation' [of r xs "size r" size]
        size_list_estimation' [of _ ob "size r" "size_prod (\<lambda>_. 0) size"] by force+
    then show ?thesis by (rule less.hyps)
  qed
  show ?case
    unfolding diff_ok_def
  proof (intro allI impI)
    fix path :: string and a :: json
    assume path: "path \<noteq> []" and a: "json_wf a"
    let ?goal = "\<exists>ops. value_diff path b a = Inr ops \<and> below (pointer_tokens path) ops
      \<and> apply_rel (length (pointer_tokens path)) ops b = Some a"
    show ?goal
    proof (cases b a rule: value_diff_cases)
      case same
      then show ?thesis by (simp add: value_diff.simps [of path a a])
    next
      case (objects ob oa)
      then show ?thesis
        using object_diff_ok [of ob value_diff oa path] smaller less.prems a
        by (simp add: value_diff.simps [of path "JObj ob" "JObj oa"])
    next
      case (arrays xb xa)
      then show ?thesis
        using array_diff_ok [of xb value_diff xa path] smaller less.prems a
        by (simp add: value_diff.simps [of path "JArr xb" "JArr xa"])
    next
      case differ
      with path show ?thesis by (simp add: below_Cons emit_def)
    qed
  qed
qed

lemma policyPatch_objects:
  assumes "json_wf (JObj b)" "json_wf (JObj a)"
  obtains ops where "policyPatch (JObj b) (JObj a) = Inr ops" "apply_patch ops (JObj b) = Some (JObj a)"
proof -
  have "\<forall>r \<in> snd ` set b. diff_ok value_diff r" using assms(1) by (auto intro: value_diff_ok)
  from object_diff_ok [OF this assms, of "[]"] have
    "\<exists>ops. policyPatch (JObj b) (JObj a) = Inr ops \<and> apply_patch ops (JObj b) = Some (JObj a)"
    by (auto simp: policyPatch_def apply_patch_rel value_diff.simps [of "[]" "JObj b" "JObj a"])
  then show thesis using that by blast
qed

text \<open>
  C23. The patch is right: for two JSON objects in decoded form, \<open>policyPatch\<close> succeeds, and its
  operations, applied in order by the rules of RFC 6902, turn the old document into the new one.
  None of them fails on a location that does not exist.
\<close>

theorem policy_patch_reproduces:
  assumes "json_wf (JObj before)" "json_wf (JObj after)"
  shows "\<exists>ops. policyPatch (JObj before) (JObj after) = Inr ops
    \<and> apply_patch ops (JObj before) = Some (JObj after)"
  using policyPatch_objects [OF assms] by blast

definition sample_before :: "(string \<times> json) list" where
  "sample_before = [(''a/b'', JArr [JNum ''1'', JObj [(''x'', JNull)], JNum ''2'']), (''k'', JStr ''old'')]"

definition sample_after :: "(string \<times> json) list" where
  "sample_after = [(''a/b'', JArr [JObj [(''x'', JBool True)], JNum ''2'', JNum ''3'']), (''z'', JStr ''new'')]"

lemma policy_patch_reproduces_witness:
  "\<exists>ops. policyPatch (JObj sample_before) (JObj sample_after) = Inr ops
    \<and> apply_patch ops (JObj sample_before) = Some (JObj sample_after)"
  by (rule policy_patch_reproduces) (simp_all add: sample_before_def sample_after_def)

text \<open>
  The only error of the differ is the root error: \<open>policyPatch\<close> fails exactly when the two
  documents differ and are neither two objects nor two arrays. A change deeper down never fails.
\<close>

theorem policy_patch_error_iff:
  assumes "json_wf before" "json_wf after"
  shows "(\<exists>e. policyPatch before after = Inl e) \<longleftrightarrow>
    before \<noteq> after \<and> (\<nexists>b a. before = JObj b \<and> after = JObj a) \<and> (\<nexists>b a. before = JArr b \<and> after = JArr a)"
proof (cases before after rule: value_diff_cases)
  case same
  then show ?thesis by (simp add: policyPatch_def value_diff.simps [of "[]" after after])
next
  case (objects ob oa)
  then obtain ops where "policyPatch before after = Inr ops"
    using assms policyPatch_objects [of ob oa] by metis
  with objects show ?thesis by simp
next
  case (arrays xb xa)
  have "\<forall>r \<in> set xb. diff_ok value_diff r" "\<forall>r \<in> set xa. json_wf r"
    using assms arrays by (auto intro: value_diff_ok)
  then obtain ops where "array_diff value_diff [] xb xa = Inr ops"
    using array_diff_ok [of xb value_diff xa "[]"] by blast
  with arrays show ?thesis by (simp add: policyPatch_def value_diff.simps [of "[]" "JArr xb" "JArr xa"])
next
  case differ
  then show ?thesis by (simp add: policyPatch_def)
qed

lemma policy_patch_error_iff_witness:
  "(\<exists>e. policyPatch (JArr []) (JObj sample_after) = Inl e) \<longleftrightarrow>
    JArr [] \<noteq> JObj sample_after \<and> (\<nexists>b a. JArr [] = JObj b \<and> JObj sample_after = JObj a)
      \<and> (\<nexists>b a. JArr [] = JArr b \<and> JObj sample_after = JArr a)"
  by (rule policy_patch_error_iff) (simp_all add: sample_after_def)

text \<open>
  Operations of an object edit go through a member that changes: the pointers of the old keys'
  part start with the key of a removed or changed member, the new keys' part with a new one.
\<close>

lemma object_old_local:
  assumes "\<forall>r \<in> snd ` set before. diff_ok f r" "\<And>r path. f path r r = Inr []"
    and "\<forall>kv \<in> set after. json_wf (snd kv)" "object_old f path before after = Inr ops" "p \<in> set ops"
  shows "\<exists>key v us. (key, v) \<in> set before \<and> map_of after key \<noteq> Some v
    \<and> pointer_tokens (Path p) = pointer_tokens path @ key # us"
  using assms(1,4,5)
proof (induction before arbitrary: ops)
  case Nil
  then show ?case by simp
next
  case (Cons kv before)
  obtain key v where kv: "kv = (key, v)" by (cases kv)
  let ?child = "path @ ''/'' @ pointer_escape key"
  show ?case
  proof (cases "map_of after key")
    case None
    with Cons.prems(2) kv obtain ops1 where rest: "object_old f path before after = Inr ops1"
      and ops: "ops = emit patchOpRemove ?child None # ops1"
      by (auto simp: bindR_eq_Inr)
    show ?thesis
    proof (cases "p = emit patchOpRemove ?child None")
      case True
      then have "pointer_tokens (Path p) = pointer_tokens path @ key # []" by (simp add: emit_def)
      with None kv show ?thesis by force
    next
      case False
      with Cons.prems(3) ops have "p \<in> set ops1" by simp
      with Cons.IH [of ops1] rest Cons.prems(1) show ?thesis by auto
    qed
  next
    case (Some w)
    with Cons.prems(2) kv obtain ops0 ops1 where here: "f ?child v w = Inr ops0"
      and rest: "object_old f path before after = Inr ops1" and ops: "ops = ops0 @ ops1"
      by (auto simp: bindR_eq_Inr)
    have "json_wf w" using Some assms(3) map_of_SomeD by fastforce
    moreover have "diff_ok f v" using Cons.prems(1) kv by simp
    ultimately have below: "below (pointer_tokens path @ [key]) ops0"
      using here diff_okD [of f v ?child w] by (metis Inr_inject append_is_Nil_conv pointer_tokens_key
          append_Cons append_Nil list.distinct(1))
    show ?thesis
    proof (cases "p \<in> set ops0")
      case True
      with here assms(2) have "map_of after key \<noteq> Some v" using Some by auto
      moreover obtain us where "pointer_tokens (Path p) = pointer_tokens path @ key # us"
        using below True by (auto simp: below_def)
      ultimately show ?thesis using kv by force
    next
      case False
      with Cons.prems(3) ops have "p \<in> set ops1" by simp
      with Cons.IH [of ops1] rest Cons.prems(1) show ?thesis by auto
    qed
  qed
qed

text \<open>
  The patch is local: every operation of the patch between two documents points into a top-level
  member whose value differs between them. A section of the policy file that the edit leaves alone is
  not named by any operation, so its comments and its layout cannot be touched.
\<close>

theorem policy_patch_local:
  assumes "json_wf (JObj before)" "json_wf (JObj after)" "policyPatch (JObj before) (JObj after) = Inr ops" "p \<in> set ops"
  shows "\<exists>key us. pointer_tokens (Path p) = key # us \<and> map_of before key \<noteq> map_of after key"
proof (cases "before = after")
  case True
  with assms show ?thesis by (simp add: policyPatch_def value_diff.simps [of "[]" "JObj after" "JObj after"])
next
  case False
  with assms(3) have ops: "object_diff value_diff [] before after = Inr ops"
    by (simp add: policyPatch_def value_diff.simps [of "[]" "JObj before" "JObj after"])
  then obtain ops1 where old: "object_old value_diff [] before after = Inr ops1"
    and split: "ops = ops1 @ object_new [] before after"
    by (auto simp: object_diff_def bindR_eq_Inr)
  show ?thesis
  proof (cases "p \<in> set ops1")
    case True
    have "\<forall>r \<in> snd ` set before. diff_ok value_diff r" using assms(1) by (auto intro: value_diff_ok)
    moreover have "value_diff path r r = Inr []" for r path by (subst value_diff.simps) simp
    ultimately obtain key v us where "(key, v) \<in> set before" "map_of after key \<noteq> Some v" "pointer_tokens (Path p) = key # us"
      using object_old_local [OF _ _ _ old True] assms(2) by auto
    moreover from this(1) have "map_of before key = Some v"
      using assms(1) by (simp add: obj_sorted_distinct)
    ultimately show ?thesis by auto
  next
    case no: False
    with split assms(4) obtain kv where kv: "kv \<in> set after" "map_of before (fst kv) = None"
      and "p = emit patchOpAdd ([] @ ''/'' @ pointer_escape (fst kv)) (Some (snd kv))"
      by (auto simp: object_new_def)
    then have "pointer_tokens (Path p) = fst kv # []"
      using pointer_tokens_key [of "[]" "fst kv"] by (simp add: emit_def)
    moreover have "map_of after (fst kv) \<noteq> None" using kv(1) by (simp add: map_of_eq_None_iff)
    ultimately show ?thesis using kv(2) by metis
  qed
qed

lemma policy_patch_local_witness:
  "\<exists>p :: patch_operation. \<exists>key us. pointer_tokens (Path p) = key # us \<and> map_of sample_before key \<noteq> map_of [] key"
proof (rule exI)
  have patch: "policyPatch (JObj sample_before) (JObj []) = Inr
      [emit patchOpRemove (''/'' @ pointer_escape ''a/b'') None, emit patchOpRemove (''/'' @ pointer_escape ''k'') None]"
    unfolding policyPatch_def sample_before_def
    by (subst value_diff.simps) (simp add: object_diff_def object_new_def)
  let ?p = "emit patchOpRemove (''/'' @ pointer_escape ''k'') None"
  show "\<exists>key us. pointer_tokens (Path ?p) = key # us \<and> map_of sample_before key \<noteq> map_of [] key"
    by (rule policy_patch_local [OF _ _ patch])
      (simp_all add: sample_before_def)
qed

section \<open>The LCS table\<close>

text \<open>The length of a longest common subsequence, by recursion on both lists, and its two bounds.\<close>

fun lcs_len :: "'a list \<Rightarrow> 'a list \<Rightarrow> nat" where
  "lcs_len [] ys = 0"
| "lcs_len (x # xs) [] = 0"
| "lcs_len (x # xs) (y # ys) =
     (if x = y then lcs_len xs ys + 1 else max (lcs_len xs (y # ys)) (lcs_len (x # xs) ys))"

lemma lcs_len_Nil [simp]: "lcs_len xs [] = 0"
  by (cases xs) simp_all

lemma lcs_len_reached: "\<exists>zs. subseq zs xs \<and> subseq zs ys \<and> length zs = lcs_len xs ys"
proof (induction xs ys rule: lcs_len.induct)
  case (3 x xs y ys)
  show ?case
  proof (cases "x = y")
    case True
    with 3(1) obtain zs where "subseq zs xs" "subseq zs ys" "length zs = lcs_len xs ys" by blast
    with True show ?thesis by (intro exI [of _ "x # zs"]) simp
  next
    case False
    with 3(2,3) show ?thesis by (auto simp: max_def)
  qed
qed auto

lemma lcs_len_bound: "subseq zs xs \<Longrightarrow> subseq zs ys \<Longrightarrow> length zs \<le> lcs_len xs ys"
proof (induction xs ys arbitrary: zs rule: lcs_len.induct)
  case (3 x xs y ys)
  show ?case
  proof (cases "x = y")
    case True
    show ?thesis
    proof (cases zs)
      case (Cons z zs')
      from 3(4,5) Cons have "subseq zs' xs" "subseq zs' ys"
        using True by (auto split: if_splits dest: subseq_Cons')
      with 3(1) [OF True, of zs'] True Cons show ?thesis by simp
    qed simp
  next
    case False
    show ?thesis
    proof (cases "subseq zs xs")
      case True
      with 3(2) [OF False this] 3(5) False show ?thesis by simp
    next
      case no: False
      with 3(4) obtain zs' where zs: "zs = x # zs'" by (cases zs) (auto split: if_splits)
      with 3(5) False have "subseq zs ys" by simp
      with 3(3) [OF False 3(4)] False show ?thesis by simp
    qed
  qed
qed auto

fun tails :: "'a list \<Rightarrow> 'a list list" where
  "tails [] = [[]]"
| "tails (y # ys) = (y # ys) # tails ys"

lemma tails_simps [simp]: "length (tails ys) = Suc (length ys)" "hd (tails ys) = ys" "tails ys \<noteq> []"
  by (induction ys) simp_all

lemma tails_nth: "j \<le> length ys \<Longrightarrow> tails ys ! j = drop j ys"
  by (induction ys arbitrary: j) (auto simp: nth_Cons' drop_Cons' )

lemma lcs_row_spec: "lcs_row x ys (map (lcs_len xs) (tails ys)) = map (lcs_len (x # xs)) (tails ys)"
  by (induction ys) (auto simp: Let_def hd_map)

lemma lcsTable_spec: "lcsTable before after = map (\<lambda>b. map (lcs_len b) (tails after)) (tails before)"
proof (induction before)
  case Nil
  have "map (lcs_len []) (tails after) = replicate (Suc (length after)) 0"
    by (induction after) simp_all
  then show ?case by simp
qed (simp add: Let_def hd_map lcs_row_spec)

definition longest_common :: "nat \<Rightarrow> 'a list \<Rightarrow> 'a list \<Rightarrow> bool" where
  "longest_common n xs ys \<longleftrightarrow>
     (\<exists>zs. subseq zs xs \<and> subseq zs ys \<and> length zs = n)
     \<and> (\<forall>zs. subseq zs xs \<longrightarrow> subseq zs ys \<longrightarrow> length zs \<le> n)"

text \<open>
  The table that picks removals and additions is right: its entry at \<open>i\<close>, \<open>j\<close> is the length
  of a longest common subsequence of the old elements from \<open>i\<close> and the new ones from \<open>j\<close>.
\<close>

theorem lcs_table_longest:
  assumes "i \<le> length before" "j \<le> length after"
  shows "longest_common (lcsTable before after ! i ! j) (drop i before) (drop j after)"
proof -
  have "lcsTable before after ! i ! j = lcs_len (drop i before) (drop j after)"
    using assms by (simp add: lcsTable_spec tails_nth)
  then show ?thesis using lcs_len_reached lcs_len_bound by (metis longest_common_def)
qed

lemma lcs_table_longest_witness:
  "longest_common (lcsTable [JNull, JBool True] [JBool True, JNull] ! 0 ! 1) (drop 0 [JNull, JBool True])
     (drop 1 [JBool True, JNull])"
  by (rule lcs_table_longest) simp_all

section \<open>Rendering the policy file\<close>

text \<open>
  \<open>renderPolicyFile\<close> works on the operator's HuJSON file through the third-party package
  \<open>hujson\<close>, which is a parameter here: the type of its values and four of its operations.
  \<open>std\<close> is \<open>standardJSON\<close> followed by the decoding of its bytes (\<open>None\<close> when they do not
  decode), \<open>patch_file\<close> is \<open>Patch\<close> on a clone, \<open>format_file\<close> is \<open>Format\<close> and \<open>pack\<close> is
  \<open>Pack\<close>. The edited document is its members; encoding and decoding it again gives it back.
\<close>

definition requireSameJSON :: "('h \<Rightarrow> json option) \<Rightarrow> 'h \<Rightarrow> json \<Rightarrow> (patch_error, unit) result" where
  "requireSameJSON std out want =
     (case std out of
        None \<Rightarrow> Inl DecodeFailed
      | Some got \<Rightarrow> if got \<noteq> want then Inl RenderMismatch else Inr ())"

definition renderPolicyFile ::
  "('h \<Rightarrow> json option) \<Rightarrow> (patch_operation list \<Rightarrow> 'h \<Rightarrow> 'h option) \<Rightarrow> ('h \<Rightarrow> 'h) \<Rightarrow> ('h \<Rightarrow> string)
     \<Rightarrow> 'h \<Rightarrow> json \<Rightarrow> (patch_error, string) result" where
  "renderPolicyFile std patch_file format_file pack source doc =
     (case std source of
        None \<Rightarrow> Inl DecodeFailed
      | Some before \<Rightarrow>
          bindR (policyPatch before doc)
            (\<lambda>ops. case patch_file ops source of
               None \<Rightarrow> Inl PatchFailed
             | Some out \<Rightarrow>
                 bindR (requireSameJSON std (format_file out) doc)
                   (\<lambda>_. Inr (pack (format_file out)))))"

lemma rendered_file:
  assumes "renderPolicyFile std patch_file format_file pack source doc = Inr bytes"
  shows "\<exists>h. bytes = pack h \<and> std h = Some doc"
proof -
  from assms obtain before ops out where "std source = Some before" "policyPatch before doc = Inr ops"
    "patch_file ops source = Some out" "requireSameJSON std (format_file out) doc = Inr ()" "bytes = pack (format_file out)"
    by (auto simp: renderPolicyFile_def bindR_eq_Inr split: option.splits)
  then show ?thesis by (auto simp: requireSameJSON_def split: option.splits if_splits)
qed

text \<open>
  Rendering fails closed, whatever \<open>hujson\<close> does: bytes that come out are the packed form of
  a file whose standard JSON is exactly the document that serverpro computed.
\<close>

theorem render_fail_closed:
  assumes "renderPolicyFile std patch_file format_file pack source doc = Inr bytes"
  shows "\<exists>h. bytes = pack h \<and> std h = Some doc"
  using assms by (rule rendered_file)

lemma renders:
  assumes patch_rfc: "\<And>ops h j j'. std h = Some j \<Longrightarrow> apply_patch ops j = Some j'
      \<Longrightarrow> json_wf j' \<Longrightarrow> \<exists>h'. patch_file ops h = Some h' \<and> std h' = Some j'"
    and format_same: "\<And>h. std (format_file h) = std h"
    and "std source = Some (JObj before)" "json_wf (JObj before)" "json_wf (JObj doc)"
  shows "\<exists>h. renderPolicyFile std patch_file format_file pack source (JObj doc) = Inr (pack h)
    \<and> std h = Some (JObj doc)"
proof -
  obtain ops where ops: "policyPatch (JObj before) (JObj doc) = Inr ops"
      "apply_patch ops (JObj before) = Some (JObj doc)"
    using policyPatch_objects [OF assms(4,5)] by blast
  then obtain h where "patch_file ops source = Some h" "std h = Some (JObj doc)"
    using patch_rfc assms(3,5) by blast
  then show ?thesis
    using ops assms(3) format_same by (auto simp: renderPolicyFile_def requireSameJSON_def)
qed

text \<open>
  Rendering succeeds when \<open>hujson\<close> keeps its documented contract: its patch applies RFC 6902
  to the standard JSON view, and formatting does not change that view.
\<close>

theorem render_succeeds:
  assumes patch_rfc: "\<And>ops h j j'. std h = Some j \<Longrightarrow> apply_patch ops j = Some j'
      \<Longrightarrow> json_wf j' \<Longrightarrow> \<exists>h'. patch_file ops h = Some h' \<and> std h' = Some j'"
    and format_same: "\<And>h. std (format_file h) = std h"
    and "std source = Some (JObj before)" "json_wf (JObj before)" "json_wf (JObj doc)"
  shows "\<exists>h. renderPolicyFile std patch_file format_file pack source (JObj doc) = Inr (pack h)
    \<and> std h = Some (JObj doc)"
  using assms by (rule renders)

text \<open>The witnesses take the plain JSON value for the file, with RFC 6902 as its patch operation.\<close>

lemma render_succeeds_witness:
  "\<exists>h. renderPolicyFile Some apply_patch (\<lambda>j. j) (\<lambda>_. ''packed'') (JObj sample_before) (JObj sample_after)
      = Inr ''packed'' \<and> Some h = Some (JObj sample_after)"
  by (rule render_succeeds [of Some apply_patch "\<lambda>j. j" "JObj sample_before" sample_before sample_after "\<lambda>_. ''packed''"])
    (simp_all add: sample_before_def sample_after_def)

lemma render_fail_closed_witness:
  "\<exists>h. ''packed'' = (\<lambda>_. ''packed'') h \<and> Some h = Some (JObj [])"
proof -
  have "renderPolicyFile Some apply_patch (\<lambda>j. j) (\<lambda>_. ''packed'') (JObj []) (JObj []) = Inr ''packed''"
    by (simp add: renderPolicyFile_def requireSameJSON_def policyPatch_def value_diff.simps [of "[]" "JObj []" "JObj []"])
  then show ?thesis by (rule render_fail_closed)
qed

end
