(* ===== verification/Mesh_Types.thy ===== *)
theory Mesh_Types
  imports Go_Json
begin

text \<open>
  The provider-neutral mesh types (internal/mesh/types.go): the SSH rule of a tailnet policy with
  the members serverpro does not model, the policy change and the reconcile plan, devices and
  enrollment keys.
\<close>

definition AutomationSourceTag :: string where "AutomationSourceTag = ''tag:serverpro-automation''"
definition RootSSHUser :: string where "RootSSHUser = ''root''"
definition ServerproPolicyOwner :: string where "ServerproPolicyOwner = ''autogroup:admin''"
definition SSHActionCheck :: string where "SSHActionCheck = ''check''"
definition SSHActionAccept :: string where "SSHActionAccept = ''accept''"

lemmas mesh_constants =
  AutomationSourceTag_def RootSSHUser_def ServerproPolicyOwner_def SSHActionCheck_def SSHActionAccept_def

record AuthKey =
  KeyID :: string
  KeyText :: string
  KeyDescription :: string
  KeyTags :: "string list"   \<comment> \<open>\<open>Capabilities.Devices.Create.Tags\<close>\<close>
  KeyCreated :: string

record Device =
  ID :: string
  NodeID :: string
  DeviceName :: string
  Hostname :: string
  Addresses :: "string list"
  DeviceTags :: "string list"
  Online :: bool
  ConnectedToControl :: bool
  DeviceCreated :: string

definition StableID :: "Device \<Rightarrow> string" where
  "StableID d = (if NodeID d \<noteq> '''' then NodeID d else ID d)"

record DNSConfig =
  MagicDNS :: bool
  GlobalNameservers :: "string list"

record SSHRule =
  Action :: string
  Src :: slice
  Dst :: slice
  Users :: slice
  extra :: "(string \<times> json) list"

record PolicyChange =
  TagOwners :: "string list"
  SSHRuleChanged :: bool
  AutomationSSHRule :: bool
  AutomationSSHRuleRemoved :: bool

definition Changed :: "PolicyChange \<Rightarrow> bool" where
  "Changed c \<longleftrightarrow> TagOwners c \<noteq> [] \<or> SSHRuleChanged c \<or> AutomationSSHRule c \<or> AutomationSSHRuleRemoved c"

record PolicyReconcilePlan =
  PlanTagOwners :: "string list"
  PlanSSHRules :: "SSHRule list"

definition EmptyPlan :: "PolicyReconcilePlan \<Rightarrow> bool" where
  "EmptyPlan p \<longleftrightarrow> PlanTagOwners p = [] \<and> PlanSSHRules p = []"

section \<open>Rules and their JSON\<close>

text \<open>
  \<open>UnmarshalJSON\<close> decodes the four known members and keeps every member but those four names;
  \<open>null\<close> decodes to the zero rule. \<open>MarshalJSON\<close> writes the known members, then the kept ones
  over them, in key order.
\<close>

definition rule_names :: "string list" where
  "rule_names = [''action'', ''src'', ''dst'', ''users'']"

definition zero_rule :: SSHRule where
  "zero_rule = \<lparr>Action = [], Src = None, Dst = None, Users = None, extra = []\<rparr>"

fun UnmarshalJSON :: "json \<Rightarrow> SSHRule option" where
  "UnmarshalJSON JNull = Some zero_rule"
| "UnmarshalJSON (JObj ms) =
     Option.bind (dec_string [] (json_values ''action'' ms)) (\<lambda>action.
     Option.bind (dec_slice None (json_values ''src'' ms)) (\<lambda>src.
     Option.bind (dec_slice None (json_values ''dst'' ms)) (\<lambda>dst.
     Option.bind (dec_slice None (json_values ''users'' ms)) (\<lambda>users.
       Some \<lparr>Action = action, Src = src, Dst = dst, Users = users,
              extra = filter (\<lambda>kv. fst kv \<notin> set rule_names) (obj_of ms)\<rparr>))))"
| "UnmarshalJSON _ = None"

definition MarshalJSON :: "SSHRule \<Rightarrow> json" where
  "MarshalJSON r =
     JObj (obj_of ([(''action'', JStr (Action r)), (''src'', enc_slice (Src r)), (''dst'', enc_slice (Dst r)),
                    (''users'', enc_slice (Users r))] @ extra r))"

text \<open>
  What decoding gives: kept members are in key order and none has a reserved name. A kept name that
  differs from a reserved one only in case is excluded from the round trip below.
\<close>

definition rule_wf :: "SSHRule \<Rightarrow> bool" where
  "rule_wf r \<longleftrightarrow> obj_sorted (extra r)
     \<and> (\<forall>kv \<in> set (extra r). json_fold (fst kv) \<notin> json_fold ` set rule_names)"

lemma rule_name_folds [simp]:
  "json_fold ''action'' = [97, 99, 116, 105, 111, 110]" "json_fold ''src'' = [115, 114, 99]"
  "json_fold ''dst'' = [100, 115, 116]" "json_fold ''users'' = [117, 115, 101, 114, 115]"
  by (simp_all add: json_fold_def go_runes_ascii fold_rune_def)

text \<open>In key order a name that nothing else folds to has one value, the one the map holds.\<close>

lemma json_values_unique:
  assumes "obj_sorted ob" "map_of ob name = Some v"
    and "\<forall>kv \<in> set ob. json_fold (fst kv) = json_fold name \<longrightarrow> fst kv = name"
  shows "json_values name ob = [v]"
proof -
  have "filter (\<lambda>kv. fst kv = name \<or> json_fold (fst kv) = json_fold name) ob = filter (\<lambda>kv. fst kv = name) ob"
    using assms(3) by (intro filter_cong) auto
  moreover have "filter (\<lambda>kv. fst kv = name) ob = [(name, v)]"
    using assms(1,2)
  proof (induction ob)
    case (Cons kv ob)
    show ?case
    proof (cases "fst kv = name")
      case True
      with Cons.prems(1) have "filter (\<lambda>kv. fst kv = name) ob = []" by (auto simp: filter_empty_conv)
      with True Cons.prems(2) show ?thesis by (cases kv) auto
    next
      case False
      with Cons show ?thesis by (cases kv) auto
    qed
  qed simp
  ultimately show ?thesis by (simp add: json_values_def)
qed

lemma rule_name_not_kept:
  assumes "rule_wf r" "n \<in> set rule_names"
  shows "map_of (extra r) n = None"
  using assms by (auto simp: rule_wf_def map_of_eq_None_iff)

lemma marshal_lookup:
  assumes "rule_wf r"
  shows "map_of (obj_of ([(''action'', JStr (Action r)), (''src'', enc_slice (Src r)), (''dst'', enc_slice (Dst r)),
      (''users'', enc_slice (Users r))] @ extra r)) =
    (map_of (extra r))(''action'' \<mapsto> JStr (Action r), ''src'' \<mapsto> enc_slice (Src r), ''dst'' \<mapsto> enc_slice (Dst r),
      ''users'' \<mapsto> enc_slice (Users r))"
    (is "map_of (obj_of (?known @ extra r)) = _")
proof -
  have rev: "map_of (rev (extra r)) = map_of (extra r)"
    using assms by (simp add: rule_wf_def obj_sorted_distinct map_of_rev_distinct)
  have none: "map_of (extra r) n = None" if "n \<in> set rule_names" for n
    using rule_name_not_kept [OF assms that] .
  show ?thesis
    using none by (auto simp: map_of_obj_of rev fun_eq_iff map_add_def rule_names_def split: option.split)
qed

lemma ssh_rule_decode:
  assumes "rule_wf r"
  shows "UnmarshalJSON (MarshalJSON r) = Some r"
proof -
  define ms where "ms = obj_of ([(''action'', JStr (Action r)), (''src'', enc_slice (Src r)),
      (''dst'', enc_slice (Dst r)), (''users'', enc_slice (Users r))] @ extra r)"
  have sorted: "obj_sorted ms" unfolding ms_def by (rule obj_of_sorted)
  have get: "map_of ms = (map_of (extra r))(''action'' \<mapsto> JStr (Action r), ''src'' \<mapsto> enc_slice (Src r),
      ''dst'' \<mapsto> enc_slice (Dst r), ''users'' \<mapsto> enc_slice (Users r))"
    unfolding ms_def by (rule marshal_lookup [OF assms])
  have fold: "fst kv = n" if "kv \<in> set ms" "n \<in> set rule_names" "json_fold (fst kv) = json_fold n" for kv n
  proof -
    have "fst kv \<in> set rule_names \<or> kv \<in> set (extra r)"
      using that(1) set_obj_of unfolding ms_def by (fastforce simp: rule_names_def)
    then show ?thesis
      using assms that(2,3) by (auto simp: rule_wf_def rule_names_def)
  qed
  have known: "json_values n ms = [v]" if "n \<in> set rule_names" "map_of ms n = Some v" for n v
    using sorted that(2) fold [OF _ that(1)] by (intro json_values_unique) auto
  have vals: "json_values ''action'' ms = [JStr (Action r)]" "json_values ''src'' ms = [enc_slice (Src r)]"
    "json_values ''dst'' ms = [enc_slice (Dst r)]" "json_values ''users'' ms = [enc_slice (Users r)]"
    by (rule known; simp add: rule_names_def get)+
  have extra: "filter (\<lambda>kv. fst kv \<notin> set rule_names) ms = extra r"
  proof (rule obj_eqI)
    show "obj_sorted (filter (\<lambda>kv. fst kv \<notin> set rule_names) ms)"
      using sorted by (simp add: sorted_wrt_map sorted_wrt_filter)
    show "obj_sorted (extra r)" using assms by (simp add: rule_wf_def)
    show "map_of (filter (\<lambda>kv. fst kv \<notin> set rule_names) ms) = map_of (extra r)"
    proof
      fix k
      show "map_of (filter (\<lambda>kv. fst kv \<notin> set rule_names) ms) k = map_of (extra r) k"
        using map_of_filter_fst [of "\<lambda>k. k \<notin> set rule_names" ms k] rule_name_not_kept [OF assms, of k]
        by (simp add: get rule_names_def split: if_splits)
    qed
  qed
  show ?thesis
    unfolding MarshalJSON_def ms_def [symmetric] UnmarshalJSON.simps vals obj_of_id [OF sorted] extra by simp
qed


text \<open>
  Rewriting a policy keeps what serverpro does not model: an SSH rule that is encoded and decoded
  again is the same rule, with every member of the rule the program has no field for.
\<close>

theorem ssh_rule_roundtrip:
  assumes "rule_wf r"
  shows "UnmarshalJSON (MarshalJSON r) = Some r"
  using assms by (rule ssh_rule_decode)

lemma ssh_rule_roundtrip_witness:
  "UnmarshalJSON (MarshalJSON \<lparr>Action = ''check'', Src = Some [''autogroup:admin''], Dst = Some [''tag:web''],
      Users = None, extra = [(''acceptEnv'', JArr [JStr ''LANG'']), (''checkPeriod'', JStr ''12h'')]\<rparr>)
    = Some \<lparr>Action = ''check'', Src = Some [''autogroup:admin''], Dst = Some [''tag:web''],
      Users = None, extra = [(''acceptEnv'', JArr [JStr ''LANG'']), (''checkPeriod'', JStr ''12h'')]\<rparr>"
  by (rule ssh_rule_roundtrip) (simp add: rule_wf_def rule_names_def json_fold_def go_runes_ascii fold_rune_def)

end
