(* ===== verification/Mesh_Device.thy ===== *)
theory Mesh_Device
  imports Mesh_Types
begin

text \<open>
  Which device of the tailnet is the managed node (internal/mesh/device.go, and the poll loop
  \<open>WaitDevice\<close> of internal/provider/tailscale/devices.go). Privileged traffic goes to the device
  that is chosen here, so every doubt is an error.

  A \<open>time.Time\<close> is an integer, the nanoseconds since Go's zero time; \<open>IsZero\<close> is being 0.
  \<open>parse_time\<close> stands for \<open>time.Parse(time.RFC3339, _)\<close>; nothing is assumed of it.
\<close>

datatype device_error =
    ErrDeviceNotFound
  | ErrDeviceAmbiguous "string list"   \<comment> \<open>the stable identifiers of the candidates\<close>
  | ErrBoundDeviceMissing
  | ErrBoundDeviceMismatch

record DeviceQuery =
  QHostname :: string
  QTags :: "string list"
  QNodeID :: string
  CreatedNotBefore :: int

definition ManagedDeviceQuery :: "string \<Rightarrow> string list \<Rightarrow> string \<Rightarrow> int \<Rightarrow> DeviceQuery" where
  "ManagedDeviceQuery hostname tags recordedNodeID enrolledSince =
     (let q = \<lparr>QHostname = hostname, QTags = tags, QNodeID = '''', CreatedNotBefore = enrolledSince\<rparr>
      in if enrolledSince = 0 then q\<lparr>QNodeID := recordedNodeID\<rparr> else q)"

definition DeviceMatches :: "Device \<Rightarrow> string \<Rightarrow> string list \<Rightarrow> bool" where
  "DeviceMatches device hostname tags =
     (let want = trim_suffix hostname ''.'';
          name = trim_suffix (DeviceName device) ''.'';
          deviceHost = trim_suffix (Hostname device) ''.''
      in if want = '''' then False
         else if deviceHost \<noteq> want \<and> name \<noteq> want \<and> \<not> has_prefix name (want @ ''.'')
                 \<and> \<not> has_prefix want (name @ ''.'') then False
         else list_all (\<lambda>tag. tag \<in> set (DeviceTags device)) tags)"

definition createdNotBefore :: "(string \<Rightarrow> int option) \<Rightarrow> Device \<Rightarrow> int \<Rightarrow> bool" where
  "createdNotBefore parse_time device bound =
     (if bound = 0 then True
      else case parse_time (DeviceCreated device) of
        None \<Rightarrow> False
      | Some created \<Rightarrow> \<not> created < bound)"

definition deviceIDs :: "Device list \<Rightarrow> string list" where
  "deviceIDs devices = sort (map StableID devices)"

fun selectBoundDevice :: "Device list \<Rightarrow> DeviceQuery \<Rightarrow> (device_error, Device) result" where
  "selectBoundDevice [] q = Inl ErrBoundDeviceMissing"
| "selectBoundDevice (device # devices) q =
     (if ID device \<noteq> QNodeID q \<and> NodeID device \<noteq> QNodeID q then selectBoundDevice devices q
      else if \<not> DeviceMatches device (QHostname q) (QTags q) then Inl ErrBoundDeviceMismatch
      else Inr device)"

definition SelectDevice ::
  "(string \<Rightarrow> int option) \<Rightarrow> Device list \<Rightarrow> DeviceQuery \<Rightarrow> (device_error, Device) result" where
  "SelectDevice parse_time devices q =
     (if QNodeID q \<noteq> '''' then selectBoundDevice devices q
      else
        (let found = filter (\<lambda>device. DeviceMatches device (QHostname q) (QTags q)
                                 \<and> createdNotBefore parse_time device (CreatedNotBefore q)) devices
         in case found of
              [] \<Rightarrow> Inl ErrDeviceNotFound
            | [device] \<Rightarrow> Inr device
            | _ \<Rightarrow> Inl (ErrDeviceAmbiguous (deviceIDs found))))"

section \<open>Waiting for the device\<close>

text \<open>
  \<open>WaitDevice\<close> polls. What one turn reads is the answer of the device list call, and whether the
  wait after it was cut off; the loop reads the turns in order, and ends where the wait is cut off.
\<close>

datatype wait_error =
    DeviceUntrusted device_error     \<comment> \<open>ambiguity, or a recorded device that is gone or changed\<close>
  | NotOnline "string option"        \<comment> \<open>the wait ended; with the last API error\<close>

type_synonym wait_turn = "(string, Device list) result \<times> bool"

fun wait_device ::
  "(string \<Rightarrow> int option) \<Rightarrow> DeviceQuery \<Rightarrow> wait_turn list \<Rightarrow> (wait_error, Device) result option" where
  "wait_device parse_time q [] = None"
| "wait_device parse_time q ((answer, cut_off) # turns) =
     (let continue_with = (\<lambda>lastErr. if cut_off then Some (Inl (NotOnline lastErr)) else wait_device parse_time q turns)
      in case answer of
           Inl e \<Rightarrow> continue_with (Some e)
         | Inr devices \<Rightarrow>
             (case SelectDevice parse_time devices q of
                Inr d \<Rightarrow> if Online d \<or> ConnectedToControl d then Some (Inr d) else continue_with None
              | Inl e \<Rightarrow> if e \<noteq> ErrDeviceNotFound then Some (Inl (DeviceUntrusted e)) else continue_with None))"

definition WaitDevice ::
  "(string \<Rightarrow> int option) \<Rightarrow> DeviceQuery \<Rightarrow> wait_turn list \<Rightarrow> (wait_error, Device) result option" where
  "WaitDevice parse_time q turns =
     wait_device parse_time (q\<lparr>QHostname := trim_suffix (QHostname q) ''.''\<rparr>) turns"

section \<open>What a selected device is\<close>

lemma selectBoundDevice_Inr:
  "selectBoundDevice devices q = Inr d \<Longrightarrow>
     d \<in> set devices \<and> DeviceMatches d (QHostname q) (QTags q) \<and> (ID d = QNodeID q \<or> NodeID d = QNodeID q)"
  by (induction devices q rule: selectBoundDevice.induct) (auto split: if_splits)

lemma selectBoundDevice_not_found: "selectBoundDevice devices q \<noteq> Inl ErrDeviceNotFound"
  by (induction devices q rule: selectBoundDevice.induct) auto

lemma SelectDevice_Inr:
  "SelectDevice parse_time devices q = Inr d \<Longrightarrow> d \<in> set devices \<and> DeviceMatches d (QHostname q) (QTags q)"
  by (auto simp: SelectDevice_def Let_def filter_eq_Cons_iff dest: selectBoundDevice_Inr
      split: if_splits list.splits)

text \<open>
  A query without a recorded device selects \<open>d\<close> exactly when \<open>d\<close> is the one device of the
  list that carries the identity and was enrolled inside the window; a second candidate anywhere in
  the list, even a copy, means that none is selected.
\<close>

theorem select_device_unique:
  assumes "QNodeID q = ''''"
  shows "SelectDevice parse_time devices q = Inr d \<longleftrightarrow>
    filter (\<lambda>x. DeviceMatches x (QHostname q) (QTags q) \<and> createdNotBefore parse_time x (CreatedNotBefore q)) devices = [d]"
  using assms by (auto simp: SelectDevice_def Let_def split: list.splits)

definition sample_device :: "string \<Rightarrow> string \<Rightarrow> Device" where
  "sample_device node name =
     \<lparr>ID = '''', NodeID = node, DeviceName = name, Hostname = '''', Addresses = [],
      DeviceTags = [''tag:serverpro-web''], Online = True, ConnectedToControl = True, DeviceCreated = ''''\<rparr>"

lemma select_device_unique_witness:
  "SelectDevice (\<lambda>_. None) [sample_device ''n1'' ''web.ts.net'', sample_device ''n2'' ''db.ts.net'']
      (ManagedDeviceQuery ''web.'' [''tag:serverpro-web''] '''' 0) = Inr (sample_device ''n1'' ''web.ts.net'')
   \<longleftrightarrow> filter (\<lambda>x. DeviceMatches x ''web.'' [''tag:serverpro-web''] \<and> createdNotBefore (\<lambda>_. None) x 0)
      [sample_device ''n1'' ''web.ts.net'', sample_device ''n2'' ''db.ts.net''] = [sample_device ''n1'' ''web.ts.net'']"
  using select_device_unique [of "ManagedDeviceQuery ''web.'' [''tag:serverpro-web''] '''' 0" "\<lambda>_. None"
      "[sample_device ''n1'' ''web.ts.net'', sample_device ''n2'' ''db.ts.net'']" "sample_device ''n1'' ''web.ts.net''"]
  by (simp add: ManagedDeviceQuery_def)

text \<open>
  A server with a recorded device and no open enrolment window is only ever matched to that
  device: what \<open>SelectDevice\<close> returns carries the recorded identifier and the managed name and
  tags, and when no device of the list carries the identifier the answer is the terminal error, never
  another device.
\<close>

theorem bound_device_never_replaced:
  assumes "recorded \<noteq> ''''"
  shows "(case SelectDevice parse_time devices (ManagedDeviceQuery hostname tags recorded 0) of
      Inr d \<Rightarrow> d \<in> set devices \<and> (ID d = recorded \<or> NodeID d = recorded) \<and> DeviceMatches d hostname tags
    | Inl e \<Rightarrow> e = (if \<exists>d \<in> set devices. ID d = recorded \<or> NodeID d = recorded
          then ErrBoundDeviceMismatch else ErrBoundDeviceMissing))"
proof -
  let ?q = "ManagedDeviceQuery hostname tags recorded 0"
  have q: "QNodeID ?q = recorded" "QHostname ?q = hostname" "QTags ?q = tags"
    by (simp_all add: ManagedDeviceQuery_def)
  have sel: "SelectDevice parse_time devices ?q = selectBoundDevice devices ?q"
    using assms q by (simp add: SelectDevice_def)
  show ?thesis
    unfolding sel
    by (induction devices) (auto simp: q split: sum.splits)
qed

lemma bound_device_never_replaced_witness:
  "(case SelectDevice (\<lambda>_. None) [sample_device ''n2'' ''web.ts.net''] (ManagedDeviceQuery ''web'' [] ''n1'' 0) of
      Inr d \<Rightarrow> d \<in> set [sample_device ''n2'' ''web.ts.net''] \<and> (ID d = ''n1'' \<or> NodeID d = ''n1'') \<and> DeviceMatches d ''web'' []
    | Inl e \<Rightarrow> e = (if \<exists>d \<in> set [sample_device ''n2'' ''web.ts.net'']. ID d = ''n1'' \<or> NodeID d = ''n1''
          then ErrBoundDeviceMismatch else ErrBoundDeviceMissing))"
  by (rule bound_device_never_replaced) simp

text \<open>A turn after which the loop polls again.\<close>

definition keeps_waiting :: "(string \<Rightarrow> int option) \<Rightarrow> DeviceQuery \<Rightarrow> wait_turn \<Rightarrow> bool" where
  "keeps_waiting parse_time q turn \<longleftrightarrow>
     (case fst turn of Inl _ \<Rightarrow> True
      | Inr ds \<Rightarrow> (case SelectDevice parse_time ds q of
            Inl e \<Rightarrow> e = ErrDeviceNotFound
          | Inr d \<Rightarrow> \<not> Online d \<and> \<not> ConnectedToControl d))"

lemma wait_device_Some:
  "wait_device parse_time q turns = Some (Inr d) \<Longrightarrow>
     \<exists>before devices cut_off after. turns = before @ (Inr devices, cut_off) # after
       \<and> SelectDevice parse_time devices q = Inr d \<and> (Online d \<or> ConnectedToControl d)
       \<and> list_all (keeps_waiting parse_time q) before"
proof (induction turns)
  case (Cons turn turns)
  obtain answer cut_off where turn: "turn = (answer, cut_off)" by (cases turn)
  have "(keeps_waiting parse_time q turn \<and> wait_device parse_time q turns = Some (Inr d))
    \<or> (\<exists>devices. answer = Inr devices \<and> SelectDevice parse_time devices q = Inr d \<and> (Online d \<or> ConnectedToControl d))"
    using Cons.prems turn by (auto simp: keeps_waiting_def Let_def split: sum.splits if_splits)
  then show ?case
  proof
    assume "keeps_waiting parse_time q turn \<and> wait_device parse_time q turns = Some (Inr d)"
    moreover from this Cons.IH obtain before devices c after where
      "turns = before @ (Inr devices, c) # after" "SelectDevice parse_time devices q = Inr d"
      "Online d \<or> ConnectedToControl d" "list_all (keeps_waiting parse_time q) before"
      by blast
    ultimately show ?thesis by (metis append_Cons list.pred_inject(2))
  next
    assume "\<exists>devices. answer = Inr devices \<and> SelectDevice parse_time devices q = Inr d \<and> (Online d \<or> ConnectedToControl d)"
    then show ?thesis unfolding turn by (metis append_Nil list.pred_inject(1))
  qed
qed simp

text \<open>
  C26. What the poll loop returns can be trusted: it is a reachable device that the identity policy
  selects in the last list it read; and the loop kept polling only over answers that selected
  nothing, an offline device or an API error. An ambiguous or changed identity ends it.
\<close>

theorem wait_device_sound:
  assumes "WaitDevice parse_time q turns = Some (Inr d)"
  shows "\<exists>before devices cut_off after. turns = before @ (Inr devices, cut_off) # after
    \<and> SelectDevice parse_time devices (q\<lparr>QHostname := trim_suffix (QHostname q) ''.''\<rparr>) = Inr d
    \<and> (Online d \<or> ConnectedToControl d)
    \<and> list_all (keeps_waiting parse_time (q\<lparr>QHostname := trim_suffix (QHostname q) ''.''\<rparr>)) before"
  using wait_device_Some assms unfolding WaitDevice_def by blast

definition sample_turns :: "wait_turn list" where
  "sample_turns = [(Inl ''502'', False), (Inr [], False), (Inr [sample_device ''n1'' ''web.ts.net''], False)]"

definition sample_query :: DeviceQuery where
  "sample_query = ManagedDeviceQuery ''web.'' [] [] 0"

lemma wait_device_sound_witness:
  "\<exists>before devices cut_off after. sample_turns = before @ (Inr devices, cut_off) # after
    \<and> SelectDevice (\<lambda>_. None) devices (sample_query\<lparr>QHostname := trim_suffix (QHostname sample_query) ''.''\<rparr>)
        = Inr (sample_device ''n1'' ''web.ts.net'')
    \<and> (Online (sample_device ''n1'' ''web.ts.net'') \<or> ConnectedToControl (sample_device ''n1'' ''web.ts.net''))
    \<and> list_all (keeps_waiting (\<lambda>_. None) (sample_query\<lparr>QHostname := trim_suffix (QHostname sample_query) ''.''\<rparr>)) before"
  by (rule wait_device_sound) code_simp

end
