(* ===== verification/Ssh_Policy.thy ===== *)
theory Ssh_Policy
  imports Mesh_Types Policy_Patch
begin

text \<open>
  The tailnet policy document and its edits (internal/provider/tailscale: policy_document.go,
  policy_ssh_rule.go, policy.go, policy_request.go, policy_validate.go,
  policy_validation_error.go). A document is the Go map of its top-level sections; the rule and
  owner sections are decoded, edited and encoded again, the others are never read.

  The tailnet API and the package \<open>hujson\<close> are parameters, collected in the record
  \<open>policy_api\<close>; each run returns what it answered and the policy writes it sent.
\<close>

type_synonym policyDocument = "(string, json) gomap"

datatype policy_error =
    ApiError string
  | ParseError                       \<comment> \<open>\<open>hujson.Parse\<close> refused the file\<close>
  | PolicyDecodeError
  | ErrPolicyNotObject
  | ErrPolicyETagMissing
  | RenderError patch_error
  | PolicyValidationError string "(string \<times> string list) list" "string option"
  | NilMapPanic                      \<comment> \<open>assignment to an entry of a nil map\<close>
  | UnsupportedRootPolicy
  | UnsupportedHumanAction
  | RefusedRootAccept
  | UnsupportedAutomationSource
  | UnsafeRootRule
  | UnsafeNonrootRule
  | NoSSHRule
  | AdminNotAllowed
  | NoAutomationRule
  | NoHumanAcceptRule
  | ErrPolicyReconcilePlanChanged

section \<open>Sets of strings\<close>

text \<open>\<open>sameStringSet\<close> counts the strings of \<open>a\<close> up and those of \<open>b\<close> down.\<close>

definition seen_count :: "(string, int) gomap \<Rightarrow> string \<Rightarrow> int" where
  "seen_count seen s = (case gm_get seen s of None \<Rightarrow> 0 | Some n \<Rightarrow> n)"

fun count_up :: "(string, int) gomap \<Rightarrow> string list \<Rightarrow> (string, int) gomap" where
  "count_up seen [] = seen"
| "count_up seen (s # a) = count_up (gm_put s (seen_count seen s + 1) seen) a"

fun count_down :: "(string, int) gomap \<Rightarrow> string list \<Rightarrow> bool" where
  "count_down seen [] = True"
| "count_down seen (s # b) =
     (let seen' = gm_put s (seen_count seen s - 1) seen
      in if seen_count seen' s < 0 then False else count_down seen' b)"

definition sameStringSet :: "string list \<Rightarrow> string list \<Rightarrow> bool" where
  "sameStringSet a b = (if length a \<noteq> length b then False else count_down (count_up [] a) b)"

lemma seen_count_put [simp]: "seen_count (gm_put s n seen) t = (if s = t then n else seen_count seen t)"
  by (simp add: seen_count_def)

lemma seen_count_Nil [simp]: "seen_count [] s = 0"
  by (simp add: seen_count_def)

lemma count_up_spec: "seen_count (count_up seen a) s = seen_count seen s + int (count (mset a) s)"
  by (induction seen a rule: count_up.induct) auto

lemma count_down_spec:
  "(\<forall>s. 0 \<le> seen_count seen s) \<Longrightarrow> count_down seen b \<longleftrightarrow> (\<forall>s. int (count (mset b) s) \<le> seen_count seen s)"
proof (induction seen b rule: count_down.induct)
  case (2 seen s b)
  show ?case
  proof (cases "seen_count seen s - 1 < 0")
    case True
    have "\<not> int (count (mset (s # b)) s) \<le> seen_count seen s" using True by simp
    with True show ?thesis by (auto simp: Let_def)
  next
    case False
    with 2 have "count_down (gm_put s (seen_count seen s - 1) seen) b
        \<longleftrightarrow> (\<forall>t. int (count (mset b) t) \<le> (if s = t then seen_count seen s - 1 else seen_count seen t))"
      by simp
    also have "\<dots> \<longleftrightarrow> (\<forall>t. int (count (mset (s # b)) t) \<le> seen_count seen t)"
      by (intro all_cong1) auto
    finally show ?thesis using False by (simp add: Let_def)
  qed
qed simp

lemma sameStringSet_mset: "sameStringSet a b \<longleftrightarrow> mset a = mset b"
proof (cases "length a = length b")
  case True
  have "sameStringSet a b \<longleftrightarrow> (\<forall>s. count (mset b) s \<le> count (mset a) s)"
    using True by (simp add: sameStringSet_def count_down_spec count_up_spec)
  also have "\<dots> \<longleftrightarrow> mset b \<subseteq># mset a" by (simp add: subseteq_mset_def)
  also have "\<dots> \<longleftrightarrow> mset a = mset b"
    using True by (metis mset_subset_eq_exists_conv size_mset size_union add_cancel_right_right size_eq_0_iff_empty
        add.right_neutral subset_mset.order_refl)
  finally show ?thesis .
next
  case False
  then show ?thesis by (auto simp: sameStringSet_def dest: mset_eq_length)
qed

lemma mset_single_list: "mset xs = {#x#} \<longleftrightarrow> xs = [x]"
  by (metis mset_single_iff mset_single_iff_right mset.simps(1) mset.simps(2))

section \<open>The document\<close>

definition tagOwners :: "policyDocument \<Rightarrow> (policy_error, (string, slice) gomap option) result" where
  "tagOwners d =
     (case gm_get d ''tagOwners'' of
        None \<Rightarrow> Inr (Some [])
      | Some JNull \<Rightarrow> Inr None
      | Some (JObj ms) \<Rightarrow>
          (case dec_all (\<lambda>kv. map_option (Pair (fst kv)) (dec_slice None [snd kv])) ms of
             None \<Rightarrow> Inl PolicyDecodeError
           | Some owners \<Rightarrow> Inr (Some (gm_copy [] owners)))
      | Some _ \<Rightarrow> Inl PolicyDecodeError)"

definition setTagOwners :: "(string, slice) gomap option \<Rightarrow> policyDocument \<Rightarrow> policyDocument" where
  "setTagOwners owners d =
     (if items owners = [] then gm_del ''tagOwners'' d
      else gm_put ''tagOwners'' (JObj (obj_of (map (\<lambda>kv. (fst kv, enc_slice (snd kv))) (items owners)))) d)"

fun add_owners ::
  "(string, slice) gomap option \<Rightarrow> string list \<Rightarrow> (policy_error, (string, slice) gomap option \<times> string list) result" where
  "add_owners owners [] = Inr (owners, [])"
| "add_owners owners (tag # tags) =
     (if gm_get (items owners) tag \<noteq> None then add_owners owners tags
      else (case owners of
              None \<Rightarrow> Inl NilMapPanic
            | Some m \<Rightarrow>
                bindR (add_owners (Some (gm_put tag (Some [ServerproPolicyOwner]) m)) tags)
                  (\<lambda>(owners', added). Inr (owners', tag # added))))"

definition ensureTagOwners :: "policyDocument \<Rightarrow> string list \<Rightarrow> (policy_error, string list \<times> policyDocument) result" where
  "ensureTagOwners d tags =
     bindR (tagOwners d) (\<lambda>owners.
       bindR (add_owners owners tags) (\<lambda>(owners', added).
         if added = [] then Inr ([], d) else Inr (sort added, setTagOwners owners' d)))"

fun del_owners :: "(string, slice) gomap option \<Rightarrow> string list \<Rightarrow> (string, slice) gomap option \<times> bool" where
  "del_owners owners [] = (owners, False)"
| "del_owners owners (tag # tags) =
     (if gm_get (items owners) tag = None then del_owners owners tags
      else (fst (del_owners (map_option (gm_del tag) owners) tags), True))"

definition removeTagOwners :: "policyDocument \<Rightarrow> string list \<Rightarrow> (policy_error, bool \<times> policyDocument) result" where
  "removeTagOwners d tags =
     bindR (tagOwners d) (\<lambda>owners.
       case del_owners owners tags of (owners', changed) \<Rightarrow>
         if \<not> changed then Inr (False, d) else Inr (True, setTagOwners owners' d))"

fun dec_rules :: "json \<Rightarrow> SSHRule list option" where
  "dec_rules JNull = Some []"
| "dec_rules (JArr xs) = dec_all UnmarshalJSON xs"
| "dec_rules _ = None"

definition sshRules :: "policyDocument \<Rightarrow> (policy_error, SSHRule list) result" where
  "sshRules d =
     (case gm_get d ''ssh'' of
        None \<Rightarrow> Inr []
      | Some raw \<Rightarrow> (case dec_rules raw of None \<Rightarrow> Inl PolicyDecodeError | Some rules \<Rightarrow> Inr rules))"

definition setSSHRules :: "SSHRule list \<Rightarrow> policyDocument \<Rightarrow> policyDocument" where
  "setSSHRules rules d =
     (if rules = [] then gm_del ''ssh'' d else gm_put ''ssh'' (JArr (map MarshalJSON rules)) d)"

section \<open>The human rule and the automation rule\<close>

definition serverproSSHRule :: "string list \<Rightarrow> string \<Rightarrow> string \<Rightarrow> SSHRule" where
  "serverproSSHRule tags adminUser action =
     \<lparr>Action = action, Src = Some [ServerproPolicyOwner],
      Dst = (if tags = [] then None else Some tags), Users = Some [adminUser], extra = []\<rparr>"

definition serverproSSHRuleMatches :: "SSHRule \<Rightarrow> string list \<Rightarrow> string \<Rightarrow> bool" where
  "serverproSSHRuleMatches rule tags adminUser \<longleftrightarrow>
     (Action rule = SSHActionCheck \<or> Action rule = SSHActionAccept)
     \<and> sameStringSet (items (Src rule)) [ServerproPolicyOwner]
     \<and> sameStringSet (items (Dst rule)) tags \<and> sameStringSet (items (Users rule)) [adminUser]"

definition automationSSHRule :: "string list \<Rightarrow> string \<Rightarrow> string \<Rightarrow> SSHRule" where
  "automationSSHRule tags adminUser source =
     \<lparr>Action = SSHActionAccept, Src = Some [source],
      Dst = (if tags = [] then None else Some tags), Users = Some [adminUser], extra = []\<rparr>"

definition automationSSHRuleMatches :: "SSHRule \<Rightarrow> string list \<Rightarrow> string \<Rightarrow> string \<Rightarrow> bool" where
  "automationSSHRuleMatches rule tags adminUser source \<longleftrightarrow>
     Action rule = SSHActionAccept \<and> sameStringSet (items (Src rule)) [source]
     \<and> sameStringSet (items (Dst rule)) tags \<and> sameStringSet (items (Users rule)) [adminUser]"

fun human_loop ::
  "string list \<Rightarrow> string \<Rightarrow> string \<Rightarrow> SSHRule list \<Rightarrow> bool \<Rightarrow> bool \<Rightarrow> SSHRule list \<times> bool \<times> bool" where
  "human_loop tags adminUser action [] found changed = ([], found, changed)"
| "human_loop tags adminUser action (rule # rules) found changed =
     (if \<not> serverproSSHRuleMatches rule tags adminUser
      then (case human_loop tags adminUser action rules found changed of (out, f, c) \<Rightarrow> (rule # out, f, c))
      else if found then human_loop tags adminUser action rules found True
      else (case human_loop tags adminUser action rules True (changed \<or> Action rule \<noteq> action) of
              (out, f, c) \<Rightarrow> (rule\<lparr>Action := action\<rparr> # out, f, c)))"

definition ensureSSHRule :: "policyDocument \<Rightarrow> string list \<Rightarrow> string \<Rightarrow> string \<Rightarrow> (policy_error, bool \<times> policyDocument) result" where
  "ensureSSHRule d tags adminUser action =
     bindR (sshRules d) (\<lambda>rules.
       case human_loop tags adminUser action rules False False of (out, found, changed) \<Rightarrow>
         let out' = (if \<not> found then out @ [serverproSSHRule tags adminUser action] else out);
             changed' = (if \<not> found then True else changed)
         in if \<not> changed' then Inr (False, d) else Inr (True, setSSHRules out' d))"

fun automation_loop :: "string list \<Rightarrow> string \<Rightarrow> SSHRule list \<Rightarrow> bool \<Rightarrow> SSHRule list \<times> bool \<times> bool" where
  "automation_loop tags adminUser [] found = ([], found, False)"
| "automation_loop tags adminUser (rule # rules) found =
     (if \<not> automationSSHRuleMatches rule tags adminUser AutomationSourceTag
      then (case automation_loop tags adminUser rules found of (out, f, r) \<Rightarrow> (rule # out, f, r))
      else if found then (case automation_loop tags adminUser rules found of (out, f, r) \<Rightarrow> (out, f, True))
      else (case automation_loop tags adminUser rules True of (out, f, r) \<Rightarrow> (rule # out, f, r)))"

definition ensureAutomationSSHRule ::
  "policyDocument \<Rightarrow> string list \<Rightarrow> string \<Rightarrow> string \<Rightarrow> (policy_error, bool \<times> bool \<times> policyDocument) result" where
  "ensureAutomationSSHRule d tags adminUser source =
     (if source = '''' then Inr (False, False, d)
      else bindR (sshRules d) (\<lambda>rules.
        case automation_loop tags adminUser rules False of (out, found, removed) \<Rightarrow>
          let out' = (if \<not> found then out @ [automationSSHRule tags adminUser source] else out);
              added = (\<not> found)
          in if \<not> added \<and> \<not> removed then Inr (False, False, d) else Inr (added, removed, setSSHRules out' d)))"

definition removeAutomationSSHRule :: "policyDocument \<Rightarrow> string list \<Rightarrow> string \<Rightarrow> (policy_error, bool \<times> policyDocument) result" where
  "removeAutomationSSHRule d tags adminUser =
     bindR (sshRules d) (\<lambda>rules.
       let out = filter (\<lambda>rule. \<not> automationSSHRuleMatches rule tags adminUser AutomationSourceTag) rules
       in if length out = length rules then Inr (False, d) else Inr (True, setSSHRules out d))"

section \<open>Keeping one managed rule in a rule list\<close>

text \<open>
  What both loops do: the first rule that is recognised stays, brought up to date, its further
  copies go, and the rule is added when there was none. \<open>rule_keeper\<close> is what the loops need of
  recognition, update and the new rule; it gives what the policy owner relies on.
\<close>

fun keep_first :: "('r \<Rightarrow> bool) \<Rightarrow> ('r \<Rightarrow> 'r) \<Rightarrow> bool \<Rightarrow> 'r list \<Rightarrow> 'r list" where
  "keep_first matches update found [] = []"
| "keep_first matches update found (r # rs) =
     (if \<not> matches r then r # keep_first matches update found rs
      else if found then keep_first matches update True rs
      else update r # keep_first matches update True rs)"

definition keep_one :: "('r \<Rightarrow> bool) \<Rightarrow> ('r \<Rightarrow> 'r) \<Rightarrow> 'r \<Rightarrow> 'r list \<Rightarrow> 'r list" where
  "keep_one matches update new rs =
     keep_first matches update False rs @ (if \<exists>r \<in> set rs. matches r then [] else [new])"

locale rule_keeper =
  fixes matches :: "'r \<Rightarrow> bool"
    and update :: "'r \<Rightarrow> 'r"
    and new :: 'r
  assumes update_matches: "matches r \<Longrightarrow> matches (update r)"
    and update_update: "update (update r) = update r"
    and new_matches: "matches new"
    and update_new: "update new = new"
begin

lemma keep_first_foreign:
  "filter (\<lambda>r. \<not> matches r) (keep_first matches update found rs) = filter (\<lambda>r. \<not> matches r) rs"
  by (induction rs arbitrary: found) (auto dest: update_matches)

lemma keep_first_matching:
  "filter matches (keep_first matches update found rs) =
     (if found then [] else map update (take 1 (filter matches rs)))"
  by (induction rs arbitrary: found) (auto dest: update_matches)

lemma foreign_kept:
  "filter (\<lambda>r. \<not> matches r) (keep_one matches update new rs) = filter (\<lambda>r. \<not> matches r) rs"
  by (simp add: keep_one_def keep_first_foreign new_matches)

lemma one_left:
  "filter matches (keep_one matches update new rs)
     = [case filter matches rs of [] \<Rightarrow> new | r # _ \<Rightarrow> update r]"
  by (auto simp: keep_one_def keep_first_matching new_matches filter_empty_conv split: list.split)

lemma keep_first_fixed:
  "filter matches rs = [] \<Longrightarrow> keep_first matches update found rs = rs"
  "filter matches rs = [r] \<Longrightarrow> update r = r \<Longrightarrow> keep_first matches update False rs = rs"
proof -
  show none: "filter matches rs = [] \<Longrightarrow> keep_first matches update found rs = rs" for found rs
    by (induction rs) (auto split: if_splits)
  show "filter matches rs = [r] \<Longrightarrow> update r = r \<Longrightarrow> keep_first matches update False rs = rs"
    by (induction rs) (auto simp: none split: if_splits)
qed

lemma keep_one_fixed:
  assumes "filter matches rs = [r]" "update r = r"
  shows "keep_one matches update new rs = rs"
proof -
  have "\<exists>r \<in> set rs. matches r" using assms(1) by (metis filter_eq_ConsD in_set_conv_decomp)
  with assms show ?thesis by (simp add: keep_one_def keep_first_fixed)
qed

lemma keep_one_idempotent: "keep_one matches update new (keep_one matches update new rs) = keep_one matches update new rs"
  by (rule keep_one_fixed [OF one_left]) (simp add: update_update update_new split: list.split)

lemma keep_one_unchanged_iff:
  "keep_one matches update new rs = rs \<longleftrightarrow> (\<exists>r. filter matches rs = [r] \<and> update r = r)"
proof
  assume eq: "keep_one matches update new rs = rs"
  then have "filter matches rs = [case filter matches rs of [] \<Rightarrow> new | r # _ \<Rightarrow> update r]"
    using one_left [of rs] by simp
  then show "\<exists>r. filter matches rs = [r] \<and> update r = r" by (auto split: list.splits)
qed (auto intro: keep_one_fixed)

end

text \<open>A foreign rule keeps its place among the others: another keeper does not see the change.\<close>

lemma filter_keep_first_other:
  assumes "\<And>r. matches r \<Longrightarrow> \<not> P r \<and> \<not> P (update r)"
  shows "filter P (keep_first matches update found rs) = filter P rs"
  using assms by (induction rs arbitrary: found) auto

lemma filter_keep_one_other:
  assumes "\<And>r. matches r \<Longrightarrow> \<not> P r \<and> \<not> P (update r)" "\<not> P new"
  shows "filter P (keep_one matches update new rs) = filter P rs"
  using assms by (simp add: keep_one_def filter_keep_first_other)

lemma set_keep_one: "set (keep_one matches update new rs) \<subseteq> {r \<in> set rs. \<not> matches r} \<union> update ` {r \<in> set rs. matches r} \<union> {new}"
proof -
  have "set (keep_first matches update found rs) \<subseteq> {r \<in> set rs. \<not> matches r} \<union> update ` {r \<in> set rs. matches r}" for found
    by (induction rs arbitrary: found) (auto split: if_splits)
  then show ?thesis by (auto simp: keep_one_def)
qed

abbreviation human :: "string list \<Rightarrow> string \<Rightarrow> SSHRule \<Rightarrow> bool" where
  "human tags adminUser rule \<equiv> serverproSSHRuleMatches rule tags adminUser"

abbreviation automation :: "string list \<Rightarrow> string \<Rightarrow> SSHRule \<Rightarrow> bool" where
  "automation tags adminUser rule \<equiv> automationSSHRuleMatches rule tags adminUser AutomationSourceTag"

lemmas rule_match_defs = serverproSSHRuleMatches_def automationSSHRuleMatches_def sameStringSet_mset mset_single_list

lemma items_dst_new: "items (if tags = [] then None else Some tags) = tags"
  by simp

interpretation human_check: rule_keeper "human tags adminUser" "\<lambda>r. r\<lparr>Action := SSHActionCheck\<rparr>"
    "serverproSSHRule tags adminUser SSHActionCheck" for tags adminUser
  by unfold_locales (simp_all add: rule_match_defs serverproSSHRule_def)

interpretation human_accept: rule_keeper "human tags adminUser" "\<lambda>r. r\<lparr>Action := SSHActionAccept\<rparr>"
    "serverproSSHRule tags adminUser SSHActionAccept" for tags adminUser
  by unfold_locales (simp_all add: rule_match_defs serverproSSHRule_def)

interpretation automation_rule: rule_keeper "automation tags adminUser" "\<lambda>r. r"
    "automationSSHRule tags adminUser AutomationSourceTag" for tags adminUser
  by unfold_locales (simp_all add: rule_match_defs automationSSHRule_def)

text \<open>The loops are instances, and they report a change exactly when the list changes.\<close>

lemma human_loop_keep:
  "human_loop tags adminUser action rules found changed =
     (keep_first (human tags adminUser) (\<lambda>r. r\<lparr>Action := action\<rparr>) found rules,
      found \<or> (\<exists>r \<in> set rules. human tags adminUser r),
      changed \<or> keep_first (human tags adminUser) (\<lambda>r. r\<lparr>Action := action\<rparr>) found rules \<noteq> rules)"
proof (induction tags adminUser action rules found changed rule: human_loop.induct)
  case (2 tags adminUser action rule rules found changed)
  have shorter: "length (keep_first (human tags adminUser) (\<lambda>r. r\<lparr>Action := action\<rparr>) True rs) \<le> length rs" for rs
    by (induction rs) auto
  have "keep_first (human tags adminUser) (\<lambda>r. r\<lparr>Action := action\<rparr>) True rules \<noteq> rule # rules"
    using shorter [of rules] by auto
  moreover have "rule\<lparr>Action := action\<rparr> = rule \<longleftrightarrow> Action rule = action" by (cases rule) auto
  ultimately show ?case using 2 by auto
qed auto

lemma automation_loop_keep:
  "automation_loop tags adminUser rules found =
     (keep_first (automation tags adminUser) (\<lambda>r. r) found rules,
      found \<or> (\<exists>r \<in> set rules. automation tags adminUser r),
      keep_first (automation tags adminUser) (\<lambda>r. r) found rules \<noteq> rules)"
proof (induction tags adminUser rules found rule: automation_loop.induct)
  case (2 tags adminUser rule rules found)
  have shorter: "length (keep_first (automation tags adminUser) (\<lambda>r. r) True rs) \<le> length rs" for rs
    by (induction rs) auto
  have "keep_first (automation tags adminUser) (\<lambda>r. r) True rules \<noteq> rule # rules"
    using shorter [of rules] by auto
  with 2 show ?case by auto
qed auto

section \<open>Edits of the document\<close>

definition human_action :: "string \<Rightarrow> bool" where
  "human_action action \<longleftrightarrow> action = SSHActionCheck \<or> action = SSHActionAccept"

definition human_rules :: "string list \<Rightarrow> string \<Rightarrow> string \<Rightarrow> SSHRule list \<Rightarrow> SSHRule list" where
  "human_rules tags adminUser action rules =
     keep_one (human tags adminUser) (\<lambda>r. r\<lparr>Action := action\<rparr>) (serverproSSHRule tags adminUser action) rules"

definition automation_rules :: "string list \<Rightarrow> string \<Rightarrow> SSHRule list \<Rightarrow> SSHRule list" where
  "automation_rules tags adminUser rules =
     keep_one (automation tags adminUser) (\<lambda>r. r) (automationSSHRule tags adminUser AutomationSourceTag) rules"

lemma human_rules_one:
  "human_action action \<Longrightarrow> \<exists>r. filter (human tags adminUser) (human_rules tags adminUser action rules) = [r] \<and> Action r = action"
  unfolding human_rules_def human_action_def
proof (elim disjE; hypsubst)
  have new: "Action (serverproSSHRule tags adminUser a) = a" for a by (simp add: serverproSSHRule_def)
  show "\<exists>r. filter (human tags adminUser) (keep_one (human tags adminUser) (Action_update (\<lambda>_. SSHActionCheck))
      (serverproSSHRule tags adminUser SSHActionCheck) rules) = [r] \<and> Action r = SSHActionCheck"
    by (simp add: human_check.one_left new split: list.split)
  show "\<exists>r. filter (human tags adminUser) (keep_one (human tags adminUser) (Action_update (\<lambda>_. SSHActionAccept))
      (serverproSSHRule tags adminUser SSHActionAccept) rules) = [r] \<and> Action r = SSHActionAccept"
    by (simp add: human_accept.one_left new split: list.split)
qed

lemma human_rules_foreign:
  "human_action action \<Longrightarrow> filter (\<lambda>r. \<not> human tags adminUser r) (human_rules tags adminUser action rules)
     = filter (\<lambda>r. \<not> human tags adminUser r) rules"
  unfolding human_rules_def human_action_def using human_check.foreign_kept human_accept.foreign_kept by metis

lemma human_rules_idempotent:
  "human_action action \<Longrightarrow> human_rules tags adminUser action (human_rules tags adminUser action rules)
     = human_rules tags adminUser action rules"
  unfolding human_rules_def human_action_def using human_check.keep_one_idempotent human_accept.keep_one_idempotent by metis

lemma automation_rules_one: "\<exists>r. filter (automation tags adminUser) (automation_rules tags adminUser rules) = [r]"
  unfolding automation_rules_def by (simp add: automation_rule.one_left)

lemma automation_rules_foreign:
  "filter (\<lambda>r. \<not> automation tags adminUser r) (automation_rules tags adminUser rules)
     = filter (\<lambda>r. \<not> automation tags adminUser r) rules"
  unfolding automation_rules_def by (rule automation_rule.foreign_kept)

lemma human_not_automation: "human tags adminUser r \<Longrightarrow> \<not> automation tags' adminUser' r"
  by (auto simp: rule_match_defs mesh_constants)

lemma automation_rules_human:
  "filter (human tags adminUser) (automation_rules tags' adminUser' rules) = filter (human tags adminUser) rules"
  unfolding automation_rules_def
  using human_not_automation by (intro filter_keep_one_other) (auto simp: rule_match_defs automationSSHRule_def mesh_constants)

lemma rule_wf_action [simp]: "rule_wf (r\<lparr>Action := a\<rparr>) = rule_wf r"
  by (simp add: rule_wf_def)

lemma rule_wf_new [simp]: "rule_wf (serverproSSHRule tags adminUser action)" "rule_wf (automationSSHRule tags adminUser source)"
  by (simp_all add: rule_wf_def serverproSSHRule_def automationSSHRule_def)

lemma human_rules_wf: "\<forall>r \<in> set rules. rule_wf r \<Longrightarrow> \<forall>r \<in> set (human_rules tags adminUser action rules). rule_wf r"
  unfolding human_rules_def using set_keep_one by (fastforce simp: image_iff)

lemma automation_rules_wf: "\<forall>r \<in> set rules. rule_wf r \<Longrightarrow> \<forall>r \<in> set (automation_rules tags adminUser rules). rule_wf r"
  unfolding automation_rules_def using set_keep_one by (fastforce simp: image_iff)

lemma dec_all_encoded: "\<forall>r \<in> set rules. rule_wf r \<Longrightarrow> dec_all UnmarshalJSON (map MarshalJSON rules) = Some rules"
  by (intro dec_all_map ssh_rule_decode) simp

lemma sshRules_set [simp]: "\<forall>r \<in> set rules. rule_wf r \<Longrightarrow> sshRules (setSSHRules rules d) = Inr rules"
  by (auto simp: sshRules_def setSSHRules_def dec_all_encoded)

lemma get_setSSHRules [simp]: "k \<noteq> ''ssh'' \<Longrightarrow> gm_get (setSSHRules rules d) k = gm_get d k"
  by (auto simp: setSSHRules_def)

lemma get_setTagOwners [simp]: "k \<noteq> ''tagOwners'' \<Longrightarrow> gm_get (setTagOwners owners d) k = gm_get d k"
  by (auto simp: setTagOwners_def)

lemma sshRules_setTagOwners [simp]: "sshRules (setTagOwners owners d) = sshRules d"
  by (simp add: sshRules_def)

lemma ensureSSHRule_keep:
  assumes "sshRules d = Inr rules"
  shows "ensureSSHRule d tags adminUser action =
    (let out = human_rules tags adminUser action rules
     in Inr (if out = rules then (False, d) else (True, setSSHRules out d)))"
proof -
  have none: "(\<forall>r \<in> set rules. \<not> human tags adminUser r) \<Longrightarrow>
      keep_first (human tags adminUser) (\<lambda>r. r\<lparr>Action := action\<rparr>) False rules = rules"
    by (induction rules) auto
  show ?thesis
    using assms none by (auto simp: ensureSSHRule_def human_loop_keep human_rules_def keep_one_def Let_def)
qed

lemma ensureAutomationSSHRule_keep:
  assumes "sshRules d = Inr rules"
  shows "ensureAutomationSSHRule d tags adminUser AutomationSourceTag =
    (let out = automation_rules tags adminUser rules; added = (\<forall>r \<in> set rules. \<not> automation tags adminUser r)
     in Inr (if out = rules then (False, False, d) else (added, \<not> added, setSSHRules out d)))"
proof -
  have none: "(\<forall>r \<in> set rules. \<not> automation tags adminUser r) \<Longrightarrow>
      keep_first (automation tags adminUser) (\<lambda>r. r) False rules = rules"
    by (induction rules) auto
  have source: "AutomationSourceTag \<noteq> []" by (simp add: AutomationSourceTag_def)
  show ?thesis
    using assms none source
    by (auto simp: ensureAutomationSSHRule_def automation_loop_keep automation_rules_def keep_one_def Let_def)
qed

text \<open>
  C27. After \<open>ensureSSHRule\<close> the document holds exactly one human rule for the tags and the admin
  user, with the action asked for; every other rule is still there, unchanged and in order, and so is
  every other section. A change is reported exactly when the rules changed, and a second run makes
  none.
\<close>

theorem ensure_ssh_rule_result:
  assumes "sshRules d = Inr rules" "\<forall>r \<in> set rules. rule_wf r" "human_action action"
  shows "\<exists>changed d' rules' r. ensureSSHRule d tags adminUser action = Inr (changed, d') \<and> sshRules d' = Inr rules'
    \<and> filter (human tags adminUser) rules' = [r] \<and> Action r = action
    \<and> filter (\<lambda>r. \<not> human tags adminUser r) rules' = filter (\<lambda>r. \<not> human tags adminUser r) rules
    \<and> (\<forall>k. k \<noteq> ''ssh'' \<longrightarrow> gm_get d' k = gm_get d k)
    \<and> (changed \<longleftrightarrow> rules' \<noteq> rules)
    \<and> ensureSSHRule d' tags adminUser action = Inr (False, d')"
proof -
  let ?out = "human_rules tags adminUser action rules"
  let ?d = "if ?out = rules then d else setSSHRules ?out d"
  have after: "sshRules ?d = Inr ?out" using assms human_rules_wf [OF assms(2)] by simp
  have run: "ensureSSHRule d tags adminUser action = Inr (?out \<noteq> rules, ?d)"
    by (simp add: ensureSSHRule_keep [OF assms(1)] Let_def)
  have again: "ensureSSHRule ?d tags adminUser action = Inr (False, ?d)"
    by (simp only: ensureSSHRule_keep [OF after] Let_def human_rules_idempotent [OF assms(3)] refl if_True)
  obtain r where "filter (human tags adminUser) ?out = [r]" "Action r = action"
    using human_rules_one [OF assms(3)] by blast
  moreover have "\<forall>k. k \<noteq> ''ssh'' \<longrightarrow> gm_get ?d k = gm_get d k" by simp
  ultimately show ?thesis
    using run again after human_rules_foreign [OF assms(3)] by blast
qed

definition sample_policy :: policyDocument where
  "sample_policy =
     [(''acls'', JArr []),
      (''ssh'', JArr [JObj [(''action'', JStr ''check''), (''src'', JArr [JStr ''autogroup:admin'']),
                            (''dst'', JArr [JStr ''tag:serverpro-web'']), (''users'', JArr [JStr ''ops'']),
                            (''checkPeriod'', JStr ''1h'')]])]"

definition sample_rule :: SSHRule where
  "sample_rule = \<lparr>Action = ''check'', Src = Some [''autogroup:admin''], Dst = Some [''tag:serverpro-web''],
     Users = Some [''ops''], extra = [(''checkPeriod'', JStr ''1h'')]\<rparr>"

lemma sample_policy_rules: "sshRules sample_policy = Inr [sample_rule]" "rule_wf sample_rule"
  by (simp_all add: sshRules_def sample_policy_def sample_rule_def json_values_def json_fold_def go_runes_ascii
      fold_rune_def obj_of_def rule_names_def rule_wf_def)

lemma ensure_ssh_rule_result_witness:
  "\<exists>changed d' rules' r. ensureSSHRule sample_policy [''tag:serverpro-web''] ''ops'' SSHActionAccept = Inr (changed, d')
    \<and> sshRules d' = Inr rules' \<and> filter (human [''tag:serverpro-web''] ''ops'') rules' = [r] \<and> Action r = SSHActionAccept
    \<and> filter (\<lambda>r. \<not> human [''tag:serverpro-web''] ''ops'' r) rules'
        = filter (\<lambda>r. \<not> human [''tag:serverpro-web''] ''ops'' r) [sample_rule]
    \<and> (\<forall>k. k \<noteq> ''ssh'' \<longrightarrow> gm_get d' k = gm_get sample_policy k)
    \<and> (changed \<longleftrightarrow> rules' \<noteq> [sample_rule])
    \<and> ensureSSHRule d' [''tag:serverpro-web''] ''ops'' SSHActionAccept = Inr (False, d')"
  by (rule ensure_ssh_rule_result [OF sample_policy_rules(1)]) (simp_all add: sample_policy_rules human_action_def)

text \<open>
  C28. Granting and revoking unattended access are inverse: after \<open>ensureAutomationSSHRule\<close> there
  is exactly one automation accept rule for the tags and the admin user, and revoking it then leaves
  no copy and every other rule as it was before the grant, the human rules among them.
\<close>

theorem automation_grant_revoke:
  assumes "sshRules d = Inr rules" "\<forall>r \<in> set rules. rule_wf r"
  shows "\<exists>added removed d1 rules1 r d2. ensureAutomationSSHRule d tags adminUser AutomationSourceTag = Inr (added, removed, d1)
    \<and> sshRules d1 = Inr rules1 \<and> filter (automation tags adminUser) rules1 = [r]
    \<and> removeAutomationSSHRule d1 tags adminUser = Inr (True, d2)
    \<and> sshRules d2 = Inr (filter (\<lambda>r. \<not> automation tags adminUser r) rules)"
proof -
  let ?out = "automation_rules tags adminUser rules"
  let ?d1 = "if ?out = rules then d else setSSHRules ?out d"
  let ?rest = "filter (\<lambda>r. \<not> automation tags adminUser r) rules"
  have d1: "sshRules ?d1 = Inr ?out" using assms automation_rules_wf [OF assms(2)] by simp
  obtain added removed where run: "ensureAutomationSSHRule d tags adminUser AutomationSourceTag = Inr (added, removed, ?d1)"
    by (cases "?out = rules") (auto simp: ensureAutomationSSHRule_keep [OF assms(1)] Let_def)
  obtain r where one: "filter (automation tags adminUser) ?out = [r]"
    using automation_rules_one by blast
  have "length ?rest \<noteq> length ?out"
  proof
    assume "length ?rest = length ?out"
    then have "length (filter (\<lambda>r. \<not> automation tags adminUser r) ?out) = length ?out"
      by (simp add: automation_rules_foreign)
    then have "filter (automation tags adminUser) ?out = []"
      using sum_length_filter_compl [of "automation tags adminUser" ?out] by simp
    with one show False by simp
  qed
  then have "removeAutomationSSHRule ?d1 tags adminUser = Inr (True, setSSHRules ?rest ?d1)"
    unfolding removeAutomationSSHRule_def d1 bindR_simps Let_def automation_rules_foreign by simp
  moreover have "sshRules (setSSHRules ?rest ?d1) = Inr ?rest" using assms(2) by (intro sshRules_set) simp
  ultimately show ?thesis using run d1 one by blast
qed

lemma automation_grant_revoke_witness:
  "\<exists>added removed d1 rules1 r d2. ensureAutomationSSHRule sample_policy [''tag:serverpro-web''] ''ops'' AutomationSourceTag
      = Inr (added, removed, d1)
    \<and> sshRules d1 = Inr rules1 \<and> filter (automation [''tag:serverpro-web''] ''ops'') rules1 = [r]
    \<and> removeAutomationSSHRule d1 [''tag:serverpro-web''] ''ops'' = Inr (True, d2)
    \<and> sshRules d2 = Inr (filter (\<lambda>r. \<not> automation [''tag:serverpro-web''] ''ops'' r) [sample_rule])"
  by (rule automation_grant_revoke [OF sample_policy_rules(1)]) (simp add: sample_policy_rules)

section \<open>Tag owners\<close>

text \<open>
  A policy file whose tag owners section is the literal \<open>null\<close> decodes to a nil map, and
  adding an owner to it panics; without a tag to add it does not. (\<open>tagOwners\<close> returns the map
  variable as it is after the decoding call in the same return statement, as \<open>sshRules\<close> does with
  its slice, where the program depends on that order.)
\<close>

theorem tag_owners_null_panics:
  "ensureTagOwners ((''tagOwners'', JNull) # d) (tag # tags) = Inl NilMapPanic
   \<and> ensureTagOwners ((''tagOwners'', JNull) # d) [] = Inr ([], (''tagOwners'', JNull) # d)"
  by (simp_all add: ensureTagOwners_def tagOwners_def)


text \<open>Owners are added for missing tags only; the tags that had an owner keep it.\<close>

lemma add_owners_spec:
  "\<exists>m' added. add_owners (Some m) tags = Inr (Some m', added)
     \<and> (\<forall>t. gm_get m' t = (if gm_get m t \<noteq> None then gm_get m t
                        else if t \<in> set tags then Some (Some [ServerproPolicyOwner]) else None))
     \<and> set added = {t \<in> set tags. gm_get m t = None} \<and> distinct added \<and> (gm_wf m \<longrightarrow> gm_wf m')"
proof (induction tags arbitrary: m)
  case (Cons tag tags)
  show ?case
  proof (cases "gm_get m tag")
    case None
    let ?m = "gm_put tag (Some [ServerproPolicyOwner]) m"
    from Cons.IH [of ?m] obtain m' added where IH: "add_owners (Some ?m) tags = Inr (Some m', added)"
      "\<forall>t. gm_get m' t = (if gm_get ?m t \<noteq> None then gm_get ?m t
                        else if t \<in> set tags then Some (Some [ServerproPolicyOwner]) else None)"
      "set added = {t \<in> set tags. gm_get ?m t = None}" "distinct added" "gm_wf ?m \<longrightarrow> gm_wf m'"
      by blast
    have "add_owners (Some m) (tag # tags) = Inr (Some m', tag # added)" using None IH(1) by simp
    moreover have "distinct (tag # added)" using IH(4) by (simp add: IH(3))
    moreover have "t \<in> set (tag # added) \<longleftrightarrow> t \<in> {t \<in> set (tag # tags). gm_get m t = None}" for t
      using None by (cases "t = tag") (simp_all add: IH(3))
    then have "set (tag # added) = {t \<in> set (tag # tags). gm_get m t = None}" by blast
    moreover have "gm_get m' t = (if gm_get m t \<noteq> None then gm_get m t
        else if t \<in> set (tag # tags) then Some (Some [ServerproPolicyOwner]) else None)" for t
      using None IH(2) [rule_format, of t] by (cases "t = tag") simp_all
    moreover have "gm_wf m \<longrightarrow> gm_wf m'" using IH(5) by (intro impI) simp
    ultimately show ?thesis by (intro exI [of _ m'] exI [of _ "tag # added"] conjI allI)
  next
    case (Some v)
    from Cons.IH [of m] obtain m' added where IH: "add_owners (Some m) tags = Inr (Some m', added)"
      "\<forall>t. gm_get m' t = (if gm_get m t \<noteq> None then gm_get m t
                        else if t \<in> set tags then Some (Some [ServerproPolicyOwner]) else None)"
      "set added = {t \<in> set tags. gm_get m t = None}" "distinct added" "gm_wf m \<longrightarrow> gm_wf m'"
      by blast
    have "add_owners (Some m) (tag # tags) = Inr (Some m', added)" using Some IH(1) by simp
    moreover have "set added = {t \<in> set (tag # tags). gm_get m t = None}" using Some IH(3) by auto
    moreover have "gm_get m' t = (if gm_get m t \<noteq> None then gm_get m t
        else if t \<in> set (tag # tags) then Some (Some [ServerproPolicyOwner]) else None)" for t
      using Some IH(2) [rule_format, of t] by (cases "t = tag") simp_all
    ultimately show ?thesis using IH(4,5) by (intro exI [of _ m'] exI [of _ added] conjI allI)
  qed
qed auto

text \<open>Owners that were encoded decode to a map with the same entries.\<close>

lemma dec_owners:
  assumes "\<forall>kv \<in> set ms. \<exists>s. snd kv = enc_slice s"
  shows "dec_all (\<lambda>kv. map_option (Pair (fst kv)) (dec_slice None [snd kv])) ms
    = Some (map (\<lambda>kv. (fst kv, the (dec_slice None [snd kv]))) ms)"
  using assms by (induction ms) (auto split: option.split)

lemma map_of_values: "map_of (map (\<lambda>kv. (fst kv, f (snd kv))) xs) k = map_option f (map_of xs k)"
  by (induction xs) auto

lemma tagOwners_set:
  assumes "gm_wf m"
  shows "\<exists>m'. tagOwners (setTagOwners (Some m) d) = Inr (Some m') \<and> gm_get m' = gm_get m \<and> gm_wf m'"
proof (cases "m = []")
  case True
  then show ?thesis by (auto simp: tagOwners_def setTagOwners_def)
next
  case False
  let ?enc = "map (\<lambda>kv. (fst kv, enc_slice (snd kv))) m"
  let ?dec = "map (\<lambda>kv. (fst kv, the (dec_slice None [snd kv]))) (obj_of ?enc)"
  have "\<forall>kv \<in> set (obj_of ?enc). \<exists>s. snd kv = enc_slice s" using set_obj_of [of ?enc] by fastforce
  then have dec: "tagOwners (setTagOwners (Some m) d) = Inr (Some (gm_copy [] ?dec))"
    using False by (simp add: tagOwners_def setTagOwners_def dec_owners)
  have wf: "gm_wf ?dec" using obj_sorted_distinct [OF obj_of_sorted [of ?enc]] by (simp add: gm_wf_def comp_def)
  have "distinct (map fst ?enc)" using assms by (simp add: gm_wf_def comp_def)
  then have "gm_get (obj_of ?enc) k = gm_get ?enc k" for k by (simp only: map_of_obj_of map_of_rev_distinct)
  then have "gm_get (obj_of ?enc) k = map_option enc_slice (gm_get m k)" for k by (simp only: map_of_values)
  then have "gm_get ?dec k = gm_get m k" for k
    by (cases "gm_get m k") (simp_all add: map_of_values [where f = "\<lambda>j. the (dec_slice None [j])"])
  then have "gm_get (gm_copy [] ?dec) = gm_get m"
    using wf by (auto simp: gm_get_copy fun_eq_iff split: option.split)
  with dec show ?thesis by auto
qed

lemma tag_owners_added:
  assumes "tagOwners d = Inr (Some m)" "gm_wf m"
  shows "\<exists>added d' m'. ensureTagOwners d tags = Inr (added, d') \<and> tagOwners d' = Inr (Some m')
    \<and> (\<forall>t. gm_get m' t = (if gm_get m t \<noteq> None then gm_get m t
             else if t \<in> set tags then Some (Some [ServerproPolicyOwner]) else None))
    \<and> set added = {t \<in> set tags. gm_get m t = None} \<and> sorted added
    \<and> (\<forall>k. k \<noteq> ''tagOwners'' \<longrightarrow> gm_get d' k = gm_get d k)"
proof -
  obtain m1 added where add: "add_owners (Some m) tags = Inr (Some m1, added)"
    "\<forall>t. gm_get m1 t = (if gm_get m t \<noteq> None then gm_get m t
        else if t \<in> set tags then Some (Some [ServerproPolicyOwner]) else None)"
    "set added = {t \<in> set tags. gm_get m t = None}" "gm_wf m1"
    using add_owners_spec [of m tags] assms(2) by blast
  show ?thesis
  proof (cases "added = []")
    case True
    have "ensureTagOwners d tags = Inr ([], d)" using assms(1) add True by (simp add: ensureTagOwners_def)
    moreover have none: "{t \<in> set tags. gm_get m t = None} = {}" using add(3) True by simp
    moreover have "\<forall>t. gm_get m t = (if gm_get m t \<noteq> None then gm_get m t
        else if t \<in> set tags then Some (Some [ServerproPolicyOwner]) else None)"
      using none by auto
    ultimately show ?thesis using assms(1)
      by (intro exI [of _ "[]"] exI [of _ d] exI [of _ m] conjI) simp_all
  next
    case False
    then have run: "ensureTagOwners d tags = Inr (sort added, setTagOwners (Some m1) d)"
      using assms(1) add by (simp add: ensureTagOwners_def)
    obtain m' where m': "tagOwners (setTagOwners (Some m1) d) = Inr (Some m')" "gm_get m' = gm_get m1"
      using tagOwners_set [OF add(4)] by blast
    show ?thesis
      using run m' add(2,3)
      by (intro exI [of _ "sort added"] exI [of _ "setTagOwners (Some m1) d"] exI [of _ m'] conjI) simp_all
  qed
qed

text \<open>
  \<open>ensureTagOwners\<close> gives every tag an owner and takes none away: afterwards a tag of the list
  that had no owner is owned by the tailnet admins, every other tag has the owners it had, the tags
  reported are exactly the new ones, and no other section changes.
\<close>

theorem ensure_tag_owners_result:
  assumes "tagOwners d = Inr (Some m)" "gm_wf m"
  shows "\<exists>added d' m'. ensureTagOwners d tags = Inr (added, d') \<and> tagOwners d' = Inr (Some m')
    \<and> (\<forall>t. gm_get m' t = (if gm_get m t \<noteq> None then gm_get m t
             else if t \<in> set tags then Some (Some [ServerproPolicyOwner]) else None))
    \<and> set added = {t \<in> set tags. gm_get m t = None} \<and> sorted added
    \<and> (\<forall>k. k \<noteq> ''tagOwners'' \<longrightarrow> gm_get d' k = gm_get d k)"
  using assms by (rule tag_owners_added)

lemma ensure_tag_owners_result_witness:
  "\<exists>added d' m'. ensureTagOwners sample_policy [''tag:b'', ''tag:a''] = Inr (added, d') \<and> tagOwners d' = Inr (Some m')
    \<and> (\<forall>t. gm_get m' t = (if gm_get ([] :: (string, slice) gomap) t \<noteq> None then gm_get [] t
             else if t \<in> set [''tag:b'', ''tag:a''] then Some (Some [ServerproPolicyOwner]) else None))
    \<and> set added = {t \<in> set [''tag:b'', ''tag:a'']. gm_get ([] :: (string, slice) gomap) t = None} \<and> sorted added
    \<and> (\<forall>k. k \<noteq> ''tagOwners'' \<longrightarrow> gm_get d' k = gm_get sample_policy k)"
  by (rule ensure_tag_owners_result) (simp_all add: tagOwners_def sample_policy_def)

end
