(* ===== verification/Policy_Client.thy ===== *)
theory Policy_Client
  imports Ssh_Policy
begin

text \<open>
  The policy operations of the tailnet client (internal/provider/tailscale: policy.go,
  policy_request.go, policy_validate.go, policy_validation_error.go): reading the file, the
  guarded write, \<open>EnsureServerproPolicy\<close>, \<open>RemoveAutomationSSHRule\<close> and the read-back
  \<open>ValidateSSHPolicy\<close>.

  \<open>policy_api\<close> holds what answers: the three policy requests of the API and the operations of
  \<open>hujson\<close>. A run returns its error, if any, and the writes it sent, each with its body and its
  \<open>If-Match\<close> tag. \<open>Raw\<close> is the JSON value of the standardized file, \<open>None\<close> when its bytes
  do not decode; \<open>Validate\<close> gives the body of the answer, decoded (\<open>None\<close> when it is not JSON).
\<close>

record 'h policy_api =
  Get :: "(string, string \<times> string) result"
  Parse :: "string \<Rightarrow> 'h option"
  Raw :: "'h \<Rightarrow> json option"
  PatchFile :: "patch_operation list \<Rightarrow> 'h \<Rightarrow> 'h option"
  FormatFile :: "'h \<Rightarrow> 'h"
  Pack :: "'h \<Rightarrow> string"
  Validate :: "string \<Rightarrow> (string, json option) result"
  Post :: "string \<Rightarrow> string \<Rightarrow> string option"

record 'h policyFile =
  FileSource :: 'h
  FileDoc :: policyDocument
  FileEtag :: string

type_synonym writes = "(string \<times> string) list"
type_synonym run_result = "policy_error option \<times> writes"

section \<open>Reading and publishing the file\<close>

definition readPolicyFile :: "'h policy_api \<Rightarrow> (policy_error, 'h policyFile) result" where
  "readPolicyFile api =
     (case Get api of
        Inl e \<Rightarrow> Inl (ApiError e)
      | Inr (body, etag) \<Rightarrow>
          (case Parse api body of
             None \<Rightarrow> Inl ParseError
           | Some source \<Rightarrow>
               (case Raw api source of
                  Some (JObj ms) \<Rightarrow> Inr \<lparr>FileSource = source, FileDoc = gm_copy [] ms, FileEtag = etag\<rparr>
                | Some JNull \<Rightarrow> Inl ErrPolicyNotObject
                | _ \<Rightarrow> Inl PolicyDecodeError)))"

text \<open>
  \<open>parsePolicyValidation\<close> and the typed answer. A member of the answer goes to its field by the
  rules of \<open>Go_Json\<close>; an error of the typed decoding is reported as unreadable too.
\<close>

fun dec_failure :: "json \<Rightarrow> (string \<times> string list) option" where
  "dec_failure JNull = Some ([], [])"
| "dec_failure (JObj ms) =
     Option.bind (dec_string [] (json_values ''user'' ms)) (\<lambda>user.
       map_option (\<lambda>errors. (user, items errors)) (dec_slice None (json_values ''errors'' ms)))"
| "dec_failure _ = None"

fun dec_failures :: "(string \<times> string list) list \<Rightarrow> json list \<Rightarrow> (string \<times> string list) list option" where
  "dec_failures s [] = Some s"
| "dec_failures s (JNull # vs) = dec_failures [] vs"
| "dec_failures s (JArr xs # vs) = Option.bind (dec_all dec_failure xs) (\<lambda>t. dec_failures t vs)"
| "dec_failures s (_ # vs) = None"

definition errPolicyValidationUnreadable :: string where
  "errPolicyValidationUnreadable = ''unreadable validation response''"
definition errPolicyValidationUnexpected :: string where
  "errPolicyValidationUnexpected = ''unexpected validation response''"
definition maxPolicyValidationDetails :: nat where
  "maxPolicyValidationDetails = 5"

definition validation_unreadable :: policy_error where
  "validation_unreadable = PolicyValidationError errPolicyValidationUnreadable [] (Some ''decode'')"

definition parsePolicyValidation :: "json option \<Rightarrow> policy_error option" where
  "parsePolicyValidation body =
     (case body of
        Some (JObj []) \<Rightarrow> None
      | Some JNull \<Rightarrow> Some (PolicyValidationError errPolicyValidationUnexpected [] None)
      | Some (JObj ms) \<Rightarrow>
          (case (dec_string [] (json_values ''message'' ms), dec_failures [] (json_values ''data'' ms)) of
             (Some message, Some failures) \<Rightarrow>
               Some (PolicyValidationError (if message = '''' then errPolicyValidationUnexpected else message) failures None)
           | _ \<Rightarrow> Some validation_unreadable)
      | _ \<Rightarrow> Some validation_unreadable)"

text \<open>The text of a validation error: the message, the cause, and at most five details.\<close>

definition failure_details :: "(string \<times> string list) list \<Rightarrow> string list" where
  "failure_details failures = concat (map (\<lambda>(user, errors). map (\<lambda>msg. user @ '': '' @ msg) errors) failures)"

definition validation_error_text :: "string \<Rightarrow> (string \<times> string list) list \<Rightarrow> string option \<Rightarrow> string" where
  "validation_error_text message failures cause =
     (let details = failure_details failures;
          text = ''tailnet policy validation failed: '' @ message;
          text = (case cause of None \<Rightarrow> text | Some c \<Rightarrow> text @ '': '' @ c)
      in if details = [] then text
         else let shown = take (min (length details) maxPolicyValidationDetails) details;
                  text = text @ '': '' @ join ''; '' shown;
                  hidden = length details - length shown
              in if 0 < hidden then text @ '' (and '' @ itoa hidden @ '' more)'' else text)"

definition validatePolicyBody :: "'h policy_api \<Rightarrow> string \<Rightarrow> policy_error option" where
  "validatePolicyBody api body =
     (case Validate api body of Inl e \<Rightarrow> Some (ApiError e) | Inr res \<Rightarrow> parsePolicyValidation res)"

definition render_file :: "'h policy_api \<Rightarrow> 'h policyFile \<Rightarrow> policyDocument \<Rightarrow> (patch_error, string) result" where
  "render_file api file doc =
     renderPolicyFile (map_option json_norm \<circ> Raw api) (PatchFile api) (FormatFile api) (Pack api)
       (FileSource file) (json_norm (JObj doc))"

definition publishPolicyFile :: "'h policy_api \<Rightarrow> 'h policyFile \<Rightarrow> policyDocument \<Rightarrow> run_result" where
  "publishPolicyFile api file doc =
     (if FileEtag file = '''' then (Some ErrPolicyETagMissing, [])
      else case render_file api file doc of
        Inl e \<Rightarrow> (Some (RenderError e), [])
      | Inr body \<Rightarrow>
          (case validatePolicyBody api body of
             Some e \<Rightarrow> (Some e, [])
           | None \<Rightarrow> (map_option ApiError (Post api body (FileEtag file)), [(body, FileEtag file)])))"

definition publishPolicyChange :: "'h policy_api \<Rightarrow> 'h policyFile \<Rightarrow> policyDocument \<Rightarrow> PolicyChange \<Rightarrow> run_result" where
  "publishPolicyChange api file doc change =
     (if \<not> Changed change then (None, []) else publishPolicyFile api file doc)"

section \<open>The edits\<close>

text \<open>
  The change that \<open>EnsureServerproPolicy\<close> and \<open>RemoveAutomationSSHRule\<close> return to their caller is
  the one of the edit; a partial change returned beside an error is not modelled.
\<close>

definition no_change :: PolicyChange where
  "no_change = \<lparr>TagOwners = [], SSHRuleChanged = False, AutomationSSHRule = False, AutomationSSHRuleRemoved = False\<rparr>"

text \<open>What the checks before the policy read refuse.\<close>

definition ensure_refusal :: "string \<Rightarrow> string \<Rightarrow> string \<Rightarrow> string \<Rightarrow> policy_error option" where
  "ensure_refusal adminUser rootPolicy automationSource humanAction =
     (if rootPolicy \<noteq> ''check-or-disabled'' then Some UnsupportedRootPolicy
      else if humanAction \<noteq> SSHActionCheck \<and> humanAction \<noteq> SSHActionAccept then Some UnsupportedHumanAction
      else if humanAction = SSHActionAccept \<and> adminUser = RootSSHUser then Some RefusedRootAccept
      else if automationSource \<noteq> '''' \<and> automationSource \<noteq> AutomationSourceTag then Some UnsupportedAutomationSource
      else if automationSource \<noteq> '''' \<and> adminUser = RootSSHUser then Some RefusedRootAccept
      else None)"

text \<open>The three edits of \<open>EnsureServerproPolicy\<close> on the document, and the change they report.\<close>

definition ensure_edit ::
  "policyDocument \<Rightarrow> string list \<Rightarrow> string list \<Rightarrow> string \<Rightarrow> string \<Rightarrow> string
     \<Rightarrow> (policy_error, PolicyChange \<times> policyDocument) result" where
  "ensure_edit doc tags sshTags adminUser automationSource humanAction =
     (let ownedTags = tags @ (if automationSource \<noteq> '''' then [automationSource] else []) in
      bindR (ensureTagOwners doc ownedTags) (\<lambda>(addedTags, doc1).
      bindR (ensureSSHRule doc1 sshTags adminUser humanAction) (\<lambda>(addedRule, doc2).
      bindR (ensureAutomationSSHRule doc2 sshTags adminUser automationSource) (\<lambda>(added, removed, doc3).
        Inr (\<lparr>TagOwners = addedTags, SSHRuleChanged = addedRule, AutomationSSHRule = added,
              AutomationSSHRuleRemoved = removed\<rparr>, doc3)))))"

definition EnsureServerproPolicy ::
  "'h policy_api \<Rightarrow> string list \<Rightarrow> string list \<Rightarrow> string \<Rightarrow> string \<Rightarrow> string \<Rightarrow> string \<Rightarrow> run_result" where
  "EnsureServerproPolicy api tags sshTags adminUser rootPolicy automationSource humanAction =
     (case ensure_refusal adminUser rootPolicy automationSource humanAction of
        Some e \<Rightarrow> (Some e, [])
      | None \<Rightarrow>
          (case readPolicyFile api of
             Inl e \<Rightarrow> (Some e, [])
           | Inr file \<Rightarrow>
               (case ensure_edit (FileDoc file) tags sshTags adminUser automationSource humanAction of
                  Inl e \<Rightarrow> (Some e, [])
                | Inr (change, doc) \<Rightarrow> publishPolicyChange api file doc change)))"

definition RemoveAutomationSSHRule :: "'h policy_api \<Rightarrow> string list \<Rightarrow> string \<Rightarrow> run_result" where
  "RemoveAutomationSSHRule api tags adminUser =
     (case readPolicyFile api of
        Inl e \<Rightarrow> (Some e, [])
      | Inr file \<Rightarrow>
          (case removeAutomationSSHRule (FileDoc file) tags adminUser of
             Inl e \<Rightarrow> (Some e, [])
           | Inr (removed, doc) \<Rightarrow>
               publishPolicyChange api file doc (no_change\<lparr>AutomationSSHRuleRemoved := removed\<rparr>)))"

section \<open>The read-back\<close>

definition ruleMatchesDst :: "SSHRule \<Rightarrow> string list \<Rightarrow> bool" where
  "ruleMatchesDst rule tags \<longleftrightarrow> list_ex (\<lambda>tag. tag \<in> set (items (Dst rule))) tags"

definition unsafeSSHRule :: "SSHRule \<Rightarrow> policy_error option" where
  "unsafeSSHRule rule =
     (if Action rule = SSHActionCheck then None
      else if ''root'' \<in> set (items (Users rule)) then Some UnsafeRootRule
      else if ''autogroup:nonroot'' \<in> set (items (Users rule)) then Some UnsafeNonrootRule
      else None)"

record sshRuleScan =
  matched :: bool
  allowsAdmin :: bool
  automationAllowed :: bool
  humanAccepted :: bool

definition empty_scan :: sshRuleScan where
  "empty_scan = \<lparr>matched = False, allowsAdmin = False, automationAllowed = False, humanAccepted = False\<rparr>"

fun scanSSHRules ::
  "SSHRule list \<Rightarrow> string list \<Rightarrow> string list \<Rightarrow> string \<Rightarrow> string \<Rightarrow> sshRuleScan \<Rightarrow> (policy_error, sshRuleScan) result" where
  "scanSSHRules [] tags sshTags adminUser automationSource scan = Inr scan"
| "scanSSHRules (rule # rules) tags sshTags adminUser automationSource scan =
     (if \<not> ruleMatchesDst rule tags then scanSSHRules rules tags sshTags adminUser automationSource scan
      else case unsafeSSHRule rule of
        Some e \<Rightarrow> Inl e
      | None \<Rightarrow> scanSSHRules rules tags sshTags adminUser automationSource
          \<lparr>matched = True,
           allowsAdmin = (allowsAdmin scan \<or> adminUser \<in> set (items (Users rule)) \<or> ''autogroup:nonroot'' \<in> set (items (Users rule))),
           automationAllowed = (automationAllowed scan \<or>
              automationSource \<noteq> '''' \<and> automationSSHRuleMatches rule sshTags adminUser automationSource),
           humanAccepted = (humanAccepted scan \<or>
              Action rule = SSHActionAccept \<and> serverproSSHRuleMatches rule sshTags adminUser)\<rparr>)"

definition validate_rules ::
  "SSHRule list \<Rightarrow> string list \<Rightarrow> string list \<Rightarrow> string \<Rightarrow> string \<Rightarrow> string \<Rightarrow> policy_error option" where
  "validate_rules rules tags sshTags adminUser automationSource humanAction =
     (case scanSSHRules rules tags sshTags adminUser automationSource empty_scan of
        Inl e \<Rightarrow> Some e
      | Inr scan \<Rightarrow>
          if \<not> matched scan then Some NoSSHRule
          else if \<not> allowsAdmin scan then Some AdminNotAllowed
          else if automationSource \<noteq> '''' \<and> \<not> automationAllowed scan then Some NoAutomationRule
          else if humanAction = SSHActionAccept \<and> \<not> humanAccepted scan then Some NoHumanAcceptRule
          else None)"

text \<open>\<open>Policy\<close>: the typed read of the rules. A repeated section decodes one value over the other.\<close>

fun dec_policy_ssh :: "SSHRule list \<Rightarrow> json list \<Rightarrow> SSHRule list option" where
  "dec_policy_ssh s [] = Some s"
| "dec_policy_ssh s (v # vs) = Option.bind (dec_rules v) (\<lambda>rules. dec_policy_ssh rules vs)"

definition Policy :: "'h policy_api \<Rightarrow> (policy_error, SSHRule list) result" where
  "Policy api =
     (case Get api of
        Inl e \<Rightarrow> Inl (ApiError e)
      | Inr (body, _) \<Rightarrow>
          (case Parse api body of
             None \<Rightarrow> Inl ParseError
           | Some source \<Rightarrow>
               (case Raw api source of
                  Some (JObj ms) \<Rightarrow>
                    (case dec_policy_ssh [] (json_values ''ssh'' ms) of None \<Rightarrow> Inl PolicyDecodeError | Some rules \<Rightarrow> Inr rules)
                | Some JNull \<Rightarrow> Inr []
                | _ \<Rightarrow> Inl PolicyDecodeError)))"

definition ValidateSSHPolicy ::
  "'h policy_api \<Rightarrow> string list \<Rightarrow> string list \<Rightarrow> string \<Rightarrow> string \<Rightarrow> string \<Rightarrow> string \<Rightarrow> policy_error option" where
  "ValidateSSHPolicy api tags sshTags adminUser rootPolicy automationSource humanAction =
     (if rootPolicy \<noteq> ''check-or-disabled'' then Some UnsupportedRootPolicy
      else case Policy api of
        Inl e \<Rightarrow> Some e
      | Inr rules \<Rightarrow> validate_rules rules tags sshTags adminUser automationSource humanAction)"

section \<open>Facts about the edits\<close>

lemma parsePolicyValidation_pass: "parsePolicyValidation body = None \<longleftrightarrow> body = Some (JObj [])"
proof (cases body)
  case (Some j)
  then show ?thesis
    by (cases j rule: json.exhaust)
      (auto simp: parsePolicyValidation_def validation_unreadable_def neq_Nil_conv split: list.splits option.splits)
qed (simp add: parsePolicyValidation_def)

lemma publishPolicyFile_writes:
  assumes "publishPolicyFile api file doc = (err, writes)" "w \<in> set writes"
  shows "\<exists>body h. writes = [(body, FileEtag file)] \<and> w = (body, FileEtag file) \<and> FileEtag file \<noteq> ''''
    \<and> body = Pack api h \<and> map_option json_norm (Raw api h) = Some (json_norm (JObj doc))
    \<and> Validate api body = Inr (Some (JObj []))"
proof -
  obtain body where etag: "FileEtag file \<noteq> ''''" and body: "render_file api file doc = Inr body"
    and valid: "validatePolicyBody api body = None" and w: "writes = [(body, FileEtag file)]"
    using assms by (auto simp: publishPolicyFile_def split: if_splits sum.splits option.splits)
  from body obtain h where "body = Pack api h" "map_option json_norm (Raw api h) = Some (json_norm (JObj doc))"
    unfolding render_file_def using rendered_file [of "map_option json_norm \<circ> Raw api"] by fastforce
  moreover have "Validate api body = Inr (Some (JObj []))"
    using valid by (auto simp: validatePolicyBody_def parsePolicyValidation_pass split: sum.splits)
  ultimately show ?thesis using etag w assms(2) by auto
qed

lemma tagOwners_wf: "tagOwners d = Inr (Some m) \<Longrightarrow> gm_wf m"
  by (auto simp: tagOwners_def split: option.splits json.splits)

lemma ensureTagOwners_unchanged:
  assumes "ensureTagOwners d tags = Inr (added, d')"
  shows "sshRules d' = sshRules d"
  using assms by (auto simp: ensureTagOwners_def bindR_eq_Inr split: if_splits prod.splits)

lemma add_owners_none: "\<forall>t \<in> set tags. gm_get (items owners) t \<noteq> None \<Longrightarrow> add_owners owners tags = Inr (owners, [])"
  by (induction tags) auto

lemma add_owners_nil: "add_owners None tags = (if tags = [] then Inr (None, []) else Inl NilMapPanic)"
  by (cases tags) auto

lemma ensureTagOwners_again:
  assumes "ensureTagOwners d tags = Inr (added, d')" "gm_get d'' ''tagOwners'' = gm_get d' ''tagOwners''"
  shows "ensureTagOwners d'' tags = Inr ([], d'')"
proof -
  have same: "tagOwners d'' = tagOwners d'" using assms(2) by (simp add: tagOwners_def)
  obtain owners where owners: "tagOwners d = Inr owners"
    using assms(1) by (auto simp: ensureTagOwners_def bindR_eq_Inr)
  show ?thesis
  proof (cases owners)
    case None
    with assms(1) owners have "tags = []" "d' = d"
      by (auto simp: ensureTagOwners_def add_owners_nil split: if_splits)
    with same owners show ?thesis by (simp add: ensureTagOwners_def)
  next
    case (Some m)
    have wf: "gm_wf m" using owners Some tagOwners_wf by blast
    from tag_owners_added [OF owners [unfolded Some] wf, of tags] obtain added2 d2 m' where
      run: "ensureTagOwners d tags = Inr (added2, d2)" and m': "tagOwners d2 = Inr (Some m')"
      and get: "\<forall>t. gm_get m' t = (if gm_get m t \<noteq> None then gm_get m t
             else if t \<in> set tags then Some (Some [ServerproPolicyOwner]) else None)"
      by (elim exE conjE) (rule that)
    have "d2 = d'" using run assms(1) by simp
    moreover have "\<forall>t \<in> set tags. gm_get m' t \<noteq> None" using get by simp
    ultimately show ?thesis using same m' by (simp add: ensureTagOwners_def add_owners_none)
  qed
qed

text \<open>What an edit leaves: the rules it computes, with the tag owners set before.\<close>

definition edited_rules :: "string list \<Rightarrow> string \<Rightarrow> string \<Rightarrow> string \<Rightarrow> SSHRule list \<Rightarrow> SSHRule list" where
  "edited_rules sshTags adminUser source action rules =
     (let h = human_rules sshTags adminUser action rules
      in if source = '''' then h else automation_rules sshTags adminUser h)"

lemma edited_rules_wf: "\<forall>r \<in> set rules. rule_wf r \<Longrightarrow> \<forall>r \<in> set (edited_rules sshTags adminUser source action rules). rule_wf r"
  unfolding edited_rules_def Let_def using human_rules_wf automation_rules_wf by presburger

lemma ensureSSHRule_result:
  assumes "sshRules d = Inr rules" "\<forall>r \<in> set rules. rule_wf r" "ensureSSHRule d tags adminUser action = Inr (c, d')"
  shows "sshRules d' = Inr (human_rules tags adminUser action rules)"
    "gm_get d' ''tagOwners'' = gm_get d ''tagOwners''"
    "c \<longleftrightarrow> human_rules tags adminUser action rules \<noteq> rules"
    "human_rules tags adminUser action rules = rules \<Longrightarrow> d' = d"
  using assms human_rules_wf [OF assms(2)]
  by (auto simp: ensureSSHRule_keep Let_def split: if_splits)

lemma ensureAutomation_result:
  assumes "sshRules d = Inr rules" "\<forall>r \<in> set rules. rule_wf r" "source = '''' \<or> source = AutomationSourceTag"
    and "ensureAutomationSSHRule d tags adminUser source = Inr (a, r, d')"
  shows "sshRules d' = Inr (if source = '''' then rules else automation_rules tags adminUser rules)"
    "gm_get d' ''tagOwners'' = gm_get d ''tagOwners''"
    "source = '''' \<or> automation_rules tags adminUser rules = rules \<Longrightarrow> d' = d \<and> \<not> a \<and> \<not> r"
proof -
  consider (off) "source = ''''" | (on) "source \<noteq> ''''" "source = AutomationSourceTag" using assms(3) by blast
  then have "sshRules d' = Inr (if source = '''' then rules else automation_rules tags adminUser rules)
    \<and> gm_get d' ''tagOwners'' = gm_get d ''tagOwners''
    \<and> (source = '''' \<or> automation_rules tags adminUser rules = rules \<longrightarrow> d' = d \<and> \<not> a \<and> \<not> r)"
  proof cases
    case off
    with assms show ?thesis by (simp add: ensureAutomationSSHRule_def)
  next
    case on
    show ?thesis
    proof (cases "automation_rules tags adminUser rules = rules")
      case True
      with on assms show ?thesis by (simp add: ensureAutomationSSHRule_keep Let_def)
    next
      case False
      with on assms have "d' = setSSHRules (automation_rules tags adminUser rules) d"
        by (simp add: ensureAutomationSSHRule_keep Let_def)
      with on False automation_rules_wf [OF assms(2)] show ?thesis by simp
    qed
  qed
  then show "sshRules d' = Inr (if source = '''' then rules else automation_rules tags adminUser rules)"
    "gm_get d' ''tagOwners'' = gm_get d ''tagOwners''"
    "source = '''' \<or> automation_rules tags adminUser rules = rules \<Longrightarrow> d' = d \<and> \<not> a \<and> \<not> r"
    by blast+
qed

lemma ensure_edit_cases:
  assumes "ensure_edit doc tags sshTags adminUser source action = Inr (change, doc')"
  obtains added doc1 c doc2 a r where
    "ensureTagOwners doc (tags @ (if source \<noteq> '''' then [source] else [])) = Inr (added, doc1)"
    "ensureSSHRule doc1 sshTags adminUser action = Inr (c, doc2)"
    "ensureAutomationSSHRule doc2 sshTags adminUser source = Inr (a, r, doc')"
    "change = \<lparr>TagOwners = added, SSHRuleChanged = c, AutomationSSHRule = a, AutomationSSHRuleRemoved = r\<rparr>"
  using assms by (auto simp: ensure_edit_def Let_def bindR_eq_Inr)

lemma ensure_edit_rules:
  assumes "ensure_edit doc tags sshTags adminUser source action = Inr (change, doc')"
    and "sshRules doc = Inr rules" "\<forall>r \<in> set rules. rule_wf r" "source = '''' \<or> source = AutomationSourceTag"
  shows "sshRules doc' = Inr (edited_rules sshTags adminUser source action rules)"
  using assms(1)
proof (rule ensure_edit_cases)
  fix added doc1 c doc2 a r
  assume 1: "ensureTagOwners doc (tags @ (if source \<noteq> '''' then [source] else [])) = Inr (added, doc1)"
    and 2: "ensureSSHRule doc1 sshTags adminUser action = Inr (c, doc2)"
    and 3: "ensureAutomationSSHRule doc2 sshTags adminUser source = Inr (a, r, doc')"
  from ensureTagOwners_unchanged [OF 1] assms(2) have "sshRules doc1 = Inr rules" by simp
  from ensureSSHRule_result(1) [OF this assms(3) 2]
  have "sshRules doc2 = Inr (human_rules sshTags adminUser action rules)" .
  from ensureAutomation_result(1) [OF this human_rules_wf [OF assms(3)] assms(4) 3]
  show ?thesis by (simp add: edited_rules_def Let_def split: if_splits)
qed

text \<open>
  C29. A tailnet policy is written only in one way: \<open>EnsureServerproPolicy\<close> sends at most one write,
  after none of its refusals applied and its edit changed the document it read. The write carries
  the ETag of that read, never an empty one, its body is a HuJSON file whose JSON is exactly the
  edited document, and Tailscale accepted that same body in validation, with an empty object.
\<close>

theorem ensure_policy_write_guarded:
  assumes "EnsureServerproPolicy api tags sshTags adminUser rootPolicy source action = (err, writes)" "w \<in> set writes"
  shows "\<exists>file change doc h. ensure_refusal adminUser rootPolicy source action = None
    \<and> readPolicyFile api = Inr file
    \<and> ensure_edit (FileDoc file) tags sshTags adminUser source action = Inr (change, doc) \<and> Changed change
    \<and> writes = [(Pack api h, FileEtag file)] \<and> FileEtag file \<noteq> ''''
    \<and> map_option json_norm (Raw api h) = Some (json_norm (JObj doc))
    \<and> Validate api (Pack api h) = Inr (Some (JObj []))"
proof -
  from assms obtain f change doc where "ensure_refusal adminUser rootPolicy source action = None"
    "readPolicyFile api = Inr f" "ensure_edit (FileDoc f) tags sshTags adminUser source action = Inr (change, doc)"
    and "publishPolicyChange api f doc change = (err, writes)"
    by (auto simp: EnsureServerproPolicy_def split: option.splits sum.splits prod.splits)
  moreover from this assms(2) have "Changed change" "publishPolicyFile api f doc = (err, writes)"
    by (auto simp: publishPolicyChange_def split: if_splits)
  ultimately show ?thesis using publishPolicyFile_writes [OF _ assms(2)] by blast
qed

text \<open>
  The witness runs against a tailnet whose file is the sample policy: a HuJSON value is its JSON
  value, patched by RFC 6902, and validation accepts it.
\<close>

definition sample_api :: "json policy_api" where
  "sample_api =
     \<lparr>Get = Inr (''file'', ''etag-1''), Parse = (\<lambda>_. Some (JObj sample_policy)), Raw = Some,
      PatchFile = (\<lambda>ops h. apply_patch ops (json_norm h)), FormatFile = (\<lambda>j. j), Pack = (\<lambda>_. ''body''),
      Validate = (\<lambda>_. Inr (Some (JObj []))), Post = (\<lambda>_ _. None)\<rparr>"


text \<open>With such a tailnet rendering always succeeds, so a write goes through.\<close>

lemma sample_publish:
  assumes "FileSource f = JObj ms" "FileEtag f \<noteq> ''''"
  shows "publishPolicyFile (sample_api\<lparr>Parse := p\<rparr>) f doc = (None, [(''body'', FileEtag f)])"
proof -
  obtain before where before: "json_norm (JObj ms) = JObj before" by simp
  obtain after where after: "json_norm (JObj doc) = JObj after" by simp
  have "json_wf (JObj before)" "json_wf (JObj after)"
    using json_wf_norm [of "JObj ms"] json_wf_norm [of "JObj doc"] before after by simp_all
  have "\<exists>h. renderPolicyFile (map_option json_norm \<circ> Raw (sample_api\<lparr>Parse := p\<rparr>)) (PatchFile (sample_api\<lparr>Parse := p\<rparr>)) (FormatFile (sample_api\<lparr>Parse := p\<rparr>))
      (Pack (sample_api\<lparr>Parse := p\<rparr>)) (JObj ms) (JObj after) = Inr (Pack (sample_api\<lparr>Parse := p\<rparr>) h)
    \<and> (map_option json_norm \<circ> Raw (sample_api\<lparr>Parse := p\<rparr>)) h = Some (JObj after)"
    using before \<open>json_wf (JObj before)\<close> \<open>json_wf (JObj after)\<close>
    by (intro renders) (auto simp: sample_api_def json_norm_id)
  then have "render_file (sample_api\<lparr>Parse := p\<rparr>) f doc = Inr ''body''"
    using assms(1) after by (auto simp: render_file_def sample_api_def)
  then show ?thesis
    using assms(2) by (simp add: publishPolicyFile_def validatePolicyBody_def sample_api_def parsePolicyValidation_def)
qed

lemma sample_run:
  "EnsureServerproPolicy sample_api [''tag:serverpro-web''] [''tag:serverpro-web''] ''ops'' ''check-or-disabled'' '''' ''accept''
     = (None, [(''body'', ''etag-1'')])"
proof -
  let ?f = "\<lparr>FileSource = JObj sample_policy, FileDoc = sample_policy, FileEtag = ''etag-1''\<rparr>"
  have read: "readPolicyFile sample_api = Inr ?f"
    by (simp add: readPolicyFile_def sample_api_def sample_policy_def gm_copy_def gm_put_def)
  have "tagOwners sample_policy = Inr (Some [])" by (simp add: tagOwners_def sample_policy_def)
  then have "ensureTagOwners sample_policy [''tag:serverpro-web''] =
      Inr ([''tag:serverpro-web''], setTagOwners (Some [(''tag:serverpro-web'', Some [ServerproPolicyOwner])]) sample_policy)"
    by (simp add: ensureTagOwners_def gm_put_def)
  then obtain change doc where "ensure_edit sample_policy [''tag:serverpro-web''] [''tag:serverpro-web''] ''ops'' '''' ''accept''
      = Inr (change, doc)" and "Changed change"
    using sample_policy_rules(1)
    by (cases "human_rules [''tag:serverpro-web''] ''ops'' ''accept'' [sample_rule] = [sample_rule]")
      (auto simp: ensure_edit_def ensureSSHRule_keep Let_def ensureAutomationSSHRule_def Changed_def)
  then show ?thesis
    using sample_publish [of ?f sample_policy "Parse sample_api" doc]
    by (simp add: EnsureServerproPolicy_def ensure_refusal_def read publishPolicyChange_def mesh_constants)
qed

lemma ensure_policy_write_guarded_witness:
  "\<exists>file change doc h. ensure_refusal ''ops'' ''check-or-disabled'' '''' ''accept'' = None
    \<and> readPolicyFile sample_api = Inr file
    \<and> ensure_edit (FileDoc file) [''tag:serverpro-web''] [''tag:serverpro-web''] ''ops'' '''' ''accept'' = Inr (change, doc)
    \<and> Changed change
    \<and> [(''body'', ''etag-1'')] = [(Pack sample_api h, FileEtag file)] \<and> FileEtag file \<noteq> ''''
    \<and> map_option json_norm (Raw sample_api h) = Some (json_norm (JObj doc))
    \<and> Validate sample_api (Pack sample_api h) = Inr (Some (JObj []))"
  by (rule ensure_policy_write_guarded [OF sample_run]) simp


text \<open>Rules of an edited document are old rules, or the managed rules of this server.\<close>

lemma in_edited_rules:
  assumes "r \<in> set (edited_rules sshTags adminUser source action rules)" "human_action action"
  shows "r \<in> set rules \<and> \<not> human sshTags adminUser r \<or> human sshTags adminUser r \<and> Action r = action
    \<or> source \<noteq> '''' \<and> automation sshTags adminUser r"
proof -
  let ?h = "human_rules sshTags adminUser action rules"
  have h: "r \<in> set rules \<and> \<not> human sshTags adminUser r \<or> human sshTags adminUser r \<and> Action r = action" if "r \<in> set ?h"
  proof (cases "human sshTags adminUser r")
    case True
    with that have "r \<in> set (filter (human sshTags adminUser) ?h)" by simp
    moreover obtain r' where "filter (human sshTags adminUser) ?h = [r']" "Action r' = action"
      using human_rules_one [OF assms(2)] by blast
    ultimately show ?thesis using True by simp
  next
    case False
    with that have "r \<in> set (filter (\<lambda>r. \<not> human sshTags adminUser r) ?h)" by simp
    then show ?thesis using human_rules_foreign [OF assms(2)] by auto
  qed
  show ?thesis
  proof (cases "source = '''' \<or> automation sshTags adminUser r")
    case True
    with assms(1) h show ?thesis by (auto simp: edited_rules_def Let_def)
  next
    case False
    with assms(1) have "r \<in> set (filter (\<lambda>r. \<not> automation sshTags adminUser r) (automation_rules sshTags adminUser ?h))"
      by (simp add: edited_rules_def Let_def)
    then have "r \<in> set ?h" by (simp add: automation_rules_foreign)
    then show ?thesis using h by blast
  qed
qed

lemma managed_rule_users:
  "human tags adminUser r \<Longrightarrow> items (Users r) = [adminUser]"
  "automation tags adminUser r \<Longrightarrow> items (Users r) = [adminUser]"
  "human tags adminUser r \<Longrightarrow> set (items (Dst r)) = set tags"
  by (auto simp: rule_match_defs dest: mset_eq_setD)

text \<open>
  C30. Root never gets in without a browser login by an edit of serverpro: when the checks before the
  read pass, every rule of the edited document that accepts root was in the document before.
\<close>

theorem ensure_no_root_accept:
  assumes "ensure_refusal adminUser rootPolicy source action = None"
    and "sshRules doc = Inr rules" "\<forall>r \<in> set rules. rule_wf r"
    and "ensure_edit doc tags sshTags adminUser source action = Inr (change, doc')"
  shows "\<exists>rules'. sshRules doc' = Inr rules'
    \<and> {r \<in> set rules'. Action r = SSHActionAccept \<and> RootSSHUser \<in> set (items (Users r))} \<subseteq> set rules"
proof -
  have source: "source = '''' \<or> source = AutomationSourceTag" and action: "human_action action"
    using assms(1) by (auto simp: ensure_refusal_def human_action_def split: if_splits)
  have "r \<in> set rules"
    if r: "r \<in> set (edited_rules sshTags adminUser source action rules)" and accept: "Action r = SSHActionAccept"
      and root: "RootSSHUser \<in> set (items (Users r))" for r
  proof (rule ccontr)
    assume "r \<notin> set rules"
    with in_edited_rules [OF r action] have managed: "human sshTags adminUser r \<and> Action r = action
      \<or> source \<noteq> '''' \<and> automation sshTags adminUser r" by blast
    then have "items (Users r) = [adminUser]" using managed_rule_users by metis
    with root have "adminUser = RootSSHUser" by simp
    with managed accept assms(1) show False by (auto simp: ensure_refusal_def split: if_splits)
  qed
  then show ?thesis using ensure_edit_rules [OF assms(4,2,3) source] by blast
qed

definition sample_edit :: "PolicyChange \<times> policyDocument" where
  "sample_edit = projr (ensure_edit sample_policy [''tag:serverpro-web''] [''tag:serverpro-web''] ''ops'' '''' ''accept'')"

lemma sample_edit:
  "ensure_edit sample_policy [''tag:serverpro-web''] [''tag:serverpro-web''] ''ops'' '''' ''accept''
     = Inr (fst sample_edit, snd sample_edit)"
proof -
  have "tagOwners sample_policy = Inr (Some [])" by (simp add: tagOwners_def sample_policy_def)
  then have "ensureTagOwners sample_policy [''tag:serverpro-web''] =
      Inr ([''tag:serverpro-web''], setTagOwners (Some [(''tag:serverpro-web'', Some [ServerproPolicyOwner])]) sample_policy)"
    by (simp add: ensureTagOwners_def gm_put_def)
  then obtain e where "ensure_edit sample_policy [''tag:serverpro-web''] [''tag:serverpro-web''] ''ops'' '''' ''accept'' = Inr e"
    using sample_policy_rules(1)
    by (cases "human_rules [''tag:serverpro-web''] ''ops'' ''accept'' [sample_rule] = [sample_rule]")
      (auto simp: ensure_edit_def ensureSSHRule_keep Let_def ensureAutomationSSHRule_def)
  then show ?thesis by (simp add: sample_edit_def)
qed

lemma ensure_no_root_accept_witness:
  "\<exists>rules'. sshRules (snd sample_edit) = Inr rules'
    \<and> {r \<in> set rules'. Action r = SSHActionAccept \<and> RootSSHUser \<in> set (items (Users r))} \<subseteq> set [sample_rule]"
  by (rule ensure_no_root_accept [OF _ _ _ sample_edit, where rootPolicy = "''check-or-disabled''"])
    (simp_all add: ensure_refusal_def mesh_constants sample_policy_rules)

text \<open>What the scan of the read-back finds when no rule is unsafe.\<close>

lemma scan_safe:
  assumes "\<forall>r \<in> set rules. ruleMatchesDst r tags \<longrightarrow> unsafeSSHRule r = None"
  shows "scanSSHRules rules tags sshTags adminUser source scan = Inr
    \<lparr>matched = (matched scan \<or> (\<exists>r \<in> set rules. ruleMatchesDst r tags)),
     allowsAdmin = (allowsAdmin scan \<or> (\<exists>r \<in> set rules. ruleMatchesDst r tags
          \<and> (adminUser \<in> set (items (Users r)) \<or> ''autogroup:nonroot'' \<in> set (items (Users r))))),
     automationAllowed = (automationAllowed scan \<or> (\<exists>r \<in> set rules. ruleMatchesDst r tags
          \<and> source \<noteq> '''' \<and> automationSSHRuleMatches r sshTags adminUser source)),
     humanAccepted = (humanAccepted scan \<or> (\<exists>r \<in> set rules. ruleMatchesDst r tags
          \<and> Action r = SSHActionAccept \<and> human sshTags adminUser r))\<rparr>"
  using assms
proof (induction rules arbitrary: scan)
  case (Cons r rules)
  show ?case
  proof (cases "ruleMatchesDst r tags")
    case True
    with Cons.prems have "unsafeSSHRule r = None" by simp
    with True Cons.prems show ?thesis by (simp add: Cons.IH disj_assoc)
  next
    case False
    with Cons.prems show ?thesis by (simp add: Cons.IH)
  qed
qed simp

lemma filter_one: "filter P xs = [x] \<Longrightarrow> x \<in> set xs \<and> P x"
  by (metis filter_set list.set_intros(1) mem_Collect_eq set_filter)

lemma sample_rule_safe: "unsafeSSHRule sample_rule = None"
  by (simp add: sample_rule_def unsafeSSHRule_def mesh_constants)

text \<open>
  The read-back accepts what was written: when the checks before the read pass, the rules of the
  edited document satisfy \<open>ValidateSSHPolicy\<close> for the same settings, unless the document already
  had an unsafe rule on one of the device tags. (The admin user is one login, not the group of all
  nonroot users, as config validation requires.)
\<close>

theorem ensured_policy_validates:
  assumes "ensure_refusal adminUser rootPolicy source action = None"
    and "sshRules doc = Inr rules" "\<forall>r \<in> set rules. rule_wf r"
    and "\<forall>r \<in> set rules. ruleMatchesDst r tags \<longrightarrow> unsafeSSHRule r = None"
    and "adminUser \<noteq> ''autogroup:nonroot''" "sshTags \<noteq> []" "set sshTags \<subseteq> set tags"
    and "ensure_edit doc tags sshTags adminUser source action = Inr (change, doc')"
  shows "\<exists>rules'. sshRules doc' = Inr rules' \<and> validate_rules rules' tags sshTags adminUser source action = None"
proof -
  have source: "source = '''' \<or> source = AutomationSourceTag" and action: "human_action action"
    using assms(1) by (auto simp: ensure_refusal_def human_action_def split: if_splits)
  let ?out = "edited_rules sshTags adminUser source action rules"
  have safe: "\<forall>r \<in> set ?out. ruleMatchesDst r tags \<longrightarrow> unsafeSSHRule r = None"
  proof (intro ballI impI)
    fix r assume r: "r \<in> set ?out" "ruleMatchesDst r tags"
    from in_edited_rules [OF r(1) action] consider "r \<in> set rules"
      | "human sshTags adminUser r" "Action r = action" | "source \<noteq> ''''" "automation sshTags adminUser r" by blast
    then show "unsafeSSHRule r = None"
    proof cases
      case 1
      with assms(4) r(2) show ?thesis by blast
    next
      case 2
      with managed_rule_users(1) [OF 2(1)] assms(1,5) show ?thesis
        by (auto simp: unsafeSSHRule_def ensure_refusal_def RootSSHUser_def split: if_splits)
    next
      case 3
      with managed_rule_users(2) [OF 3(2)] assms(1,5) show ?thesis
        by (auto simp: unsafeSSHRule_def ensure_refusal_def RootSSHUser_def split: if_splits)
    qed
  qed
  have reaches: "ruleMatchesDst r tags" if "set (items (Dst r)) = set sshTags" for r
    using that assms(6,7) by (cases sshTags) (auto simp: ruleMatchesDst_def list_ex_iff)
  obtain r where h: "filter (human sshTags adminUser) ?out = [r]" "Action r = action"
  proof (cases "source = ''''")
    case True
    with human_rules_one [OF action] that show ?thesis by (auto simp: edited_rules_def)
  next
    case False
    with human_rules_one [OF action, of sshTags adminUser rules] that show ?thesis
      by (auto simp: edited_rules_def Let_def automation_rules_human)
  qed
  have human: "r \<in> set ?out" "human sshTags adminUser r" using filter_one [OF h(1)] by simp_all
  then have dst: "ruleMatchesDst r tags" and user: "adminUser \<in> set (items (Users r))"
    using reaches managed_rule_users by auto
  have auto: "\<exists>a \<in> set ?out. ruleMatchesDst a tags \<and> automationSSHRuleMatches a sshTags adminUser source" if "source \<noteq> ''''"
  proof -
    from that source have src: "source = AutomationSourceTag" by simp
    obtain a where a: "filter (automation sshTags adminUser) ?out = [a]"
      using automation_rules_one [of sshTags adminUser "human_rules sshTags adminUser action rules"] src
      by (auto simp: edited_rules_def Let_def AutomationSourceTag_def)
    have "a \<in> set ?out" "automation sshTags adminUser a" using filter_one [OF a] by simp_all
    moreover from this(2) have "set (items (Dst a)) = set sshTags" by (auto simp: rule_match_defs dest: mset_eq_setD)
    ultimately show ?thesis using reaches src by blast
  qed
  have "validate_rules ?out tags sshTags adminUser source action = None"
    using human dst user auto h(2) by (auto simp: validate_rules_def scan_safe [OF safe])
  then show ?thesis using ensure_edit_rules [OF assms(8,2,3) source] by blast
qed

lemma ensured_policy_validates_witness:
  "\<exists>rules'. sshRules (snd sample_edit) = Inr rules'
    \<and> validate_rules rules' [''tag:serverpro-web''] [''tag:serverpro-web''] ''ops'' '''' ''accept'' = None"
  by (rule ensured_policy_validates [OF _ _ _ _ _ _ _ sample_edit, where rootPolicy = "''check-or-disabled''" and rules = "[sample_rule]"])
    (simp_all add: ensure_refusal_def mesh_constants sample_policy_rules sample_rule_safe)


text \<open>
  C31. Ensuring is idempotent: a second edit of an edited document reports no change, and a second run
  against a tailnet that holds it sends no write.
\<close>

theorem ensure_policy_idempotent:
  assumes "ensure_refusal adminUser rootPolicy source action = None"
    and "sshRules doc = Inr rules" "\<forall>r \<in> set rules. rule_wf r"
    and "ensure_edit doc tags sshTags adminUser source action = Inr (change, doc')"
    and "readPolicyFile api = Inr f" "FileDoc f = doc'"
  shows "ensure_edit doc' tags sshTags adminUser source action = Inr (no_change, doc')
    \<and> EnsureServerproPolicy api tags sshTags adminUser rootPolicy source action = (None, [])"
proof -
  have source: "source = '''' \<or> source = AutomationSourceTag" and action: "human_action action"
    using assms(1) by (auto simp: ensure_refusal_def human_action_def split: if_splits)
  let ?h = "human_rules sshTags adminUser action rules"
  let ?out = "edited_rules sshTags adminUser source action rules"
  have after: "sshRules doc' = Inr ?out" by (rule ensure_edit_rules [OF assms(4,2,3) source])
  have wf: "\<forall>r \<in> set ?out. rule_wf r" by (rule edited_rules_wf [OF assms(3)])
  have one: "\<exists>r. filter (human sshTags adminUser) ?out = [r] \<and> r\<lparr>Action := action\<rparr> = r"
    using human_rules_one [OF action, of sshTags adminUser rules]
    by (auto simp: edited_rules_def Let_def automation_rules_human)
  have human_same: "human_rules sshTags adminUser action ?out = ?out"
    using one action unfolding human_rules_def human_action_def
    by (auto intro: human_check.keep_one_fixed human_accept.keep_one_fixed)
  have auto_same: "automation_rules sshTags adminUser ?out = ?out" if "source \<noteq> ''''"
    using that automation_rule.keep_one_idempotent by (simp add: edited_rules_def Let_def automation_rules_def)
  from assms(4) have same: "ensure_edit doc' tags sshTags adminUser source action = Inr (no_change, doc')"
  proof (rule ensure_edit_cases)
    fix added doc1 c doc2 a r
    assume 1: "ensureTagOwners doc (tags @ (if source \<noteq> '''' then [source] else [])) = Inr (added, doc1)"
      and 2: "ensureSSHRule doc1 sshTags adminUser action = Inr (c, doc2)"
      and 3: "ensureAutomationSSHRule doc2 sshTags adminUser source = Inr (a, r, doc')"
    have doc1: "sshRules doc1 = Inr rules" using ensureTagOwners_unchanged [OF 1] assms(2) by simp
    have doc2: "sshRules doc2 = Inr ?h" by (rule ensureSSHRule_result(1) [OF doc1 assms(3) 2])
    have "gm_get doc' ''tagOwners'' = gm_get doc1 ''tagOwners''"
      using ensureSSHRule_result(2) [OF doc1 assms(3) 2] ensureAutomation_result(2) [OF doc2 human_rules_wf [OF assms(3)] source 3]
      by simp
    from ensureTagOwners_again [OF 1 this]
    have owners: "ensureTagOwners doc' (tags @ (if source \<noteq> '''' then [source] else [])) = Inr ([], doc')" .
    have rule: "ensureSSHRule doc' sshTags adminUser action = Inr (False, doc')"
      by (simp add: ensureSSHRule_keep [OF after] human_same)
    have "ensureAutomationSSHRule doc' sshTags adminUser source = Inr (False, False, doc')"
    proof (cases "source = ''''")
      case True
      then show ?thesis by (simp add: ensureAutomationSSHRule_def)
    next
      case False
      with source auto_same show ?thesis by (auto simp: ensureAutomationSSHRule_keep [OF after] Let_def)
    qed
    then show "ensure_edit doc' tags sshTags adminUser source action = Inr (no_change, doc')"
      by (simp only: ensure_edit_def Let_def owners rule bindR_simps prod.case no_change_def)
  qed
  then have "EnsureServerproPolicy api tags sshTags adminUser rootPolicy source action = (None, [])"
    using assms(1,5,6) by (simp add: EnsureServerproPolicy_def publishPolicyChange_def Changed_def no_change_def)
  with same show ?thesis by simp
qed

lemma ensure_edit_wf:
  assumes "ensure_edit doc tags sshTags adminUser source action = Inr (change, doc')" "gm_wf doc"
  shows "gm_wf doc'"
proof -
  have set: "gm_wf d \<Longrightarrow> gm_wf (setTagOwners owners d)" "gm_wf d \<Longrightarrow> gm_wf (setSSHRules rules d)" for d owners rules
    by (simp_all add: setTagOwners_def setSSHRules_def)
  from assms show ?thesis
    by (elim ensure_edit_cases)
      (auto simp: ensureTagOwners_def ensureSSHRule_def ensureAutomationSSHRule_def bindR_eq_Inr Let_def set
        split: if_splits prod.splits)
qed

definition edited_api :: "json policy_api" where
  "edited_api = sample_api\<lparr>Parse := \<lambda>_. Some (JObj (snd sample_edit))\<rparr>"

lemma edited_file: "readPolicyFile edited_api =
    Inr \<lparr>FileSource = JObj (snd sample_edit), FileDoc = snd sample_edit, FileEtag = ''etag-1''\<rparr>"
proof -
  have "gm_wf (snd sample_edit)"
    by (rule ensure_edit_wf [OF sample_edit]) (simp add: sample_policy_def)
  then show ?thesis by (simp add: readPolicyFile_def edited_api_def sample_api_def gm_copy_id)
qed

lemma ensure_policy_idempotent_witness:
  "ensure_edit (snd sample_edit) [''tag:serverpro-web''] [''tag:serverpro-web''] ''ops'' '''' ''accept'' = Inr (no_change, snd sample_edit)
    \<and> EnsureServerproPolicy edited_api [''tag:serverpro-web''] [''tag:serverpro-web''] ''ops'' ''check-or-disabled'' '''' ''accept''
        = (None, [])"
  by (rule ensure_policy_idempotent [OF _ sample_policy_rules(1) _ sample_edit edited_file])
    (simp_all add: ensure_refusal_def mesh_constants sample_policy_rules)

end
