(* ===== verification/Policy_Reconcile.thy ===== *)
theory Policy_Reconcile
  imports Policy_Client
begin

text \<open>
  Removal of stale serverpro entries from the tailnet policy
  (internal/provider/tailscale/policy_reconcile.go). A plan is made from the registered state, the
  live devices and the policy; it is shown to the operator, and applied only when fresh evidence gives
  the identical plan. The set of removable tags is held as the list of the planned tags. A nil list
  and an empty list of a plan are the same here; \<open>reflect.DeepEqual\<close> tells them apart, so the code
  refuses a little more.
\<close>

definition serverproTagPrefix :: string where "serverproTagPrefix = ''tag:serverpro-''"
definition tailnetTagPrefix :: string where "tailnetTagPrefix = ''tag:''"

definition usedPolicyTags :: "string list \<Rightarrow> Device list \<Rightarrow> (string, slice) gomap \<Rightarrow> string list" where
  "usedPolicyTags protectedTags devices owners =
     protectedTags @ concat (map DeviceTags devices)
     @ filter (\<lambda>v. has_prefix v tailnetTagPrefix) (concat (map (\<lambda>kv. items (snd kv)) owners))"

definition isHumanRuleShape :: "SSHRule \<Rightarrow> bool" where
  "isHumanRuleShape rule =
     (if \<not> sameStringSet (items (Src rule)) [ServerproPolicyOwner] then False
      else Action rule = SSHActionCheck \<or> Action rule = SSHActionAccept \<and> items (Users rule) ! 0 \<noteq> RootSSHUser)"

definition isAutomationRuleShape :: "SSHRule \<Rightarrow> bool" where
  "isAutomationRuleShape rule \<longleftrightarrow>
     Action rule = SSHActionAccept \<and> sameStringSet (items (Src rule)) [AutomationSourceTag]
     \<and> items (Users rule) ! 0 \<noteq> RootSSHUser"

definition plannedServerproSSHRule :: "SSHRule \<Rightarrow> string list \<Rightarrow> SSHRule option" where
  "plannedServerproSSHRule rule removable =
     (if items (Dst rule) = [] \<or> length (items (Users rule)) \<noteq> 1 \<or> items (Users rule) ! 0 = '''' then None
      else
        (let automation = isAutomationRuleShape rule in
         if automation \<and> AutomationSourceTag \<in> set removable then Some rule
         else if \<not> automation \<and> \<not> isHumanRuleShape rule then None
         else
           (let stale = filter (\<lambda>tag. tag \<in> set removable) (items (Dst rule))
            in if stale = [] then None else Some (rule\<lparr>Dst := Some stale\<rparr>))))"

definition planned_tags :: "string list \<Rightarrow> (string, slice) gomap \<Rightarrow> string list" where
  "planned_tags used owners =
     map fst (filter (\<lambda>kv. fst kv \<notin> set used \<and> has_prefix (fst kv) serverproTagPrefix
                        \<and> sameStringSet (items (snd kv)) [ServerproPolicyOwner]) owners)"

definition make_plan :: "string list \<Rightarrow> Device list \<Rightarrow> (string, slice) gomap \<Rightarrow> SSHRule list \<Rightarrow> PolicyReconcilePlan" where
  "make_plan protectedTags devices owners rules =
     (let removable = planned_tags (usedPolicyTags protectedTags devices owners) owners
      in \<lparr>PlanTagOwners = sort removable,
          PlanSSHRules = List.map_filter (\<lambda>rule. plannedServerproSSHRule rule removable) rules\<rparr>)"

definition serverproPolicyReconcilePlan ::
  "'h policy_api \<Rightarrow> (string, Device list) result \<Rightarrow> string list \<Rightarrow> (policy_error, PolicyReconcilePlan \<times> 'h policyFile) result" where
  "serverproPolicyReconcilePlan api devices protectedTags =
     (case devices of
        Inl e \<Rightarrow> Inl (ApiError e)
      | Inr ds \<Rightarrow>
          bindR (readPolicyFile api) (\<lambda>pf.
          bindR (tagOwners (FileDoc pf)) (\<lambda>owners.
          bindR (sshRules (FileDoc pf)) (\<lambda>rules.
            Inr (make_plan protectedTags ds (items owners) rules, pf)))))"

definition plannedDestinations :: "SSHRule \<Rightarrow> SSHRule list \<Rightarrow> string list" where
  "plannedDestinations rule planned =
     concat (map (\<lambda>candidate.
        if Action candidate \<noteq> Action rule \<or> \<not> sameStringSet (items (Src candidate)) (items (Src rule))
           \<or> \<not> sameStringSet (items (Users candidate)) (items (Users rule)) then []
        else items (Dst candidate)) planned)"

fun rewrite_rules :: "SSHRule list \<Rightarrow> SSHRule list \<Rightarrow> SSHRule list" where
  "rewrite_rules planned [] = []"
| "rewrite_rules planned (rule # rules) =
     (let removable = plannedDestinations rule planned in
      if removable = [] then rule # rewrite_rules planned rules
      else (let destinations = filter (\<lambda>d. d \<notin> set removable) (items (Dst rule))
            in if destinations = [] then rewrite_rules planned rules
               else rule\<lparr>Dst := Some destinations\<rparr> # rewrite_rules planned rules))"

definition rewritePlannedSSHRules :: "policyDocument \<Rightarrow> SSHRule list \<Rightarrow> (policy_error, policyDocument) result" where
  "rewritePlannedSSHRules d planned =
     bindR (sshRules d) (\<lambda>rules. Inr (setSSHRules (rewrite_rules planned rules) d))"

definition apply_plan :: "policyDocument \<Rightarrow> PolicyReconcilePlan \<Rightarrow> (policy_error, policyDocument) result" where
  "apply_plan d plan =
     bindR (removeTagOwners d (PlanTagOwners plan)) (\<lambda>(_, d1). rewritePlannedSSHRules d1 (PlanSSHRules plan))"

definition ApplyServerproPolicyReconcile ::
  "'h policy_api \<Rightarrow> (string, Device list) result \<Rightarrow> string list \<Rightarrow> PolicyReconcilePlan \<Rightarrow> run_result" where
  "ApplyServerproPolicyReconcile api devices protectedTags approved =
     (case serverproPolicyReconcilePlan api devices protectedTags of
        Inl e \<Rightarrow> (Some e, [])
      | Inr (plan, pf) \<Rightarrow>
          if plan \<noteq> approved then (Some ErrPolicyReconcilePlanChanged, [])
          else if EmptyPlan plan then (None, [])
          else case apply_plan (FileDoc pf) plan of
            Inl e \<Rightarrow> (Some e, [])
          | Inr doc \<Rightarrow> publishPolicyFile api pf doc)"

section \<open>What a plan takes\<close>

lemma sameStringSet_single: "sameStringSet xs [x] \<longleftrightarrow> xs = [x]"
  by (simp add: sameStringSet_mset mset_single_list)

text \<open>
  A plan takes a tag owner exactly when there is no evidence for it: the tag is serverpro's by
  its prefix, its only owner is the tailnet admins as serverpro writes it, and it is neither
  registered, nor carried by a live device, nor named as an owner of any tag.
\<close>

theorem plan_tag_owners_iff:
  assumes "gm_wf owners"
  shows "tag \<in> set (PlanTagOwners (make_plan protectedTags devices owners rules)) \<longleftrightarrow>
    (\<exists>v. gm_get owners tag = Some v \<and> items v = [ServerproPolicyOwner]) \<and> has_prefix tag serverproTagPrefix
    \<and> tag \<notin> set protectedTags \<and> (\<forall>d \<in> set devices. tag \<notin> set (DeviceTags d))
    \<and> (\<forall>t v. gm_get owners t = Some v \<longrightarrow> tag \<notin> set (items v))"
proof -
  have prefix: "has_prefix tag serverproTagPrefix \<Longrightarrow> has_prefix tag tailnetTagPrefix"
    by (rule has_prefix_trans) (simp, code_simp)
  have "tag \<in> set (PlanTagOwners (make_plan protectedTags devices owners rules)) \<longleftrightarrow>
      (\<exists>v. (tag, v) \<in> set owners \<and> items v = [ServerproPolicyOwner]) \<and> has_prefix tag serverproTagPrefix
      \<and> tag \<notin> set (usedPolicyTags protectedTags devices owners)"
    by (force simp: make_plan_def Let_def planned_tags_def sameStringSet_single)
  also have "\<dots> \<longleftrightarrow> (\<exists>v. gm_get owners tag = Some v \<and> items v = [ServerproPolicyOwner]) \<and> has_prefix tag serverproTagPrefix
      \<and> tag \<notin> set protectedTags \<and> (\<forall>d \<in> set devices. tag \<notin> set (DeviceTags d))
      \<and> (\<forall>t v. gm_get owners t = Some v \<longrightarrow> tag \<notin> set (items v))"
  proof -
    have "(\<forall>x \<in> set owners. tag \<notin> set (items (snd x))) \<longleftrightarrow> (\<forall>t v. (t, v) \<in> set owners \<longrightarrow> tag \<notin> set (items v))"
      by force
    then show ?thesis using prefix by (auto simp: usedPolicyTags_def gm_in_set [OF assms])
  qed
  finally show ?thesis .
qed

lemma plan_tag_owners_iff_witness:
  "''tag:serverpro-old'' \<in> set (PlanTagOwners (make_plan [''tag:serverpro-web''] []
        [(''tag:serverpro-web'', Some [''autogroup:admin'']), (''tag:serverpro-old'', Some [''autogroup:admin''])] [])) \<longleftrightarrow>
    (\<exists>v. gm_get [(''tag:serverpro-web'', Some [''autogroup:admin'']), (''tag:serverpro-old'', Some [''autogroup:admin''])]
        ''tag:serverpro-old'' = Some v \<and> items v = [ServerproPolicyOwner]) \<and> has_prefix ''tag:serverpro-old'' serverproTagPrefix
    \<and> ''tag:serverpro-old'' \<notin> set [''tag:serverpro-web''] \<and> True"
  using plan_tag_owners_iff [of "[(''tag:serverpro-web'', Some [''autogroup:admin'']), (''tag:serverpro-old'', Some [''autogroup:admin''])]"
      "''tag:serverpro-old''" "[''tag:serverpro-web'']" "[]" "[]"]
  by (auto simp: mesh_constants split: if_splits)

text \<open>A rule that is planned, and what its plan names.\<close>

lemma planned_rule:
  assumes "plannedServerproSSHRule rule removable = Some p"
  shows "Action p = Action rule \<and> Src p = Src rule \<and> Users p = Users rule \<and> extra p = extra rule
    \<and> (\<exists>user. items (Users rule) = [user])
    \<and> set (items (Dst p)) \<subseteq> set (items (Dst rule)) \<and> items (Dst p) \<noteq> []
    \<and> (set (items (Dst p)) \<subseteq> set removable \<or> items (Src p) = [AutomationSourceTag] \<and> AutomationSourceTag \<in> set removable)"
proof -
  have one: "\<exists>user. items (Users rule) = [user]" if "length (items (Users rule)) = 1"
    using that by (auto simp: length_Suc_conv)
  show ?thesis
    using assms one
    by (auto simp: plannedServerproSSHRule_def Let_def isAutomationRuleShape_def sameStringSet_single split: if_splits)
qed

lemma in_map_filter: "y \<in> set (List.map_filter f xs) \<longleftrightarrow> (\<exists>x \<in> set xs. f x = Some y)"
  by (force simp: List.map_filter_def)

lemma rewrite_rules_in:
  assumes "r \<in> set (rewrite_rules planned rules)"
  shows "\<exists>rule \<in> set rules. r = rule \<or> r = rule\<lparr>Dst := Some (filter (\<lambda>d. d \<notin> set (plannedDestinations rule planned)) (items (Dst rule)))\<rparr>"
  using assms by (induction planned rules rule: rewrite_rules.induct) (auto simp: Let_def split: if_splits)

lemma rewrite_rules_keeps:
  assumes "rule \<in> set rules" "d \<in> set (items (Dst rule))" "d \<notin> set (plannedDestinations rule planned)"
  shows "\<exists>r \<in> set (rewrite_rules planned rules). Action r = Action rule \<and> Src r = Src rule \<and> Users r = Users rule
    \<and> extra r = extra rule \<and> d \<in> set (items (Dst r))"
  using assms
proof (induction planned rules rule: rewrite_rules.induct)
  case (2 planned rule' rules)
  show ?case
  proof (cases "rule = rule'")
    case True
    let ?left = "filter (\<lambda>d. d \<notin> set (plannedDestinations rule' planned)) (items (Dst rule'))"
    from True "2.prems" have "d \<in> set ?left" by simp
    then have "?left \<noteq> []" by (metis list.distinct(1) list.set_cases)
    with True "2.prems" show ?thesis by (auto simp: Let_def)
  next
    case False
    with 2 show ?thesis by (auto simp: Let_def)
  qed
qed simp

lemma rewrite_rules_untouched:
  assumes "rule \<in> set rules" "plannedDestinations rule planned = []"
  shows "rule \<in> set (rewrite_rules planned rules)"
  using assms
proof (induction planned rules rule: rewrite_rules.induct)
  case (2 planned rule' rules)
  then show ?case by (cases "rule = rule'") (simp_all add: Let_def)
qed simp


text \<open>
  A planned rule is serverpro's to edit and the plan names only what goes: it comes from a rule
  of the policy with the same action, sources, users and unmodelled members and with one user, and
  every destination it names is a removed tag, unless the rule's one source, the automation tag, is
  removed itself.
\<close>

theorem plan_rules_evidence:
  assumes "p \<in> set (PlanSSHRules (make_plan protectedTags devices owners rules))"
  shows "\<exists>rule \<in> set rules. p = rule\<lparr>Dst := Dst p\<rparr> \<and> (\<exists>user. items (Users rule) = [user])
    \<and> set (items (Dst p)) \<subseteq> set (items (Dst rule)) \<and> items (Dst p) \<noteq> []
    \<and> (set (items (Dst p)) \<subseteq> set (PlanTagOwners (make_plan protectedTags devices owners rules))
       \<or> items (Src rule) = [AutomationSourceTag]
         \<and> AutomationSourceTag \<in> set (PlanTagOwners (make_plan protectedTags devices owners rules)))"
proof -
  from assms obtain rule where rule: "rule \<in> set rules"
    "plannedServerproSSHRule rule (planned_tags (usedPolicyTags protectedTags devices owners) owners) = Some p"
    by (auto simp: make_plan_def Let_def in_map_filter)
  have "p = rule\<lparr>Dst := Dst p\<rparr>" using planned_rule [OF rule(2)] by (cases p; cases rule) auto
  then show ?thesis using planned_rule [OF rule(2)] rule(1) by (intro bexI [of _ rule]) (auto simp: make_plan_def Let_def)
qed

definition old_owners :: "(string, slice) gomap" where
  "old_owners = [(''tag:serverpro-web'', Some [''autogroup:admin'']), (''tag:serverpro-old'', Some [''autogroup:admin''])]"

definition old_rule :: SSHRule where
  "old_rule = serverproSSHRule [''tag:serverpro-web'', ''tag:serverpro-old''] ''ops'' ''check''"

lemma old_plan:
  "make_plan [''tag:serverpro-web''] [] old_owners [old_rule] =
     \<lparr>PlanTagOwners = [''tag:serverpro-old''], PlanSSHRules = [old_rule\<lparr>Dst := Some [''tag:serverpro-old'']\<rparr>]\<rparr>"
  by code_simp

lemma plan_rules_evidence_witness:
  "\<exists>rule \<in> set [old_rule]. old_rule\<lparr>Dst := Some [''tag:serverpro-old'']\<rparr> = rule\<lparr>Dst := Some [''tag:serverpro-old'']\<rparr>"
  using plan_rules_evidence [of "old_rule\<lparr>Dst := Some [''tag:serverpro-old'']\<rparr>" "[''tag:serverpro-web'']" "[]" old_owners "[old_rule]"]
  by (simp add: old_plan)

text \<open>Removing owners.\<close>

lemma del_owners_spec:
  "\<exists>m'. del_owners (Some m) tags = (Some m', \<exists>t \<in> set tags. gm_get m t \<noteq> None)
     \<and> (\<forall>t. gm_get m' t = (if t \<in> set tags then None else gm_get m t)) \<and> (gm_wf m \<longrightarrow> gm_wf m')"
proof (induction tags arbitrary: m)
  case (Cons tag tags)
  show ?case
  proof (cases "gm_get m tag")
    case None
    from Cons.IH [of m] obtain m' where "del_owners (Some m) tags = (Some m', \<exists>t \<in> set tags. gm_get m t \<noteq> None)"
      "\<forall>t. gm_get m' t = (if t \<in> set tags then None else gm_get m t)" "gm_wf m \<longrightarrow> gm_wf m'" by blast
    with None show ?thesis by (intro exI [of _ m']) auto
  next
    case (Some v)
    from Cons.IH [of "gm_del tag m"] obtain m' b where "del_owners (Some (gm_del tag m)) tags = (Some m', b)"
      "\<forall>t. gm_get m' t = (if t \<in> set tags then None else gm_get (gm_del tag m) t)" "gm_wf (gm_del tag m) \<longrightarrow> gm_wf m'" by blast
    with Some show ?thesis by (intro exI [of _ m']) auto
  qed
qed auto

lemma removeTagOwners_result:
  assumes "tagOwners d = Inr (Some m)"
  shows "\<exists>c d' m'. removeTagOwners d tags = Inr (c, d') \<and> tagOwners d' = Inr (Some m') \<and> gm_wf m'
    \<and> (\<forall>t. gm_get m' t = (if t \<in> set tags then None else gm_get m t)) \<and> sshRules d' = sshRules d"
proof -
  have wf: "gm_wf m" by (rule tagOwners_wf [OF assms])
  from del_owners_spec [of m tags] obtain m1 where
    del: "del_owners (Some m) tags = (Some m1, \<exists>t \<in> set tags. gm_get m t \<noteq> None)"
    and get: "\<forall>t. gm_get m1 t = (if t \<in> set tags then None else gm_get m t)" and wf1: "gm_wf m1"
    using wf by blast
  show ?thesis
  proof (cases "\<exists>t \<in> set tags. gm_get m t \<noteq> None")
    case True
    then have run: "removeTagOwners d tags = Inr (True, setTagOwners (Some m1) d)"
      using assms del by (simp add: removeTagOwners_def)
    obtain m' where "tagOwners (setTagOwners (Some m1) d) = Inr (Some m')" "gm_get m' = gm_get m1" "gm_wf m'"
      using tagOwners_set [OF wf1] by blast
    then show ?thesis using run get
      by (intro exI [of _ True] exI [of _ "setTagOwners (Some m1) d"] exI [of _ m']) simp
  next
    case False
    then have "removeTagOwners d tags = Inr (False, d)" using assms del by (auto simp: removeTagOwners_def)
    then show ?thesis using False assms wf by (intro exI [of _ False] exI [of _ d] exI [of _ m]) auto
  qed
qed

lemma apply_plan_result:
  assumes "tagOwners d = Inr (Some m)" "sshRules d = Inr rules" "\<forall>r \<in> set rules. rule_wf r"
  shows "\<exists>d' m'. apply_plan d plan = Inr d' \<and> tagOwners d' = Inr (Some m') \<and> gm_wf m'
    \<and> (\<forall>t. gm_get m' t = (if t \<in> set (PlanTagOwners plan) then None else gm_get m t))
    \<and> sshRules d' = Inr (rewrite_rules (PlanSSHRules plan) rules)"
proof -
  obtain c d1 m' where 1: "removeTagOwners d (PlanTagOwners plan) = Inr (c, d1)" "tagOwners d1 = Inr (Some m')" "gm_wf m'"
    "\<forall>t. gm_get m' t = (if t \<in> set (PlanTagOwners plan) then None else gm_get m t)" "sshRules d1 = Inr rules"
    using removeTagOwners_result [OF assms(1), of "PlanTagOwners plan"] assms(2) by auto
  have "\<forall>r \<in> set (rewrite_rules (PlanSSHRules plan) rules). rule_wf r"
    using assms(3) rewrite_rules_in [of _ "PlanSSHRules plan" rules] by (fastforce simp: rule_wf_def)
  then show ?thesis
    using 1 by (intro exI [of _ "setSSHRules (rewrite_rules (PlanSSHRules plan) rules) d1"] exI [of _ m'])
      (simp add: apply_plan_def rewritePlannedSSHRules_def tagOwners_def)
qed






text \<open>
  C34. Nothing is removed that was not approved: \<open>ApplyServerproPolicyReconcile\<close> sends a write only
  when the plan made from fresh evidence is the approved one and not empty, and then the one write
  is the guarded write of the document with that plan applied.
\<close>

theorem reconcile_needs_approval:
  assumes "ApplyServerproPolicyReconcile api devices protectedTags approved = (err, writes)" "w \<in> set writes"
  shows "\<exists>pf doc h. serverproPolicyReconcilePlan api devices protectedTags = Inr (approved, pf) \<and> \<not> EmptyPlan approved
    \<and> apply_plan (FileDoc pf) approved = Inr doc \<and> writes = [(Pack api h, FileEtag pf)] \<and> FileEtag pf \<noteq> ''''
    \<and> map_option json_norm (Raw api h) = Some (json_norm (JObj doc))
    \<and> Validate api (Pack api h) = Inr (Some (JObj []))"
proof -
  from assms obtain pf doc where "serverproPolicyReconcilePlan api devices protectedTags = Inr (approved, pf)"
    "\<not> EmptyPlan approved" "apply_plan (FileDoc pf) approved = Inr doc" "publishPolicyFile api pf doc = (err, writes)"
    by (auto simp: ApplyServerproPolicyReconcile_def split: sum.splits prod.splits if_splits)
  then show ?thesis using publishPolicyFile_writes [OF _ assms(2)] by blast
qed


definition stale_policy :: policyDocument where
  "stale_policy = [(''tagOwners'', JObj [(''tag:serverpro-old'', JArr [JStr ''autogroup:admin''])])]"

definition stale_api :: "json policy_api" where
  "stale_api = sample_api\<lparr>Parse := \<lambda>_. Some (JObj stale_policy)\<rparr>"

definition stale_plan :: PolicyReconcilePlan where
  "stale_plan = \<lparr>PlanTagOwners = [''tag:serverpro-old''], PlanSSHRules = []\<rparr>"

lemma stale_run: "ApplyServerproPolicyReconcile stale_api (Inr []) [] stale_plan = (None, [(''body'', ''etag-1'')])"
proof -
  let ?f = "\<lparr>FileSource = JObj stale_policy, FileDoc = stale_policy, FileEtag = ''etag-1''\<rparr>"
  have read: "readPolicyFile stale_api = Inr ?f"
    by (simp add: readPolicyFile_def stale_api_def sample_api_def stale_policy_def gm_copy_def gm_put_def)
  have owners: "tagOwners stale_policy = Inr (Some [(''tag:serverpro-old'', Some [''autogroup:admin''])])"
    by (simp add: tagOwners_def stale_policy_def gm_copy_def gm_put_def)
  have rules: "sshRules stale_policy = Inr []" by (simp add: sshRules_def stale_policy_def)
  have "make_plan [] [] [(''tag:serverpro-old'', Some [''autogroup:admin''])] [] = stale_plan" by code_simp
  then have plan: "serverproPolicyReconcilePlan stale_api (Inr []) [] = Inr (stale_plan, ?f)"
    by (simp add: serverproPolicyReconcilePlan_def read owners rules)
  obtain doc where doc: "apply_plan stale_policy stale_plan = Inr doc"
    using apply_plan_result [OF owners rules] by fastforce
  have nonempty: "\<not> EmptyPlan stale_plan" by (simp add: EmptyPlan_def stale_plan_def)
  have "publishPolicyFile stale_api ?f doc = (None, [(''body'', ''etag-1'')])"
    using sample_publish [of ?f stale_policy] by (simp add: stale_api_def)
  then show ?thesis using plan doc nonempty by (simp add: ApplyServerproPolicyReconcile_def)
qed

lemma reconcile_needs_approval_witness:
  "\<exists>pf doc h. serverproPolicyReconcilePlan stale_api (Inr []) [] = Inr (stale_plan, pf) \<and> \<not> EmptyPlan stale_plan
    \<and> apply_plan (FileDoc pf) stale_plan = Inr doc \<and> [(''body'', ''etag-1'')] = [(Pack stale_api h, FileEtag pf)]
    \<and> FileEtag pf \<noteq> ''''
    \<and> map_option json_norm (Raw stale_api h) = Some (json_norm (JObj doc))
    \<and> Validate stale_api (Pack stale_api h) = Inr (Some (JObj []))"
  by (rule reconcile_needs_approval [OF stale_run]) simp

end
