(* ===== verification/Compute_Model.thy ===== *)
theory Compute_Model
  imports Go_Strings
begin

text \<open>
  The provider-neutral compute types (internal/compute): servers, accounts, diagnostics, the provider
  registry, and the one access policy that is recorded for a server.
\<close>

type_synonym ProviderName = string

record Account =
  AccountName :: string
  AccountProvider :: ProviderName
  Token :: string
  Scope :: string

record Capabilities =
  CreateServer :: bool
  DeleteServer :: bool
  PowerServer :: bool
  CanCatalog :: bool
  ListServers :: bool

record ManagedResourceRef =
  Kind :: string
  ResourceID :: string

definition ManagedResourceAccessPolicy :: string where
  "ManagedResourceAccessPolicy = ''access_policy''"

record ServerIntent =
  IntentNamespace :: string
  IntentServer :: string
  IntentName :: string
  IntentLocation :: string
  IntentSize :: string
  IntentImage :: string
  IntentLabels :: labels

record CreateServerRequest =
  CreateAccount :: Account
  Intent :: ServerIntent
  BootstrapData :: string
  CreateResources :: "ManagedResourceRef list"
  CreateProviderState :: labels

record ServerRecord =
  Provider :: ProviderName
  RecordAccount :: string
  RecordNamespace :: string
  RecordServer :: string
  RecordID :: string
  RecordName :: string
  RecordLocation :: string
  RecordSize :: string
  RecordImage :: string
  PublicIPv4 :: string
  PublicIPv6 :: string
  RecordLabels :: labels
  RecordResources :: "ManagedResourceRef list"
  RecordProviderState :: labels

definition zero_record :: ServerRecord where
  "zero_record = \<lparr>Provider = '''', RecordAccount = '''', RecordNamespace = '''', RecordServer = '''', RecordID = '''',
     RecordName = '''', RecordLocation = '''', RecordSize = '''', RecordImage = '''', PublicIPv4 = '''', PublicIPv6 = '''',
     RecordLabels = [], RecordResources = [], RecordProviderState = []\<rparr>"

record ServerRef =
  RefAccount :: Account
  RefRecord :: ServerRecord

record ServerStatus =
  StatusRecord :: ServerRecord
  StatusPower :: string
  StatusIPv4 :: string
  StatusIPv6 :: string

datatype PowerAction = PowerStart | PowerStop | PowerRestart | PowerOther string

record PowerRequest =
  PowerAccount :: Account
  PowerRecord :: ServerRecord
  PowerActionOf :: PowerAction

record DeleteServerRequest =
  DeleteAccount :: Account
  DeleteRecord :: ServerRecord

section \<open>Diagnostics\<close>

datatype DiagnosticStatus = Pass | Fail | Warn

text \<open>The cause of a diagnostic, when it has one, is an error with the public message as its text.\<close>

record 'e Diagnostic =
  Status :: DiagnosticStatus
  Message :: string
  cause :: "(string \<times> 'e) option"

definition FailureDiagnostic :: "string \<Rightarrow> 'e option \<Rightarrow> 'e Diagnostic" where
  "FailureDiagnostic message c =
     \<lparr>Status = Fail, Message = message, cause = (case c of None \<Rightarrow> None | Some e \<Rightarrow> Some (message, e))\<rparr>"

definition Passed :: "'e Diagnostic list \<Rightarrow> bool" where
  "Passed ds \<longleftrightarrow> list_all (\<lambda>d. Status d \<noteq> Fail) ds"

text \<open>\<open>Err\<close> joins the failures; joining none is the nil error. A joined error is its list.\<close>

definition Err :: "'e Diagnostic list \<Rightarrow> (string \<times> 'e option) list option" where
  "Err ds =
     (let messages = map (\<lambda>d. case cause d of Some (m, e) \<Rightarrow> (m, Some e) | None \<Rightarrow> (Message d, None))
                       (filter (\<lambda>d. Status d = Fail) ds)
      in if messages = [] then None else Some messages)"

section \<open>The provider registry\<close>

text \<open>A provider is known by what the registry asks of it, its name.\<close>

type_synonym 'p Providers = "(ProviderName, 'p) gomap"

datatype register_error = ProviderRequired | ProviderNameRequired | AlreadyRegistered

definition Register :: "('p \<Rightarrow> ProviderName) \<Rightarrow> 'p option \<Rightarrow> 'p Providers \<Rightarrow> (register_error, 'p Providers) result" where
  "Register name_of provider r =
     (case provider of
        None \<Rightarrow> Inl ProviderRequired
      | Some p \<Rightarrow>
          (let name = name_of p in
           if name = '''' then Inl ProviderNameRequired
           else if gm_get r name \<noteq> None then Inl AlreadyRegistered
           else Inr (gm_put name p r)))"

definition GetProvider :: "'p Providers \<Rightarrow> ProviderName \<Rightarrow> 'p option" where
  "GetProvider r name = gm_get r name"

definition ListProviders :: "('p \<Rightarrow> ProviderName) \<Rightarrow> 'p Providers \<Rightarrow> 'p list" where
  "ListProviders name_of r = sort_key name_of (map snd r)"

section \<open>The recorded access policy\<close>

definition legacyAccessPolicyKeys :: "string list" where
  "legacyAccessPolicyKeys = [''access_policy_id'', ''firewall_id'', ''firewall_group_id'']"

fun first_legacy :: "string list \<Rightarrow> labels \<Rightarrow> ManagedResourceRef list" where
  "first_legacy [] providerState = []"
| "first_legacy (key # keys) providerState =
     (if gm_str providerState key \<noteq> ''''
      then [\<lparr>Kind = ManagedResourceAccessPolicy, ResourceID = gm_str providerState key\<rparr>]
      else first_legacy keys providerState)"

definition LegacyManagedResources :: "labels \<Rightarrow> ManagedResourceRef list" where
  "LegacyManagedResources providerState = first_legacy legacyAccessPolicyKeys providerState"

text \<open>\<open>setAccessPolicyID\<close>: an empty identifier says nothing, two different ones conflict.\<close>

definition setAccessPolicyID :: "string \<Rightarrow> string \<Rightarrow> (string \<times> string, string) result" where
  "setAccessPolicyID accessPolicyID new_id =
     (if new_id = '''' then Inr accessPolicyID
      else if accessPolicyID \<noteq> '''' \<and> accessPolicyID \<noteq> new_id then Inl (accessPolicyID, new_id)
      else Inr new_id)"

fun canonical_resources ::
  "ManagedResourceRef list \<Rightarrow> string \<Rightarrow> (string \<times> string, ManagedResourceRef list \<times> string) result" where
  "canonical_resources [] accessPolicyID = Inr ([], accessPolicyID)"
| "canonical_resources (resource # resources) accessPolicyID =
     (if Kind resource \<noteq> ManagedResourceAccessPolicy
      then bindR (canonical_resources resources accessPolicyID) (\<lambda>(rs, a). Inr (resource # rs, a))
      else bindR (setAccessPolicyID accessPolicyID (ResourceID resource)) (canonical_resources resources))"

fun canonical_state :: "labels \<Rightarrow> string \<Rightarrow> (string \<times> string, labels \<times> string) result" where
  "canonical_state [] accessPolicyID = Inr ([], accessPolicyID)"
| "canonical_state ((key, v) # providerState) accessPolicyID =
     (if key \<in> set legacyAccessPolicyKeys
      then bindR (setAccessPolicyID accessPolicyID v) (canonical_state providerState)
      else bindR (canonical_state providerState accessPolicyID) (\<lambda>(s, a). Inr ((key, v) # s, a)))"

definition CanonicalManagedResources ::
  "ManagedResourceRef list \<Rightarrow> labels \<Rightarrow> (string \<times> string, ManagedResourceRef list \<times> labels) result" where
  "CanonicalManagedResources resources providerState =
     bindR (canonical_resources resources '''') (\<lambda>(canonical, a).
     bindR (canonical_state providerState a) (\<lambda>(cleanedState, accessPolicyID).
       Inr (if accessPolicyID \<noteq> '''' then canonical @ [\<lparr>Kind = ManagedResourceAccessPolicy, ResourceID = accessPolicyID\<rparr>]
            else canonical, cleanedState)))"

fun ManagedResourceID :: "ManagedResourceRef list \<Rightarrow> string \<Rightarrow> string option" where
  "ManagedResourceID [] kind = None"
| "ManagedResourceID (resource # resources) kind =
     (if Kind resource = kind \<and> ResourceID resource \<noteq> '''' then Some (ResourceID resource)
      else ManagedResourceID resources kind)"

section \<open>One access policy\<close>

text \<open>The access policies that a record names, in its resources and in its legacy keys.\<close>

definition policy_ids :: "ManagedResourceRef list \<Rightarrow> labels \<Rightarrow> string set" where
  "policy_ids resources providerState =
     {ResourceID r | r. r \<in> set resources \<and> Kind r = ManagedResourceAccessPolicy \<and> ResourceID r \<noteq> ''''}
     \<union> {v | k v. (k, v) \<in> set providerState \<and> k \<in> set legacyAccessPolicyKeys \<and> v \<noteq> ''''}"

text \<open>What the loops carry: the identifier seen so far; \<open>agree\<close> says that one is left.\<close>

definition agree :: "string set \<Rightarrow> bool" where
  "agree ids \<longleftrightarrow> (\<exists>a. ids \<subseteq> {a})"

definition seen_ids :: "string \<Rightarrow> string set" where
  "seen_ids a = (if a = '''' then {} else {a})"

lemma setAccessPolicyID_Inr:
  "setAccessPolicyID a i = Inr b \<Longrightarrow> seen_ids b = seen_ids a \<union> seen_ids i"
  by (auto simp: setAccessPolicyID_def seen_ids_def split: if_splits)

lemma setAccessPolicyID_Inl:
  "setAccessPolicyID a i = Inl e \<Longrightarrow> \<not> agree (seen_ids a \<union> seen_ids i)"
  by (auto simp: setAccessPolicyID_def seen_ids_def agree_def split: if_splits)

lemma agree_mono: "agree B \<Longrightarrow> A \<subseteq> B \<Longrightarrow> agree A"
  by (auto simp: agree_def)

lemma agree_seen [simp]: "agree (seen_ids a)"
  by (auto simp: agree_def seen_ids_def)

lemma policy_ids_resources [simp]:
  "policy_ids [] [] = {}"
  "policy_ids (r # resources) [] =
     (if Kind r = ManagedResourceAccessPolicy then seen_ids (ResourceID r) else {}) \<union> policy_ids resources []"
  "policy_ids [] ((k, v) # st) = (if k \<in> set legacyAccessPolicyKeys then seen_ids v else {}) \<union> policy_ids [] st"
  by (auto simp: policy_ids_def seen_ids_def)

lemma policy_ids_split: "policy_ids resources st = policy_ids resources [] \<union> policy_ids [] st"
  by (auto simp: policy_ids_def)

lemma canonical_resources_spec:
  "case canonical_resources resources a of
     Inl e \<Rightarrow> \<not> agree (seen_ids a \<union> policy_ids resources [])
   | Inr (rs, b) \<Rightarrow> rs = filter (\<lambda>r. Kind r \<noteq> ManagedResourceAccessPolicy) resources
       \<and> seen_ids b = seen_ids a \<union> policy_ids resources []"
proof (induction resources a rule: canonical_resources.induct)
  case (2 r resources a)
  show ?case
  proof (cases "Kind r = ManagedResourceAccessPolicy")
    case False
    with 2(1) show ?thesis by (auto split: sum.splits prod.splits)
  next
    case True
    show ?thesis
    proof (cases "setAccessPolicyID a (ResourceID r)")
      case (Inl e)
      then have "\<not> agree (seen_ids a \<union> policy_ids (r # resources) [])"
        using setAccessPolicyID_Inl [OF Inl] True agree_mono [of "seen_ids a \<union> policy_ids (r # resources) []" "seen_ids a \<union> seen_ids (ResourceID r)"] by auto
      with Inl True show ?thesis by simp
    next
      case (Inr b)
      from setAccessPolicyID_Inr [OF Inr] 2(2) [of b] True Inr show ?thesis
        by (auto simp: Un_assoc split: sum.splits prod.splits)
    qed
  qed
qed simp

lemma canonical_state_spec:
  "case canonical_state st a of
     Inl e \<Rightarrow> \<not> agree (seen_ids a \<union> policy_ids [] st)
   | Inr (st', b) \<Rightarrow> st' = filter (\<lambda>kv. fst kv \<notin> set legacyAccessPolicyKeys) st
       \<and> seen_ids b = seen_ids a \<union> policy_ids [] st"
proof (induction st a rule: canonical_state.induct)
  case (2 k v st a)
  show ?case
  proof (cases "k \<in> set legacyAccessPolicyKeys")
    case False
    with 2(2) show ?thesis by (auto split: sum.splits prod.splits)
  next
    case True
    show ?thesis
    proof (cases "setAccessPolicyID a v")
      case (Inl e)
      then have "\<not> agree (seen_ids a \<union> policy_ids [] ((k, v) # st))"
        using setAccessPolicyID_Inl [OF Inl] True agree_mono [of "seen_ids a \<union> policy_ids [] ((k, v) # st)" "seen_ids a \<union> seen_ids (v)"] by auto
      with Inl True show ?thesis by simp
    next
      case (Inr b)
      from setAccessPolicyID_Inr [OF Inr] 2(1) [OF True, of b] True Inr show ?thesis
        by (auto simp: Un_assoc split: sum.splits prod.splits)
    qed
  qed
qed simp

lemma seen_ids_inj: "seen_ids a = seen_ids b \<longleftrightarrow> a = b"
  by (auto simp: seen_ids_def split: if_splits)

lemma canonical_spec:
  "case CanonicalManagedResources resources st of
     Inl e \<Rightarrow> \<not> agree (policy_ids resources st)
   | Inr (rs, st') \<Rightarrow> agree (policy_ids resources st) \<and> policy_ids rs st' = policy_ids resources st
       \<and> filter (\<lambda>r. Kind r \<noteq> ManagedResourceAccessPolicy) rs = filter (\<lambda>r. Kind r \<noteq> ManagedResourceAccessPolicy) resources
       \<and> length (filter (\<lambda>r. Kind r = ManagedResourceAccessPolicy) rs) \<le> 1
       \<and> st' = filter (\<lambda>kv. fst kv \<notin> set legacyAccessPolicyKeys) st"
proof (cases "canonical_resources resources ''''")
  case (Inl e)
  with canonical_resources_spec [of "''''" resources] have "\<not> agree (policy_ids resources [])"
    by (simp add: seen_ids_def)
  then have "\<not> agree (policy_ids resources st)" using agree_mono [of "policy_ids resources st" "policy_ids resources []"] policy_ids_split [of resources st] by blast
  with Inl show ?thesis by (simp add: CanonicalManagedResources_def)
next
  case (Inr x)
  obtain canonical a where x: "x = (canonical, a)" by (cases x)
  with Inr canonical_resources_spec [of "''''" resources]
  have 1: "canonical = filter (\<lambda>r. Kind r \<noteq> ManagedResourceAccessPolicy) resources" "seen_ids a = policy_ids resources []"
    by (simp_all add: seen_ids_def)
  show ?thesis
  proof (cases "canonical_state st a")
    case err: (Inl e)
    with canonical_state_spec [of a st] 1(2) have "\<not> agree (policy_ids resources st)"
      by (simp add: policy_ids_split [of resources st])
    with err Inr x show ?thesis by (simp add: CanonicalManagedResources_def)
  next
    case ok: (Inr y)
    obtain st' b where y: "y = (st', b)" by (cases y)
    with ok canonical_state_spec [of a st] 1(2)
    have 2: "st' = filter (\<lambda>kv. fst kv \<notin> set legacyAccessPolicyKeys) st" "seen_ids b = policy_ids resources st"
      by (simp_all add: policy_ids_split [of resources st])
    have none: "policy_ids [] st' = {}" by (auto simp: 2(1) policy_ids_def)
    let ?policy = "if b \<noteq> '''' then [\<lparr>Kind = ManagedResourceAccessPolicy, ResourceID = b\<rparr>] else []"
    have result: "CanonicalManagedResources resources st = Inr (canonical @ ?policy, st')"
      using Inr x ok y by (simp add: CanonicalManagedResources_def)
    have "policy_ids (canonical @ rs) st' = policy_ids rs []" for rs
      using none by (auto simp: 1(1) policy_ids_def)
    moreover have "policy_ids ?policy [] = seen_ids b" by (simp add: seen_ids_def)
    ultimately have ids: "policy_ids (canonical @ ?policy) st' = policy_ids resources st" using 2(2) by simp
    have "agree (policy_ids resources st)" using 2(2) agree_seen by metis
    moreover have "filter (\<lambda>r. Kind r = ManagedResourceAccessPolicy) canonical = []" by (simp add: 1(1))
    ultimately show ?thesis
      unfolding result sum.case prod.case ids using 1(1) 2(1) by simp
  qed
qed

definition access_policy :: "string \<Rightarrow> ManagedResourceRef list" where
  "access_policy b = (if b \<noteq> '''' then [\<lparr>Kind = ManagedResourceAccessPolicy, ResourceID = b\<rparr>] else [])"

lemma canonical_form:
  assumes "CanonicalManagedResources resources st = Inr (rs, st')"
  shows "\<exists>canonical b. rs = canonical @ access_policy b
    \<and> canonical = filter (\<lambda>r. Kind r \<noteq> ManagedResourceAccessPolicy) resources
    \<and> st' = filter (\<lambda>kv. fst kv \<notin> set legacyAccessPolicyKeys) st"
proof -
  from assms obtain canonical a b where "canonical_resources resources '''' = Inr (canonical, a)"
    "canonical_state st a = Inr (st', b)" "rs = canonical @ access_policy b"
    by (auto simp: CanonicalManagedResources_def access_policy_def bindR_eq_Inr)
  with canonical_resources_spec [of "''''" resources] canonical_state_spec [of a st] show ?thesis by auto
qed

lemma canonical_resources_other:
  "\<forall>r \<in> set xs. Kind r \<noteq> ManagedResourceAccessPolicy \<Longrightarrow>
     canonical_resources (xs @ ys) a = bindR (canonical_resources ys a) (\<lambda>(rs, b). Inr (xs @ rs, b))"
  by (induction xs) (auto split: bindR_split sum.splits simp: bindR_def)

lemma canonical_state_clean:
  "\<forall>kv \<in> set st. fst kv \<notin> set legacyAccessPolicyKeys \<Longrightarrow> canonical_state st a = Inr (st, a)"
  by (induction st a rule: canonical_state.induct) auto

text \<open>
  Migration of the recorded access policy fails closed and loses nothing: it is refused exactly
  when the record names two different access policies in its resources or legacy keys; otherwise
  the result names the same policy, in at most one resource and no legacy key, every other resource
  and every other key of the provider state is kept in order, and migrating again changes nothing.
\<close>

theorem canonical_resources_result:
  "case CanonicalManagedResources resources st of
     Inl e \<Rightarrow> \<not> agree (policy_ids resources st)
   | Inr (rs, st') \<Rightarrow> agree (policy_ids resources st) \<and> policy_ids rs st' = policy_ids resources st
       \<and> filter (\<lambda>r. Kind r \<noteq> ManagedResourceAccessPolicy) rs = filter (\<lambda>r. Kind r \<noteq> ManagedResourceAccessPolicy) resources
       \<and> length (filter (\<lambda>r. Kind r = ManagedResourceAccessPolicy) rs) \<le> 1
       \<and> st' = filter (\<lambda>kv. fst kv \<notin> set legacyAccessPolicyKeys) st
       \<and> CanonicalManagedResources rs st' = Inr (rs, st')"
proof (cases "CanonicalManagedResources resources st")
  case (Inl e)
  with canonical_spec [of resources st] show ?thesis by simp
next
  case (Inr x)
  obtain rs st' where x: "x = (rs, st')" by (cases x)
  with Inr obtain canonical b where rs: "rs = canonical @ access_policy b"
    "canonical = filter (\<lambda>r. Kind r \<noteq> ManagedResourceAccessPolicy) resources"
    and st: "st' = filter (\<lambda>kv. fst kv \<notin> set legacyAccessPolicyKeys) st"
    using canonical_form by blast
  have "CanonicalManagedResources rs st' = Inr (rs, st')"
    by (cases "b = ''''")
      (simp_all add: CanonicalManagedResources_def rs st canonical_resources_other canonical_state_clean access_policy_def
        setAccessPolicyID_def canonical_resources_other [where ys = "[]", simplified])
  then show ?thesis
    using canonical_spec [of resources st] unfolding Inr x sum.case prod.case by blast
qed

end
