(* ===== verification/Go_Paths.thy ===== *)
theory Go_Paths
  imports Go_Strings
begin

text \<open>
  The lexical functions of Go's \<open>path/filepath\<close> (on Unix) that the program calls. A clean path
  is its list of components under a rooted flag; \<open>Clean\<close> computes that list, and the facts of
  this theory relate the text forms to it.
\<close>

abbreviation slash :: char where "slash \<equiv> CHR ''/''"

definition IsAbs :: "string \<Rightarrow> bool" where
  "IsAbs path = has_prefix path ''/''"

text \<open>One component of the walk of \<open>Clean\<close>, on the stack of kept components (last one first).\<close>

definition clean_step :: "bool \<Rightarrow> string list \<Rightarrow> string \<Rightarrow> string list" where
  "clean_step rooted st c =
     (if c = '''' \<or> c = ''.'' then st
      else if c = ''..'' then
        (case st of [] \<Rightarrow> if rooted then [] else [''..'']
         | x # xs \<Rightarrow> if x = ''..'' then c # st else xs)
      else c # st)"

definition components :: "string \<Rightarrow> string list" where
  "components path = rev (foldl (clean_step (IsAbs path)) [] (split_on slash path))"

definition render_path :: "bool \<Rightarrow> string list \<Rightarrow> string" where
  "render_path rooted cs =
     (if rooted then ''/'' @ join ''/'' cs else if cs = [] then ''.'' else join ''/'' cs)"

definition Clean :: "string \<Rightarrow> string" where
  "Clean path = render_path (IsAbs path) (components path)"

definition Join :: "string list \<Rightarrow> string" where
  "Join elems =
     (let ne = dropWhile (\<lambda>e. e = '''') elems in if ne = [] then '''' else Clean (join ''/'' ne))"

text \<open>\<open>filepath.Abs\<close> in the working directory \<open>cwd\<close>.\<close>

definition Abs :: "string \<Rightarrow> string \<Rightarrow> string" where
  "Abs cwd path = (if IsAbs path then Clean path else Join [cwd, path])"

definition Base :: "string \<Rightarrow> string" where
  "Base path =
     (if path = '''' then ''.''
      else (let b = last (split_on slash (rev (dropWhile (\<lambda>c. c = slash) (rev path))))
            in if b = '''' then ''/'' else b))"

definition Dir :: "string \<Rightarrow> string" where
  "Dir path = Clean (rev (dropWhile (\<lambda>c. c \<noteq> slash) (rev path)))"

text \<open>\<open>filepath.Rel\<close>: both paths cleaned, the common components dropped, one \<open>..\<close> for each
  component of the base that is left; \<open>None\<close> is the error.\<close>

fun strip_common :: "string list \<Rightarrow> string list \<Rightarrow> string list \<times> string list" where
  "strip_common (b # bs) (t # ts) = (if b = t then strip_common bs ts else (b # bs, t # ts))"
| "strip_common bs ts = (bs, ts)"

definition Rel :: "string \<Rightarrow> string \<Rightarrow> string option" where
  "Rel base targ =
     (if IsAbs base \<noteq> IsAbs targ then None
      else (case strip_common (components base) (components targ) of (bs, ts) \<Rightarrow>
        if bs = [] \<and> ts = [] then Some ''.''
        else if bs \<noteq> [] \<and> hd bs = ''..'' then None
        else Some (join ''/'' (map (\<lambda>_. ''..'') bs @ ts))))"

section \<open>Facts\<close>

definition plain :: "string \<Rightarrow> bool" where
  "plain c \<longleftrightarrow> c \<noteq> '''' \<and> c \<noteq> ''.'' \<and> c \<noteq> ''..'' \<and> slash \<notin> set c"

lemma clean_step_plain [simp]: "plain c \<Longrightarrow> clean_step r st c = c # st"
  by (simp add: clean_step_def plain_def)

lemma clean_step_rooted:
  "list_all plain st \<Longrightarrow> slash \<notin> set c \<Longrightarrow> list_all plain (clean_step True st c)"
  by (cases st) (auto simp: clean_step_def plain_def)

lemma clean_fold_rooted:
  "list_all plain st \<Longrightarrow> \<forall>c \<in> set cs. slash \<notin> set c \<Longrightarrow> list_all plain (foldl (clean_step True) st cs)"
  by (induction cs arbitrary: st) (auto simp: clean_step_rooted)

lemma components_plain: "IsAbs p \<Longrightarrow> list_all plain (components p)"
  unfolding components_def using clean_fold_rooted [of "[]" "split_on slash p"]
  by (auto simp: list_all_iff dest: split_on_no_sep_in)

lemma split_on_join:
  "ws \<noteq> [] \<Longrightarrow> \<forall>w \<in> set ws. c \<notin> set w \<Longrightarrow> split_on c (join [c] ws) = ws"
  by (induction "[c]" ws rule: join.induct) (auto simp: split_on_no_sep split_on_append)

lemma clean_fold_plain: "list_all plain cs \<Longrightarrow> foldl (clean_step r) st cs = rev cs @ st"
  by (induction cs arbitrary: st) auto

lemma IsAbs_render [simp]: "IsAbs (render_path True cs)"
  by (simp add: IsAbs_def render_path_def)

lemma components_render:
  assumes "list_all plain cs"
  shows "components (render_path True cs) = cs"
proof -
  have s: "split_on slash (slash # x) = [] # split_on slash x" for x
    by simp
  have "split_on slash (join ''/'' cs) = (if cs = [] then [[]] else cs)"
    using assms split_on_join [of cs slash] by (auto simp: list_all_iff plain_def)
  then show ?thesis
    using assms by (cases "cs = []") (simp_all add: components_def render_path_def IsAbs_def s clean_step_def [of _ _ "[]"] clean_fold_plain)
qed

lemma Clean_rooted: "IsAbs p \<Longrightarrow> IsAbs (Clean p) \<and> components (Clean p) = components p"
  by (simp add: Clean_def components_render components_plain)

lemma Clean_idem: "IsAbs p \<Longrightarrow> Clean (Clean p) = Clean p"
  using Clean_rooted [of p] by (simp add: Clean_def)

lemma render_inj:
  "list_all plain cs \<Longrightarrow> list_all plain ds \<Longrightarrow> render_path True cs = render_path True ds \<longleftrightarrow> cs = ds"
  by (metis components_render)

lemma strip_common_spec:
  "strip_common bs ts = (b, t) \<Longrightarrow> \<exists>p. bs = p @ b \<and> ts = p @ t \<and> (b = [] \<or> t = [] \<or> hd b \<noteq> hd t)"
proof (induction bs ts rule: strip_common.induct)
  case (1 x bs y ts)
  then show ?case by (auto split: if_splits)
qed auto

end
