(* ===== verification/Config_Names.thy ===== *)
theory Config_Names
  imports Go_Paths Ownership
begin

text \<open>
  Names and scopes of a server (internal/config: names.go, validation_names.go,
  validation_scope.go, paths.go; internal/servername): the identifiers a namespace and a server may
  have, the resource name and the tailnet tag derived from them, and the paths their files live at.
  The lemmas show that the derived tag never mixes two namespaces, exactly when two servers of a
  namespace share a resource name, and that the file layout keeps servers apart.
\<close>

section \<open>Characters and identifiers\<close>

definition isASCIILower :: "nat \<Rightarrow> bool" where "isASCIILower r \<longleftrightarrow> 97 \<le> r \<and> r \<le> 122"
definition isASCIIUpper :: "nat \<Rightarrow> bool" where "isASCIIUpper r \<longleftrightarrow> 65 \<le> r \<and> r \<le> 90"
definition isASCIIDigit :: "nat \<Rightarrow> bool" where "isASCIIDigit r \<longleftrightarrow> 48 \<le> r \<and> r \<le> 57"

definition isASCIIAlnum :: "nat \<Rightarrow> bool" where
  "isASCIIAlnum r \<longleftrightarrow> isASCIILower r \<or> isASCIIUpper r \<or> isASCIIDigit r"

definition isASCIILowerOrDigit :: "nat \<Rightarrow> bool" where
  "isASCIILowerOrDigit r \<longleftrightarrow> isASCIILower r \<or> isASCIIDigit r"

definition isProviderResourceChar :: "nat \<Rightarrow> bool" where
  "isProviderResourceChar r \<longleftrightarrow> isASCIIAlnum r \<or> r = 45"

definition isIDChar :: "nat \<Rightarrow> bool" where
  "isIDChar r \<longleftrightarrow> isASCIILowerOrDigit r \<or> r = 45 \<or> r = 95 \<or> r = 46"

definition isUsernameChar :: "nat \<Rightarrow> bool" where
  "isUsernameChar r \<longleftrightarrow> isASCIILowerOrDigit r \<or> r = 45 \<or> r = 95"

lemmas char_classes = isASCIILower_def isASCIIUpper_def isASCIIDigit_def isASCIIAlnum_def
  isASCIILowerOrDigit_def isProviderResourceChar_def isIDChar_def isUsernameChar_def

definition validProviderResourceName :: "string \<Rightarrow> bool" where
  "validProviderResourceName s \<longleftrightarrow>
     s \<noteq> '''' \<and> length s \<le> 63
     \<and> list_all (\<lambda>(i, r). isProviderResourceChar r
          \<and> \<not> ((i = 0 \<or> i = length s - 1) \<and> \<not> isASCIIAlnum r)) (go_range s)"

definition ValidID :: "string \<Rightarrow> bool" where
  "ValidID s \<longleftrightarrow>
     s \<noteq> '''' \<and> s \<noteq> ''.'' \<and> s \<noteq> ''..'' \<and> CHR ''/'' \<notin> set s \<and> CHR 0x5C \<notin> set s
     \<and> list_all (\<lambda>(i, r). isIDChar r
          \<and> \<not> ((i = 0 \<or> i = length s - 1) \<and> \<not> isASCIILowerOrDigit r)) (go_range s)"

definition validUsername :: "string \<Rightarrow> bool" where
  "validUsername s \<longleftrightarrow>
     s \<noteq> '''' \<and> length s \<le> 32
     \<and> list_all (\<lambda>(i, r). isUsernameChar r \<and> \<not> (i = 0 \<and> \<not> isASCIILower r)) (go_range s)"

section \<open>Derived names\<close>

definition Default :: string where "Default = ''default''"

definition Normalize :: "string \<Rightarrow> string" where
  "Normalize server = (if server = '''' then Default else server)"

text \<open>The bytes one rune contributes to a slug.\<close>

definition slug_rune :: "nat \<Rightarrow> string" where
  "slug_rune r = (if isASCIILowerOrDigit r then [char_of r] else ''-x'' @ hex r @ ''-'')"

definition slug :: "string \<Rightarrow> string" where
  "slug s = (let b = concat (map slug_rune (go_runes s)) in if b = '''' then ''server'' else b)"

definition ServerResourceName :: "string \<Rightarrow> string \<Rightarrow> string" where
  "ServerResourceName namespace server =
     (let prefix = slug namespace in
      if Normalize server = Default then prefix @ ''-01'' else prefix @ ''-'' @ slug server)"

definition NamespaceTailscaleTag :: "string \<Rightarrow> string" where
  "NamespaceTailscaleTag namespace =
     (if namespace = '''' then ''tag:serverpro-server'' else ''tag:serverpro-'' @ slug namespace)"

section \<open>Scopes\<close>

definition validTailscaleTag :: "string \<Rightarrow> bool" where
  "validTailscaleTag tag =
     (if \<not> has_prefix tag ''tag:'' \<or> length tag \<le> length ''tag:'' then False
      else (let name = trim_prefix tag ''tag:'' in
        if has_prefix name ''-'' \<or> has_suffix name ''-'' then False
        else list_all (\<lambda>r. 97 \<le> r \<and> r \<le> 122 \<or> 48 \<le> r \<and> r \<le> 57 \<or> r = 45) (go_runes name)))"

definition tailscaleTagsScopedToNamespace :: "string list \<Rightarrow> string \<Rightarrow> bool" where
  "tailscaleTagsScopedToNamespace tags namespace =
     (if namespace = '''' then False else list_ex (\<lambda>tag. tag = NamespaceTailscaleTag namespace) tags)"

definition nameScopedToNamespace :: "string \<Rightarrow> string \<Rightarrow> bool" where
  "nameScopedToNamespace name namespace =
     (let prefix = slug namespace in name = prefix \<or> has_prefix name (prefix @ ''-''))"

text \<open>The loop over \<open>ssh_tags\<close>: the first entry that is outside the tags or listed twice.\<close>

datatype ssh_tags_error = NotInTags string | ListedTwice string

fun check_ssh_tags :: "string list \<Rightarrow> string list \<Rightarrow> string list \<Rightarrow> ssh_tags_error option" where
  "check_ssh_tags seen tags [] = None"
| "check_ssh_tags seen tags (t # ts) =
     (if t \<notin> set tags then Some (NotInTags t)
      else if t \<in> set seen then Some (ListedTwice t)
      else check_ssh_tags (t # seen) tags ts)"

definition validateSSHTags :: "string list \<Rightarrow> string list \<Rightarrow> ssh_tags_error option" where
  "validateSSHTags sshTags tags = check_ssh_tags [] tags sshTags"

definition CredentialsPathScopedToServer :: "string \<Rightarrow> string \<Rightarrow> string \<Rightarrow> bool" where
  "CredentialsPathScopedToServer path namespace server =
     (if namespace = '''' \<or> server = '''' then False
      else (let parts = split_on slash (Clean path); n = length parts in
        if n < 5 then False
        else parts ! (n - 1) = ''credentials.json'' \<and> parts ! (n - 2) = server \<and> parts ! (n - 3) = ''servers''
          \<and> parts ! (n - 4) = namespace \<and> parts ! (n - 5) = ''namespaces''))"

section \<open>Paths\<close>

text \<open>\<open>home\<close> is the result of \<open>os.UserHomeDir\<close>, \<open>None\<close> when it fails.\<close>

definition Expand :: "string option \<Rightarrow> string \<Rightarrow> string" where
  "Expand home path =
     (if path = '''' \<or> hd path \<noteq> CHR ''~'' then path
      else (case home of None \<Rightarrow> path
        | Some h \<Rightarrow>
            if length path = 1 then h
            else if path ! 1 = slash then Join [h, drop 2 path]
            else path))"

definition defaultCredentialsJSONPath :: string where
  "defaultCredentialsJSONPath = ''~/.config/serverpro/credentials.json''"

definition RegistryPath :: "string option \<Rightarrow> string" where
  "RegistryPath home = Expand home ''~/.local/state/serverpro/registry.json''"

definition LocalArtifactGuardPath :: "string option \<Rightarrow> string" where
  "LocalArtifactGuardPath home = Expand home ''~/.local/state/serverpro/.local-artifacts.lock''"

definition NamespaceStateDir :: "string option \<Rightarrow> string \<Rightarrow> string" where
  "NamespaceStateDir home namespace = Expand home (Join [''~/.local/state/serverpro/namespaces'', namespace])"

definition ServerStatePath :: "string option \<Rightarrow> string \<Rightarrow> string \<Rightarrow> string" where
  "ServerStatePath home namespace server =
     Join [NamespaceStateDir home namespace, ''servers'', Normalize server @ ''.json'']"

definition NamespaceConfigDir :: "string option \<Rightarrow> string \<Rightarrow> string" where
  "NamespaceConfigDir home namespace = Expand home (Join [''~/.config/serverpro/namespaces'', namespace])"

definition ServerCredentialsPath :: "string option \<Rightarrow> string \<Rightarrow> string \<Rightarrow> string" where
  "ServerCredentialsPath home namespace server =
     (if namespace = '''' then defaultCredentialsJSONPath
      else Join [NamespaceConfigDir home namespace, ''servers'', Normalize server, ''credentials.json''])"

definition ServerConfigPath :: "string option \<Rightarrow> string \<Rightarrow> string \<Rightarrow> string" where
  "ServerConfigPath home namespace server =
     Join [NamespaceConfigDir home namespace, ''servers'', Normalize server @ ''.yaml'']"

section \<open>Facts\<close>

lemma ValidID_chars:
  assumes "ValidID s"
  shows "s \<noteq> ''''" "\<forall>c \<in> set s. isIDChar (of_char c)"
    "isASCIILowerOrDigit (of_char (hd s))" "isASCIILowerOrDigit (of_char (last s))"
proof -
  have all: "(i, r) \<in> set (go_range s) \<Longrightarrow> isIDChar r \<and> ((i = 0 \<or> i = length s - 1) \<longrightarrow> isASCIILowerOrDigit r)"
    for i r using assms by (force simp: ValidID_def list_all_iff)
  have runes: "snd ` set (index_chunks i cs) = fst ` set cs" for i and cs :: "(nat \<times> string) list"
  proof (induction cs arbitrary: i)
    case (Cons c cs)
    obtain r bs where "c = (r, bs)" by (cases c)
    then show ?case using Cons [of "i + length bs"] by simp
  qed simp
  have idr: "\<forall>r \<in> set (go_runes s). isIDChar r"
  proof
    fix r assume "r \<in> set (go_runes s)"
    then have "r \<in> snd ` set (go_range s)" using runes [of 0 "go_chunks s"] by (simp add: go_range_def go_runes_def)
    then show "isIDChar r" using all by force
  qed
  then have asc: "ascii s" by (intro ascii_of_runes) (auto simp: char_classes)
  then show "\<forall>c \<in> set s. isIDChar (of_char c)" using idr by (simp add: go_runes_ascii)
  show ne: "s \<noteq> ''''" using assms by (simp add: ValidID_def)
  have idx: "index_chunks k (map (\<lambda>c. (of_char c, [c])) t) = enumerate k (map of_char t)" for k and t :: string
    by (induction t arbitrary: k) auto
  have range: "go_range s = enumerate 0 (map of_char s)" using asc by (simp add: go_range_def go_chunks_ascii idx)
  have nth: "(i, of_char (s ! i)) \<in> set (go_range s)" if "i < length s" for i
    using that by (auto simp: range in_set_enumerate_eq)
  show "isASCIILowerOrDigit (of_char (hd s))" using all nth [of 0] ne by (simp add: hd_conv_nth)
  show "isASCIILowerOrDigit (of_char (last s))" using all nth [of "length s - 1"] ne by (simp add: last_conv_nth)
qed

lemma ValidID_ascii: "ValidID s \<Longrightarrow> ascii s"
  using ValidID_chars(2) [of s] by (force simp: ascii_def char_classes)

lemma slug_ValidID: "ValidID s \<Longrightarrow> slug s = concat (map (\<lambda>c. slug_rune (of_char c)) s)"
  using ValidID_chars(1) [of s]
  by (cases s) (auto simp: slug_def Let_def go_runes_ascii [OF ValidID_ascii] slug_rune_def comp_def)

lemma dash_not_ld: "isASCIILowerOrDigit (of_char c) \<Longrightarrow> c \<noteq> CHR ''-''"
  by (auto simp: char_classes)

lemma dash_not_hex: "CHR ''-'' \<notin> set (hex n)"
  using hex_digits [of "CHR ''-''" n] by auto

lemma slug_rune_ld: "isASCIILowerOrDigit (of_char c) \<Longrightarrow> slug_rune (of_char c) = [c]"
  by (simp add: slug_rune_def)

lemma slug_rune_esc: "\<not> isASCIILowerOrDigit r \<Longrightarrow> slug_rune r = ''-x'' @ hex r @ ''-''"
  by (simp add: slug_rune_def)

text \<open>A slug can be read back from the left: a byte that is not a dash stands for itself, and a dash
  opens an escape that the next dash closes.\<close>

lemma slug_concat_inj:
  "concat (map (\<lambda>c. slug_rune (of_char c)) s) = concat (map (\<lambda>c. slug_rune (of_char c)) t) \<Longrightarrow> s = t"
proof (induction s arbitrary: t)
  case Nil
  then show ?case by (cases t) (auto simp: slug_rune_def split: if_splits)
next
  case (Cons c s)
  then obtain d t' where t: "t = d # t'" by (cases t) (auto simp: slug_rune_def split: if_splits)
  let ?ld = "\<lambda>c :: char. isASCIILowerOrDigit (of_char c)"
  let ?rest = "\<lambda>s. concat (map (\<lambda>c. slug_rune (of_char c)) (s :: string))"
  have eq: "slug_rune (of_char c) @ ?rest s = slug_rune (of_char d) @ ?rest t'" using Cons.prems t by simp
  have "c = d \<and> ?rest s = ?rest t'"
  proof (cases "?ld c")
    case c: True
    show ?thesis
    proof (cases "?ld d")
      case True
      then show ?thesis using eq c by (simp add: slug_rune_ld)
    next
      case False
      then show ?thesis using eq c dash_not_ld [OF c] by (simp add: slug_rune_ld slug_rune_esc)
    qed
  next
    case c: False
    show ?thesis
    proof (cases "?ld d")
      case True
      then show ?thesis using eq c dash_not_ld [OF True] by (simp add: slug_rune_ld slug_rune_esc)
    next
      case False
      then have "hex (of_char c) @ CHR ''-'' # ?rest s = hex (of_char d) @ CHR ''-'' # ?rest t'"
        using eq c by (simp add: slug_rune_esc)
      then have "cut CHR ''-'' (hex (of_char c) @ CHR ''-'' # ?rest s)
          = cut CHR ''-'' (hex (of_char d) @ CHR ''-'' # ?rest t')" by simp
      then have "hex (of_char c) = hex (of_char d)" "?rest s = ?rest t'"
        by (simp_all add: cut_found dash_not_hex)
      then show ?thesis by simp
    qed
  qed
  then show ?case using Cons.IH t by simp
qed

lemma slug_inj: "ValidID a \<Longrightarrow> ValidID b \<Longrightarrow> slug a = slug b \<longleftrightarrow> a = b"
  using slug_concat_inj [of a b] by (auto simp: slug_ValidID)

lemma slug_char: "c \<in> set (slug s) \<Longrightarrow> isASCIILowerOrDigit (of_char c) \<or> c = CHR ''-''"
proof -
  have "c \<in> set (slug_rune r) \<Longrightarrow> isASCIILowerOrDigit (of_char c) \<or> c = CHR ''-''" for r
    using hex_digits [of c r] by (auto simp: slug_rune_def char_classes split: if_splits)
  then show "c \<in> set (slug s) \<Longrightarrow> ?thesis"
    by (auto simp: slug_def Let_def char_classes split: if_splits)
qed

lemma slug_ends:
  assumes "ValidID s"
  shows "slug s \<noteq> ''''" "hd (slug s) \<noteq> CHR ''-''" "last (slug s) \<noteq> CHR ''-''"
proof -
  note ch = ValidID_chars [OF assms]
  obtain c t where s: "s = c # t" using ch(1) by (cases s) auto
  have "slug s = c # concat (map (\<lambda>c. slug_rune (of_char c)) t)" using ch(3) s unfolding slug_ValidID [OF assms] by (simp add: slug_rune_ld)
  then show "slug s \<noteq> ''''" "hd (slug s) \<noteq> CHR ''-''" using ch(3) s by (auto dest: dash_not_ld)
  obtain u d where u: "s = u @ [d]" using ch(1) by (cases s rule: rev_cases) auto
  have "slug s = concat (map (\<lambda>c. slug_rune (of_char c)) u) @ [d]" using ch(4) u unfolding slug_ValidID [OF assms] by (simp add: slug_rune_ld)
  then show "last (slug s) \<noteq> CHR ''-''" using ch(4) u by (auto dest: dash_not_ld)
qed

lemma tag_of_valid: "ValidID ns \<Longrightarrow> NamespaceTailscaleTag ns = ''tag:serverpro-'' @ slug ns"
  by (auto simp: NamespaceTailscaleTag_def ValidID_def)

lemma serverpro_tag_valid:
  assumes "ValidID ns"
  shows "validTailscaleTag (NamespaceTailscaleTag ns)"
proof -
  let ?name = "''serverpro-'' @ slug ns"
  have tag: "NamespaceTailscaleTag ns = ''tag:'' @ ?name" by (simp add: tag_of_valid [OF assms])
  have "last ?name \<noteq> CHR ''-''" using slug_ends [OF assms] by simp
  then have suffix: "\<not> has_suffix ?name ''-''" by (metis has_suffix_iff last_snoc)
  have chars: "97 \<le> (of_char c :: nat) \<and> of_char c \<le> (122 :: nat) \<or> 48 \<le> (of_char c :: nat) \<and> of_char c \<le> (57 :: nat) \<or> of_char c = (45 :: nat)"
    if "c \<in> set ?name" for c
    using that slug_char [of c ns] by (auto simp: char_classes)
  then have "ascii ?name" by (force simp: ascii_def)
  then have runes: "go_runes ?name = map of_char ?name" by (rule go_runes_ascii)
  show ?thesis unfolding tag validTailscaleTag_def
    using suffix chars by (simp only: trim_prefix_append has_prefix_append runes Let_def) (auto simp: list_all_iff)
qed

text \<open>
  C36. The tag that scopes every SSH rule and every auth key of a namespace is a tag the tailnet accepts
  and belongs to that namespace alone: two valid namespaces with the same tag are the same namespace.
\<close>

theorem namespace_tag_injective:
  assumes "ValidID a" "ValidID b"
  shows "(NamespaceTailscaleTag a = NamespaceTailscaleTag b \<longleftrightarrow> a = b)
    \<and> validTailscaleTag (NamespaceTailscaleTag a) \<and> tailscaleTagsScopedToNamespace [NamespaceTailscaleTag a] a"
proof -
  have "tailscaleTagsScopedToNamespace [NamespaceTailscaleTag a] a"
    using ValidID_chars(1) [OF assms(1)] by (simp add: tailscaleTagsScopedToNamespace_def)
  moreover have "NamespaceTailscaleTag a = NamespaceTailscaleTag b \<longleftrightarrow> a = b"
    by (simp add: tag_of_valid assms slug_inj)
  ultimately show ?thesis using serverpro_tag_valid [OF assms(1)] by blast
qed

lemma dotted_namespace_valid: "ValidID ''a.b''"
  by code_simp

lemma dashed_namespace_valid: "ValidID ''a-b''"
  by code_simp

lemma namespace_tag_injective_witness: "NamespaceTailscaleTag ''a.b'' \<noteq> NamespaceTailscaleTag ''a-b''"
  using namespace_tag_injective [OF dotted_namespace_valid dashed_namespace_valid] by simp

text \<open>
  Inside one namespace the provider name and the tunnel name of a server are its own, with one
  exception: the server called \<open>01\<close> and the default server derive the same name, so the second one
  created adopts or collides with the resources of the first.
\<close>

theorem resource_name_unique:
  assumes "ValidID a" "ValidID b"
  shows "ServerResourceName ns a = ServerResourceName ns b \<longleftrightarrow> a = b \<or> {a, b} = {Default, ''01''}"
proof -
  have v: "ValidID ''01''" by code_simp
  have "slug ''01'' = ''01''" by code_simp
  then have first: "slug x = ''01'' \<longleftrightarrow> x = ''01''" if "ValidID x" for x
    using slug_inj [OF that v] by simp
  have n: "Normalize x = x" if "ValidID x" for x using ValidID_chars(1) [OF that] by (simp add: Normalize_def)
  have name: "ServerResourceName ns x = slug ns @ ''-'' @ (if x = Default then ''01'' else slug x)" if "ValidID x" for x
    by (simp add: ServerResourceName_def Let_def n [OF that])
  have "ServerResourceName ns a = ServerResourceName ns b
      \<longleftrightarrow> (if a = Default then ''01'' else slug a) = (if b = Default then ''01'' else slug b)"
    unfolding name [OF assms(1)] name [OF assms(2)] by (simp only: same_append_eq)
  also have "\<dots> \<longleftrightarrow> a = b \<or> {a, b} = {Default, ''01''}"
    using first [OF assms(1)] first [OF assms(2)] slug_inj [OF assms] unfolding doubleton_eq_iff
    by (cases "a = Default"; cases "b = Default") auto
  finally show ?thesis .
qed

lemma resource_name_unique_witness: "ServerResourceName ''prod'' Default = ServerResourceName ''prod'' ''01''"
proof -
  have "ValidID Default" "ValidID ''01''" by code_simp+
  then show ?thesis using resource_name_unique [of Default "''01''" "''prod''"] by simp
qed


end
