(* ===== verification/State_Registry.thy ===== *)
theory State_Registry
  imports Config_Names
begin

text \<open>
  The registry of servers (internal/state: registry.go, registry_entries.go, registry_io.go, and
  internal/servername). A nil map and an empty one behave alike in every operation here, so both are
  the empty list; a \<open>time.Time\<close> is an integer, 0 the zero time. The file is held decoded: its
  registry and its legacy \<open>projects\<close> section.
\<close>

record RegistryResourceNames =
  ComputeServer :: string
  CloudflareTunnel :: string

record RegistryEntry =
  EntryNamespace :: string
  EntryServer :: string
  StatePath :: string
  ConfigPath :: string
  CredentialsPath :: string
  ResourceNames :: RegistryResourceNames
  EntryLabels :: labels
  EntryCreatedAt :: int
  EntryUpdatedAt :: int

type_synonym RegistryNamespace = "(string, RegistryEntry) gomap"

record Registry =
  RegSchemaVersion :: int
  Namespaces :: "(string, RegistryNamespace) gomap"
  RegUpdatedAt :: int

definition RegistrySchemaVersion :: int where "RegistrySchemaVersion = 1"

definition NewRegistry :: Registry where
  "NewRegistry = \<lparr>RegSchemaVersion = RegistrySchemaVersion, Namespaces = [], RegUpdatedAt = 0\<rparr>"

section \<open>Operations\<close>

definition reg_normalize :: "Registry \<Rightarrow> Registry" where
  "reg_normalize r =
     r\<lparr>RegSchemaVersion := (if RegSchemaVersion r = 0 then RegistrySchemaVersion else RegSchemaVersion r),
       Namespaces := map (\<lambda>(namespace, grp).
          (namespace, map (\<lambda>(server, entry). (server, entry\<lparr>EntryNamespace := namespace\<rparr>)) grp)) (Namespaces r)\<rparr>"

definition group_of :: "Registry \<Rightarrow> string \<Rightarrow> RegistryNamespace" where
  "group_of r namespace = (case gm_get (Namespaces r) namespace of None \<Rightarrow> [] | Some g \<Rightarrow> g)"

definition UpsertNamespace :: "string \<Rightarrow> Registry \<Rightarrow> Registry" where
  "UpsertNamespace namespace r0 =
     (let r = reg_normalize r0 in r\<lparr>Namespaces := gm_put namespace (group_of r namespace) (Namespaces r)\<rparr>)"

definition stamped :: "int \<Rightarrow> RegistryEntry option \<Rightarrow> RegistryEntry \<Rightarrow> RegistryEntry" where
  "stamped now existing e =
     (let e1 = (case existing of Some x \<Rightarrow> if EntryCreatedAt e = 0 then e\<lparr>EntryCreatedAt := EntryCreatedAt x\<rparr> else e | None \<Rightarrow> e);
          e2 = (if EntryCreatedAt e1 = 0 then e1\<lparr>EntryCreatedAt := now\<rparr> else e1)
      in e2\<lparr>EntryUpdatedAt := now\<rparr>)"

definition Upsert :: "int \<Rightarrow> RegistryEntry \<Rightarrow> Registry \<Rightarrow> Registry" where
  "Upsert now e r0 =
     (let r = reg_normalize r0;
          grp = group_of r (EntryNamespace e);
          e' = stamped now (gm_get grp (EntryServer e)) e
      in r\<lparr>Namespaces := gm_put (EntryNamespace e) (gm_put (EntryServer e) e' grp) (Namespaces r)\<rparr>)"

definition Find :: "Registry \<Rightarrow> string \<Rightarrow> string \<Rightarrow> RegistryEntry option" where
  "Find r namespace server =
     (case gm_get (Namespaces r) namespace of
        None \<Rightarrow> None
      | Some grp \<Rightarrow> gm_get grp (Normalize server))"

definition ListNamespaces :: "Registry \<Rightarrow> string list" where
  "ListNamespaces r = sort (map fst (Namespaces r))"

definition entry_key :: "RegistryEntry \<Rightarrow> string list" where
  "entry_key e = [EntryNamespace e, EntryServer e]"

definition List :: "Registry \<Rightarrow> string \<Rightarrow> RegistryEntry list" where
  "List r namespace =
     (let out = (if namespace \<noteq> '''' then map snd (group_of r namespace)
                 else concat (map (\<lambda>(_, grp). map snd grp) (Namespaces r)))
      in sort_key entry_key out)"

definition Remove :: "string \<Rightarrow> string \<Rightarrow> Registry \<Rightarrow> Registry" where
  "Remove namespace server r =
     (case gm_get (Namespaces r) namespace of
        None \<Rightarrow> r
      | Some grp \<Rightarrow> r\<lparr>Namespaces := gm_put namespace (gm_del (Normalize server) grp) (Namespaces r)\<rparr>)"

definition RemoveNamespace :: "string \<Rightarrow> Registry \<Rightarrow> Registry" where
  "RemoveNamespace namespace r = r\<lparr>Namespaces := gm_del namespace (Namespaces r)\<rparr>"

section \<open>The invariant\<close>

text \<open>
  What every registry that was loaded or built satisfies: names are distinct, and an entry is filed
  under its own namespace.
\<close>

definition reg_inv :: "Registry \<Rightarrow> bool" where
  "reg_inv r \<longleftrightarrow> gm_wf (Namespaces r) \<and>
     (\<forall>namespace grp. gm_get (Namespaces r) namespace = Some grp \<longrightarrow> gm_wf grp \<and>
        (\<forall>server e. gm_get grp server = Some e \<longrightarrow> EntryNamespace e = namespace))"

lemma reg_invD:
  "reg_inv r \<Longrightarrow> gm_wf (Namespaces r)"
  "reg_inv r \<Longrightarrow> gm_get (Namespaces r) ns = Some g \<Longrightarrow> gm_wf g"
  "reg_inv r \<Longrightarrow> gm_get (Namespaces r) ns = Some g \<Longrightarrow> gm_get g sv = Some e \<Longrightarrow> EntryNamespace e = ns"
  by (auto simp: reg_inv_def)

text \<open>The abstract registry: a partial function from namespace and server to the entry.\<close>

definition reg_map :: "Registry \<Rightarrow> string \<times> string \<Rightarrow> RegistryEntry option" where
  "reg_map r k = gm_get (group_of r (fst k)) (snd k)"

lemma reg_map_Find: "Find r ns sv = reg_map r (ns, Normalize sv)"
  by (simp add: Find_def reg_map_def group_of_def split: option.split)

lemma map_of_values2: "map_of (map (\<lambda>(k, v). (k, f k v)) xs) k = map_option (f k) (map_of xs k)"
  by (induction xs) auto

lemma normalize_id:
  assumes "reg_inv r"
  shows "Namespaces (reg_normalize r) = Namespaces r"
proof -
  have entry: "e\<lparr>EntryNamespace := ns\<rparr> = e" if "(ns, g) \<in> set (Namespaces r)" "(sv, e) \<in> set g" for ns g sv e
  proof -
    have g: "gm_get (Namespaces r) ns = Some g" using that(1) gm_in_set reg_invD(1) [OF assms] by metis
    moreover have "gm_get g sv = Some e" using that(2) gm_in_set reg_invD(2) [OF assms g] by metis
    ultimately have "EntryNamespace e = ns" using reg_invD(3) [OF assms] by blast
    then show ?thesis by simp
  qed
  then show ?thesis by (auto simp: reg_normalize_def intro!: map_idI)
qed

lemma group_of_normalize: "reg_inv r \<Longrightarrow> group_of (reg_normalize r) ns = group_of r ns"
  by (simp add: group_of_def normalize_id)

lemma group_wf: "reg_inv r \<Longrightarrow> gm_wf (group_of r ns)"
  using reg_invD(2) by (auto simp: group_of_def split: option.split)

lemma group_entry: "reg_inv r \<Longrightarrow> gm_get (group_of r ns) sv = Some e \<Longrightarrow> EntryNamespace e = ns"
  using reg_invD(3) by (auto simp: group_of_def split: option.splits)

lemma stamped_key [simp]: "EntryNamespace (stamped now x e) = EntryNamespace e" "EntryServer (stamped now x e) = EntryServer e"
  by (simp_all add: stamped_def Let_def split: option.split)

lemma put_group_inv:
  assumes "reg_inv r" "gm_wf g" "\<And>sv e. gm_get g sv = Some e \<Longrightarrow> EntryNamespace e = ns"
  shows "reg_inv (r\<lparr>Namespaces := gm_put ns g (Namespaces r)\<rparr>)"
  using assms by (auto simp: reg_inv_def)


lemma put_group_map:
  "reg_map (r\<lparr>Namespaces := gm_put ns g (Namespaces r)\<rparr>) k = (if fst k = ns then gm_get g (snd k) else reg_map r k)"
  by (simp add: reg_map_def group_of_def)

lemma Upsert_form:
  assumes "reg_inv r"
  shows "Upsert now e r = (reg_normalize r)\<lparr>Namespaces := gm_put (EntryNamespace e)
    (gm_put (EntryServer e) (stamped now (reg_map r (EntryNamespace e, EntryServer e)) e) (group_of r (EntryNamespace e))) (Namespaces r)\<rparr>"
  using assms by (simp add: Upsert_def Let_def group_of_normalize normalize_id reg_map_def)

lemma with_normalized: "(reg_normalize r)\<lparr>Namespaces := m\<rparr> =
    (r\<lparr>RegSchemaVersion := RegSchemaVersion (reg_normalize r)\<rparr>)\<lparr>Namespaces := m\<rparr>"
  by (simp add: reg_normalize_def)

lemma reg_version [simp]:
  "reg_inv (r\<lparr>RegSchemaVersion := v\<rparr>) = reg_inv r" "reg_map (r\<lparr>RegSchemaVersion := v\<rparr>) = reg_map r"
  "reg_inv (r\<lparr>RegUpdatedAt := t\<rparr>) = reg_inv r" "reg_map (r\<lparr>RegUpdatedAt := t\<rparr>) = reg_map r"
  by (simp_all add: reg_inv_def reg_map_def group_of_def fun_eq_iff)

lemma put_group_inv':
  assumes "reg_inv r" "gm_wf g" "\<And>sv e. gm_get g sv = Some e \<Longrightarrow> EntryNamespace e = ns"
  shows "reg_inv ((r\<lparr>RegSchemaVersion := v\<rparr>)\<lparr>Namespaces := gm_put ns g (Namespaces r)\<rparr>)"
  using put_group_inv [where r = "r\<lparr>RegSchemaVersion := v\<rparr>"] assms by simp

lemma put_group_map':
  "reg_map ((r\<lparr>RegSchemaVersion := v\<rparr>)\<lparr>Namespaces := gm_put ns g (Namespaces r)\<rparr>) k =
     (if fst k = ns then gm_get g (snd k) else reg_map r k)"
  using put_group_map [where r = "r\<lparr>RegSchemaVersion := v\<rparr>"] by simp

lemma group_of_put: "group_of ((r\<lparr>RegSchemaVersion := v\<rparr>)\<lparr>Namespaces := gm_put ns g (Namespaces r)\<rparr>) n =
    (if n = ns then g else group_of r n)"
  by (simp add: group_of_def)

lemma reg_map_group: "reg_map r (ns, sv) = gm_get (group_of r ns) sv"
  by (simp add: reg_map_def)

lemma Upsert_refines:
  assumes "reg_inv r"
  shows "reg_inv (Upsert now e r)"
    "reg_map (Upsert now e r) = (reg_map r)((EntryNamespace e, EntryServer e) \<mapsto>
        stamped now (reg_map r (EntryNamespace e, EntryServer e)) e)"
proof -
  show "reg_inv (Upsert now e r)"
    unfolding Upsert_form [OF assms] with_normalized
    using assms group_wf group_entry by (intro put_group_inv') (auto split: if_splits)
  show "reg_map (Upsert now e r) = (reg_map r)((EntryNamespace e, EntryServer e) \<mapsto>
        stamped now (reg_map r (EntryNamespace e, EntryServer e)) e)"
    unfolding Upsert_form [OF assms] with_normalized
    by (auto simp: fun_eq_iff group_of_put reg_map_def)
qed

lemma UpsertNamespace_refines:
  assumes "reg_inv r"
  shows "reg_inv (UpsertNamespace ns r)" "reg_map (UpsertNamespace ns r) = reg_map r"
proof -
  have form: "UpsertNamespace ns r = (r\<lparr>RegSchemaVersion := RegSchemaVersion (reg_normalize r)\<rparr>)
      \<lparr>Namespaces := gm_put ns (group_of r ns) (Namespaces r)\<rparr>"
    using assms by (simp add: UpsertNamespace_def Let_def group_of_normalize normalize_id with_normalized)
  show "reg_inv (UpsertNamespace ns r)"
    unfolding form using assms group_wf group_entry by (intro put_group_inv') auto
  show "reg_map (UpsertNamespace ns r) = reg_map r"
    unfolding form by (auto simp: fun_eq_iff group_of_put reg_map_def)
qed

lemma Remove_refines:
  assumes "reg_inv r"
  shows "reg_inv (Remove ns sv r)" "reg_map (Remove ns sv r) = (reg_map r)((ns, Normalize sv) := None)"
proof -
  have "reg_inv (Remove ns sv r) \<and> reg_map (Remove ns sv r) = (reg_map r)((ns, Normalize sv) := None)"
  proof (cases "gm_get (Namespaces r) ns")
    case None
    then have "reg_map r (ns, t) = None" for t by (simp add: reg_map_def group_of_def)
    with None assms show ?thesis by (auto simp: Remove_def)
  next
    case (Some g)
    have "reg_inv (r\<lparr>Namespaces := gm_put ns (gm_del (Normalize sv) g) (Namespaces r)\<rparr>)"
      using assms Some reg_invD(2,3) by (intro put_group_inv) (auto split: if_splits)
    moreover have "group_of r ns = g" using Some by (simp add: group_of_def)
    ultimately show ?thesis using Some
      by (auto simp: Remove_def put_group_map fun_eq_iff reg_map_group)
  qed
  then show "reg_inv (Remove ns sv r)" "reg_map (Remove ns sv r) = (reg_map r)((ns, Normalize sv) := None)" by simp_all
qed

lemma RemoveNamespace_refines:
  assumes "reg_inv r"
  shows "reg_inv (RemoveNamespace ns r)" "reg_map (RemoveNamespace ns r) = (\<lambda>k. if fst k = ns then None else reg_map r k)"
  using assms by (auto simp: RemoveNamespace_def reg_inv_def reg_map_def group_of_def fun_eq_iff)

lemmas registry_refines = Upsert_refines UpsertNamespace_refines Remove_refines RemoveNamespace_refines


definition sample_entry :: "string \<Rightarrow> string \<Rightarrow> RegistryEntry" where
  "sample_entry ns sv = \<lparr>EntryNamespace = ns, EntryServer = sv, StatePath = ''/state/'' @ sv, ConfigPath = [], CredentialsPath = [],
     ResourceNames = \<lparr>ComputeServer = [], CloudflareTunnel = []\<rparr>, EntryLabels = [], EntryCreatedAt = 0, EntryUpdatedAt = 0\<rparr>"

lemma NewRegistry_inv: "reg_inv NewRegistry"
  by (simp add: reg_inv_def NewRegistry_def)


text \<open>
  \<open>List\<close> shows exactly what is filed: with a namespace the entries of that namespace, without
  one all of them, in the order of namespace and server.
\<close>

theorem list_shows_filed:
  assumes "reg_inv r"
  shows "(e \<in> set (List r namespace) \<longleftrightarrow>
      (\<exists>sv. reg_map r (EntryNamespace e, sv) = Some e) \<and> (namespace = '''' \<or> EntryNamespace e = namespace))
    \<and> sorted (map entry_key (List r namespace))"
proof -
  have in_group: "e \<in> snd ` set g \<longleftrightarrow> (\<exists>sv. gm_get g sv = Some e)" if "gm_wf g" for g :: RegistryNamespace
    using gm_in_set [OF that] by force
  have filed: "e \<in> snd ` set (group_of r ns) \<longleftrightarrow> EntryNamespace e = ns \<and> (\<exists>sv. reg_map r (EntryNamespace e, sv) = Some e)" for ns
    using in_group [OF group_wf [OF assms]] group_entry [OF assms] by (auto simp: reg_map_def)
  have all: "(\<exists>ns g. (ns, g) \<in> set (Namespaces r) \<and> e \<in> snd ` set g) \<longleftrightarrow> (\<exists>sv. reg_map r (EntryNamespace e, sv) = Some e)"
  proof
    assume "\<exists>ns g. (ns, g) \<in> set (Namespaces r) \<and> e \<in> snd ` set g"
    then obtain ns g where "gm_get (Namespaces r) ns = Some g" "e \<in> snd ` set g"
      using gm_in_set [OF reg_invD(1) [OF assms]] by blast
    then show "\<exists>sv. reg_map r (EntryNamespace e, sv) = Some e"
      using filed [of ns] by (auto simp: group_of_def)
  next
    assume "\<exists>sv. reg_map r (EntryNamespace e, sv) = Some e"
    then have "e \<in> snd ` set (group_of r (EntryNamespace e))" using filed by blast
    then show "\<exists>ns g. (ns, g) \<in> set (Namespaces r) \<and> e \<in> snd ` set g"
      by (cases "gm_get (Namespaces r) (EntryNamespace e)") (auto simp: group_of_def dest: map_of_SomeD)
  qed
  have "e \<in> set (List r namespace) \<longleftrightarrow>
      (if namespace \<noteq> '''' then e \<in> snd ` set (group_of r namespace)
       else (\<exists>ns g. (ns, g) \<in> set (Namespaces r) \<and> e \<in> snd ` set g))"
    by (force simp: List_def Let_def)
  then show ?thesis using filed all by (auto simp: List_def Let_def)
qed


definition sample_registry :: Registry where
  "sample_registry = Upsert 7 (sample_entry ''prod'' ''web'') NewRegistry"

lemma sample_registry_inv: "reg_inv sample_registry"
  unfolding sample_registry_def by (rule Upsert_refines(1) [OF NewRegistry_inv])

lemma list_shows_filed_witness:
  "(sample_entry ''prod'' ''api'' \<in> set (List sample_registry ''prod'') \<longleftrightarrow>
      (\<exists>sv. reg_map sample_registry (EntryNamespace (sample_entry ''prod'' ''api''), sv) = Some (sample_entry ''prod'' ''api''))
        \<and> (''prod'' = '''' \<or> EntryNamespace (sample_entry ''prod'' ''api'') = ''prod''))
    \<and> sorted (map entry_key (List sample_registry ''prod''))"
  by (rule list_shows_filed [OF sample_registry_inv])

section \<open>The registry file\<close>

definition sameRegistryAuthority :: "RegistryEntry \<Rightarrow> RegistryEntry \<Rightarrow> bool" where
  "sameRegistryAuthority a b \<longleftrightarrow>
     EntryNamespace a = EntryNamespace b \<and> EntryServer a = EntryServer b \<and> StatePath a = StatePath b
     \<and> ConfigPath a = ConfigPath b \<and> CredentialsPath a = CredentialsPath b \<and> ResourceNames a = ResourceNames b"

definition keyed :: "string \<Rightarrow> string \<Rightarrow> RegistryEntry \<Rightarrow> RegistryEntry" where
  "keyed namespace server entry =
     entry\<lparr>EntryNamespace := namespace, EntryServer := (if EntryServer entry = '''' then server else EntryServer entry)\<rparr>"

datatype registry_error =
    ConflictingEntries string string
  | ReadError string
  | DecodeError
  | WriteError string
  | CallbackError string

text \<open>\<open>copyNamespace\<close>: the servers of one namespace go into the merged one, in iteration order.\<close>

fun copy_servers ::
  "string \<Rightarrow> bool \<Rightarrow> RegistryNamespace \<Rightarrow> RegistryNamespace \<Rightarrow> (registry_error, RegistryNamespace) result" where
  "copy_servers namespace rejectConflicts [] target = Inr target"
| "copy_servers namespace rejectConflicts ((server, entry) # servers) target =
     (let entry' = keyed namespace server entry in
      case gm_get target server of
        Some existing \<Rightarrow>
          if rejectConflicts
          then (if \<not> sameRegistryAuthority (keyed namespace server existing) entry'
                then Inl (ConflictingEntries namespace server)
                else copy_servers namespace rejectConflicts servers target)
          else copy_servers namespace rejectConflicts servers (gm_put server entry' target)
      | None \<Rightarrow> copy_servers namespace rejectConflicts servers (gm_put server entry' target))"

type_synonym namespaces = "(string, RegistryNamespace) gomap"

definition lookup_ns :: "namespaces \<Rightarrow> string \<Rightarrow> RegistryNamespace" where
  "lookup_ns m namespace = (case gm_get m namespace of None \<Rightarrow> [] | Some g \<Rightarrow> g)"

fun copy_namespaces :: "bool \<Rightarrow> namespaces \<Rightarrow> namespaces \<Rightarrow> (registry_error, namespaces) result" where
  "copy_namespaces rejectConflicts [] merged = Inr merged"
| "copy_namespaces rejectConflicts ((namespace, grp) # groups) merged =
     bindR (copy_servers namespace rejectConflicts grp (lookup_ns merged namespace))
       (\<lambda>target. copy_namespaces rejectConflicts groups (gm_put namespace target merged))"

definition mergeRegistryNamespaces :: "namespaces \<Rightarrow> namespaces \<Rightarrow> (registry_error, namespaces) result" where
  "mergeRegistryNamespaces canonical legacy =
     bindR (copy_namespaces False canonical []) (copy_namespaces True legacy)"

text \<open>
  What a read of the file gives: no file, a body that does not decode, or the registry and the
  legacy section. Reads and writes may fail.
\<close>

datatype registry_file = NoFile | Undecodable | RegFile Registry namespaces

definition LoadRegistry :: "(string, registry_file) result \<Rightarrow> (registry_error, Registry) result" where
  "LoadRegistry read =
     (case read of
        Inl e \<Rightarrow> Inl (ReadError e)
      | Inr NoFile \<Rightarrow> Inr NewRegistry
      | Inr Undecodable \<Rightarrow> Inl DecodeError
      | Inr (RegFile r projects) \<Rightarrow>
          bindR (mergeRegistryNamespaces (Namespaces r) projects)
            (\<lambda>m. Inr (reg_normalize (r\<lparr>Namespaces := m\<rparr>))))"

text \<open>
  The write at the end of a locked update, with the result of the I/O: the new file, or an error
  that leaves the old one (\<open>AtomicWriteJSON\<close> renames a finished file, \<open>RemoveDurably\<close> unlinks).
\<close>

definition saveRegistryUnlocked :: "int \<Rightarrow> string option \<Rightarrow> Registry \<Rightarrow> registry_file \<Rightarrow> registry_error option \<times> registry_file" where
  "saveRegistryUnlocked now write_error r disk =
     (case write_error of
        Some e \<Rightarrow> (Some (WriteError e), disk)
      | None \<Rightarrow> (None, RegFile ((reg_normalize r)\<lparr>RegUpdatedAt := now\<rparr>) []))"

definition UpdateRegistry ::
  "int \<Rightarrow> string option \<Rightarrow> (Registry \<Rightarrow> (string, Registry) result) \<Rightarrow> registry_file \<Rightarrow> registry_error option \<times> registry_file" where
  "UpdateRegistry now write_error fn disk =
     (case LoadRegistry (Inr disk) of
        Inl e \<Rightarrow> (Some e, disk)
      | Inr r \<Rightarrow>
          (case fn r of
             Inl e \<Rightarrow> (Some (CallbackError e), disk)
           | Inr r1 \<Rightarrow>
               (let r2 = reg_normalize r1 in
                if Namespaces r2 = [] then
                  (case write_error of Some e \<Rightarrow> (Some (WriteError e), disk) | None \<Rightarrow> (None, NoFile))
                else saveRegistryUnlocked now write_error r2 disk)))"

section \<open>Merging never chooses between authorities\<close>

text \<open>The servers of one namespace: a conflict is an entry on both sides with different authority.\<close>

definition conflict_at :: "string \<Rightarrow> RegistryNamespace \<Rightarrow> RegistryNamespace \<Rightarrow> string \<Rightarrow> bool" where
  "conflict_at ns target servers sv \<longleftrightarrow>
     (\<exists>x e. gm_get target sv = Some x \<and> gm_get servers sv = Some e \<and> \<not> sameRegistryAuthority (keyed ns sv x) (keyed ns sv e))"

lemma copy_servers_reject:
  "gm_wf servers \<Longrightarrow>
   (case copy_servers ns True servers target of
      Inl e \<Rightarrow> \<exists>sv. conflict_at ns target servers sv
    | Inr t \<Rightarrow> (\<nexists>sv. conflict_at ns target servers sv)
        \<and> (\<forall>sv. gm_get t sv = (case gm_get target sv of Some x \<Rightarrow> Some x | None \<Rightarrow> map_option (keyed ns sv) (gm_get servers sv)))
        \<and> (gm_wf target \<longrightarrow> gm_wf t))"
proof (induction servers arbitrary: target)
  case Nil
  then show ?case by (auto simp: conflict_at_def split: option.split)
next
  case (Cons kv servers)
  obtain sv e where kv: "kv = (sv, e)" by (cases kv)
  from Cons.prems kv have wf: "gm_wf servers" and new: "gm_get servers sv = None"
    by (auto simp: gm_get_None)
  show ?case
  proof (cases "gm_get target sv")
    case None
    let ?t = "gm_put sv (keyed ns sv e) target"
    have same: "conflict_at ns ?t servers s \<longleftrightarrow> conflict_at ns target (kv # servers) s" for s
      using None new kv by (auto simp: conflict_at_def)
    from Cons.IH [OF wf, of ?t] show ?thesis
      unfolding same using None kv new by (auto simp: fun_eq_iff split: sum.split option.split)
  next
    case (Some x)
    show ?thesis
    proof (cases "sameRegistryAuthority (keyed ns sv x) (keyed ns sv e)")
      case True
      have same: "conflict_at ns target servers s \<longleftrightarrow> conflict_at ns target (kv # servers) s" for s
        using Some new kv True by (auto simp: conflict_at_def)
      from Cons.IH [OF wf, of target] show ?thesis
        unfolding same using Some kv new True by (auto split: sum.split option.split)
    next
      case False
      then have "conflict_at ns target (kv # servers) sv" using Some kv by (auto simp: conflict_at_def)
      with Some False kv show ?thesis by auto
    qed
  qed
qed

lemma copy_servers_overwrite:
  "gm_wf servers \<Longrightarrow> \<exists>t. copy_servers ns False servers target = Inr t \<and> (gm_wf target \<longrightarrow> gm_wf t)
     \<and> (\<forall>sv. gm_get t sv = (case gm_get servers sv of Some e \<Rightarrow> Some (keyed ns sv e) | None \<Rightarrow> gm_get target sv))"
proof (induction servers arbitrary: target)
  case (Cons kv servers)
  obtain sv e where kv: "kv = (sv, e)" by (cases kv)
  from Cons.prems kv have wf: "gm_wf servers" and new: "gm_get servers sv = None"
    by (auto simp: gm_get_None)
  from Cons.IH [OF wf, of "gm_put sv (keyed ns sv e) target"] obtain t where
    t: "copy_servers ns False servers (gm_put sv (keyed ns sv e) target) = Inr t"
    "gm_wf (gm_put sv (keyed ns sv e) target) \<longrightarrow> gm_wf t"
    "\<forall>s. gm_get t s = (case gm_get servers s of Some e \<Rightarrow> Some (keyed ns s e) | None \<Rightarrow> gm_get (gm_put sv (keyed ns sv e) target) s)"
    by blast
  have "copy_servers ns False (kv # servers) target = Inr t" using t(1) kv by (auto simp: Let_def split: option.split)
  moreover have "gm_get t s = (case gm_get (kv # servers) s of Some e \<Rightarrow> Some (keyed ns s e) | None \<Rightarrow> gm_get target s)" for s
    using t(3) new kv by (auto split: option.split)
  ultimately show ?case using t(2) gm_wf_put by (intro exI [of _ t]) simp
qed simp


definition groups_wf :: "namespaces \<Rightarrow> bool" where
  "groups_wf m \<longleftrightarrow> gm_wf m \<and> (\<forall>kv \<in> set m. gm_wf (snd kv))"

lemma groups_wf_simps [simp]:
  "groups_wf []" "groups_wf ((ns, g) # m) \<longleftrightarrow> ns \<notin> gm_keys m \<and> gm_wf g \<and> groups_wf m"
  by (auto simp: groups_wf_def)

lemma groups_wf_put: "groups_wf m \<Longrightarrow> gm_wf g \<Longrightarrow> groups_wf (gm_put ns g m)"
  by (auto simp: groups_wf_def dest!: in_gm_put)

lemma lookup_ns_put [simp]: "lookup_ns (gm_put ns g m) n = (if n = ns then g else lookup_ns m n)"
  by (simp add: lookup_ns_def)

lemma lookup_ns_Cons [simp]: "lookup_ns ((ns, g) # m) n = (if n = ns then g else lookup_ns m n)"
  by (simp add: lookup_ns_def)


lemma lookup_ns_wf: "groups_wf m \<Longrightarrow> gm_wf (lookup_ns m ns)"
  by (cases "gm_get m ns") (fastforce simp: lookup_ns_def groups_wf_def dest: map_of_SomeD)+

lemma lookup_ns_absent: "ns \<notin> gm_keys m \<Longrightarrow> lookup_ns m ns = []"
  by (auto simp: lookup_ns_def gm_keys_dom split: option.split)

lemma copy_namespaces_overwrite:
  "groups_wf groups \<Longrightarrow> groups_wf merged \<Longrightarrow> \<exists>m. copy_namespaces False groups merged = Inr m \<and> groups_wf m
     \<and> (\<forall>ns sv. gm_get (lookup_ns m ns) sv = (case gm_get (lookup_ns groups ns) sv of
          Some e \<Rightarrow> Some (keyed ns sv e) | None \<Rightarrow> gm_get (lookup_ns merged ns) sv))"
proof (induction groups arbitrary: merged)
  case Nil
  then show ?case by (simp add: lookup_ns_def)
next
  case (Cons kv groups)
  obtain ns g where kv: "kv = (ns, g)" by (cases kv)
  with Cons.prems have wf: "gm_wf g" "groups_wf groups" and new: "lookup_ns groups ns = []"
    by (simp_all add: lookup_ns_absent)
  obtain t where t: "copy_servers ns False g (lookup_ns merged ns) = Inr t" "gm_wf t"
    "\<forall>sv. gm_get t sv = (case gm_get g sv of Some e \<Rightarrow> Some (keyed ns sv e) | None \<Rightarrow> gm_get (lookup_ns merged ns) sv)"
    using copy_servers_overwrite [OF wf(1), of ns "lookup_ns merged ns"] lookup_ns_wf [OF Cons.prems(2)] by blast
  obtain m where m: "copy_namespaces False groups (gm_put ns t merged) = Inr m" "groups_wf m"
    "\<forall>n sv. gm_get (lookup_ns m n) sv = (case gm_get (lookup_ns groups n) sv of
          Some e \<Rightarrow> Some (keyed n sv e) | None \<Rightarrow> gm_get (lookup_ns (gm_put ns t merged) n) sv)"
    using Cons.IH [OF wf(2) groups_wf_put [OF Cons.prems(2) t(2)]] by blast
  have "gm_get (lookup_ns m n) sv = (case gm_get (lookup_ns (kv # groups) n) sv of
          Some e \<Rightarrow> Some (keyed n sv e) | None \<Rightarrow> gm_get (lookup_ns merged n) sv)" for n sv
    using m(3) t(3) new kv by (cases "n = ns") (simp_all split: option.split)
  then show ?case using m(1,2) t(1) kv by simp
qed

lemma copy_namespaces_reject:
  "groups_wf groups \<Longrightarrow> groups_wf merged \<Longrightarrow>
   (case copy_namespaces True groups merged of
      Inl e \<Rightarrow> \<exists>ns sv. conflict_at ns (lookup_ns merged ns) (lookup_ns groups ns) sv
    | Inr m \<Rightarrow> (\<nexists>ns sv. conflict_at ns (lookup_ns merged ns) (lookup_ns groups ns) sv) \<and> groups_wf m
        \<and> (\<forall>ns sv. gm_get (lookup_ns m ns) sv = (case gm_get (lookup_ns merged ns) sv of
             Some x \<Rightarrow> Some x | None \<Rightarrow> map_option (keyed ns sv) (gm_get (lookup_ns groups ns) sv))))"
proof (induction groups arbitrary: merged)
  case Nil
  then show ?case by (auto simp: lookup_ns_def conflict_at_def split: option.split)
next
  case (Cons kv groups)
  obtain ns g where kv: "kv = (ns, g)" by (cases kv)
  with Cons.prems have wf: "gm_wf g" "groups_wf groups" and new: "lookup_ns groups ns = []"
    by (simp_all add: lookup_ns_absent)
  show ?case
  proof (cases "copy_servers ns True g (lookup_ns merged ns)")
    case (Inl e)
    with copy_servers_reject [OF wf(1), of ns "lookup_ns merged ns"]
    have "\<exists>sv. conflict_at ns (lookup_ns merged ns) (lookup_ns (kv # groups) ns) sv" using kv by simp
    with Inl kv show ?thesis by auto
  next
    case (Inr t)
    with copy_servers_reject [OF wf(1), of ns "lookup_ns merged ns"] lookup_ns_wf [OF Cons.prems(2)]
    have t: "\<nexists>sv. conflict_at ns (lookup_ns merged ns) g sv" "gm_wf t"
      "\<forall>sv. gm_get t sv = (case gm_get (lookup_ns merged ns) sv of Some x \<Rightarrow> Some x | None \<Rightarrow> map_option (keyed ns sv) (gm_get g sv))"
      by simp_all
    have same: "conflict_at n (lookup_ns (gm_put ns t merged) n) (lookup_ns groups n) sv
        \<longleftrightarrow> conflict_at n (lookup_ns merged n) (lookup_ns (kv # groups) n) sv" for n sv
      using t(1) new kv by (cases "n = ns") (auto simp: conflict_at_def)
    have vals: "(case gm_get (lookup_ns (gm_put ns t merged) n) sv of
             Some x \<Rightarrow> Some x | None \<Rightarrow> map_option (keyed n sv) (gm_get (lookup_ns groups n) sv))
        = (case gm_get (lookup_ns merged n) sv of
             Some x \<Rightarrow> Some x | None \<Rightarrow> map_option (keyed n sv) (gm_get (lookup_ns (kv # groups) n) sv))" for n sv
      using t(3) new kv by (cases "n = ns") (auto split: option.split)
    have run: "copy_namespaces True (kv # groups) merged = copy_namespaces True groups (gm_put ns t merged)"
      using Inr kv by simp
    show ?thesis
      using Cons.IH [OF wf(2) groups_wf_put [OF Cons.prems(2) t(2), of ns]] unfolding run same vals .
  qed
qed

lemma keyed_keyed [simp]: "keyed ns sv (keyed ns sv e) = keyed ns sv e"
  by (simp add: keyed_def)

lemma merge_spec:
  assumes "groups_wf canonical" "groups_wf legacy"
  shows "case mergeRegistryNamespaces canonical legacy of
      Inl e \<Rightarrow> \<exists>ns sv. conflict_at ns (lookup_ns canonical ns) (lookup_ns legacy ns) sv
    | Inr m \<Rightarrow> (\<nexists>ns sv. conflict_at ns (lookup_ns canonical ns) (lookup_ns legacy ns) sv) \<and> groups_wf m
        \<and> (\<forall>ns sv. gm_get (lookup_ns m ns) sv = (case gm_get (lookup_ns canonical ns) sv of
             Some e \<Rightarrow> Some (keyed ns sv e)
           | None \<Rightarrow> map_option (keyed ns sv) (gm_get (lookup_ns legacy ns) sv)))"
proof -
  obtain m where m: "copy_namespaces False canonical [] = Inr m" "groups_wf m"
    "\<forall>ns sv. gm_get (lookup_ns m ns) sv = (case gm_get (lookup_ns canonical ns) sv of
          Some e \<Rightarrow> Some (keyed ns sv e) | None \<Rightarrow> gm_get (lookup_ns [] ns) sv)"
    using copy_namespaces_overwrite [OF assms(1), of "[]"] by auto
  then have get: "gm_get (lookup_ns m ns) sv = map_option (keyed ns sv) (gm_get (lookup_ns canonical ns) sv)" for ns sv
    by (simp add: lookup_ns_def split: option.split)
  have same: "conflict_at ns (lookup_ns m ns) (lookup_ns legacy ns) sv
      \<longleftrightarrow> conflict_at ns (lookup_ns canonical ns) (lookup_ns legacy ns) sv" for ns sv
    by (auto simp: conflict_at_def get)
  have value_eq: "(case gm_get (lookup_ns m ns) sv of Some x \<Rightarrow> Some x | None \<Rightarrow> d)
      = (case gm_get (lookup_ns canonical ns) sv of Some e \<Rightarrow> Some (keyed ns sv e) | None \<Rightarrow> d)" for ns sv d
    by (simp add: get split: option.split)
  from copy_namespaces_reject [OF assms(2) m(2)] show ?thesis
    unfolding same value_eq by (simp add: mergeRegistryNamespaces_def m(1))
qed

text \<open>
  Migration of the registry never chooses between two authorities: reading a file with a current
  and a legacy section is refused exactly when some server is filed in both with a different state,
  config, credentials or resource name; otherwise every server of either section is there, the current
  entry where both have one, under its own name.
\<close>

theorem merge_union_or_conflict:
  assumes "groups_wf canonical" "groups_wf legacy"
  shows "case mergeRegistryNamespaces canonical legacy of
      Inl e \<Rightarrow> \<exists>ns sv. conflict_at ns (lookup_ns canonical ns) (lookup_ns legacy ns) sv
    | Inr m \<Rightarrow> (\<nexists>ns sv. conflict_at ns (lookup_ns canonical ns) (lookup_ns legacy ns) sv) \<and> groups_wf m
        \<and> (\<forall>ns sv. gm_get (lookup_ns m ns) sv = (case gm_get (lookup_ns canonical ns) sv of
             Some e \<Rightarrow> Some (keyed ns sv e)
           | None \<Rightarrow> map_option (keyed ns sv) (gm_get (lookup_ns legacy ns) sv)))"
  using assms by (rule merge_spec)

definition both_sections :: "(registry_error, namespaces) result" where
  "both_sections = mergeRegistryNamespaces [(''prod'', [(''web'', sample_entry ''prod'' ''web'')])]
     [(''prod'', [(''api'', sample_entry ''prod'' ''api'')])]"

lemma merge_union_or_conflict_witness:
  "case both_sections of
      Inl e \<Rightarrow> False
    | Inr m \<Rightarrow> gm_get (lookup_ns m ''prod'') ''api'' = Some (keyed ''prod'' ''api'' (sample_entry ''prod'' ''api''))"
proof -
  let ?c = "[(''prod'', [(''web'', sample_entry ''prod'' ''web'')])]" and ?l = "[(''prod'', [(''api'', sample_entry ''prod'' ''api'')])]"
  have none: "\<not> conflict_at ns (lookup_ns ?c ns) (lookup_ns ?l ns) sv" for ns sv
    by (auto simp: conflict_at_def lookup_ns_def split: if_splits)
  have all: "case both_sections of Inl e \<Rightarrow> False | Inr m \<Rightarrow> (\<forall>ns sv. gm_get (lookup_ns m ns) sv =
      (case gm_get (lookup_ns ?c ns) sv of Some e \<Rightarrow> Some (keyed ns sv e)
       | None \<Rightarrow> map_option (keyed ns sv) (gm_get (lookup_ns ?l ns) sv)))"
    using merge_union_or_conflict [of ?c ?l] none by (auto simp: both_sections_def split: sum.splits)
  show ?thesis
  proof (cases both_sections)
    case (Inl e)
    have False using all unfolding Inl by simp
    then show ?thesis ..
  next
    case (Inr m)
    have get: "gm_get (lookup_ns m ns) sv = (case gm_get (lookup_ns ?c ns) sv of Some e \<Rightarrow> Some (keyed ns sv e)
       | None \<Rightarrow> map_option (keyed ns sv) (gm_get (lookup_ns ?l ns) sv))" for ns sv
      using all unfolding Inr by simp
    have "gm_get (lookup_ns m ''prod'') ''api'' = Some (keyed ''prod'' ''api'' (sample_entry ''prod'' ''api''))"
      using get [of "''prod''" "''api''"] by (simp add: lookup_ns_def)
    then show ?thesis unfolding Inr by simp
  qed
qed

section \<open>The update transaction\<close>

lemma reg_normalize_inv:
  assumes "groups_wf (Namespaces r)"
  shows "reg_inv (reg_normalize r)"
proof -
  have keys: "map fst (Namespaces (reg_normalize r)) = map fst (Namespaces r)"
    by (simp add: reg_normalize_def case_prod_beta)
  have "gm_wf g \<and> (\<forall>sv e. gm_get g sv = Some e \<longrightarrow> EntryNamespace e = ns)"
    if "gm_get (Namespaces (reg_normalize r)) ns = Some g" for ns g
  proof -
    from that obtain g0 where g0: "gm_get (Namespaces r) ns = Some g0"
      "g = map (\<lambda>(server, entry). (server, entry\<lparr>EntryNamespace := ns\<rparr>)) g0"
      by (auto simp: reg_normalize_def map_of_values2)
    then have "gm_wf g0" using assms by (fastforce simp: groups_wf_def dest: map_of_SomeD)
    then have "gm_wf g" by (simp add: gm_wf_def g0(2) comp_def case_prod_beta)
    then show ?thesis by (auto simp: g0(2) map_of_values2)
  qed
  then show ?thesis
    using assms keys by (auto simp: reg_inv_def gm_wf_def groups_wf_def)
qed

definition file_wf :: "registry_file \<Rightarrow> bool" where
  "file_wf disk = (case disk of RegFile r projects \<Rightarrow> groups_wf (Namespaces r) \<and> groups_wf projects | _ \<Rightarrow> True)"

lemma load_inv:
  assumes "file_wf disk" "LoadRegistry (Inr disk) = Inr r"
  shows "reg_inv r"
proof (cases disk)
  case NoFile
  with assms show ?thesis by (simp add: LoadRegistry_def NewRegistry_inv)
next
  case Undecodable
  with assms show ?thesis by (simp add: LoadRegistry_def)
next
  case (RegFile r0 projects)
  with assms(2) obtain m where m: "mergeRegistryNamespaces (Namespaces r0) projects = Inr m"
    "r = reg_normalize (r0\<lparr>Namespaces := m\<rparr>)"
    by (auto simp: LoadRegistry_def bindR_eq_Inr)
  with merge_spec [of "Namespaces r0" projects] assms(1) RegFile have "groups_wf m" by (simp add: file_wf_def)
  then show ?thesis using m(2) reg_normalize_inv [of "r0\<lparr>Namespaces := m\<rparr>"] by simp
qed


text \<open>
  Every registry that the program works on satisfies the invariant: what \<open>LoadRegistry\<close> returns
  does, whatever sections the file has.
\<close>

theorem load_registry_inv:
  assumes "file_wf disk" "LoadRegistry (Inr disk) = Inr r"
  shows "reg_inv r"
  using assms by (rule load_inv)

lemma load_registry_inv_witness: "reg_inv sample_registry"
proof -
  have wf: "groups_wf (Namespaces sample_registry)"
    using sample_registry_inv gm_in_set by (fastforce simp: groups_wf_def reg_inv_def)
  have same: "reg_normalize sample_registry = sample_registry"
    by (simp add: sample_registry_def Upsert_def NewRegistry_def reg_normalize_def Let_def group_of_def sample_entry_def
        gm_put_def stamped_def RegistrySchemaVersion_def)
  have "mergeRegistryNamespaces (Namespaces sample_registry) [] = Inr (Namespaces sample_registry)"
    by (simp add: mergeRegistryNamespaces_def sample_registry_def Upsert_def NewRegistry_def reg_normalize_def Let_def
        group_of_def sample_entry_def gm_put_def stamped_def keyed_def lookup_ns_def)
  then have "LoadRegistry (Inr (RegFile sample_registry [])) = Inr sample_registry"
    by (simp add: LoadRegistry_def same)
  then show ?thesis by (rule load_registry_inv [rotated]) (simp add: file_wf_def wf)
qed

lemma reg_inv_groups: "reg_inv r \<Longrightarrow> groups_wf (Namespaces r)"
  using gm_in_set by (fastforce simp: groups_wf_def reg_inv_def)

lemma group_of_lookup: "group_of r ns = lookup_ns (Namespaces r) ns"
  by (simp add: group_of_def lookup_ns_def)

lemma reg_map_normalize:
  "reg_map (reg_normalize r) k = map_option (\<lambda>e. e\<lparr>EntryNamespace := fst k\<rparr>) (reg_map r k)"
  by (auto simp: reg_map_def group_of_def reg_normalize_def map_of_values2 split: option.split)

text \<open>A registry that was saved loads as itself.\<close>

lemma load_saved:
  assumes "reg_inv r" "Namespaces s = Namespaces r"
  shows "\<exists>r''. LoadRegistry (Inr (RegFile s [])) = Inr r''
    \<and> (\<forall>k. reg_map r'' k = map_option (keyed (fst k) (snd k)) (reg_map r k))"
proof -
  have wf: "groups_wf (Namespaces r)" by (rule reg_inv_groups [OF assms(1)])
  have none: "\<not> conflict_at ns g (lookup_ns [] ns) sv" for ns g sv
    by (simp add: conflict_at_def lookup_ns_def)
  from merge_spec [OF wf, of "[]"] none obtain m where m: "mergeRegistryNamespaces (Namespaces r) [] = Inr m"
    "\<forall>ns sv. gm_get (lookup_ns m ns) sv = (case gm_get (lookup_ns (Namespaces r) ns) sv of
             Some e \<Rightarrow> Some (keyed ns sv e)
           | None \<Rightarrow> map_option (keyed ns sv) (gm_get (lookup_ns [] ns) sv))"
    by (auto split: sum.splits)
  have "reg_map (reg_normalize (s\<lparr>Namespaces := m\<rparr>)) k = map_option (keyed (fst k) (snd k)) (reg_map r k)" for k
    using m(2) by (simp add: reg_map_normalize) (simp add: reg_map_def group_of_lookup lookup_ns_def keyed_def split: option.split)
  then show ?thesis by (auto simp: LoadRegistry_def assms(2) m(1))
qed

lemma update_registry_spec:
  assumes "UpdateRegistry now write_error fn disk = (err, disk')" "file_wf disk"
    and "\<And>r r'. reg_inv r \<Longrightarrow> fn r = Inr r' \<Longrightarrow> reg_inv r'"
  shows "case err of
      Some e \<Rightarrow> disk' = disk
    | None \<Rightarrow> \<exists>r r' r''. LoadRegistry (Inr disk) = Inr r \<and> fn r = Inr r' \<and> LoadRegistry (Inr disk') = Inr r''
        \<and> (\<forall>k. reg_map r'' k = map_option (keyed (fst k) (snd k)) (reg_map r' k))
        \<and> (disk' = NoFile \<longleftrightarrow> Namespaces r' = [])"
proof (cases err)
  case (Some e)
  with assms(1) show ?thesis
    by (auto simp: UpdateRegistry_def saveRegistryUnlocked_def Let_def split: sum.splits option.splits if_splits)
next
  case None
  with assms(1) obtain r r' where r: "LoadRegistry (Inr disk) = Inr r" "fn r = Inr r'"
    by (auto simp: UpdateRegistry_def split: sum.splits)
  have inv: "reg_inv r'" by (rule assms(3) [OF _ r(2)]) (use assms(2) r(1) load_inv in blast)
  have same: "Namespaces (reg_normalize r') = Namespaces r'" by (rule normalize_id [OF inv])
  have twice: "Namespaces (reg_normalize (reg_normalize r')) = Namespaces r'"
    using normalize_id [OF reg_normalize_inv [OF reg_inv_groups [OF inv]]] same by simp
  show ?thesis
  proof (cases "Namespaces r' = []")
    case True
    with None assms(1) r same have "disk' = NoFile"
      by (auto simp: UpdateRegistry_def Let_def split: option.splits)
    moreover have "reg_map NewRegistry k = None" "reg_map r' k = None" for k
      using True by (simp_all add: reg_map_def group_of_def NewRegistry_def)
    ultimately show ?thesis using None r True by (simp add: LoadRegistry_def)
  next
    case False
    with None assms(1) r same
    have disk': "disk' = RegFile ((reg_normalize (reg_normalize r'))\<lparr>RegUpdatedAt := now\<rparr>) []"
      by (auto simp: UpdateRegistry_def saveRegistryUnlocked_def Let_def split: option.splits)
    then obtain r'' where "LoadRegistry (Inr disk') = Inr r''"
      "\<forall>k. reg_map r'' k = map_option (keyed (fst k) (snd k)) (reg_map r' k)"
      using load_saved [OF inv, of "(reg_normalize (reg_normalize r'))\<lparr>RegUpdatedAt := now\<rparr>"] twice by auto
    then show ?thesis using None r False disk' by auto
  qed
qed

text \<open>
  An update is all or nothing: when it fails, in reading, in its callback or in writing, the file is
  as it was; when it succeeds, reading the file again gives the registry that the callback returned,
  entry by entry under its own name, and the file is gone exactly when no namespace is left.
\<close>

theorem update_registry_atomic:
  assumes "UpdateRegistry now write_error fn disk = (err, disk')" "file_wf disk"
    and "\<And>r r'. reg_inv r \<Longrightarrow> fn r = Inr r' \<Longrightarrow> reg_inv r'"
  shows "case err of
      Some e \<Rightarrow> disk' = disk
    | None \<Rightarrow> \<exists>r r' r''. LoadRegistry (Inr disk) = Inr r \<and> fn r = Inr r' \<and> LoadRegistry (Inr disk') = Inr r''
        \<and> (\<forall>k. reg_map r'' k = map_option (keyed (fst k) (snd k)) (reg_map r' k))
        \<and> (disk' = NoFile \<longleftrightarrow> Namespaces r' = [])"
  by (rule update_registry_spec [OF assms])

definition sample_update :: "registry_error option \<times> registry_file" where
  "sample_update = UpdateRegistry 9 None (\<lambda>r. Inr (Upsert 7 (sample_entry ''prod'' ''web'') r)) NoFile"

lemma update_registry_atomic_witness:
  "case fst sample_update of
      Some e \<Rightarrow> snd sample_update = NoFile
    | None \<Rightarrow> \<exists>r r' r''. LoadRegistry (Inr NoFile) = Inr r \<and> Inr (Upsert 7 (sample_entry ''prod'' ''web'') r) = (Inr r' :: (string, Registry) result)
        \<and> LoadRegistry (Inr (snd sample_update)) = Inr r''
        \<and> (\<forall>k. reg_map r'' k = map_option (keyed (fst k) (snd k)) (reg_map r' k))
        \<and> (snd sample_update = NoFile \<longleftrightarrow> Namespaces r' = [])"
  unfolding sample_update_def
  by (rule update_registry_atomic [where disk = NoFile]) (auto simp: file_wf_def intro: Upsert_refines(1))

end
