(* ===== verification/Config_Model.thy ===== *)
theory Config_Model
  imports Config_Names Mesh_Types
begin

text \<open>
  The server configuration (internal/config: config.go, defaults.go, apply_defaults.go, examples.go,
  validation*.go, reboot.go, io.go). The YAML codec and \<open>time.ParseDuration\<close> are parameters;
  \<open>time.Parse\<close> with the layout of the reboot window is written out. A file is its bytes or
  nothing, and a locked operation is one step on it. \<open>Labels\<close> is \<open>None\<close> for a nil map,
  because the defaults ask for that. The lemmas show that defaults are a projection, that a saved
  config is read back as saved, and what a validated config guarantees to the policy client.
\<close>

section \<open>Data\<close>

record ConfigCredentials =
  JSONPath :: string

record ConfigCompute =
  ComputeName :: string
  ComputeLocation :: string
  ComputeSize :: string
  ComputeImage :: string
  ComputeLabels :: "labels option"

record Admin =
  Username :: string
  StoreConsolePassword :: bool

record Egress =
  EgressMode :: string
  PhaseLockdownAfterBootstrap :: bool

record Network =
  IngressKind :: string
  NetworkEgress :: Egress

record TailscaleAutomation =
  AutomationEnabled :: bool
  Socket :: string
  CLI :: string

record Tailscale =
  TailscaleEnabled :: bool
  TailscaleSSH :: bool
  Tailnet :: string
  Tags :: "string list"
  SSHTags :: "string list"
  RootPolicy :: string
  HumanSSH :: string
  Automation :: TailscaleAutomation

record Access =
  PublicSSH :: bool
  OpenSSH :: string
  AccessTailscale :: Tailscale

record TunnelConfig =
  TunnelEnabled :: bool
  TunnelName :: string
  CreateConnectorOnly :: bool

record Cloudflare =
  AccountID :: string
  CloudflareTunnelConfig :: TunnelConfig

record GitIdentity =
  GitName :: string
  GitEmail :: string

record Git =
  Identity :: GitIdentity
  Signing :: bool
  GitAccess :: string
  DeployRepository :: string

record Hardening =
  Profile :: string
  UnattendedUpgrades :: bool
  AppArmor :: bool
  UFW :: bool
  JournaldPersistent :: bool

record Reboot =
  RebootEnabled :: bool
  Window :: string
  VerifyTimeout :: string

record Config =
  ConfigSchema :: int
  ConfigNamespace :: string
  ConfigServer :: string
  CredentialsOf :: ConfigCredentials
  ComputeOf :: ConfigCompute
  AdminOf :: Admin
  NetworkOf :: Network
  AccessOf :: Access
  CloudflareOf :: Cloudflare
  HardeningOf :: Hardening
  RebootOf :: Reboot
  GitOf :: Git

abbreviation tailscale_of :: "Config \<Rightarrow> Tailscale" where "tailscale_of c \<equiv> AccessTailscale (AccessOf c)"
abbreviation tunnel_of :: "Config \<Rightarrow> TunnelConfig" where "tunnel_of c \<equiv> CloudflareTunnelConfig (CloudflareOf c)"

definition EgressModeRestricted :: string where "EgressModeRestricted = ''restricted''"
definition EgressModeOpen :: string where "EgressModeOpen = ''open''"
definition OpenSSHDisabled :: string where "OpenSSHDisabled = ''disabled''"
definition OpenSSHEnabled :: string where "OpenSSHEnabled = ''enabled''"
definition GitAccessNone :: string where "GitAccessNone = ''none''"
definition GitAccessDeployKey :: string where "GitAccessDeployKey = ''deploy-key''"
definition GitAccessAccountKey :: string where "GitAccessAccountKey = ''account-key''"

lemmas config_constants = EgressModeRestricted_def EgressModeOpen_def OpenSSHDisabled_def OpenSSHEnabled_def
  GitAccessNone_def GitAccessDeployKey_def GitAccessAccountKey_def

definition LockdownDue :: "Egress \<Rightarrow> bool" where
  "LockdownDue e \<longleftrightarrow> EgressMode e = EgressModeRestricted \<and> PhaseLockdownAfterBootstrap e"

definition AutomationSource :: "Tailscale \<Rightarrow> string" where
  "AutomationSource t = (if \<not> AutomationEnabled (Automation t) then '''' else AutomationSourceTag)"

definition HumanSSHAction :: "Tailscale \<Rightarrow> string" where
  "HumanSSHAction t = (if HumanSSH t = '''' then SSHActionCheck else HumanSSH t)"

definition SSHRuleTags :: "Tailscale \<Rightarrow> string list" where
  "SSHRuleTags t = (if SSHTags t \<noteq> [] then SSHTags t else Tags t)"

section \<open>Defaults\<close>

definition TokenDefaultTailnet :: string where "TokenDefaultTailnet = ''-''"
definition DefaultRebootWindow :: string where "DefaultRebootWindow = ''02:00''"
definition DefaultRebootVerifyTimeout :: string where "DefaultRebootVerifyTimeout = ''10m''"

definition no_automation :: TailscaleAutomation where
  "no_automation = \<lparr>AutomationEnabled = False, Socket = '''', CLI = ''''\<rparr>"

definition DefaultConfig :: Config where
  "DefaultConfig =
     \<lparr>ConfigSchema = 0, ConfigNamespace = '''', ConfigServer = Default,
      CredentialsOf = \<lparr>JSONPath = defaultCredentialsJSONPath\<rparr>,
      ComputeOf = \<lparr>ComputeName = '''', ComputeLocation = ''fsn1'', ComputeSize = ''cx23'',
                   ComputeImage = ''ubuntu-24.04'', ComputeLabels = Some [(''managed-by'', ''serverpro'')]\<rparr>,
      AdminOf = \<lparr>Username = ''deploy'', StoreConsolePassword = True\<rparr>,
      NetworkOf = \<lparr>IngressKind = ''none'',
                   NetworkEgress = \<lparr>EgressMode = EgressModeRestricted, PhaseLockdownAfterBootstrap = True\<rparr>\<rparr>,
      AccessOf = \<lparr>PublicSSH = False, OpenSSH = OpenSSHDisabled,
                  AccessTailscale = \<lparr>TailscaleEnabled = True, TailscaleSSH = True, Tailnet = TokenDefaultTailnet,
                    Tags = [''tag:serverpro-server''], SSHTags = [], RootPolicy = ''check-or-disabled'',
                    HumanSSH = '''', Automation = no_automation\<rparr>\<rparr>,
      CloudflareOf = \<lparr>AccountID = '''',
                      CloudflareTunnelConfig = \<lparr>TunnelEnabled = False, TunnelName = '''', CreateConnectorOnly = False\<rparr>\<rparr>,
      HardeningOf = \<lparr>Profile = ''strict'', UnattendedUpgrades = True, AppArmor = True, UFW = True,
                     JournaldPersistent = True\<rparr>,
      RebootOf = \<lparr>RebootEnabled = True, Window = DefaultRebootWindow, VerifyTimeout = DefaultRebootVerifyTimeout\<rparr>,
      GitOf = \<lparr>Identity = \<lparr>GitName = '''', GitEmail = ''''\<rparr>, Signing = False, GitAccess = '''', DeployRepository = ''''\<rparr>\<rparr>"

definition labels_of :: "labels option \<Rightarrow> labels" where
  "labels_of l = (case l of None \<Rightarrow> [] | Some m \<Rightarrow> m)"

definition applyServerDefaults :: "Config \<Rightarrow> Config" where
  "applyServerDefaults c =
     (if ConfigServer c = '''' then c\<lparr>ConfigServer := ConfigServer DefaultConfig\<rparr> else c)"

definition applyCredentialDefaults :: "string option \<Rightarrow> Config \<Rightarrow> Config" where
  "applyCredentialDefaults home c =
     (if JSONPath (CredentialsOf c) = '''' \<or> JSONPath (CredentialsOf c) = defaultCredentialsJSONPath
      then c\<lparr>CredentialsOf := \<lparr>JSONPath = ServerCredentialsPath home (ConfigNamespace c) (ConfigServer c)\<rparr>\<rparr>
      else c)"

definition applyComputeDefaults :: "Config \<Rightarrow> Config" where
  "applyComputeDefaults c =
     (let k = ComputeOf c;
          k1 = (if ComputeName k = ''''
                then k\<lparr>ComputeName := ServerResourceName (ConfigNamespace c) (ConfigServer c)\<rparr> else k);
          k2 = (if ComputeLabels k1 = None then k1\<lparr>ComputeLabels := ComputeLabels (ComputeOf DefaultConfig)\<rparr> else k1)
      in c\<lparr>ComputeOf := k2\<lparr>ComputeLabels :=
             Some (ConfigLabels (ConfigNamespace c) (ConfigServer c) (labels_of (ComputeLabels k2)))\<rparr>\<rparr>)"

definition applyNetworkDefaults :: "Config \<Rightarrow> Config" where
  "applyNetworkDefaults c =
     (let n = NetworkOf c;
          n1 = (if IngressKind n = '''' then n\<lparr>IngressKind := IngressKind (NetworkOf DefaultConfig)\<rparr> else n);
          n2 = (if EgressMode (NetworkEgress n1) = ''''
                then n1\<lparr>NetworkEgress := (NetworkEgress n1)\<lparr>EgressMode := EgressMode (NetworkEgress (NetworkOf DefaultConfig))\<rparr>\<rparr>
                else n1)
      in c\<lparr>NetworkOf := n2\<rparr>)"

definition hasDefaultTailscaleTags :: "string list \<Rightarrow> bool" where
  "hasDefaultTailscaleTags tags \<longleftrightarrow> tags = [] \<or> join '','' tags = ''tag:serverpro-server''"

definition tailscale_defaults :: "string \<Rightarrow> Tailscale \<Rightarrow> Tailscale" where
  "tailscale_defaults ns t =
     (let d = tailscale_of DefaultConfig;
          t1 = (if \<not> TailscaleEnabled t \<and> \<not> TailscaleSSH t \<and> Tags t = [] then d else t);
          t2 = (if ns \<noteq> '''' \<and> hasDefaultTailscaleTags (Tags t1) then t1\<lparr>Tags := [NamespaceTailscaleTag ns]\<rparr> else t1);
          t3 = (if Tailnet t2 = '''' then t2\<lparr>Tailnet := Tailnet d\<rparr> else t2)
      in if RootPolicy t3 = '''' then t3\<lparr>RootPolicy := RootPolicy d\<rparr> else t3)"

definition applyAccessDefaults :: "Config \<Rightarrow> Config" where
  "applyAccessDefaults c =
     (let a = AccessOf c; a1 = a\<lparr>AccessTailscale := tailscale_defaults (ConfigNamespace c) (AccessTailscale a)\<rparr>
      in c\<lparr>AccessOf := (if OpenSSH a1 = '''' then a1\<lparr>OpenSSH := OpenSSH (AccessOf DefaultConfig)\<rparr> else a1)\<rparr>)"

definition applyCloudflareDefaults :: "Config \<Rightarrow> Config" where
  "applyCloudflareDefaults c =
     (if TunnelName (tunnel_of c) = '''' \<and> ComputeName (ComputeOf c) \<noteq> ''''
      then c\<lparr>CloudflareOf := (CloudflareOf c)\<lparr>CloudflareTunnelConfig := (tunnel_of c)\<lparr>TunnelName := ComputeName (ComputeOf c)\<rparr>\<rparr>\<rparr>
      else c)"

definition applyHardeningDefaults :: "Config \<Rightarrow> Config" where
  "applyHardeningDefaults c =
     (if Profile (HardeningOf c) = '''' then c\<lparr>HardeningOf := HardeningOf DefaultConfig\<rparr> else c)"

definition applyRebootDefaults :: "Config \<Rightarrow> Config" where
  "applyRebootDefaults c =
     (let r = RebootOf c;
          r1 = (if Window r = '''' then r\<lparr>Window := DefaultRebootWindow\<rparr> else r);
          r2 = (if VerifyTimeout r1 = '''' then r1\<lparr>VerifyTimeout := DefaultRebootVerifyTimeout\<rparr> else r1)
      in c\<lparr>RebootOf := r2\<rparr>)"

definition applyDefaults :: "string option \<Rightarrow> Config \<Rightarrow> Config" where
  "applyDefaults home c =
     applyRebootDefaults (applyHardeningDefaults (applyCloudflareDefaults (applyAccessDefaults
       (applyNetworkDefaults (applyComputeDefaults (applyCredentialDefaults home (applyServerDefaults c)))))))"

definition ExampleServer :: "string option \<Rightarrow> string \<Rightarrow> string \<Rightarrow> Config" where
  "ExampleServer home namespace server0 =
     (let server = Normalize server0; d = DefaultConfig; name = ServerResourceName namespace server;
          t = (tailscale_of d)\<lparr>Tags := [NamespaceTailscaleTag namespace]\<rparr>
      in d\<lparr>ConfigNamespace := namespace, ConfigServer := server,
           CredentialsOf := \<lparr>JSONPath = ServerCredentialsPath home namespace server\<rparr>,
           AccessOf := (AccessOf d)\<lparr>AccessTailscale := t\<rparr>,
           ComputeOf := (ComputeOf d)\<lparr>ComputeName := name,
             ComputeLabels := Some (ConfigLabels namespace server (labels_of (ComputeLabels (ComputeOf d))))\<rparr>,
           CloudflareOf := (CloudflareOf d)\<lparr>CloudflareTunnelConfig := (tunnel_of d)\<lparr>TunnelName := name\<rparr>\<rparr>\<rparr>)"

section \<open>Validation\<close>

datatype config_error =
    MissingRequired "string list"
  | InvalidNamespace string | InvalidServer string | InvalidComputeName string | InvalidTunnelName string
  | CredentialsOutOfScope | InvalidTag string | TagsOutOfScope | SSHTagOutside string | SSHTagTwice string
  | TunnelOutOfScope
  | HumanSSHRoot | HumanSSHUnknown | AutomationRoot | AutomationTagListed | AutomationPath string
  | TailscaleOff | NotConnectorOnly | PublicSSHOn | OpenSSHUnknown | IngressUnknown | EgressUnknown
  | HardeningOff | RootPolicyUnknown | InvalidAdmin string
  | GitAccessUnknown | AccountKeyNeedsIdentity | DeployKeyNeedsRepository | RepositoryNeedsKey | SigningNeedsIdentity
  | RebootWindowBad | VerifyTimeoutBad | VerifyTimeoutRange | VerifyTimeoutFraction
  | NamespaceConflict string string | SchemaUnsupported int | DecodeFailed string | EncodeFailed string
  | ReadFailed string | WriteFailed string | MutateFailed string | ErrSourceChanged | NotExist

definition need :: "bool \<Rightarrow> string \<Rightarrow> string list" where
  "need bad name = (if bad then [name] else [])"

definition missing_required :: "Config \<Rightarrow> string list" where
  "missing_required c =
     need (ConfigNamespace c = '''') ''namespace'' @ need (ConfigServer c = '''') ''server''
     @ need (JSONPath (CredentialsOf c) = '''') ''credentials.json_path''
     @ need (ComputeName (ComputeOf c) = '''') ''compute.name''
     @ need (ComputeLocation (ComputeOf c) = '''') ''compute.location''
     @ need (ComputeSize (ComputeOf c) = '''') ''compute.size''
     @ need (ComputeImage (ComputeOf c) = '''') ''compute.image''
     @ need (Username (AdminOf c) = '''') ''admin.username''
     @ need (TailscaleEnabled (tailscale_of c) \<and> Tailnet (tailscale_of c) = '''') ''access.tailscale.tailnet''
     @ need (TailscaleEnabled (tailscale_of c) \<and> Tags (tailscale_of c) = []) ''access.tailscale.tags''
     @ need (TunnelEnabled (tunnel_of c) \<and> AccountID (CloudflareOf c) = '''') ''cloudflare.account_id''
     @ need (TunnelEnabled (tunnel_of c) \<and> TunnelName (tunnel_of c) = '''') ''cloudflare.tunnel.name''"

definition validateRequired :: "Config \<Rightarrow> config_error option" where
  "validateRequired c = (if missing_required c \<noteq> [] then Some (MissingRequired (missing_required c)) else None)"

definition validateResourceNames :: "Config \<Rightarrow> config_error option" where
  "validateResourceNames c =
     (if \<not> ValidID (ConfigNamespace c) then Some (InvalidNamespace (ConfigNamespace c))
      else if \<not> ValidID (ConfigServer c) then Some (InvalidServer (ConfigServer c))
      else if \<not> validProviderResourceName (ComputeName (ComputeOf c)) then Some (InvalidComputeName (ComputeName (ComputeOf c)))
      else if \<not> validProviderResourceName (TunnelName (tunnel_of c)) then Some (InvalidTunnelName (TunnelName (tunnel_of c)))
      else None)"

definition validateNamespaceScopes :: "Config \<Rightarrow> config_error option" where
  "validateNamespaceScopes c =
     (if \<not> CredentialsPathScopedToServer (JSONPath (CredentialsOf c)) (ConfigNamespace c) (ConfigServer c)
      then Some CredentialsOutOfScope
      else (case find (\<lambda>tag. \<not> validTailscaleTag tag) (Tags (tailscale_of c)) of
        Some tag \<Rightarrow> Some (InvalidTag tag)
      | None \<Rightarrow>
          if \<not> tailscaleTagsScopedToNamespace (Tags (tailscale_of c)) (ConfigNamespace c) then Some TagsOutOfScope
          else (case validateSSHTags (SSHTags (tailscale_of c)) (Tags (tailscale_of c)) of
            Some (NotInTags t) \<Rightarrow> Some (SSHTagOutside t)
          | Some (ListedTwice t) \<Rightarrow> Some (SSHTagTwice t)
          | None \<Rightarrow>
              if \<not> nameScopedToNamespace (TunnelName (tunnel_of c)) (ConfigNamespace c) then Some TunnelOutOfScope
              else None)))"

definition safeProxyCommandPath :: "string \<Rightarrow> bool" where
  "safeProxyCommandPath path =
     (if path = '''' \<or> \<not> IsAbs path \<or> Clean path \<noteq> path then False
      else list_all (\<lambda>r. isASCIIAlnum r \<or> r = 47 \<or> r = 46 \<or> r = 95 \<or> r = 45) (go_runes path))"

definition validateHumanSSH :: "Config \<Rightarrow> config_error option" where
  "validateHumanSSH c =
     (let h = HumanSSH (tailscale_of c) in
      if h = '''' \<or> h = SSHActionCheck then None
      else if h = SSHActionAccept then
        (if Username (AdminOf c) = RootSSHUser then Some HumanSSHRoot else None)
      else Some HumanSSHUnknown)"

fun check_automation_paths :: "bool \<Rightarrow> (string \<times> string) list \<Rightarrow> config_error option" where
  "check_automation_paths on [] = None"
| "check_automation_paths on ((name, path) # fs) =
     (if \<not> on \<and> path = '''' then check_automation_paths on fs
      else if \<not> safeProxyCommandPath path then Some (AutomationPath name)
      else check_automation_paths on fs)"

definition validateTailscaleAutomation :: "Config \<Rightarrow> config_error option" where
  "validateTailscaleAutomation c =
     (case validateHumanSSH c of
        Some e \<Rightarrow> Some e
      | None \<Rightarrow>
          (let a = Automation (tailscale_of c) in
           if AutomationEnabled a \<and> Username (AdminOf c) = RootSSHUser then Some AutomationRoot
           else if AutomationSourceTag \<in> set (Tags (tailscale_of c)) then Some AutomationTagListed
           else check_automation_paths (AutomationEnabled a) [(''socket'', Socket a), (''cli'', CLI a)]))"

definition validateMVPConstraints :: "Config \<Rightarrow> config_error option" where
  "validateMVPConstraints c =
     (let h = HardeningOf c; egress = EgressMode (NetworkEgress (NetworkOf c)) in
      if \<not> TailscaleEnabled (tailscale_of c) \<or> \<not> TailscaleSSH (tailscale_of c) then Some TailscaleOff
      else if TunnelEnabled (tunnel_of c) \<and> \<not> CreateConnectorOnly (tunnel_of c) then Some NotConnectorOnly
      else if PublicSSH (AccessOf c) then Some PublicSSHOn
      else if OpenSSH (AccessOf c) \<noteq> OpenSSHDisabled \<and> OpenSSH (AccessOf c) \<noteq> OpenSSHEnabled then Some OpenSSHUnknown
      else if IngressKind (NetworkOf c) \<noteq> ''none'' \<and> IngressKind (NetworkOf c) \<noteq> ''cloudflare-tunnel'' then Some IngressUnknown
      else if egress \<noteq> EgressModeRestricted \<and> egress \<noteq> EgressModeOpen then Some EgressUnknown
      else if Profile h \<noteq> ''strict'' \<or> \<not> UnattendedUpgrades h \<or> \<not> AppArmor h \<or> \<not> UFW h \<or> \<not> JournaldPersistent h then Some HardeningOff
      else if RootPolicy (tailscale_of c) \<noteq> ''check-or-disabled'' then Some RootPolicyUnknown
      else None)"

definition validateAdminUsername :: "Config \<Rightarrow> config_error option" where
  "validateAdminUsername c =
     (if \<not> validUsername (Username (AdminOf c)) then Some (InvalidAdmin (Username (AdminOf c))) else None)"

definition validateGit :: "Config \<Rightarrow> config_error option" where
  "validateGit c =
     (let g = GitOf c; identityMissing = (GitName (Identity g) = '''' \<or> GitEmail (Identity g) = '''') in
      if GitAccess g \<notin> {'''', GitAccessNone, GitAccessDeployKey, GitAccessAccountKey} then Some GitAccessUnknown
      else if GitAccess g = GitAccessAccountKey \<and> identityMissing then Some AccountKeyNeedsIdentity
      else if GitAccess g = GitAccessDeployKey \<and> DeployRepository g = '''' then Some DeployKeyNeedsRepository
      else if DeployRepository g \<noteq> '''' \<and> GitAccess g \<noteq> GitAccessDeployKey \<and> GitAccess g \<noteq> GitAccessAccountKey
      then Some RepositoryNeedsKey
      else if Signing g \<and> identityMissing then Some SigningNeedsIdentity
      else None)"

text \<open>
  \<open>time.Parse("15:04", s)\<close>: one or two digits of the hour below 24, a colon, two digits of the
  minute below 60, nothing after them.
\<close>

definition digit_of :: "char \<Rightarrow> nat option" where
  "digit_of c = (if isASCIIDigit (of_char c) then Some (of_char c - 48) else None)"

fun getnum :: "bool \<Rightarrow> string \<Rightarrow> (nat \<times> string) option" where
  "getnum fixed [] = None"
| "getnum fixed [c] = (case digit_of c of None \<Rightarrow> None | Some d \<Rightarrow> if fixed then None else Some (d, []))"
| "getnum fixed (c # c' # s) =
     (case digit_of c of None \<Rightarrow> None
      | Some d \<Rightarrow> (case digit_of c' of
          None \<Rightarrow> if fixed then None else Some (d, c' # s)
        | Some d' \<Rightarrow> Some (d * 10 + d', s)))"

definition WindowClock :: "Reboot \<Rightarrow> (nat \<times> nat) option" where
  "WindowClock r =
     (case getnum False (Window r) of None \<Rightarrow> None
      | Some (hour, s) \<Rightarrow>
          if 24 \<le> hour then None
          else if \<not> has_prefix s '':'' then None
          else (case getnum True (drop 1 s) of None \<Rightarrow> None
            | Some (minute, rest) \<Rightarrow> if 60 \<le> minute \<or> rest \<noteq> '''' then None else Some (hour, minute)))"

definition time_Second :: int where "time_Second = 1000000000"
definition minRebootVerifyTimeout :: int where "minRebootVerifyTimeout = 60 * time_Second"
definition maxRebootVerifyTimeout :: int where "maxRebootVerifyTimeout = 3600 * time_Second"

lemmas timeouts = time_Second_def minRebootVerifyTimeout_def maxRebootVerifyTimeout_def

text \<open>\<open>pd\<close> is \<open>time.ParseDuration\<close>, in nanoseconds.\<close>

definition VerifyTimeoutDuration :: "(string \<Rightarrow> int option) \<Rightarrow> Reboot \<Rightarrow> (config_error, int) result" where
  "VerifyTimeoutDuration pd r =
     (case pd (VerifyTimeout r) of None \<Rightarrow> Inl VerifyTimeoutBad
      | Some timeout \<Rightarrow>
          if timeout < minRebootVerifyTimeout \<or> timeout > maxRebootVerifyTimeout then Inl VerifyTimeoutRange
          else if timeout mod time_Second \<noteq> 0 then Inl VerifyTimeoutFraction
          else Inr timeout)"

definition validateReboot :: "(string \<Rightarrow> int option) \<Rightarrow> Config \<Rightarrow> config_error option" where
  "validateReboot pd c =
     (case WindowClock (RebootOf c) of None \<Rightarrow> Some RebootWindowBad
      | Some _ \<Rightarrow> (case VerifyTimeoutDuration pd (RebootOf c) of Inl e \<Rightarrow> Some e | Inr _ \<Rightarrow> None))"

definition ValidateConfig :: "(string \<Rightarrow> int option) \<Rightarrow> Config \<Rightarrow> config_error option" where
  "ValidateConfig pd c =
     first_error [validateRequired c, validateResourceNames c, validateNamespaceScopes c,
       validateTailscaleAutomation c, validateMVPConstraints c, validateAdminUsername c, validateGit c,
       validateReboot pd c]"

section \<open>Files\<close>

definition ConfigSchemaVersionLegacy :: int where "ConfigSchemaVersionLegacy = 0"
definition ConfigSchemaVersionCurrent :: int where "ConfigSchemaVersionCurrent = 1"

record configFile =
  FileConfig :: Config
  Project :: string

text \<open>
  The codec: \<open>Decode\<close> with \<open>KnownFields\<close>, onto a config that already holds some values, and
  \<open>Marshal\<close>.
\<close>

record yaml_codec =
  Decode :: "configFile \<Rightarrow> string \<Rightarrow> (string, configFile) result"
  Marshal :: "Config \<Rightarrow> (string, string) result"

definition migrateLegacyConfig :: "Config \<Rightarrow> (config_error, Config) result" where
  "migrateLegacyConfig c =
     (if ConfigSchema c = ConfigSchemaVersionLegacy then
        Inr ((if \<not> StoreConsolePassword (AdminOf c) then c\<lparr>AdminOf := (AdminOf c)\<lparr>StoreConsolePassword := True\<rparr>\<rparr> else c)
             \<lparr>ConfigSchema := ConfigSchemaVersionCurrent\<rparr>)
      else if ConfigSchema c \<noteq> ConfigSchemaVersionCurrent then Inl (SchemaUnsupported (ConfigSchema c))
      else Inr c)"

definition validateNamespaceIdentity :: "string \<Rightarrow> string \<Rightarrow> config_error option" where
  "validateNamespaceIdentity namespace project =
     (if namespace \<noteq> '''' \<and> project \<noteq> '''' \<and> namespace \<noteq> project then Some (NamespaceConflict namespace project) else None)"

text \<open>The config a YAML decoder starts from: the zero config with the three true-by-default bits.\<close>

definition zero_config :: Config where
  "zero_config =
     \<lparr>ConfigSchema = 0, ConfigNamespace = '''', ConfigServer = '''', CredentialsOf = \<lparr>JSONPath = ''''\<rparr>,
      ComputeOf = \<lparr>ComputeName = '''', ComputeLocation = '''', ComputeSize = '''', ComputeImage = '''', ComputeLabels = None\<rparr>,
      AdminOf = \<lparr>Username = '''', StoreConsolePassword = False\<rparr>,
      NetworkOf = \<lparr>IngressKind = '''', NetworkEgress = \<lparr>EgressMode = '''', PhaseLockdownAfterBootstrap = False\<rparr>\<rparr>,
      AccessOf = \<lparr>PublicSSH = False, OpenSSH = '''',
                  AccessTailscale = \<lparr>TailscaleEnabled = False, TailscaleSSH = False, Tailnet = '''', Tags = [],
                    SSHTags = [], RootPolicy = '''', HumanSSH = '''', Automation = no_automation\<rparr>\<rparr>,
      CloudflareOf = \<lparr>AccountID = '''',
                      CloudflareTunnelConfig = \<lparr>TunnelEnabled = False, TunnelName = '''', CreateConnectorOnly = False\<rparr>\<rparr>,
      HardeningOf = \<lparr>Profile = '''', UnattendedUpgrades = False, AppArmor = False, UFW = False, JournaldPersistent = False\<rparr>,
      RebootOf = \<lparr>RebootEnabled = False, Window = '''', VerifyTimeout = ''''\<rparr>,
      GitOf = GitOf DefaultConfig\<rparr>"

definition decode_base :: configFile where
  "decode_base =
     \<lparr>FileConfig = zero_config
       \<lparr>NetworkOf := (NetworkOf zero_config)\<lparr>NetworkEgress := (NetworkEgress (NetworkOf zero_config))
          \<lparr>PhaseLockdownAfterBootstrap := PhaseLockdownAfterBootstrap (NetworkEgress (NetworkOf DefaultConfig))\<rparr>\<rparr>,
        AdminOf := (AdminOf zero_config)\<lparr>StoreConsolePassword := StoreConsolePassword (AdminOf DefaultConfig)\<rparr>,
        RebootOf := (RebootOf zero_config)\<lparr>RebootEnabled := RebootEnabled (RebootOf DefaultConfig)\<rparr>\<rparr>,
      Project = ''''\<rparr>"

definition LoadPartialBytes :: "yaml_codec \<Rightarrow> string option \<Rightarrow> string \<Rightarrow> (config_error, Config) result" where
  "LoadPartialBytes yaml home body =
     (case Decode yaml decode_base body of Inl e \<Rightarrow> Inl (DecodeFailed e)
      | Inr f \<Rightarrow>
          bindR (migrateLegacyConfig (FileConfig f)) (\<lambda>cfg.
            (case validateNamespaceIdentity (ConfigNamespace cfg) (Project f) of Some e \<Rightarrow> Inl e
             | None \<Rightarrow>
                 Inr (applyDefaults home
                   (if ConfigNamespace cfg = '''' then cfg\<lparr>ConfigNamespace := Project f\<rparr> else cfg)))))"

text \<open>Reading the file: an error, no file, or its bytes.\<close>

type_synonym read_file = "(string, string option) result"

definition LoadPartialConfig :: "yaml_codec \<Rightarrow> string option \<Rightarrow> read_file \<Rightarrow> (config_error, Config) result" where
  "LoadPartialConfig yaml home rd =
     (case rd of Inl e \<Rightarrow> Inl (ReadFailed e) | Inr None \<Rightarrow> Inl NotExist
      | Inr (Some body) \<Rightarrow> LoadPartialBytes yaml home body)"

definition LoadConfig :: "yaml_codec \<Rightarrow> (string \<Rightarrow> int option) \<Rightarrow> string option \<Rightarrow> read_file \<Rightarrow> (config_error, Config) result" where
  "LoadConfig yaml pd home rd =
     bindR (LoadPartialConfig yaml home rd) (\<lambda>cfg.
       (case ValidateConfig pd cfg of Some e \<Rightarrow> Inl e | None \<Rightarrow> Inr cfg))"

text \<open>
  The writers: the error and the bytes the file has afterwards. \<open>wr\<close> is the error of the atomic
  write, which then leaves the file as it was.
\<close>

definition saved_config :: "string option \<Rightarrow> Config \<Rightarrow> Config" where
  "saved_config home cfg = (applyDefaults home cfg)\<lparr>ConfigSchema := ConfigSchemaVersionCurrent\<rparr>"

definition saveConfigUnlocked ::
  "yaml_codec \<Rightarrow> string option \<Rightarrow> string option \<Rightarrow> Config \<Rightarrow> string option \<Rightarrow> config_error option \<times> string option" where
  "saveConfigUnlocked yaml home wr cfg old =
     (case Marshal yaml (saved_config home cfg) of Inl e \<Rightarrow> (Some (EncodeFailed e), old)
      | Inr body \<Rightarrow> (case wr of Some e \<Rightarrow> (Some (WriteFailed e), old) | None \<Rightarrow> (None, Some body)))"

definition UpdateConfig ::
  "yaml_codec \<Rightarrow> string option \<Rightarrow> string option \<Rightarrow> (Config \<Rightarrow> (string, Config) result) \<Rightarrow> string option
     \<Rightarrow> config_error option \<times> string option" where
  "UpdateConfig yaml home wr mutate old =
     (case old of None \<Rightarrow> (Some NotExist, old)
      | Some body \<Rightarrow> (case LoadPartialBytes yaml home body of Inl e \<Rightarrow> (Some e, old)
          | Inr cfg \<Rightarrow> (case mutate cfg of Inl e \<Rightarrow> (Some (MutateFailed e), old)
              | Inr cfg' \<Rightarrow> saveConfigUnlocked yaml home wr cfg' old)))"

text \<open>\<open>expected\<close> is \<open>None\<close> when the caller saw no file.\<close>

definition SaveIfUnchanged ::
  "yaml_codec \<Rightarrow> string option \<Rightarrow> string option \<Rightarrow> Config \<Rightarrow> string option \<Rightarrow> string option
     \<Rightarrow> config_error option \<times> string option" where
  "SaveIfUnchanged yaml home wr cfg expected current =
     (if (current \<noteq> None) \<noteq> (expected \<noteq> None) \<or> current \<noteq> None \<and> current \<noteq> expected
      then (Some ErrSourceChanged, current)
      else saveConfigUnlocked yaml home wr cfg current)"


section \<open>Defaults are a projection\<close>

text \<open>The same defaults, one function per section of the config.\<close>

definition server_part :: "string \<Rightarrow> string" where
  "server_part s = (if s = '''' then Default else s)"

definition credential_part :: "string option \<Rightarrow> string \<Rightarrow> string \<Rightarrow> ConfigCredentials \<Rightarrow> ConfigCredentials" where
  "credential_part home ns sv k =
     (if JSONPath k = '''' \<or> JSONPath k = defaultCredentialsJSONPath then \<lparr>JSONPath = ServerCredentialsPath home ns sv\<rparr> else k)"

definition compute_part :: "string \<Rightarrow> string \<Rightarrow> ConfigCompute \<Rightarrow> ConfigCompute" where
  "compute_part ns sv k =
     k\<lparr>ComputeName := (if ComputeName k = '''' then ServerResourceName ns sv else ComputeName k),
       ComputeLabels := Some (ConfigLabels ns sv (case ComputeLabels k of None \<Rightarrow> [(''managed-by'', ''serverpro'')] | Some l \<Rightarrow> l))\<rparr>"

definition network_part :: "Network \<Rightarrow> Network" where
  "network_part n =
     n\<lparr>IngressKind := (if IngressKind n = '''' then ''none'' else IngressKind n),
       NetworkEgress := (NetworkEgress n)\<lparr>EgressMode :=
         (if EgressMode (NetworkEgress n) = '''' then EgressModeRestricted else EgressMode (NetworkEgress n))\<rparr>\<rparr>"

definition access_part :: "string \<Rightarrow> Access \<Rightarrow> Access" where
  "access_part ns a =
     a\<lparr>AccessTailscale := tailscale_defaults ns (AccessTailscale a),
       OpenSSH := (if OpenSSH a = '''' then OpenSSHDisabled else OpenSSH a)\<rparr>"

definition cloudflare_part :: "string \<Rightarrow> Cloudflare \<Rightarrow> Cloudflare" where
  "cloudflare_part name f =
     (let t = CloudflareTunnelConfig f in
      if TunnelName t = '''' \<and> name \<noteq> '''' then f\<lparr>CloudflareTunnelConfig := t\<lparr>TunnelName := name\<rparr>\<rparr> else f)"

definition hardening_part :: "Hardening \<Rightarrow> Hardening" where
  "hardening_part h = (if Profile h = '''' then HardeningOf DefaultConfig else h)"

definition reboot_part :: "Reboot \<Rightarrow> Reboot" where
  "reboot_part r =
     r\<lparr>Window := (if Window r = '''' then DefaultRebootWindow else Window r),
       VerifyTimeout := (if VerifyTimeout r = '''' then DefaultRebootVerifyTimeout else VerifyTimeout r)\<rparr>"

lemmas default_parts = server_part_def credential_part_def compute_part_def network_part_def access_part_def
  cloudflare_part_def hardening_part_def reboot_part_def

lemma server_step: "applyServerDefaults c = c\<lparr>ConfigServer := server_part (ConfigServer c)\<rparr>"
  by (simp add: applyServerDefaults_def server_part_def DefaultConfig_def)

lemma credential_step: "applyCredentialDefaults home c =
    c\<lparr>CredentialsOf := credential_part home (ConfigNamespace c) (ConfigServer c) (CredentialsOf c)\<rparr>"
  by (simp add: applyCredentialDefaults_def credential_part_def)

lemma compute_step: "applyComputeDefaults c = c\<lparr>ComputeOf := compute_part (ConfigNamespace c) (ConfigServer c) (ComputeOf c)\<rparr>"
  by (cases "ComputeLabels (ComputeOf c)")
    (simp_all add: applyComputeDefaults_def compute_part_def Let_def labels_of_def DefaultConfig_def)

lemma network_step: "applyNetworkDefaults c = c\<lparr>NetworkOf := network_part (NetworkOf c)\<rparr>"
  by (simp add: applyNetworkDefaults_def network_part_def Let_def DefaultConfig_def)

lemma access_step: "applyAccessDefaults c = c\<lparr>AccessOf := access_part (ConfigNamespace c) (AccessOf c)\<rparr>"
  by (simp add: applyAccessDefaults_def access_part_def Let_def DefaultConfig_def)

lemma cloudflare_step:
  "applyCloudflareDefaults c = c\<lparr>CloudflareOf := cloudflare_part (ComputeName (ComputeOf c)) (CloudflareOf c)\<rparr>"
  by (simp add: applyCloudflareDefaults_def cloudflare_part_def Let_def)

lemma hardening_step: "applyHardeningDefaults c = c\<lparr>HardeningOf := hardening_part (HardeningOf c)\<rparr>"
  by (simp add: applyHardeningDefaults_def hardening_part_def)

lemma reboot_step: "applyRebootDefaults c = c\<lparr>RebootOf := reboot_part (RebootOf c)\<rparr>"
  by (simp add: applyRebootDefaults_def reboot_part_def Let_def)

lemmas default_steps = server_step credential_step compute_step network_step access_step cloudflare_step
  hardening_step reboot_step

lemma applyDefaults_parts:
  "applyDefaults home c =
     (let ns = ConfigNamespace c; sv = server_part (ConfigServer c); k = compute_part ns sv (ComputeOf c)
      in c\<lparr>ConfigServer := sv, CredentialsOf := credential_part home ns sv (CredentialsOf c), ComputeOf := k,
           NetworkOf := network_part (NetworkOf c), AccessOf := access_part ns (AccessOf c),
           CloudflareOf := cloudflare_part (ComputeName k) (CloudflareOf c),
           HardeningOf := hardening_part (HardeningOf c), RebootOf := reboot_part (RebootOf c)\<rparr>)"
  by (simp add: applyDefaults_def default_steps Let_def)

lemma put_same: "gm_get m k = Some v \<Longrightarrow> gm_put k v m = m"
  unfolding gm_put_def by (induction m) (auto split: if_splits)

lemma del_absent: "gm_get m k = None \<Longrightarrow> gm_del k m = m"
  unfolding gm_del_def by (induction m) (auto split: if_splits)

lemma ConfigLabels_wf: "gm_wf (ConfigLabels ns sv l)"
  by (simp add: ConfigLabels_def Let_def)

lemma ConfigLabels_fix:
  assumes "copyLabels m = m" "gm_get m ''project'' = None" "gm_get m ''server'' = None"
    "gm_get m ManagedByKey = Some ManagedByValue"
    "ns = '''' \<or> gm_get m NamespaceKey = Some ns" "sv = '''' \<or> gm_get m ServerKey = Some sv"
  shows "ConfigLabels ns sv m = m"
  using assms by (auto simp: ConfigLabels_def Let_def del_absent put_same)

lemma ConfigLabels_idem: "ConfigLabels ns sv (ConfigLabels ns sv l) = ConfigLabels ns sv l"
proof (rule ConfigLabels_fix)
  have legacy: "ManagedByKey \<noteq> ''project''" "ManagedByKey \<noteq> ''server''" "NamespaceKey \<noteq> ''project''"
    "NamespaceKey \<noteq> ''server''" "ServerKey \<noteq> ''project''" "ServerKey \<noteq> ''server''"
    by (simp_all add: key_defs)
  show "copyLabels (ConfigLabels ns sv l) = ConfigLabels ns sv l"
    unfolding copyLabels_def using ConfigLabels_wf by (rule gm_copy_id)
  show "gm_get (ConfigLabels ns sv l) ''project'' = None" "gm_get (ConfigLabels ns sv l) ''server'' = None"
    "gm_get (ConfigLabels ns sv l) ManagedByKey = Some ManagedByValue"
    using legacy by (auto simp: ConfigLabels_def Let_def)
  show "ns = '''' \<or> gm_get (ConfigLabels ns sv l) NamespaceKey = Some ns"
    "sv = '''' \<or> gm_get (ConfigLabels ns sv l) ServerKey = Some sv"
    by (simp_all add: ConfigLabels_def Let_def)
qed

lemma resource_name_not_empty: "ServerResourceName ns sv \<noteq> ''''"
  by (simp add: ServerResourceName_def Let_def)

definition tag_part :: "string \<Rightarrow> string list \<Rightarrow> string list" where
  "tag_part ns tags = (if ns \<noteq> '''' \<and> hasDefaultTailscaleTags tags then [NamespaceTailscaleTag ns] else tags)"

definition untouched :: "Tailscale \<Rightarrow> bool" where
  "untouched t \<longleftrightarrow> \<not> TailscaleEnabled t \<and> \<not> TailscaleSSH t \<and> Tags t = []"

lemma tailscale_defaults_parts:
  "tailscale_defaults ns t =
     (let u = (if untouched t then tailscale_of DefaultConfig else t)
      in u\<lparr>Tags := tag_part ns (Tags u), Tailnet := (if Tailnet u = '''' then TokenDefaultTailnet else Tailnet u),
           RootPolicy := (if RootPolicy u = '''' then ''check-or-disabled'' else RootPolicy u)\<rparr>)"
proof -
  have d: "Tailnet (tailscale_of DefaultConfig) = TokenDefaultTailnet" "RootPolicy (tailscale_of DefaultConfig) = ''check-or-disabled''"
    by (simp_all add: DefaultConfig_def)
  show ?thesis unfolding tailscale_defaults_def Let_def untouched_def d by (simp add: tag_part_def)
qed

lemma tailscale_defaults_idem: "tailscale_defaults ns (tailscale_defaults ns t) = tailscale_defaults ns t"
proof -
  have tags: "tag_part ns (tag_part ns x) = tag_part ns x" "(tag_part ns x = []) = (x = [] \<and> ns = '''')" for x
    by (auto simp: tag_part_def hasDefaultTailscaleTags_def)
  have on: "\<not> untouched ((tailscale_of DefaultConfig)\<lparr>Tags := a, Tailnet := b, RootPolicy := r\<rparr>)" for a b r
    by (simp add: untouched_def DefaultConfig_def)
  have off: "\<not> untouched (t\<lparr>Tags := tag_part ns (Tags t), Tailnet := b, RootPolicy := r\<rparr>)" if "\<not> untouched t" for b r
    using that by (auto simp: untouched_def tags)
  show ?thesis
    by (cases "untouched t") (simp_all add: tailscale_defaults_parts Let_def on off tags TokenDefaultTailnet_def)
qed

lemma part_idem:
  "server_part (server_part s) = server_part s"
  "credential_part home ns sv (credential_part home ns sv k) = credential_part home ns sv k"
  "compute_part ns sv (compute_part ns sv kk) = compute_part ns sv kk"
  "network_part (network_part n) = network_part n"
  "access_part ns (access_part ns a) = access_part ns a"
  "cloudflare_part name (cloudflare_part name f) = cloudflare_part name f"
  "hardening_part (hardening_part h) = hardening_part h"
  "reboot_part (reboot_part r) = reboot_part r"
  by (simp_all add: default_parts Default_def ConfigLabels_idem resource_name_not_empty tailscale_defaults_idem
    Let_def config_constants DefaultRebootWindow_def DefaultRebootVerifyTimeout_def DefaultConfig_def)

lemma applyDefaults_idem: "applyDefaults home (applyDefaults home c) = applyDefaults home c"
  by (simp add: applyDefaults_parts Let_def part_idem)

lemma saved_config_idem: "saved_config home (saved_config home c) = saved_config home c"
  by (simp add: saved_config_def applyDefaults_parts Let_def part_idem)

lemma load_saved_config:
  assumes "Decode yaml decode_base body = Inr \<lparr>FileConfig = saved_config home cfg, Project = ''''\<rparr>"
  shows "LoadPartialBytes yaml home body = Inr (saved_config home cfg)"
proof -
  let ?c = "saved_config home cfg"
  have schema: "ConfigSchema ?c = ConfigSchemaVersionCurrent" by (simp add: saved_config_def)
  have "migrateLegacyConfig ?c = Inr ?c"
    unfolding migrateLegacyConfig_def schema by (simp add: ConfigSchemaVersionLegacy_def ConfigSchemaVersionCurrent_def)
  moreover have "applyDefaults home ?c = ?c"
    by (simp add: saved_config_def applyDefaults_parts Let_def part_idem)
  moreover have "(if ConfigNamespace c = '''' then c\<lparr>ConfigNamespace := ''''\<rparr> else c) = c" for c :: Config
    by (cases c) simp
  ultimately show ?thesis
    by (simp only: LoadPartialBytes_def assms sum.case bindR_simps configFile.simps validateNamespaceIdentity_def) simp
qed


text \<open>
  What is saved is what is loaded: writing a config applies the defaults and the schema stamp, and
  reading the file back gives exactly that config, unchanged by the defaults, the legacy migration and
  the project check of the reader. A second save changes nothing.
\<close>

theorem config_save_load:
  assumes "Marshal yaml (saved_config home cfg) = Inr body"
    and "Decode yaml decode_base body = Inr \<lparr>FileConfig = saved_config home cfg, Project = ''''\<rparr>"
  shows "saveConfigUnlocked yaml home None cfg old = (None, Some body)
    \<and> LoadPartialConfig yaml home (Inr (Some body)) = Inr (saved_config home cfg)
    \<and> saveConfigUnlocked yaml home None (saved_config home cfg) (Some body) = (None, Some body)"
  using assms by (simp add: saveConfigUnlocked_def LoadPartialConfig_def load_saved_config saved_config_idem)

definition sample_config :: Config where
  "sample_config = ExampleServer (Some ''/home/op'') ''prod'' ''web''"

definition sample_codec :: yaml_codec where
  "sample_codec =
     \<lparr>Decode = (\<lambda>base body. if body = ''yaml'' then Inr \<lparr>FileConfig = saved_config (Some ''/home/op'') sample_config, Project = ''''\<rparr>
               else Inl ''yaml''),
      Marshal = (\<lambda>c. Inr ''yaml'')\<rparr>"

lemma config_save_load_witness:
  "LoadPartialConfig sample_codec (Some ''/home/op'') (Inr (Some ''yaml''))
     = Inr (saved_config (Some ''/home/op'') sample_config)"
  using config_save_load [of sample_codec "Some ''/home/op''" sample_config "''yaml''"]
  by (simp add: sample_codec_def)

text \<open>
  Publication under the config lock never overwrites a file another writer replaced: the file
  changes only when it still is the one the caller read, and every error leaves it as it was.
\<close>

theorem save_if_unchanged_guarded:
  assumes "SaveIfUnchanged yaml home wr cfg expected current = (err, new)"
  shows "if err = None then current = expected \<and> (\<exists>body. Marshal yaml (saved_config home cfg) = Inr body \<and> new = Some body)
    else new = current \<and> (current \<noteq> expected \<longrightarrow> err = Some ErrSourceChanged)"
  using assms
  by (cases current; cases expected)
    (auto simp: SaveIfUnchanged_def saveConfigUnlocked_def split: if_splits sum.splits option.splits)

lemma save_if_unchanged_guarded_witness:
  "SaveIfUnchanged sample_codec (Some ''/home/op'') None sample_config (Some ''old'') (Some ''newer'')
     = (Some ErrSourceChanged, Some ''newer'')"
proof -
  obtain err new where r: "SaveIfUnchanged sample_codec (Some ''/home/op'') None sample_config (Some ''old'') (Some ''newer'') = (err, new)"
    by fastforce
  with save_if_unchanged_guarded [OF r] show ?thesis by (auto split: if_splits)
qed


end
