(* ===== verification/Config_Policy.thy ===== *)
theory Config_Policy
  imports Config_Model Policy_Client
begin

text \<open>
  From the configuration to the tailnet policy: what \<open>Config.Validate\<close> guarantees to the policy
  client that create, ssh-policy and doctor run with the values of the config.
\<close>

lemma check_ssh_tags_None:
  "check_ssh_tags seen tags xs = None \<longleftrightarrow> set xs \<subseteq> set tags \<and> distinct xs \<and> set xs \<inter> set seen = {}"
  by (induction xs arbitrary: seen) auto

lemma validated_parts:
  assumes "ValidateConfig pd c = None"
  shows "validateRequired c = None" "validateResourceNames c = None" "validateNamespaceScopes c = None"
    "validateTailscaleAutomation c = None" "validateMVPConstraints c = None" "validateAdminUsername c = None"
    "validateGit c = None" "validateReboot pd c = None"
  using assms by (simp_all add: ValidateConfig_def split: option.splits)

lemma validated_scopes:
  assumes "validateNamespaceScopes c = None"
  shows "list_all validTailscaleTag (Tags (tailscale_of c))" "NamespaceTailscaleTag (ConfigNamespace c) \<in> set (Tags (tailscale_of c))"
    "set (SSHTags (tailscale_of c)) \<subseteq> set (Tags (tailscale_of c))" "distinct (SSHTags (tailscale_of c))"
  using assms
  by (auto simp: validateNamespaceScopes_def validateSSHTags_def check_ssh_tags_None find_None_iff list_all_iff
      tailscaleTagsScopedToNamespace_def list_ex_iff split: if_splits option.splits ssh_tags_error.splits)

lemma validated_automation:
  assumes "validateTailscaleAutomation c = None"
  shows "AutomationSourceTag \<notin> set (Tags (tailscale_of c))"
    "AutomationEnabled (Automation (tailscale_of c)) \<Longrightarrow> Username (AdminOf c) \<noteq> RootSSHUser
       \<and> safeProxyCommandPath (Socket (Automation (tailscale_of c))) \<and> safeProxyCommandPath (CLI (Automation (tailscale_of c)))"
    "HumanSSHAction (tailscale_of c) = SSHActionCheck \<or> HumanSSHAction (tailscale_of c) = SSHActionAccept \<and> Username (AdminOf c) \<noteq> RootSSHUser"
  using assms
  by (auto simp: validateTailscaleAutomation_def validateHumanSSH_def HumanSSHAction_def Let_def
      split: if_splits option.splits)

lemma char_code: "(of_char c :: nat) = of_char d \<longleftrightarrow> c = d"
  by (metis char_of_char)

lemma safe_path_chars:
  "safeProxyCommandPath p \<Longrightarrow> IsAbs p \<and> list_all (\<lambda>c. isASCIIAlnum (of_char c) \<or> c \<in> {CHR ''/'', CHR ''.'', CHR ''_'', CHR ''-''}) p"
proof -
  assume a: "safeProxyCommandPath p"
  then have "\<forall>r \<in> set (go_runes p). isASCIIAlnum r \<or> r = 47 \<or> r = 46 \<or> r = 95 \<or> r = 45"
    by (auto simp: safeProxyCommandPath_def list_all_iff split: if_splits)
  then have "\<forall>c \<in> set p. isASCIIAlnum (of_char c) \<or> of_char c = (47 :: nat) \<or> of_char c = (46 :: nat) \<or> of_char c = (95 :: nat) \<or> of_char c = (45 :: nat)"
    by (subst (asm) go_runes_all_ascii) (auto simp: char_classes)
  moreover have "(of_char c = (47 :: nat)) = (c = CHR ''/'')" "(of_char c = (46 :: nat)) = (c = CHR ''.'')"
    "(of_char c = (95 :: nat)) = (c = CHR ''_'')" "(of_char c = (45 :: nat)) = (c = CHR ''-'')" for c
    using char_code [of c "CHR ''/''"] char_code [of c "CHR ''.''"] char_code [of c "CHR ''_''"] char_code [of c "CHR ''-''"]
    by simp_all
  ultimately show ?thesis using a by (auto simp: safeProxyCommandPath_def list_all_iff split: if_splits)
qed

text \<open>
  C37. A validated config can be written as a tailnet policy safely: the policy client refuses none of
  its values, its rules reach only tags the server itself carries, the namespace's own tag among them
  and never the automation source, root is not the user of any rule without a browser login, public SSH
  is off, and the automation paths that a shell parses hold only plain path characters.
\<close>

theorem validated_config_policy_safe:
  assumes "ValidateConfig pd c = None"
  shows "ensure_refusal (Username (AdminOf c)) (RootPolicy (tailscale_of c)) (AutomationSource (tailscale_of c)) (HumanSSHAction (tailscale_of c)) = None
    \<and> SSHRuleTags (tailscale_of c) \<noteq> [] \<and> set (SSHRuleTags (tailscale_of c)) \<subseteq> set (Tags (tailscale_of c)) \<and> list_all validTailscaleTag (Tags (tailscale_of c))
    \<and> NamespaceTailscaleTag (ConfigNamespace c) \<in> set (Tags (tailscale_of c)) \<and> AutomationSourceTag \<notin> set (Tags (tailscale_of c))
    \<and> (Username (AdminOf c) = RootSSHUser \<longrightarrow> AutomationSource (tailscale_of c) = '''' \<and> HumanSSHAction (tailscale_of c) = SSHActionCheck)
    \<and> \<not> PublicSSH (AccessOf c)
    \<and> (AutomationSource (tailscale_of c) \<noteq> '''' \<longrightarrow> list_all (\<lambda>p. IsAbs p \<and> list_all
         (\<lambda>c. isASCIIAlnum (of_char c) \<or> c \<in> {CHR ''/'', CHR ''.'', CHR ''_'', CHR ''-''}) p)
         [Socket (Automation (tailscale_of c)), CLI (Automation (tailscale_of c))])"
proof -
  note parts = validated_parts [OF assms]
  note sc = validated_scopes [OF parts(3)] and au = validated_automation [OF parts(4)]
  have rp: "RootPolicy (tailscale_of c) = ''check-or-disabled''" and pub: "\<not> PublicSSH (AccessOf c)"
    using parts(5) by (auto simp: validateMVPConstraints_def Let_def split: if_splits)
  have tags: "SSHRuleTags (tailscale_of c) \<noteq> []" "set (SSHRuleTags (tailscale_of c)) \<subseteq> set (Tags (tailscale_of c))"
    using sc by (auto simp: SSHRuleTags_def)
  have src: "AutomationSource (tailscale_of c) \<noteq> '''' \<longleftrightarrow> AutomationEnabled (Automation (tailscale_of c))"
    "AutomationSource (tailscale_of c) = '''' \<or> AutomationSource (tailscale_of c) = AutomationSourceTag"
    by (simp_all add: AutomationSource_def AutomationSourceTag_def)
  have ca: "SSHActionCheck \<noteq> SSHActionAccept" by (simp add: mesh_constants)
  have refusal: "ensure_refusal (Username (AdminOf c)) (RootPolicy (tailscale_of c)) (AutomationSource (tailscale_of c))
      (HumanSSHAction (tailscale_of c)) = None"
    using au(2,3) rp src ca by (auto simp: ensure_refusal_def)
  have root: "Username (AdminOf c) = RootSSHUser \<longrightarrow> AutomationSource (tailscale_of c) = '''' \<and> HumanSSHAction (tailscale_of c) = SSHActionCheck"
    using au(2,3) src by auto
  have paths: "AutomationSource (tailscale_of c) \<noteq> '''' \<longrightarrow> list_all (\<lambda>p. IsAbs p \<and> list_all
      (\<lambda>c. isASCIIAlnum (of_char c) \<or> c \<in> {CHR ''/'', CHR ''.'', CHR ''_'', CHR ''-''}) p)
      [Socket (Automation (tailscale_of c)), CLI (Automation (tailscale_of c))]"
    using au(2) src safe_path_chars [of "Socket (Automation (tailscale_of c))"] safe_path_chars [of "CLI (Automation (tailscale_of c))"]
    by simp
  show ?thesis
    by (intro conjI refusal tags sc(1,2) au(1) root pub paths)
qed

definition automated_config :: Config where
  "automated_config = (let c = ExampleServer (Some ''/home/op'') ''prod'' ''web'' in
     c\<lparr>AccessOf := (AccessOf c)\<lparr>AccessTailscale := (tailscale_of c)
       \<lparr>Automation := \<lparr>AutomationEnabled = True, Socket = ''/run/ts.sock'', CLI = ''/usr/bin/tailscale''\<rparr>\<rparr>\<rparr>\<rparr>)"

definition ten_minutes :: "string \<Rightarrow> int option" where
  "ten_minutes s = (if s = ''10m'' then Some 600000000000 else None)"

lemma automated_config_valid: "ValidateConfig ten_minutes automated_config = None"
  by code_simp

lemma validated_config_policy_safe_witness:
  "ensure_refusal (Username (AdminOf automated_config)) (RootPolicy (tailscale_of automated_config))
     (AutomationSource (tailscale_of automated_config)) (HumanSSHAction (tailscale_of automated_config)) = None"
  using validated_config_policy_safe [OF automated_config_valid] by blast

end
