(* ===== verification/Private_File.thy ===== *)
theory Private_File
  imports Go_Paths
begin

text \<open>
  Private files (internal/privatefile/privatefile.go): the atomic write that every state, registry,
  config and credentials file goes through, on a directory that can lose power at any moment, and the
  guards that keep a path inside the program's own directory and off symbolic links.

  The directory has two views, the entries the running system sees and those on disk; an inode
  knows whether its data was synced. After a power loss an entry is the one or the other, and data that
  was not synced can be anything.
\<close>

section \<open>A directory that can lose power\<close>

record inode =
  Data :: string
  Mode :: nat
  Synced :: bool

record fs =
  Entries :: "string \<Rightarrow> nat option"
  OnDisk :: "string \<Rightarrow> nat option"
  Inodes :: "nat \<Rightarrow> inode"

definition read_now :: "fs \<Rightarrow> string \<Rightarrow> string option" where
  "read_now s p = map_option (\<lambda>i. Data (Inodes s i)) (Entries s p)"

text \<open>What a reader can find at \<open>p\<close> after a power loss in \<open>s\<close>.\<close>

definition after_crash :: "fs \<Rightarrow> string \<Rightarrow> string option \<Rightarrow> bool" where
  "after_crash s p content \<longleftrightarrow>
     (\<exists>entry \<in> {Entries s p, OnDisk s p}.
        case entry of None \<Rightarrow> content = None
        | Some i \<Rightarrow> (\<exists>d. content = Some d \<and> (Synced (Inodes s i) \<longrightarrow> d = Data (Inodes s i))))"

text \<open>The file at \<open>p\<close> has nothing left to sync.\<close>

definition settled :: "fs \<Rightarrow> string \<Rightarrow> bool" where
  "settled s p \<longleftrightarrow> Entries s p = OnDisk s p \<and> (\<forall>i. Entries s p = Some i \<longrightarrow> Synced (Inodes s i))"

section \<open>The atomic write\<close>

record WriteOptions =
  FileMode :: nat
  DirMode :: nat
  TempPattern :: string
  Sync :: bool

definition DefaultFileMode :: nat where "DefaultFileMode = 0x180"   \<comment> \<open>\<open>0o600\<close>\<close>
definition DefaultDirMode :: nat where "DefaultDirMode = 0x1C0"   \<comment> \<open>\<open>0o700\<close>\<close>

datatype syscall =
    MkdirAll | ChmodDir | CreateTemp | ChmodTemp | WriteTemp | SyncTemp | CloseTemp | BeforeRename | Rename
  | RemoveTemp | OpenDir | SyncDir | CloseDir

text \<open>
  What the system answers: the error of each call, the name and the inode of the temporary file, and
  how much of the body a failing write has put into it.
\<close>

record answers =
  Fails :: "syscall \<Rightarrow> string option"
  TempName :: string
  TempInode :: nat
  Partial :: string

definition file_mode :: "WriteOptions \<Rightarrow> nat" where
  "file_mode opt = (if FileMode opt = 0 then DefaultFileMode else FileMode opt)"

definition set_inode :: "nat \<Rightarrow> inode \<Rightarrow> fs \<Rightarrow> fs" where
  "set_inode i n s = s\<lparr>Inodes := (Inodes s)(i := n)\<rparr>"

definition create_temp :: "answers \<Rightarrow> fs \<Rightarrow> fs" where
  "create_temp a s =
     (set_inode (TempInode a) \<lparr>Data = '''', Mode = DefaultFileMode, Synced = False\<rparr> s)
       \<lparr>Entries := (Entries s)(TempName a := Some (TempInode a))\<rparr>"

definition chmod_temp :: "answers \<Rightarrow> nat \<Rightarrow> fs \<Rightarrow> fs" where
  "chmod_temp a m s = set_inode (TempInode a) ((Inodes s (TempInode a))\<lparr>Mode := m\<rparr>) s"

definition write_temp :: "answers \<Rightarrow> string \<Rightarrow> fs \<Rightarrow> fs" where
  "write_temp a body s = set_inode (TempInode a) ((Inodes s (TempInode a))\<lparr>Data := body\<rparr>) s"

definition sync_temp :: "answers \<Rightarrow> fs \<Rightarrow> fs" where
  "sync_temp a s = set_inode (TempInode a) ((Inodes s (TempInode a))\<lparr>Synced := True\<rparr>) s"

definition rename_temp :: "answers \<Rightarrow> string \<Rightarrow> fs \<Rightarrow> fs" where
  "rename_temp a path s = s\<lparr>Entries := (Entries s)(path := Entries s (TempName a), TempName a := None)\<rparr>"

definition sync_dir :: "fs \<Rightarrow> fs" where
  "sync_dir s = s\<lparr>OnDisk := Entries s\<rparr>"

text \<open>The deferred \<open>os.Remove\<close> of the temporary file.\<close>

definition remove_temp :: "answers \<Rightarrow> fs \<Rightarrow> fs" where
  "remove_temp a s = (case Fails a RemoveTemp of Some _ \<Rightarrow> s | None \<Rightarrow> s\<lparr>Entries := (Entries s)(TempName a := None)\<rparr>)"

text \<open>\<open>syncDirectory\<close>: the error, and the state after it.\<close>

definition syncDirectory :: "answers \<Rightarrow> fs \<Rightarrow> string option \<times> fs" where
  "syncDirectory a s =
     (case Fails a OpenDir of Some e \<Rightarrow> (Some e, s)
      | None \<Rightarrow> (case Fails a SyncDir of Some e \<Rightarrow> (Some e, s)
          | None \<Rightarrow> (Fails a CloseDir, sync_dir s)))"

text \<open>
  \<open>AtomicWrite\<close>: the error it returns and every state the directory goes through, the last one
  the state on return.
\<close>

definition AtomicWrite :: "answers \<Rightarrow> string \<Rightarrow> string \<Rightarrow> WriteOptions \<Rightarrow> fs \<Rightarrow> string option \<times> fs list" where
  "AtomicWrite a path body opt s0 =
     (case Fails a MkdirAll of Some e \<Rightarrow> (Some e, [s0]) | None \<Rightarrow>
     (case Fails a ChmodDir of Some e \<Rightarrow> (Some e, [s0]) | None \<Rightarrow>
     (case Fails a CreateTemp of Some e \<Rightarrow> (Some e, [s0]) | None \<Rightarrow>
      let s1 = create_temp a s0 in
     (case Fails a ChmodTemp of Some e \<Rightarrow> (Some e, [s0, s1, remove_temp a s1]) | None \<Rightarrow>
      let s2 = chmod_temp a (file_mode opt) s1 in
     (case Fails a WriteTemp of
        Some e \<Rightarrow> (let w = write_temp a (Partial a) s2 in (Some e, [s0, s1, s2, w, remove_temp a w])) | None \<Rightarrow>
      let s3 = write_temp a body s2 in
     (case (if Sync opt then Fails a SyncTemp else None) of
        Some e \<Rightarrow> (Some e, [s0, s1, s2, s3, remove_temp a s3]) | None \<Rightarrow>
      let s4 = (if Sync opt then sync_temp a s3 else s3) in
     (case Fails a CloseTemp of Some e \<Rightarrow> (Some e, [s0, s1, s2, s3, s4, remove_temp a s4]) | None \<Rightarrow>
     (case Fails a BeforeRename of Some e \<Rightarrow> (Some e, [s0, s1, s2, s3, s4, remove_temp a s4]) | None \<Rightarrow>
     (case Fails a Rename of Some e \<Rightarrow> (Some e, [s0, s1, s2, s3, s4, remove_temp a s4]) | None \<Rightarrow>
      let s5 = rename_temp a path s4 in
      if \<not> Sync opt then (None, [s0, s1, s2, s3, s4, s5, remove_temp a s5])
      else (case syncDirectory a s5 of (e, s6) \<Rightarrow>
        (e, [s0, s1, s2, s3, s4, s5, s6, remove_temp a s6])))))))))))"

section \<open>Path guards\<close>

datatype path_error =
    NotAbsolute string | OutsideRoot string | OutsideHome string | LstatFailed string | SymlinkPath string
  | DirUnverified string | DirSymlink string | DirAccessible string

text \<open>\<open>cwd\<close> is the working directory.\<close>

definition under :: "string option \<Rightarrow> bool" where
  "under rel = (case rel of None \<Rightarrow> False
     | Some r \<Rightarrow> \<not> (r = ''.'' \<or> r = ''..'' \<or> IsAbs r \<or> has_prefix r ''../''))"

definition ResolveUnderRoot :: "string \<Rightarrow> string \<Rightarrow> string \<Rightarrow> (path_error, string) result" where
  "ResolveUnderRoot cwd path root =
     (if \<not> IsAbs path then Inl (NotAbsolute path)
      else (let absPath = Abs cwd path; absRoot = Abs cwd root in
        if \<not> under (Rel absRoot absPath) then Inl (OutsideRoot absPath) else Inr absPath))"

datatype lstat = Missing | StatError string | Symlink | Other nat   \<comment> \<open>with its permission bits\<close>

fun walk_parts :: "(string \<Rightarrow> lstat) \<Rightarrow> string \<Rightarrow> string list \<Rightarrow> path_error option" where
  "walk_parts st current [] = None"
| "walk_parts st current (part # parts) =
     (if part = '''' \<or> part = ''.'' then walk_parts st current parts
      else (let next = Join [current, part] in
        (case st next of
           Missing \<Rightarrow> None
         | StatError e \<Rightarrow> Some (LstatFailed e)
         | Symlink \<Rightarrow> Some (SymlinkPath next)
         | Other _ \<Rightarrow> walk_parts st next parts)))"

definition RejectSymlinkPath :: "string \<Rightarrow> (string \<Rightarrow> lstat) \<Rightarrow> string \<Rightarrow> string \<Rightarrow> path_error option" where
  "RejectSymlinkPath cwd st path home =
     (let absHome = Abs cwd home; absPath = Abs cwd path; rel = Rel absHome absPath in
      if \<not> under rel then Some (OutsideHome absPath)
      else walk_parts st absHome (split_on slash (the rel)))"

definition EnsurePrivateDir :: "(string \<Rightarrow> lstat) \<Rightarrow> string \<Rightarrow> path_error option" where
  "EnsurePrivateDir st path =
     (case st (Dir path) of
        Missing \<Rightarrow> Some (DirUnverified (Dir path))
      | StatError e \<Rightarrow> Some (DirUnverified e)
      | Symlink \<Rightarrow> Some (DirSymlink (Dir path))
      | Other perm \<Rightarrow> if perm mod 64 \<noteq> 0 then Some (DirAccessible (Dir path)) else None)"

section \<open>Facts\<close>

lemmas write_steps = create_temp_def chmod_temp_def write_temp_def sync_temp_def rename_temp_def sync_dir_def
  remove_temp_def set_inode_def

text \<open>The file at \<open>path\<close> is still the old one: the same entries and the same data behind them.\<close>

definition same_file :: "fs \<Rightarrow> fs \<Rightarrow> string \<Rightarrow> bool" where
  "same_file s t path \<longleftrightarrow> Entries t path = Entries s path \<and> OnDisk t path = OnDisk s path
     \<and> (\<forall>i. Entries s path = Some i \<longrightarrow> Inodes t i = Inodes s i)"

lemma same_file_crash:
  assumes "same_file s t path" "settled s path" "after_crash t path c"
  shows "c = read_now s path"
proof (cases "Entries s path")
  case None
  with assms show ?thesis by (auto simp: same_file_def settled_def after_crash_def read_now_def)
next
  case (Some i)
  with assms have "Synced (Inodes s i)" "Inodes t i = Inodes s i" "OnDisk t path = Some i" "Entries t path = Some i"
    by (auto simp: same_file_def settled_def)
  with assms(3) Some show ?thesis by (auto simp: after_crash_def read_now_def)
qed

lemma same_file_read: "same_file s t path \<Longrightarrow> read_now t path = read_now s path"
  by (cases "Entries s path") (auto simp: same_file_def read_now_def)

lemma same_file_refl [simp]: "same_file s s path"
  by (simp add: same_file_def)

definition fresh_temp :: "answers \<Rightarrow> string \<Rightarrow> fs \<Rightarrow> bool" where
  "fresh_temp a path s \<longleftrightarrow> TempName a \<noteq> path \<and> Entries s (TempName a) = None
     \<and> Entries s path \<noteq> Some (TempInode a) \<and> OnDisk s path \<noteq> Some (TempInode a)"

text \<open>Before the rename nothing touches the file.\<close>

lemma before_rename:
  assumes "fresh_temp a path s" "same_file s t path"
  shows "same_file s (create_temp a t) path" "same_file s (chmod_temp a m t) path"
    "same_file s (write_temp a b t) path" "same_file s (sync_temp a t) path" "same_file s (remove_temp a t) path"
  using assms by (auto simp: write_steps same_file_def fresh_temp_def split: option.splits)

definition published :: "answers \<Rightarrow> string \<Rightarrow> inode \<Rightarrow> fs \<Rightarrow> fs \<Rightarrow> bool" where
  "published a path n s t \<longleftrightarrow> Entries t path = Some (TempInode a) \<and> Inodes t (TempInode a) = n \<and> Synced n
     \<and> (OnDisk t path = OnDisk s path \<and> (\<forall>i. OnDisk s path = Some i \<longrightarrow> Inodes t i = Inodes s i)
        \<or> OnDisk t path = Some (TempInode a))"

lemma published_crash:
  assumes "published a path n s t" "settled s path" "after_crash t path c"
  shows "c = read_now s path \<or> c = Some (Data n)"
proof (rule disjCI)
  assume new: "c \<noteq> Some (Data n)"
  have e: "Entries t path = Some (TempInode a)" "Inodes t (TempInode a) = n" "Synced n"
    using assms(1) by (simp_all add: published_def)
  from assms(3) new e obtain entry where entry: "entry = OnDisk t path" "entry \<noteq> Some (TempInode a)"
    and c: "case entry of None \<Rightarrow> c = None | Some i \<Rightarrow> (\<exists>d. c = Some d \<and> (Synced (Inodes t i) \<longrightarrow> d = Data (Inodes t i)))"
    by (auto simp: after_crash_def split: option.splits)
  with assms(1) have "OnDisk t path = OnDisk s path" "\<forall>i. OnDisk s path = Some i \<longrightarrow> Inodes t i = Inodes s i"
    by (auto simp: published_def)
  with assms(2) entry(1) c show "c = read_now s path"
    by (cases "OnDisk s path") (auto simp: settled_def read_now_def)
qed

lemma published_read: "published a path n s t \<Longrightarrow> read_now t path = Some (Data n)"
  by (simp add: published_def read_now_def)

lemma after_rename:
  assumes "fresh_temp a path s" "settled s path" "same_file s t path" "Inodes t (TempInode a) = n" "Synced n"
    "Entries t (TempName a) = Some (TempInode a)"
  shows "published a path n s (rename_temp a path t)"
  using assms by (auto simp: published_def write_steps fresh_temp_def settled_def same_file_def)

lemma after_sync:
  assumes "published a path n s t"
  shows "published a path n s (sync_dir t)" "after_crash (sync_dir t) path c \<Longrightarrow> c = Some (Data n)"
  using assms by (auto simp: published_def write_steps after_crash_def)

lemma after_remove:
  assumes "TempName a \<noteq> path"
  shows "published a path n s t \<Longrightarrow> published a path n s (remove_temp a t)"
    "after_crash (remove_temp a t) path c = after_crash t path c"
  using assms by (auto simp: published_def write_steps after_crash_def split: option.splits)

text \<open>The state from which the rename runs, on the way where nothing failed before it.\<close>

definition ready :: "answers \<Rightarrow> string \<Rightarrow> WriteOptions \<Rightarrow> fs \<Rightarrow> fs" where
  "ready a body opt s = sync_temp a (write_temp a body (chmod_temp a (file_mode opt) (create_temp a s)))"

definition new_inode :: "string \<Rightarrow> WriteOptions \<Rightarrow> inode" where
  "new_inode body opt = \<lparr>Data = body, Mode = file_mode opt, Synced = True\<rparr>"

lemma ready_facts:
  "Inodes (ready a body opt s) (TempInode a) = new_inode body opt"
  "Entries (ready a body opt s) (TempName a) = Some (TempInode a)"
  by (simp_all add: ready_def write_steps new_inode_def)

lemma ready_same: "fresh_temp a path s \<Longrightarrow> same_file s (ready a body opt s) path"
  by (simp add: ready_def before_rename)

definition outcome_ok :: "answers \<Rightarrow> string \<Rightarrow> string \<Rightarrow> WriteOptions \<Rightarrow> fs \<Rightarrow> string option \<Rightarrow> fs list \<Rightarrow> bool" where
  "outcome_ok a path body opt s err trace \<longleftrightarrow>
     (err \<noteq> None \<and> trace \<noteq> [] \<and> list_all (\<lambda>t. same_file s t path) trace)
     \<or> (\<exists>before after. trace = before @ after \<and> after \<noteq> [] \<and> list_all (\<lambda>t. same_file s t path) before
          \<and> list_all (published a path (new_inode body opt) s) after
          \<and> (err = None \<longrightarrow> (\<forall>c. after_crash (last after) path c \<longrightarrow> c = Some body)))"

lemma syncDirectory_outcome:
  assumes "syncDirectory a t = (err, u)"
  shows "u = t \<and> err \<noteq> None \<or> u = sync_dir t"
proof (cases "Fails a OpenDir")
  case None
  then show ?thesis using assms by (cases "Fails a SyncDir") (simp_all add: syncDirectory_def del: not_None_eq, metis option.distinct(1))
next
  case (Some e)
  then have "err = Some e \<and> u = t" using assms by (simp add: syncDirectory_def)
  then show ?thesis by simp
qed

lemma published_trace:
  assumes fresh: "fresh_temp a path s" and settled: "settled s path"
    and tail: "t = rename_temp a path (ready a body opt s)" "syncDirectory a t = (err, u)"
    and same: "list_all (\<lambda>t. same_file s t path) before"
  shows "outcome_ok a path body opt s err (before @ [t, u, remove_temp a u])"
proof -
  have ne: "TempName a \<noteq> path" using fresh by (simp add: fresh_temp_def)
  have t: "published a path (new_inode body opt) s t"
    unfolding tail(1) by (rule after_rename [OF fresh settled ready_same [OF fresh] ready_facts(1) _ ready_facts(2)])
      (simp add: new_inode_def)
  have "u = t \<and> err \<noteq> None \<or> u = sync_dir t"
    using tail(2) by (rule syncDirectory_outcome)
  then show ?thesis
  proof
    assume u: "u = t \<and> err \<noteq> None"
    then show ?thesis unfolding outcome_ok_def using t same after_remove(1) [OF ne t]
      by (intro disjI2 exI [of _ before] exI [of _ "[t, u, remove_temp a u]"]) auto
  next
    assume u: "u = sync_dir t"
    have "\<forall>c. after_crash (remove_temp a u) path c \<longrightarrow> c = Some body"
      using after_sync(2) [OF t] by (auto simp: after_remove(2) [OF ne] u new_inode_def)
    then show ?thesis unfolding outcome_ok_def using t same after_sync(1) [OF t] after_remove(1) [OF ne after_sync(1) [OF t]] u
      by (intro disjI2 exI [of _ before] exI [of _ "[t, u, remove_temp a u]"]) auto
  qed
qed

lemma write_outcome:
  assumes fresh: "fresh_temp a path s" and settled: "settled s path" and sync: "Sync opt"
    and run: "AtomicWrite a path body opt s = (err, trace)"
  shows "outcome_ok a path body opt s err trace"
proof -
  note br = before_rename [OF fresh]
  have failed: "outcome_ok a path body opt s x trs" if "Some e = x" "trs \<noteq> []" "list_all (\<lambda>t. same_file s t path) trs" for e x trs
    using that by (auto simp: outcome_ok_def)
  let ?s1 = "create_temp a s" and ?s2 = "chmod_temp a (file_mode opt) (create_temp a s)"
  let ?s3 = "write_temp a body ?s2"
  have same: "list_all (\<lambda>t. same_file s t path) [s, ?s1, ?s2, ?s3, ready a body opt s]"
    by (simp add: br ready_same [OF fresh])
  obtain e u where sd: "syncDirectory a (rename_temp a path (ready a body opt s)) = (e, u)" by fastforce
  have "outcome_ok a path body opt s e ([s, ?s1, ?s2, ?s3, ready a body opt s]
      @ [rename_temp a path (ready a body opt s), u, remove_temp a u])"
    by (rule published_trace [OF fresh settled refl sd same])
  then show ?thesis
    using run sync sd
    by (simp add: AtomicWrite_def Let_def ready_def [symmetric] split: option.splits) (auto intro!: failed br ready_same [OF fresh])
qed

text \<open>
  C38. A private file is never torn: whatever call of \<open>AtomicWrite\<close> fails and whenever the machine
  loses power during it, a reader finds the old file or the complete new one. After a return without
  error a power loss finds only the new one, with the requested mode; after a return with an error the
  running system sees the old file or the new one.
\<close>

theorem atomic_write_crash_safe:
  assumes "settled s path" "fresh_temp a path s" "Sync opt" "AtomicWrite a path body opt s = (err, trace)"
  shows "list_all (\<lambda>t. \<forall>c. after_crash t path c \<longrightarrow> c = read_now s path \<or> c = Some body) trace
    \<and> (err = None \<longrightarrow> (\<forall>c. after_crash (last trace) path c \<longrightarrow> c = Some body) \<and> read_now (last trace) path = Some body
        \<and> map_option (\<lambda>i. Mode (Inodes (last trace) i)) (Entries (last trace) path) = Some (file_mode opt))
    \<and> (read_now (last trace) path = read_now s path \<or> read_now (last trace) path = Some body)"
proof -
  have same: "after_crash t path c \<Longrightarrow> c = read_now s path" "read_now t path = read_now s path"
    if "same_file s t path" for t c
    by (rule same_file_crash [OF that assms(1)], assumption) (rule same_file_read [OF that])
  have new: "after_crash t path c \<Longrightarrow> c = read_now s path \<or> c = Some body" "read_now t path = Some body"
    "map_option (\<lambda>i. Mode (Inodes t i)) (Entries t path) = Some (file_mode opt)"
    if "published a path (new_inode body opt) s t" for t c
    using published_crash [OF that assms(1)] published_read [OF that] that by (auto simp: new_inode_def published_def)
  have "outcome_ok a path body opt s err trace" by (rule write_outcome [OF assms(2,1,3,4)])
  then consider (old) "err \<noteq> None" "trace \<noteq> []" "list_all (\<lambda>t. same_file s t path) trace"
    | (new) before after where "trace = before @ after" "after \<noteq> []" "list_all (\<lambda>t. same_file s t path) before"
        "list_all (published a path (new_inode body opt) s) after"
        "err = None \<longrightarrow> (\<forall>c. after_crash (last after) path c \<longrightarrow> c = Some body)"
    by (auto simp: outcome_ok_def)
  then show ?thesis
  proof cases
    case old
    then have "same_file s (last trace) path" by (simp add: list_all_iff)
    then have "read_now (last trace) path = read_now s path" by (rule same(2))
    moreover have "\<forall>c. after_crash t path c \<longrightarrow> c = read_now s path" if "t \<in> set trace" for t
      using that old(3) same(1) by (auto simp: list_all_iff)
    ultimately show ?thesis using old(1) unfolding list_all_iff by blast
  next
    case new': new
    then have last: "published a path (new_inode body opt) s (last trace)" "last trace = last after"
      by (simp_all add: list_all_iff)
    have "\<forall>c. after_crash t path c \<longrightarrow> c = read_now s path \<or> c = Some body" if "t \<in> set trace" for t
      using that new'(1,3,4) same(1) new(1) unfolding list_all_iff by (metis Un_iff set_append)
    moreover note new(2,3) [OF last(1)] new'(5)
    ultimately show ?thesis unfolding last(2) list_all_iff by blast
  qed
qed

definition sample_fs :: fs where
  "sample_fs = \<lparr>Entries = [''state.json'' \<mapsto> 1], OnDisk = [''state.json'' \<mapsto> 1],
     Inodes = (\<lambda>_. \<lparr>Data = ''old'', Mode = DefaultFileMode, Synced = True\<rparr>)\<rparr>"

definition sample_answers :: answers where
  "sample_answers = \<lparr>Fails = (\<lambda>c. if c = SyncDir then Some ''io'' else None), TempName = ''.state-1.tmp'', TempInode = 2, Partial = ''''\<rparr>"

definition sample_opt :: WriteOptions where
  "sample_opt = \<lparr>FileMode = 0, DirMode = 0, TempPattern = ''.state-*.tmp'', Sync = True\<rparr>"

lemma atomic_write_crash_safe_witness:
  "list_all (\<lambda>t. \<forall>c. after_crash t ''state.json'' c \<longrightarrow> c = read_now sample_fs ''state.json'' \<or> c = Some ''new'')
     (snd (AtomicWrite sample_answers ''state.json'' ''new'' sample_opt sample_fs))"
proof -
  obtain err trace where r: "AtomicWrite sample_answers ''state.json'' ''new'' sample_opt sample_fs = (err, trace)" by fastforce
  have "settled sample_fs ''state.json''" by (simp add: settled_def sample_fs_def)
  moreover have "fresh_temp sample_answers ''state.json'' sample_fs" by (simp add: fresh_temp_def sample_fs_def sample_answers_def)
  moreover have "Sync sample_opt" by (simp add: sample_opt_def)
  ultimately show ?thesis unfolding r snd_conv using atomic_write_crash_safe [OF _ _ _ r] by blast
qed

lemma under_root:
  assumes "under (Rel root p)"
  shows "\<exists>rest. rest \<noteq> [] \<and> components p = components root @ rest"
proof -
  obtain r where r: "Rel root p = Some r" using assms by (auto simp: under_def split: option.splits)
  obtain bs xs where s: "strip_common (components root) (components p) = (bs, xs)" by fastforce
  have bs: "bs = []"
  proof (rule ccontr)
    assume "bs \<noteq> []"
    then obtain b bs' where b: "bs = b # bs'" by (cases bs) auto
    then have "r = join ''/'' (''..'' # map (\<lambda>_. ''..'') bs' @ xs)"
      using r s by (auto simp: Rel_def split: if_splits)
    then have "r = ''..'' \<or> has_prefix r ''../''"
      by (cases "map (\<lambda>_. ''..'') bs' @ xs") auto
    then show False using assms r by (auto simp: under_def)
  qed
  moreover have "xs \<noteq> []" using assms r s bs by (auto simp: Rel_def under_def split: if_splits)
  ultimately show ?thesis using strip_common_spec [OF s] by auto
qed

lemma resolve_under_root:
  assumes "ResolveUnderRoot cwd path root = Inr p"
  shows "IsAbs p \<and> p = Clean path \<and> Clean p = p \<and> (\<exists>rest. rest \<noteq> [] \<and> components p = components (Abs cwd root) @ rest)"
proof -
  have abs: "IsAbs path" and p: "p = Clean path" and "under (Rel (Abs cwd root) p)"
    using assms by (auto simp: ResolveUnderRoot_def Abs_def [of cwd path] Let_def split: if_splits)
  then show ?thesis using under_root [of "Abs cwd root" p] Clean_rooted [OF abs] Clean_idem [OF abs] by auto
qed

text \<open>
  \<open>ReadJSON\<close>: the directory must be private, the file no link and closed to group and others;
  \<open>content\<close> is what decoding its bytes gives.
\<close>

datatype read_error = DirRefused path_error | FileNotExist | FileOpen string | FileAccessible | FileDecode string

definition ReadJSON :: "(string \<Rightarrow> lstat) \<Rightarrow> string \<Rightarrow> (string, 'a) result \<Rightarrow> (read_error, 'a) result" where
  "ReadJSON st path content =
     (case EnsurePrivateDir st path of Some e \<Rightarrow> Inl (DirRefused e)
      | None \<Rightarrow> (case st path of
          Missing \<Rightarrow> Inl FileNotExist
        | StatError e \<Rightarrow> Inl (FileOpen e)
        | Symlink \<Rightarrow> Inl (FileOpen ''too many levels of symbolic links'')
        | Other perm \<Rightarrow> if perm mod 64 \<noteq> 0 then Inl FileAccessible
            else (case content of Inl e \<Rightarrow> Inl (FileDecode e) | Inr v \<Rightarrow> Inr v)))"

end
