(* ===== verification/Credentials_Store.thy ===== *)
theory Credentials_Store
  imports Config_Model Private_File
begin

text \<open>
  The credentials of a server (internal/credentials): one private file per server, found only through
  a path scoped to it, read and written under a lock. The environment answers the file-system calls; a
  file is held decoded. The lemmas show where a secret can be written and that what is read or written
  names the configured server.
\<close>

record Set =
  SetNamespace :: string
  SetServer :: string
  ServerProvider :: string
  ServerProviderName :: string
  TailscaleToken :: string
  TSAuthKey :: string
  CloudflareToken :: string
  AdminSudoPassword :: string
  GitHubPAT :: string

record setFile =
  FileSet :: Set
  SetProject :: string

definition empty_set :: "string \<Rightarrow> string \<Rightarrow> Set" where
  "empty_set ns sv = \<lparr>SetNamespace = ns, SetServer = sv, ServerProvider = '''', ServerProviderName = '''',
     TailscaleToken = '''', TSAuthKey = '''', CloudflareToken = '''', AdminSudoPassword = '''', GitHubPAT = ''''\<rparr>"

datatype credentials_error =
    NamespaceRequired | ServerRequired | PathOutOfScope | PathRequired | PathRefused path_error
  | SetNamespaceMismatch string string | SetServerMismatch string string | MissingCredentials "string list"
  | SetProjectConflict string string | SetReadFailed read_error | SetWriteFailed string | SetMutateFailed string

section \<open>Validation\<close>

definition MissingAll :: "Set \<Rightarrow> string list" where
  "MissingAll s = need (ServerProvider s = '''') ''server provider API token''
     @ need (TailscaleToken s = '''') ''Tailscale API token'' @ need (CloudflareToken s = '''') ''Cloudflare API token''"

definition MissingForConfig :: "Set \<Rightarrow> Config \<Rightarrow> string list" where
  "MissingForConfig s cfg = need (ServerProvider s = '''') ''server provider API token''
     @ need (TailscaleEnabled (tailscale_of cfg) \<and> TailscaleToken s = '''') ''Tailscale API token''
     @ need (TunnelEnabled (tunnel_of cfg) \<and> CloudflareToken s = '''') ''Cloudflare API token''"

definition validate_set :: "Set \<Rightarrow> string \<Rightarrow> string \<Rightarrow> bool \<Rightarrow> string list \<Rightarrow> credentials_error option" where
  "validate_set s namespace server requireNamespace missing =
     (if requireNamespace \<and> namespace = '''' then Some NamespaceRequired
      else if requireNamespace \<and> SetNamespace s \<noteq> namespace then Some (SetNamespaceMismatch (SetNamespace s) namespace)
      else if requireNamespace \<and> server \<noteq> '''' \<and> SetServer s \<noteq> server then Some (SetServerMismatch (SetServer s) server)
      else if missing \<noteq> [] then Some (MissingCredentials missing)
      else None)"

definition ValidateSet :: "Set \<Rightarrow> credentials_error option" where
  "ValidateSet s = validate_set s '''' '''' False (MissingAll s)"

definition ValidateForConfig :: "Set \<Rightarrow> Config \<Rightarrow> credentials_error option" where
  "ValidateForConfig s cfg = validate_set s (ConfigNamespace cfg) (ConfigServer cfg) True (MissingForConfig s cfg)"

definition ValidateSetTarget :: "Set \<Rightarrow> string \<Rightarrow> string \<Rightarrow> credentials_error option" where
  "ValidateSetTarget s namespace server = validate_set s namespace server True []"

definition Secrets :: "Set \<Rightarrow> string list" where
  "Secrets s = [ServerProvider s, TailscaleToken s, TSAuthKey s, CloudflareToken s, AdminSudoPassword s, GitHubPAT s]"

section \<open>Paths\<close>

record cred_env =
  EnvHome :: "string option"
  EnvCwd :: string
  EnvStat :: "string \<Rightarrow> lstat"
  EnvStatAtRename :: "string \<Rightarrow> lstat"   \<comment> \<open>when the atomic write is about to rename\<close>
  EnvFile :: "string \<Rightarrow> (string, setFile) result"
  EnvWrite :: "string option"   \<comment> \<open>the error of the write itself\<close>

definition validateConfigScope :: "Config \<Rightarrow> credentials_error option" where
  "validateConfigScope cfg =
     (if ConfigNamespace cfg = '''' then Some NamespaceRequired
      else if ConfigServer cfg = '''' then Some ServerRequired
      else if \<not> CredentialsPathScopedToServer (JSONPath (CredentialsOf cfg)) (ConfigNamespace cfg) (ConfigServer cfg)
      then Some PathOutOfScope else None)"

definition credentialRoot :: "cred_env \<Rightarrow> string" where
  "credentialRoot env = Expand (EnvHome env) ''~/.config/serverpro''"

definition rejectSymlinkInCredentialAbsPath :: "cred_env \<Rightarrow> (string \<Rightarrow> lstat) \<Rightarrow> string \<Rightarrow> path_error option" where
  "rejectSymlinkInCredentialAbsPath env st absPath =
     RejectSymlinkPath (EnvCwd env) st absPath (Expand (EnvHome env) ''~'')"

definition safeCredentialPath :: "cred_env \<Rightarrow> string \<Rightarrow> string \<Rightarrow> string \<Rightarrow> (credentials_error, string) result" where
  "safeCredentialPath env namespace server path =
     (if \<not> CredentialsPathScopedToServer path namespace server then Inl PathOutOfScope
      else (case ResolveUnderRoot (EnvCwd env) path (credentialRoot env) of
        Inl e \<Rightarrow> Inl (PathRefused e)
      | Inr absPath \<Rightarrow> (case rejectSymlinkInCredentialAbsPath env (EnvStat env) absPath of
          Some e \<Rightarrow> Inl (PathRefused e) | None \<Rightarrow> Inr absPath)))"

definition writeTargetPath :: "cred_env \<Rightarrow> Config \<Rightarrow> (credentials_error, string) result" where
  "writeTargetPath env cfg =
     (case validateConfigScope cfg of Some e \<Rightarrow> Inl e
      | None \<Rightarrow>
          (let path = Expand (EnvHome env) (JSONPath (CredentialsOf cfg)) in
           if path = '''' then Inl PathRequired
           else bindR (safeCredentialPath env (ConfigNamespace cfg) (ConfigServer cfg) path) (\<lambda>p.
             (case rejectSymlinkInCredentialAbsPath env (EnvStat env) p of
                Some e \<Rightarrow> Inl (PathRefused e) | None \<Rightarrow> Inr p))))"

section \<open>Reading\<close>

definition loadJSON :: "cred_env \<Rightarrow> string \<Rightarrow> (credentials_error, Set) result" where
  "loadJSON env path =
     (case ReadJSON (EnvStat env) path (EnvFile env path) of Inl e \<Rightarrow> Inl (SetReadFailed e)
      | Inr f \<Rightarrow>
          (let s = FileSet f; ns = SetNamespace s; project = SetProject f in
           if ns \<noteq> '''' \<and> project \<noteq> '''' \<and> ns \<noteq> project then Inl (SetProjectConflict ns project)
           else Inr (if ns = '''' then s\<lparr>SetNamespace := project\<rparr> else s)))"

text \<open>\<open>os.Stat\<close> succeeds; a link at \<open>path\<close> has been refused before.\<close>

definition fileExists :: "cred_env \<Rightarrow> string \<Rightarrow> bool" where
  "fileExists env path = (case EnvStat env path of Other _ \<Rightarrow> True | _ \<Rightarrow> False)"

definition LoadPartialSet :: "cred_env \<Rightarrow> Config \<Rightarrow> (credentials_error, Set) result" where
  "LoadPartialSet env cfg =
     (case validateConfigScope cfg of Some e \<Rightarrow> Inl e
      | None \<Rightarrow>
          (let path = Expand (EnvHome env) (JSONPath (CredentialsOf cfg)) in
           if path = '''' then Inr (empty_set (ConfigNamespace cfg) (ConfigServer cfg))
           else bindR (safeCredentialPath env (ConfigNamespace cfg) (ConfigServer cfg) path) (\<lambda>p.
             if \<not> fileExists env p then Inr (empty_set (ConfigNamespace cfg) (ConfigServer cfg))
             else bindR (loadJSON env p) (\<lambda>creds.
               (case ValidateSetTarget creds (ConfigNamespace cfg) (ConfigServer cfg) of
                  Some e \<Rightarrow> Inl e | None \<Rightarrow> Inr creds)))))"

definition LoadSet :: "cred_env \<Rightarrow> Config \<Rightarrow> (credentials_error, Set) result" where
  "LoadSet env cfg = bindR (LoadPartialSet env cfg) (\<lambda>creds.
     (case ValidateForConfig creds cfg of Some e \<Rightarrow> Inl e | None \<Rightarrow> Inr creds))"

section \<open>Writing\<close>

text \<open>A writer returns its error and what it published: the path and the set.\<close>

type_synonym published_set = "(string \<times> Set) option"

definition writeCredentialSet :: "cred_env \<Rightarrow> string \<Rightarrow> Set \<Rightarrow> credentials_error option \<times> published_set" where
  "writeCredentialSet env path creds =
     (case rejectSymlinkInCredentialAbsPath env (EnvStatAtRename env) path of
        Some e \<Rightarrow> (Some (PathRefused e), None)
      | None \<Rightarrow> (case EnvWrite env of Some e \<Rightarrow> (Some (SetWriteFailed e), None) | None \<Rightarrow> (None, Some (path, creds))))"

definition save_set :: "cred_env \<Rightarrow> Config \<Rightarrow> Set \<Rightarrow> bool \<Rightarrow> credentials_error option \<times> published_set" where
  "save_set env cfg creds0 requireComplete =
     (case writeTargetPath env cfg of Inl e \<Rightarrow> (Some e, None)
      | Inr path \<Rightarrow>
          (let creds = creds0\<lparr>SetNamespace := ConfigNamespace cfg, SetServer := ConfigServer cfg\<rparr> in
           (case (if requireComplete then ValidateForConfig creds cfg
                  else ValidateSetTarget creds (ConfigNamespace cfg) (ConfigServer cfg)) of
              Some e \<Rightarrow> (Some e, None)
            | None \<Rightarrow> writeCredentialSet env path creds)))"

definition SaveSet :: "cred_env \<Rightarrow> Config \<Rightarrow> Set \<Rightarrow> credentials_error option \<times> published_set" where
  "SaveSet env cfg creds = save_set env cfg creds True"

definition SavePartialSet :: "cred_env \<Rightarrow> Config \<Rightarrow> Set \<Rightarrow> credentials_error option \<times> published_set" where
  "SavePartialSet env cfg creds = save_set env cfg creds False"

definition UpdateSet ::
  "cred_env \<Rightarrow> Config \<Rightarrow> (Set \<Rightarrow> (string, Set) result) \<Rightarrow> credentials_error option \<times> published_set" where
  "UpdateSet env cfg mutate =
     (case writeTargetPath env cfg of Inl e \<Rightarrow> (Some e, None)
      | Inr path \<Rightarrow> (case LoadPartialSet env cfg of Inl e \<Rightarrow> (Some e, None)
          | Inr current \<Rightarrow> (case mutate current of Inl e \<Rightarrow> (Some (SetMutateFailed e), None)
              | Inr m \<Rightarrow>
                  (let s = m\<lparr>SetNamespace := ConfigNamespace cfg, SetServer := ConfigServer cfg\<rparr> in
                   (case ValidateSetTarget s (ConfigNamespace cfg) (ConfigServer cfg) of
                      Some e \<Rightarrow> (Some e, None)
                    | None \<Rightarrow> writeCredentialSet env path s)))))"

section \<open>Facts\<close>

text \<open>The files of one server: inside the program's directory, under the namespace and the server.\<close>

definition own_path :: "cred_env \<Rightarrow> Config \<Rightarrow> string \<Rightarrow> bool" where
  "own_path env cfg p \<longleftrightarrow> IsAbs p \<and> Clean p = p
     \<and> CredentialsPathScopedToServer p (ConfigNamespace cfg) (ConfigServer cfg)
     \<and> (\<exists>rest. rest \<noteq> [] \<and> components p = components (Abs (EnvCwd env) (credentialRoot env)) @ rest)"

lemma safe_path:
  assumes "safeCredentialPath env ns sv path = Inr p"
  shows "IsAbs p \<and> Clean p = p \<and> CredentialsPathScopedToServer p ns sv
    \<and> (\<exists>rest. rest \<noteq> [] \<and> components p = components (Abs (EnvCwd env) (credentialRoot env)) @ rest)
    \<and> rejectSymlinkInCredentialAbsPath env (EnvStat env) p = None"
proof -
  have sc: "CredentialsPathScopedToServer path ns sv"
    and res: "ResolveUnderRoot (EnvCwd env) path (credentialRoot env) = Inr p"
    and sym: "rejectSymlinkInCredentialAbsPath env (EnvStat env) p = None"
    using assms by (auto simp: safeCredentialPath_def split: if_splits sum.splits option.splits)
  note r = resolve_under_root [OF res]
  then have "CredentialsPathScopedToServer p ns sv"
    using sc unfolding CredentialsPathScopedToServer_def by metis
  with r sym show ?thesis by blast
qed

lemma target_path: "writeTargetPath env cfg = Inr p \<Longrightarrow> own_path env cfg p"
  by (auto simp: writeTargetPath_def own_path_def Let_def bindR_eq_Inr dest!: safe_path split: if_splits option.splits)

lemma own_path_unique:
  "own_path env cfg p \<Longrightarrow> own_path env cfg' p
     \<Longrightarrow> ConfigNamespace cfg = ConfigNamespace cfg' \<and> ConfigServer cfg = ConfigServer cfg'"
  by (auto simp: own_path_def CredentialsPathScopedToServer_def Let_def split: if_splits)

lemma loaded_target:
  "LoadPartialSet env cfg = Inr s \<Longrightarrow> SetNamespace s = ConfigNamespace cfg \<and> SetServer s = ConfigServer cfg"
  by (auto simp: LoadPartialSet_def validateConfigScope_def ValidateSetTarget_def validate_set_def Let_def
      empty_set_def bindR_eq_Inr split: if_splits option.splits)

lemma write_published:
  "writeCredentialSet env path s = (err, Some (p, s')) \<Longrightarrow>
     err = None \<and> p = path \<and> s' = s \<and> rejectSymlinkInCredentialAbsPath env (EnvStatAtRename env) p = None"
  by (auto simp: writeCredentialSet_def split: option.splits)

text \<open>
  C39. A secret is written only where it belongs: whatever \<open>Update\<close> publishes goes to a clean path
  inside the credentials root that belongs to this server and to no other, with no symbolic link on it
  when the file is renamed into place; it names this namespace and server, and it is the stored set as it
  is under the lock with only the caller's change.
\<close>

theorem credentials_update_confined:
  assumes "UpdateSet env cfg mutate = (err, Some (p, s))"
  shows "err = None \<and> own_path env cfg p \<and> rejectSymlinkInCredentialAbsPath env (EnvStatAtRename env) p = None
    \<and> (\<exists>current m. LoadPartialSet env cfg = Inr current \<and> mutate current = Inr m
        \<and> s = m\<lparr>SetNamespace := SetNamespace current, SetServer := SetServer current\<rparr>)
    \<and> (\<forall>cfg'. own_path env cfg' p \<longrightarrow> ConfigNamespace cfg' = SetNamespace s \<and> ConfigServer cfg' = SetServer s)"
proof -
  obtain current m where path: "writeTargetPath env cfg = Inr p" and cur: "LoadPartialSet env cfg = Inr current"
    and m: "mutate current = Inr m" and s: "s = m\<lparr>SetNamespace := ConfigNamespace cfg, SetServer := ConfigServer cfg\<rparr>"
    and w: "writeCredentialSet env p s = (err, Some (p, s))"
    using assms by (auto simp: UpdateSet_def Let_def split: sum.splits option.splits dest: write_published)
  note own = target_path [OF path] and lt = loaded_target [OF cur]
  have "s = m\<lparr>SetNamespace := SetNamespace current, SetServer := SetServer current\<rparr>" using lt s by simp
  moreover have "\<forall>cfg'. own_path env cfg' p \<longrightarrow> ConfigNamespace cfg' = SetNamespace s \<and> ConfigServer cfg' = SetServer s"
    using own_path_unique [OF own] s by simp
  ultimately show ?thesis using write_published [OF w] own cur m by blast
qed

definition sample_env :: cred_env where
  "sample_env = \<lparr>EnvHome = Some ''/home/op'', EnvCwd = ''/'', EnvStat = (\<lambda>_. Missing), EnvStatAtRename = (\<lambda>_. Missing),
     EnvFile = (\<lambda>_. Inl ''none''), EnvWrite = None\<rparr>"

definition web_config :: Config where
  "web_config = ExampleServer (Some ''/home/op'') ''prod'' ''web''"

definition set_pat :: "Set \<Rightarrow> (string, Set) result" where
  "set_pat s = Inr (s\<lparr>GitHubPAT := ''pat''\<rparr>)"

definition pat_path :: string where
  "pat_path = ''/home/op/.config/serverpro/namespaces/prod/servers/web/credentials.json''"

definition pat_set :: Set where
  "pat_set = (empty_set ''prod'' ''web'')\<lparr>GitHubPAT := ''pat''\<rparr>"

lemma pat_update: "UpdateSet sample_env web_config set_pat = (None, Some (pat_path, pat_set))"
  by code_simp

lemma credentials_update_confined_witness: "own_path sample_env web_config pat_path"
  using credentials_update_confined [OF pat_update] by blast

end
