(* ===== verification/Tunnel_Preflight.thy ===== *)
theory Tunnel_Preflight
  imports Config_Names
begin

text \<open>
  Tunnels (internal/ingress; the remote half of the OpenSSH preflight in
  internal/lifecycle/openssh.go): which tunnel a name means, and which rules of a tunnel's remote
  configuration may reach sshd, so that turning OpenSSH off would cut a route or leave one open.

  \<open>net/url\<close> is a parameter: a parsed URL is what the code reads of it.
\<close>

record Tunnel =
  TunnelIDOf :: string
  TunnelNameOf :: string
  TunnelStatus :: string
  TunnelCreatedAt :: string

text \<open>The loop of \<open>MatchTunnelByName\<close>: \<open>Inl\<close> when the name is ambiguous.\<close>

fun match_tunnel :: "string \<Rightarrow> Tunnel option \<Rightarrow> Tunnel list \<Rightarrow> (string, Tunnel option) result" where
  "match_tunnel name found [] = Inr found"
| "match_tunnel name found (t # tunnels) =
     (if TunnelNameOf t \<noteq> name then match_tunnel name found tunnels
      else (case found of Some _ \<Rightarrow> Inl name | None \<Rightarrow> match_tunnel name (Some t) tunnels))"

definition MatchTunnelByName :: "Tunnel list \<Rightarrow> string \<Rightarrow> (string, Tunnel option) result" where
  "MatchTunnelByName tunnels name = match_tunnel name None tunnels"

record TunnelIngressRule =
  Service :: string
  BastionMode :: bool
  ProxyType :: string

record TunnelRemoteConfig =
  Rules :: "TunnelIngressRule list"
  PrivateNetworkRoute :: bool
  PrivateHostnameRoute :: bool

record parsed_url =
  Scheme :: string
  Opaque :: string
  HostnameOf :: string
  PortOf :: string
  Redacted :: string

definition tunnelUnixPrefix :: string where "tunnelUnixPrefix = ''unix:''"
definition tunnelUnixTLSPrefix :: string where "tunnelUnixTLSPrefix = ''unix+tls:''"
definition tunnelStatusServicePrefix :: string where "tunnelStatusServicePrefix = ''http_status:''"
definition tunnelHelloWorldService :: string where "tunnelHelloWorldService = ''hello_world''"
definition tunnelHelloWorldFlag :: string where "tunnelHelloWorldFlag = ''hello-world''"
definition tunnelBastionService :: string where "tunnelBastionService = ''bastion''"
definition tunnelSOCKSProxyService :: string where "tunnelSOCKSProxyService = ''socks-proxy''"
definition tunnelTCPScheme :: string where "tunnelTCPScheme = ''tcp''"
definition tunnelMaxPort :: int where "tunnelMaxPort = 65535"
definition OpenSSHPort :: int where "OpenSSHPort = 22"

lemmas tunnel_constants = tunnelUnixPrefix_def tunnelUnixTLSPrefix_def tunnelStatusServicePrefix_def
  tunnelHelloWorldService_def tunnelHelloWorldFlag_def tunnelBastionService_def tunnelSOCKSProxyService_def
  tunnelTCPScheme_def tunnelMaxPort_def OpenSSHPort_def

definition tunnelWebPorts :: "(string, string) gomap" where
  "tunnelWebPorts = [(''http'', ''80''), (''https'', ''443'')]"

text \<open>\<open>strconv.Atoi\<close> on a 64-bit platform: an optional sign, at least one digit, nothing else, in range.\<close>

definition digits_value :: "string \<Rightarrow> int option" where
  "digits_value s =
     (if s \<noteq> '''' \<and> list_all (\<lambda>c. isASCIIDigit (of_char c)) s
      then Some (foldl (\<lambda>n c. 10 * n + (of_char c - 48)) 0 s) else None)"

definition Atoi :: "string \<Rightarrow> int option" where
  "Atoi s =
     (let (sign, ds) = (case s of c # t \<Rightarrow> if c = CHR ''-'' then (-1, t) else if c = CHR ''+'' then (1, t) else (1, s)
                        | [] \<Rightarrow> (1, []))
      in (case digits_value ds of None \<Rightarrow> None
          | Some n \<Rightarrow> if - (2 ^ 63) \<le> sign * n \<and> sign * n < 2 ^ 63 then Some (sign * n) else None))"

definition reachesSSH :: "string \<Rightarrow> bool" where
  "reachesSSH port = (case Atoi port of None \<Rightarrow> True | Some n \<Rightarrow> n > tunnelMaxPort \<or> n = OpenSSHPort)"

text \<open>
  \<open>tunnelRouteToSSH\<close>: the name of a rule that may reach sshd, or nothing. \<open>parse\<close> is
  \<open>url.Parse\<close>, \<open>None\<close> its error.
\<close>

definition tunnelRouteToSSH :: "(string \<Rightarrow> parsed_url option) \<Rightarrow> TunnelIngressRule \<Rightarrow> string option" where
  "tunnelRouteToSSH parse rule =
     (if BastionMode rule then Some ''bastion mode''
      else if ProxyType rule \<noteq> '''' then Some ''an origin proxy type''
      else if has_prefix (Service rule) tunnelUnixPrefix \<or> has_prefix (Service rule) tunnelUnixTLSPrefix then None
      else if has_prefix (Service rule) tunnelStatusServicePrefix then None
      else if Service rule = tunnelHelloWorldService \<or> Service rule = tunnelHelloWorldFlag then None
      else if Service rule = tunnelBastionService \<or> Service rule = tunnelSOCKSProxyService then Some (Service rule)
      else if Service rule = '''' then Some ''a rule without a service''
      else (case parse (Service rule) of
        None \<Rightarrow> Some ''a service serverpro cannot classify''
      | Some u \<Rightarrow>
          if Scheme u = '''' \<or> Opaque u \<noteq> '''' then Some ''a service serverpro cannot classify''
          else if Scheme u = tunnelTCPScheme then
            (if HostnameOf u = '''' \<or> PortOf u = '''' \<or> reachesSSH (PortOf u) then Some (Redacted u) else None)
          else (case gm_get tunnelWebPorts (Scheme u) of
            None \<Rightarrow> Some (Redacted u)
          | Some defaultPort \<Rightarrow>
              if HostnameOf u = '''' then Some (Redacted u)
              else if reachesSSH (if PortOf u = '''' then defaultPort else PortOf u) then Some (Redacted u) else None)))"

fun rule_routes :: "(string \<Rightarrow> parsed_url option) \<Rightarrow> TunnelIngressRule list \<Rightarrow> string list" where
  "rule_routes parse [] = []"
| "rule_routes parse (r # rs) =
     (case tunnelRouteToSSH parse r of Some name \<Rightarrow> name # rule_routes parse rs | None \<Rightarrow> rule_routes parse rs)"

definition TunnelSSHRoutes :: "(string \<Rightarrow> parsed_url option) \<Rightarrow> TunnelRemoteConfig \<Rightarrow> string list" where
  "TunnelSSHRoutes parse remote =
     (if PrivateNetworkRoute remote then [''a private network route''] else [])
     @ (if PrivateHostnameRoute remote then [''a private hostname route''] else [])
     @ rule_routes parse (Rules remote)"

datatype preflight_error = TunnelIngressUnread string | TunnelRoutesSSH "string list"

text \<open>\<open>reader\<close> is \<open>None\<close> when there is no Cloudflare client.\<close>

definition CheckTunnelSSHIngress ::
  "(string \<Rightarrow> parsed_url option) \<Rightarrow> (string \<Rightarrow> (string, TunnelRemoteConfig) result) option \<Rightarrow> string \<Rightarrow> preflight_error option" where
  "CheckTunnelSSHIngress parse reader tunnelID =
     (if tunnelID = '''' then None
      else (case reader of None \<Rightarrow> Some (TunnelIngressUnread ''no Cloudflare client'')
        | Some read \<Rightarrow> (case read tunnelID of Inl e \<Rightarrow> Some (TunnelIngressUnread e)
            | Inr remote \<Rightarrow>
                if TunnelSSHRoutes parse remote \<noteq> [] then Some (TunnelRoutesSSH (TunnelSSHRoutes parse remote)) else None)))"

section \<open>Facts\<close>

lemma match_tunnel_Some: "match_tunnel name (Some u) ts =
    (if \<exists>t \<in> set ts. TunnelNameOf t = name then Inl name else Inr (Some u))"
  by (induction ts) auto

lemma match_tunnel_spec:
  "match_tunnel name None ts = (case filter (\<lambda>t. TunnelNameOf t = name) ts of
     [] \<Rightarrow> Inr None | [t] \<Rightarrow> Inr (Some t) | _ \<Rightarrow> Inl name)"
proof (induction ts)
  case (Cons t ts)
  show ?case
  proof (cases "TunnelNameOf t = name")
    case True
    have "(\<exists>u \<in> set ts. TunnelNameOf u = name) \<longleftrightarrow> filter (\<lambda>u. TunnelNameOf u = name) ts \<noteq> []"
      by (simp add: filter_empty_conv)
    then show ?thesis using True by (auto simp: match_tunnel_Some split: list.splits)
  qed (simp add: Cons)
qed simp

lemma routes_empty: "rule_routes parse rs = [] \<longleftrightarrow> list_all (\<lambda>r. tunnelRouteToSSH parse r = None) rs"
  by (induction rs) (auto split: option.splits)

text \<open>
  What a rule that passes is: it answers from cloudflared itself or a unix socket, or it is an http,
  https or tcp origin with a host on a port that is a number below the port limit and not that of sshd;
  and no setting lets a client choose the destination.
\<close>

definition harmless_service :: "(string \<Rightarrow> parsed_url option) \<Rightarrow> string \<Rightarrow> bool" where
  "harmless_service parse s \<longleftrightarrow>
     has_prefix s ''unix:'' \<or> has_prefix s ''unix+tls:'' \<or> has_prefix s ''http_status:''
     \<or> s = ''hello_world'' \<or> s = ''hello-world''
     \<or> (\<exists>u port. parse s = Some u \<and> Scheme u \<in> {''tcp'', ''http'', ''https''} \<and> Opaque u = '''' \<and> HostnameOf u \<noteq> ''''
          \<and> (PortOf u = port \<or> PortOf u = '''' \<and> (Scheme u, port) \<in> {(''http'', ''80''), (''https'', ''443'')})
          \<and> (\<exists>n. Atoi port = Some n \<and> n \<le> 65535 \<and> n \<noteq> 22))"

lemma route_allowed:
  assumes "tunnelRouteToSSH parse r = None"
  shows "\<not> BastionMode r \<and> ProxyType r = '''' \<and> harmless_service parse (Service r)"
proof -
  have top: "\<not> BastionMode r" "ProxyType r = ''''"
    using assms by (auto simp: tunnelRouteToSSH_def split: if_splits)
  have web: "gm_get tunnelWebPorts s = Some p \<Longrightarrow> (s, p) \<in> {(''http'', ''80''), (''https'', ''443'')}" for s p
    by (auto simp: tunnelWebPorts_def split: if_splits)
  have port: "\<not> reachesSSH p \<Longrightarrow> \<exists>n. Atoi p = Some n \<and> n \<le> 65535 \<and> n \<noteq> 22" for p
    by (auto simp: reachesSSH_def tunnel_constants split: option.splits)
  show ?thesis
  proof (cases "has_prefix (Service r) ''unix:'' \<or> has_prefix (Service r) ''unix+tls:''
      \<or> has_prefix (Service r) ''http_status:'' \<or> Service r = ''hello_world'' \<or> Service r = ''hello-world''")
    case True
    then show ?thesis using top by (auto simp: harmless_service_def)
  next
    case False
    then obtain u where u: "parse (Service r) = Some u" "Scheme u \<noteq> ''''" "Opaque u = ''''"
      and rest: "if Scheme u = tunnelTCPScheme then \<not> (HostnameOf u = '''' \<or> PortOf u = '''' \<or> reachesSSH (PortOf u))
        else (\<exists>d. gm_get tunnelWebPorts (Scheme u) = Some d \<and> HostnameOf u \<noteq> ''''
          \<and> \<not> reachesSSH (if PortOf u = '''' then d else PortOf u))"
      using assms top by (auto simp: tunnelRouteToSSH_def tunnel_constants split: if_splits option.splits)
    show ?thesis
    proof (cases "Scheme u = tunnelTCPScheme")
      case True
      then show ?thesis using top u rest port [of "PortOf u"]
        by (auto simp: harmless_service_def tunnelTCPScheme_def)
    next
      case False
      then obtain d where d: "gm_get tunnelWebPorts (Scheme u) = Some d" "HostnameOf u \<noteq> ''''"
        "\<not> reachesSSH (if PortOf u = '''' then d else PortOf u)" using rest by auto
      then have "harmless_service parse (Service r)"
        using web [OF d(1)] port [OF d(3)] u unfolding harmless_service_def
        by (intro disjI2 exI [of _ u] exI [of _ "if PortOf u = '''' then d else PortOf u"]) auto
      then show ?thesis using top by blast
    qed
  qed
qed

text \<open>
  C4. OpenSSH goes off only where no remote tunnel route needs it: when the preflight passes for a
  recorded tunnel, its configuration was read, it has no private network or hostname route, and every
  rule answers from cloudflared itself or leads to an http, https or tcp origin on a known port that is
  not sshd's; whatever cannot be classified stops the change.
\<close>

theorem preflight_passes_only_harmless:
  assumes "CheckTunnelSSHIngress parse reader tid = None" "tid \<noteq> ''''"
  shows "\<exists>read remote. reader = Some read \<and> read tid = Inr remote \<and> \<not> PrivateNetworkRoute remote
    \<and> \<not> PrivateHostnameRoute remote
    \<and> list_all (\<lambda>r. \<not> BastionMode r \<and> ProxyType r = '''' \<and> harmless_service parse (Service r)) (Rules remote)"
proof -
  obtain read remote where r: "reader = Some read" "read tid = Inr remote" "TunnelSSHRoutes parse remote = []"
    using assms by (auto simp: CheckTunnelSSHIngress_def split: option.splits sum.splits if_splits)
  then have "list_all (\<lambda>r. tunnelRouteToSSH parse r = None) (Rules remote)"
    by (simp add: TunnelSSHRoutes_def routes_empty)
  with r show ?thesis using route_allowed by (auto simp: TunnelSSHRoutes_def list_all_iff split: if_splits)
qed

definition web_url :: "string \<Rightarrow> parsed_url option" where
  "web_url s = (if s = ''http://localhost:3000''
     then Some \<lparr>Scheme = ''http'', Opaque = '''', HostnameOf = ''localhost'', PortOf = ''3000'', Redacted = s\<rparr> else None)"

definition web_remote :: TunnelRemoteConfig where
  "web_remote = \<lparr>Rules = [\<lparr>Service = ''http://localhost:3000'', BastionMode = False, ProxyType = ''''\<rparr>,
                          \<lparr>Service = ''http_status:404'', BastionMode = False, ProxyType = ''''\<rparr>],
     PrivateNetworkRoute = False, PrivateHostnameRoute = False\<rparr>"

lemma web_preflight: "CheckTunnelSSHIngress web_url (Some (\<lambda>_. Inr web_remote)) ''t1'' = None"
  by code_simp

lemma preflight_passes_only_harmless_witness:
  "list_all (\<lambda>r. \<not> BastionMode r \<and> ProxyType r = '''' \<and> harmless_service web_url (Service r)) (Rules web_remote)"
proof -
  obtain read remote where "Some (\<lambda>_. Inr web_remote) = Some read" "read ''t1'' = Inr remote"
    "list_all (\<lambda>r. \<not> BastionMode r \<and> ProxyType r = '''' \<and> harmless_service web_url (Service r)) (Rules remote)"
    using preflight_passes_only_harmless [OF web_preflight] by auto
  then show ?thesis by auto
qed

end
