(* ===== verification/State_Model.thy ===== *)
theory State_Model
  imports Compute_Model Config_Names
begin

text \<open>
  The state of one server (internal/state: state.go, target.go) and the checkpoint that create writes
  into it (internal/lifecycle/provision_state.go: saveProvisionState). A time is an integer, 0 the zero
  time; the file is held decoded, with the legacy \<open>project\<close> member next to it, and a locked
  operation is one step on it. \<open>wr\<close> is the error of the atomic write, which then leaves the file
  as it was.
\<close>

record ComputeState =
  CProvider :: string
  CAccount :: string
  CNamespace :: string
  CServer :: string
  CID :: string
  CName :: string
  CLocation :: string
  CSize :: string
  CImage :: string
  CPublicIPv4 :: string
  CPublicIPv6 :: string
  CManagedResources :: "ManagedResourceRef list"
  CProviderState :: labels

record TailscaleState =
  TsTailnet :: string
  TsNodeID :: string
  TsAuthKeyID :: string
  TsAuthKeyCreatedAt :: int
  TsName :: string
  TsIPs :: "string list"
  TsTags :: "string list"
  TsPolicyTagOwners :: "string list"
  TsPolicySSHRule :: bool
  TsPolicySSHTags :: "string list"
  TsPolicySSHAutomationSource :: string

record CloudflareState =
  TunnelID :: string
  TunnelStateName :: string
  Provenance :: string

definition CloudflareTunnelCreated :: string where "CloudflareTunnelCreated = ''created''"
definition CloudflareTunnelAdopted :: string where "CloudflareTunnelAdopted = ''adopted''"
definition CloudflareTunnelImported :: string where "CloudflareTunnelImported = ''imported''"

definition OwnsTunnel :: "CloudflareState \<Rightarrow> bool" where
  "OwnsTunnel s \<longleftrightarrow> TunnelID s \<noteq> '''' \<and> Provenance s = CloudflareTunnelCreated"

record IngressState =
  IngressType :: string
  IngressHostname :: string
  IngressTarget :: string
  IngressStatus :: string

record Validation =
  ValidationTime :: int
  Summary :: string
  ValidationPassed :: bool

record State =
  StateSchema :: int
  StateNamespace :: string
  StateServer :: string
  ComputeIn :: ComputeState
  TailscaleIn :: TailscaleState
  CloudflareIn :: CloudflareState
  IngressIn :: "IngressState list"
  StateLabels :: labels
  Validations :: "Validation list"
  CreatedAt :: int
  UpdatedAt :: int

definition no_compute :: ComputeState where
  "no_compute = \<lparr>CProvider = '''', CAccount = '''', CNamespace = '''', CServer = '''', CID = '''', CName = '''',
     CLocation = '''', CSize = '''', CImage = '''', CPublicIPv4 = '''', CPublicIPv6 = '''',
     CManagedResources = [], CProviderState = []\<rparr>"

definition no_tailscale :: TailscaleState where
  "no_tailscale = \<lparr>TsTailnet = '''', TsNodeID = '''', TsAuthKeyID = '''', TsAuthKeyCreatedAt = 0, TsName = '''', TsIPs = [],
     TsTags = [], TsPolicyTagOwners = [], TsPolicySSHRule = False, TsPolicySSHTags = [], TsPolicySSHAutomationSource = ''''\<rparr>"

definition no_cloudflare :: CloudflareState where
  "no_cloudflare = \<lparr>TunnelID = '''', TunnelStateName = '''', Provenance = ''''\<rparr>"

definition zero_state :: State where
  "zero_state = \<lparr>StateSchema = 0, StateNamespace = '''', StateServer = '''', ComputeIn = no_compute,
     TailscaleIn = no_tailscale, CloudflareIn = no_cloudflare, IngressIn = [], StateLabels = [], Validations = [],
     CreatedAt = 0, UpdatedAt = 0\<rparr>"

datatype state_error =
    StateReadFailed string | StateNotExist | StateUndecodable | ProjectConflict string string
  | ResourceConflict string string | StateWriteFailed string | StateUpdateRefused string
  | NamespaceMismatch string string | ServerMismatch string string | ServerNameMismatch string string
  | TunnelNameMismatch string string

definition normalize_state :: "State \<Rightarrow> (state_error, State) result" where
  "normalize_state s =
     (case CanonicalManagedResources (CManagedResources (ComputeIn s)) (CProviderState (ComputeIn s)) of
        Inl (a, b) \<Rightarrow> Inl (ResourceConflict a b)
      | Inr (resources, providerState) \<Rightarrow>
          (let c = (ComputeIn s)\<lparr>CManagedResources := resources, CProviderState := providerState\<rparr>;
               c1 = (if CNamespace c = '''' then c\<lparr>CNamespace := StateNamespace s\<rparr> else c);
               c2 = (if CServer c1 = '''' then c1\<lparr>CServer := StateServer s\<rparr> else c1)
           in Inr (s\<lparr>ComputeIn := c2\<rparr>)))"

text \<open>The file: missing, undecodable, or a state with its legacy project.\<close>

datatype state_file = NoState | BadState | StateFile State string

text \<open>What of a state its JSON carries: \<open>Account\<close> is not written.\<close>

definition persisted :: "State \<Rightarrow> State" where
  "persisted s = s\<lparr>ComputeIn := (ComputeIn s)\<lparr>CAccount := ''''\<rparr>\<rparr>"

definition LoadState :: "string option \<Rightarrow> state_file \<Rightarrow> (state_error, State) result" where
  "LoadState rd file =
     (case rd of Some e \<Rightarrow> Inl (StateReadFailed e)
      | None \<Rightarrow> (case file of NoState \<Rightarrow> Inl StateNotExist | BadState \<Rightarrow> Inl StateUndecodable
          | StateFile s project \<Rightarrow>
              if StateNamespace s \<noteq> '''' \<and> project \<noteq> '''' \<and> StateNamespace s \<noteq> project
              then Inl (ProjectConflict (StateNamespace s) project)
              else normalize_state (if StateNamespace s = '''' then s\<lparr>StateNamespace := project\<rparr> else s)))"

definition saveStateUnlocked ::
  "int \<Rightarrow> string option \<Rightarrow> State \<Rightarrow> state_file \<Rightarrow> state_error option \<times> state_file" where
  "saveStateUnlocked now wr s0 old =
     (case normalize_state s0 of Inl e \<Rightarrow> (Some e, old)
      | Inr s \<Rightarrow>
          (let s1 = (if StateSchema s = 0 then s\<lparr>StateSchema := 1\<rparr> else s);
               s2 = (if CreatedAt s1 = 0 then s1\<lparr>CreatedAt := now\<rparr> else s1);
               s3 = s2\<lparr>UpdatedAt := now\<rparr>
           in case wr of Some e \<Rightarrow> (Some (StateWriteFailed e), old) | None \<Rightarrow> (None, StateFile (persisted s3) '''')))"

definition UpdateState ::
  "int \<Rightarrow> string option \<Rightarrow> string option \<Rightarrow> (State \<Rightarrow> (string, State) result) \<Rightarrow> state_file
     \<Rightarrow> state_error option \<times> state_file" where
  "UpdateState now rd wr fn file =
     (case LoadState rd file of Inl e \<Rightarrow> (Some e, file)
      | Inr st \<Rightarrow> (case fn st of Inl e \<Rightarrow> (Some (StateUpdateRefused e), file)
          | Inr st' \<Rightarrow> saveStateUnlocked now wr st' file))"

record Target =
  TargetNamespace :: string
  TargetServer :: string
  ComputeServerName :: string
  CloudflareTunnelName :: string

definition ValidateTarget :: "Target \<Rightarrow> State \<Rightarrow> state_error option" where
  "ValidateTarget t st =
     (if StateNamespace st \<noteq> TargetNamespace t then Some (NamespaceMismatch (StateNamespace st) (TargetNamespace t))
      else if StateServer st \<noteq> TargetServer t then Some (ServerMismatch (StateServer st) (TargetServer t))
      else if CName (ComputeIn st) \<noteq> '''' \<and> CName (ComputeIn st) \<noteq> ComputeServerName t
      then Some (ServerNameMismatch (CName (ComputeIn st)) (ComputeServerName t))
      else if TunnelStateName (CloudflareIn st) \<noteq> '''' \<and> TunnelStateName (CloudflareIn st) \<noteq> CloudflareTunnelName t
      then Some (TunnelNameMismatch (TunnelStateName (CloudflareIn st)) (CloudflareTunnelName t))
      else None)"

section \<open>The checkpoint of create\<close>

definition checkpoint :: "State \<Rightarrow> State \<Rightarrow> State" where
  "checkpoint candidate current =
     (let sameCompute = (CID (ComputeIn current) \<noteq> '''' \<and> CID (ComputeIn current) = CID (ComputeIn candidate));
          st = candidate\<lparr>IngressIn := IngressIn current\<rparr>
      in if sameCompute
         then st\<lparr>ComputeIn := (ComputeIn st)\<lparr>CPublicIPv4 := CPublicIPv4 (ComputeIn current),
                                             CPublicIPv6 := CPublicIPv6 (ComputeIn current)\<rparr>\<rparr>
         else st)"

definition saveProvisionState ::
  "int \<Rightarrow> string option \<Rightarrow> string option \<Rightarrow> State \<Rightarrow> state_file \<Rightarrow> state_error option \<times> state_file" where
  "saveProvisionState now rd wr candidate file =
     UpdateState now rd wr (\<lambda>current. Inr (checkpoint candidate current)) file"

section \<open>Facts\<close>

lemma save_result:
  "saveStateUnlocked now wr s old = (err, new) \<Longrightarrow>
     (err \<noteq> None \<and> new = old) \<or> (err = None \<and> (\<exists>n. new = StateFile n ''''
        \<and> StateNamespace n = StateNamespace s \<and> StateServer n = StateServer s \<and> TailscaleIn n = TailscaleIn s
        \<and> CloudflareIn n = CloudflareIn s \<and> IngressIn n = IngressIn s \<and> CID (ComputeIn n) = CID (ComputeIn s)))"
  by (auto simp: saveStateUnlocked_def normalize_state_def persisted_def Let_def split: sum.splits option.splits)

lemma checkpoint_fields [simp]:
  "StateNamespace (checkpoint c s) = StateNamespace c" "StateServer (checkpoint c s) = StateServer c"
  "TailscaleIn (checkpoint c s) = TailscaleIn c" "CloudflareIn (checkpoint c s) = CloudflareIn c"
  "IngressIn (checkpoint c s) = IngressIn s" "CID (ComputeIn (checkpoint c s)) = CID (ComputeIn c)"
  by (simp_all add: checkpoint_def Let_def)

end
