(* ===== verification/Provision.thy ===== *)
theory Provision
  imports State_Model Config_Model Credentials_Store Mesh_Device Tunnel_Preflight
begin

text \<open>
  Creating a server (internal/lifecycle: provision*.go, admin_password.go, image_users.go,
  openssh.go and reboot_gate.go as far as they decide whether a remote step runs). A run carries the
  state in memory, the state file and the log of every call that leaves the process; the clients answer
  the calls. Remote scripts are named by what they do; their shell text is not modelled, and the
  cloud-init template is a parameter.
\<close>

section \<open>Clients and the log\<close>

datatype deletion = Deleted | AlreadyGone | DeletionFailed string   \<comment> \<open>\<open>AlreadyGone\<close>: status 404\<close>

datatype remote_script =
    ProbeTrue | SetAdminPassword | RemoveImageUsers | InstallTunnel string | InstallTools | EgressLockdown
  | InstallRebootGate | DisableOpenSSH

datatype remote_answer = Ran | RunFailed string bool   \<comment> \<open>the error text, and whether it is \<open>ErrAutomationNodeNotReady\<close>\<close>

datatype event =
    EvEnsurePolicy | EvListTunnels | EvCreateTunnel string Tunnel | EvDeleteTunnel string deletion
  | EvDeleteKey string deletion | EvMintKey AuthKey | EvSave State "state_error option" | EvValidatePolicy
  | EvCreateServer CreateServerRequest ServerRecord | EvWaitDevice DeviceQuery Device | EvRemote string remote_script

text \<open>
  \<open>Probe\<close> holds the answers of the runs that wait for the host, in order, until the deadline;
  \<open>Runner\<close> is \<open>None\<close> for a nil runner. \<open>SaveFault\<close> are the read and write errors of the
  n-th save, \<open>DeleteAuthKey\<close> the answer of the n-th key deletion.
\<close>

record clients =
  EnsurePolicy :: "(string, PolicyChange) result"
  ListTunnels :: "(string, Tunnel list) result"
  CreateTunnel :: "string \<Rightarrow> (string, Tunnel) result"
  DeleteTunnel :: "string \<Rightarrow> deletion"
  TunnelToken :: "string \<Rightarrow> (string, string) result"
  TunnelIngress :: "(string \<Rightarrow> (string, TunnelRemoteConfig) result) option"   \<comment> \<open>\<open>None\<close>: no Cloudflare client\<close>
  CreateAuthKey :: "(string, AuthKey) result"
  DeleteAuthKey :: "nat \<Rightarrow> deletion"
  ValidatePolicy :: "string option"
  ComputeClient :: "string option"   \<comment> \<open>\<open>None\<close>: no compute client\<close>
  CreateServer :: "CreateServerRequest \<Rightarrow> ServerRecord \<times> string Diagnostic list"
  ImageDefaultUsers :: "string list"
  WaitForDevice :: "DeviceQuery \<Rightarrow> (string, Device) result"
  Runner :: "(remote_script \<Rightarrow> remote_answer) option"
  Probe :: "remote_answer \<times> remote_answer list"
  ProtectedInput :: bool   \<comment> \<open>the runner is an \<open>InputRunner\<close>\<close>
  RenderUserData :: "Config \<Rightarrow> string \<Rightarrow> (string, string) result"
  ParseURL :: "string \<Rightarrow> parsed_url option"
  ParseTime :: "string \<Rightarrow> int option"
  SaveFault :: "nat \<Rightarrow> string option \<times> string option"
  Now :: int

record options =
  OptConfig :: Config
  OptAccount :: Account
  OptCreds :: Set
  OptPassword :: string

record run =
  St :: State
  File :: state_file
  Log :: "event list"

datatype failure =
    StateFailure state_error | TailnetConflict string string | NoComputeProvider | ClientFailure string
  | TunnelAmbiguous string | TunnelListFailed string | TunnelCheckpointFailed state_error
  | TunnelRollbackFailed state_error string | UserKeyRefused | TokenRequired | PasswordRefused | RenderFailed string
  | ComputeFailed "(string \<times> string option) list" | PartialInvalid "(string \<times> string option) list" string string
  | PartialCheckpoint "(string \<times> string option) list" state_error | RecordInvalid string string
  | SudoRejected string | HostNotReady string | NoProtectedInput | ImageUserRefused string | RemoteFailed string
  | LockdownUnreachable | RebootGateUnreachable | OpenSSHUnreachable | OpenSSHPreflight preflight_error

type_synonym step = "run \<Rightarrow> failure option \<times> run"

definition event :: "event \<Rightarrow> run \<Rightarrow> run" where
  "event e r = r\<lparr>Log := Log r @ [e]\<rparr>"

fun is_save :: "event \<Rightarrow> bool" where "is_save (EvSave _ _) = True" | "is_save _ = False"
fun is_key_delete :: "event \<Rightarrow> bool" where "is_key_delete (EvDeleteKey _ _) = True" | "is_key_delete _ = False"

text \<open>One save of the state in memory: \<open>saveProvisionState\<close> on the file.\<close>

definition save :: "clients \<Rightarrow> run \<Rightarrow> state_error option \<times> run" where
  "save c r =
     (case SaveFault c (length (filter is_save (Log r))) of (rd, wr) \<Rightarrow>
      (case saveProvisionState (Now c) rd wr (St r) (File r) of (e, f) \<Rightarrow>
        (e, event (EvSave (St r) e) (r\<lparr>File := f\<rparr>))))"

definition save_step :: "clients \<Rightarrow> step" where
  "save_step c r = (case save c r of (e, r') \<Rightarrow> (map_option StateFailure e, r'))"

section \<open>Initialisation\<close>

definition resolveComputeAccount :: "Account \<Rightarrow> string \<Rightarrow> Account" where
  "resolveComputeAccount account provider =
     (let a = (if AccountName account = '''' then account\<lparr>AccountName := ''default''\<rparr> else account)
      in if AccountProvider a = '''' then a\<lparr>AccountProvider := provider\<rparr> else a)"

definition hasStableTailnetIdentity :: "string \<Rightarrow> bool" where
  "hasStableTailnetIdentity tailnet \<longleftrightarrow> tailnet \<noteq> '''' \<and> tailnet \<noteq> TokenDefaultTailnet"

definition fresh_state :: "Config \<Rightarrow> string \<Rightarrow> State" where
  "fresh_state cfg provider =
     zero_state\<lparr>StateNamespace := ConfigNamespace cfg, StateServer := ConfigServer cfg,
       StateLabels := labels_of (ComputeLabels (ComputeOf cfg)),
       ComputeIn := no_compute\<lparr>CProvider := provider\<rparr>, TailscaleIn := no_tailscale\<lparr>TsTailnet := Tailnet (tailscale_of cfg)\<rparr>\<rparr>"

text \<open>The answers of the file system to the init calls, in the order of the calls.\<close>

record init_faults =
  ExistsFault :: "string option"
  FirstWrite :: "string option"
  FirstRead :: "string option"
  UpdateRead :: "string option"
  UpdateWrite :: "string option"
  SecondRead :: "string option"

definition migrate_state :: "Config \<Rightarrow> string \<Rightarrow> bool \<Rightarrow> State \<Rightarrow> (string, State) result" where
  "migrate_state cfg provider needsMigration current0 =
     (let current = (if CProvider (ComputeIn current0) = '''' \<and> provider \<noteq> ''''
                     then current0\<lparr>ComputeIn := (ComputeIn current0)\<lparr>CProvider := provider\<rparr>\<rparr> else current0);
          tailnet = TsTailnet (TailscaleIn current); want = Tailnet (tailscale_of cfg)
      in if \<not> needsMigration then Inr current
         else if hasStableTailnetIdentity tailnet \<and> tailnet \<noteq> want then Inl ''state tailnet conflicts with config tailnet''
         else Inr (current\<lparr>TailscaleIn := (TailscaleIn current)\<lparr>TsTailnet := want\<rparr>\<rparr>))"

definition config_target :: "Config \<Rightarrow> Target" where
  "config_target cfg = \<lparr>TargetNamespace = ConfigNamespace cfg, TargetServer = ConfigServer cfg,
     ComputeServerName = ComputeName (ComputeOf cfg), CloudflareTunnelName = TunnelName (tunnel_of cfg)\<rparr>"

definition initializeProvisionState ::
  "int \<Rightarrow> init_faults \<Rightarrow> Config \<Rightarrow> string \<Rightarrow> state_file \<Rightarrow> failure option \<times> State \<times> state_file" where
  "initializeProvisionState now f cfg provider file =
     (let st = fresh_state cfg provider in
      case ExistsFault f of Some e \<Rightarrow> (Some (StateFailure (StateReadFailed e)), st, file)
      | None \<Rightarrow>
        if file = NoState then
          (case saveStateUnlocked now (FirstWrite f) st file of (e, file') \<Rightarrow> (map_option StateFailure e, st, file'))
        else (case LoadState (FirstRead f) file of Inl e \<Rightarrow> (Some (StateFailure e), st, file)
          | Inr loaded \<Rightarrow>
            (case ValidateTarget (config_target cfg) loaded of Some e \<Rightarrow> (Some (StateFailure e), st, file)
             | None \<Rightarrow>
               (let have_tn = TsTailnet (TailscaleIn loaded); want = Tailnet (tailscale_of cfg);
                    needsMigration = (StateSchema loaded = 0 \<or> CreatedAt loaded = 0 \<or> have_tn \<noteq> want);
                    needsProvider = (CProvider (ComputeIn loaded) = '''' \<and> provider \<noteq> '''') in
                if hasStableTailnetIdentity have_tn \<and> have_tn \<noteq> want then (Some (TailnetConflict have_tn want), st, file)
                else if \<not> needsMigration \<and> \<not> needsProvider then (None, loaded, file)
                else (case UpdateState now (UpdateRead f) (UpdateWrite f) (migrate_state cfg provider needsMigration) file of
                    (Some e, file') \<Rightarrow> (Some (StateFailure e), st, file')
                  | (None, file') \<Rightarrow> (case LoadState (SecondRead f) file' of
                      Inl e \<Rightarrow> (Some (StateFailure e), zero_state, file') | Inr s \<Rightarrow> (None, s, file')))))))"

section \<open>Tailscale steps\<close>

fun appendMissingStrings :: "string list \<Rightarrow> string list \<Rightarrow> string list" where
  "appendMissingStrings out [] = out"
| "appendMissingStrings out (a # as) = appendMissingStrings (if a \<in> set out then out else out @ [a]) as"

definition RecordTailscalePolicyChange :: "Config \<Rightarrow> PolicyChange \<Rightarrow> State \<Rightarrow> State" where
  "RecordTailscalePolicyChange cfg change st =
     (let t = TailscaleIn st;
          owners = filter (\<lambda>tag. tag \<noteq> AutomationSourceTag) (TagOwners change);
          t1 = t\<lparr>TsPolicyTagOwners := appendMissingStrings (TsPolicyTagOwners t) owners\<rparr>;
          t2 = (if SSHRuleChanged change \<or> TsPolicySSHRule t1
                then t1\<lparr>TsPolicySSHRule := True, TsPolicySSHTags := SSHRuleTags (tailscale_of cfg)\<rparr> else t1);
          t3 = t2\<lparr>TsPolicySSHAutomationSource := AutomationSource (tailscale_of cfg)\<rparr>;
          t4 = (if TsPolicySSHAutomationSource t3 \<noteq> '''' \<and> TsPolicySSHTags t3 = []
                then t3\<lparr>TsPolicySSHTags := SSHRuleTags (tailscale_of cfg)\<rparr> else t3)
      in st\<lparr>TailscaleIn := t4\<rparr>)"

definition ensureTailscalePolicy :: "clients \<Rightarrow> Set \<Rightarrow> Config \<Rightarrow> step" where
  "ensureTailscalePolicy c creds cfg r =
     (if TailscaleToken creds = '''' then (None, r)
      else (let r1 = event EvEnsurePolicy r in
        case EnsurePolicy c of Inl e \<Rightarrow> (Some (ClientFailure e), r1)
        | Inr change \<Rightarrow>
            (let before = TailscaleIn (St r1); r2 = r1\<lparr>St := RecordTailscalePolicyChange cfg change (St r1)\<rparr>;
                 after = TailscaleIn (St r2) in
             if \<not> Changed change \<and> TsPolicySSHAutomationSource before = TsPolicySSHAutomationSource after
                \<and> TsPolicySSHTags before = TsPolicySSHTags after
             then (None, r2) else save_step c r2)))"

text \<open>\<open>cleanupProvisionAuthKey\<close>.\<close>

definition cleanupProvisionAuthKey :: "clients \<Rightarrow> string \<Rightarrow> step" where
  "cleanupProvisionAuthKey c keyID r =
     (if keyID = '''' then (None, r)
      else (let d = DeleteAuthKey c (length (filter is_key_delete (Log r))); r1 = event (EvDeleteKey keyID d) r in
        case d of DeletionFailed e \<Rightarrow> (Some (ClientFailure e), r1)
        | _ \<Rightarrow> save_step c (r1\<lparr>St := (St r1)\<lparr>TailscaleIn := (TailscaleIn (St r1))\<lparr>TsAuthKeyID := ''''\<rparr>\<rparr>\<rparr>)))"

definition tailscaleAuthKey :: "clients \<Rightarrow> Set \<Rightarrow> run \<Rightarrow> (failure, AuthKey) result \<times> run" where
  "tailscaleAuthKey c creds r =
     (if TSAuthKey creds \<noteq> '''' then (Inl UserKeyRefused, r)
      else if TailscaleToken creds = '''' then (Inl TokenRequired, r)
      else (case CreateAuthKey c of Inl e \<Rightarrow> (Inl (ClientFailure e), r) | Inr k \<Rightarrow> (Inr k, event (EvMintKey k) r)))"

definition authKeyCreatedAt :: "clients \<Rightarrow> AuthKey \<Rightarrow> int" where
  "authKeyCreatedAt c k = (case ParseTime c (KeyCreated k) of None \<Rightarrow> Now c - 300 * time_Second | Some t \<Rightarrow> t)"

definition validateTailscaleSSHPolicy :: "clients \<Rightarrow> Set \<Rightarrow> step" where
  "validateTailscaleSSHPolicy c creds r =
     (if TailscaleToken creds = '''' then (None, r)
      else (map_option ClientFailure (ValidatePolicy c), event EvValidatePolicy r))"

definition bestName :: "Device \<Rightarrow> string" where
  "bestName d = (if DeviceName d \<noteq> '''' then DeviceName d else Hostname d)"

definition waitTailscaleDevice :: "clients \<Rightarrow> Set \<Rightarrow> Config \<Rightarrow> step" where
  "waitTailscaleDevice c creds cfg r =
     (if TailscaleToken creds = '''' then (None, r)
      else (let t = TailscaleIn (St r);
                q = ManagedDeviceQuery (ComputeName (ComputeOf cfg)) (Tags (tailscale_of cfg)) (TsNodeID t) (TsAuthKeyCreatedAt t) in
        case WaitForDevice c q of Inl e \<Rightarrow> (Some (ClientFailure e), r)
        | Inr dev \<Rightarrow> save_step c ((event (EvWaitDevice q dev) r)
            \<lparr>St := (St r)\<lparr>TailscaleIn := t\<lparr>TsNodeID := StableID dev, TsName := bestName dev, TsIPs := Addresses dev,
               TsTags := DeviceTags dev, TsAuthKeyCreatedAt := 0\<rparr>\<rparr>\<rparr>)))"

section \<open>Tunnel and server\<close>

definition ensureCloudflareTunnel :: "clients \<Rightarrow> Config \<Rightarrow> step" where
  "ensureCloudflareTunnel c cfg r =
     (if \<not> TunnelEnabled (tunnel_of cfg) \<or> TunnelID (CloudflareIn (St r)) \<noteq> '''' then (None, r)
      else (let name = TunnelName (tunnel_of cfg); r1 = event EvListTunnels r in
        case ListTunnels c of Inl e \<Rightarrow> (Some (TunnelListFailed e), r1)
        | Inr tunnels \<Rightarrow>
          (case MatchTunnelByName tunnels name of Inl n \<Rightarrow> (Some (TunnelAmbiguous n), r1)
           | Inr found \<Rightarrow>
             (case (case found of Some t \<Rightarrow> Inr (t, r1, CloudflareTunnelAdopted)
                    | None \<Rightarrow> (case CreateTunnel c name of Inl e \<Rightarrow> Inl e
                        | Inr t \<Rightarrow> Inr (t, event (EvCreateTunnel name t) r1, CloudflareTunnelCreated))) of
                Inl e \<Rightarrow> (Some (ClientFailure e), r1)
              | Inr (t, r2, provenance) \<Rightarrow>
                (case save c (r2\<lparr>St := (St r2)\<lparr>CloudflareIn := \<lparr>TunnelID = TunnelIDOf t, TunnelStateName = TunnelNameOf t,
                      Provenance = provenance\<rparr>\<rparr>\<rparr>) of
                   (None, r3) \<Rightarrow> (None, r3)
                 | (Some e, r3) \<Rightarrow>
                    if found \<noteq> None then (Some (TunnelCheckpointFailed e), r3)
                    else (let d = DeleteTunnel c (TunnelIDOf t); r4 = event (EvDeleteTunnel (TunnelIDOf t) d) r3 in
                      case d of DeletionFailed m \<Rightarrow> (Some (TunnelRollbackFailed e m), r4)
                      | _ \<Rightarrow> (Some (TunnelCheckpointFailed e), r4)))))))"

definition computeIntent :: "Config \<Rightarrow> ServerIntent" where
  "computeIntent cfg =
     (let k = ComputeOf cfg in
      \<lparr>IntentNamespace = ConfigNamespace cfg, IntentServer = ConfigServer cfg, IntentName = ComputeName k,
       IntentLocation = ComputeLocation k, IntentSize = ComputeSize k, IntentImage = ComputeImage k,
       IntentLabels = ProviderLabels (ConfigNamespace cfg) (ConfigServer cfg) (labels_of (ComputeLabels k))\<rparr>)"

definition create_request :: "Config \<Rightarrow> Account \<Rightarrow> string \<Rightarrow> State \<Rightarrow> CreateServerRequest" where
  "create_request cfg account userData st =
     \<lparr>CreateAccount = account, Intent = computeIntent cfg, BootstrapData = userData,
      CreateResources = CManagedResources (ComputeIn st), CreateProviderState = gm_copy [] (CProviderState (ComputeIn st))\<rparr>"

definition applyComputeRecord :: "ServerRecord \<Rightarrow> State \<Rightarrow> (string \<times> string, State) result" where
  "applyComputeRecord rec st =
     bindR (CanonicalManagedResources (RecordResources rec) (RecordProviderState rec)) (\<lambda>(resources, providerState).
       Inr (st\<lparr>StateNamespace := RecordNamespace rec, StateServer := RecordServer rec,
         ComputeIn := \<lparr>CProvider = Provider rec, CAccount = '''', CNamespace = RecordNamespace rec, CServer = RecordServer rec,
           CID = RecordID rec, CName = RecordName rec, CLocation = RecordLocation rec, CSize = RecordSize rec,
           CImage = RecordImage rec, CPublicIPv4 = PublicIPv4 rec, CPublicIPv6 = PublicIPv6 rec,
           CManagedResources = resources, CProviderState = providerState\<rparr>\<rparr>))"

definition err_list :: "string Diagnostic list \<Rightarrow> (string \<times> string option) list" where
  "err_list ds = (case Err ds of None \<Rightarrow> [] | Some l \<Rightarrow> l)"

definition ensureComputeServer :: "clients \<Rightarrow> Config \<Rightarrow> Account \<Rightarrow> string \<Rightarrow> step" where
  "ensureComputeServer c cfg account userData r =
     (if CID (ComputeIn (St r)) \<noteq> '''' then (None, r)
      else (let q = create_request cfg account userData (St r) in
        case CreateServer c q of (rec, ds) \<Rightarrow>
          (let r1 = event (EvCreateServer q rec) r in
           if \<not> Passed ds then
             (if RecordID rec \<noteq> '''' \<or> RecordResources rec \<noteq> [] \<or> RecordProviderState rec \<noteq> [] then
                (case applyComputeRecord rec (St r1) of
                   Inl (a, b) \<Rightarrow> (Some (PartialInvalid (err_list ds) a b), r1)
                 | Inr st \<Rightarrow> (case save c (r1\<lparr>St := st\<rparr>) of
                     (Some e, r2) \<Rightarrow> (Some (PartialCheckpoint (err_list ds) e), r2)
                   | (None, r2) \<Rightarrow> (Some (ComputeFailed (err_list ds)), r2)))
              else (Some (ComputeFailed (err_list ds)), r1))
           else (case applyComputeRecord rec (St r1) of
               Inl (a, b) \<Rightarrow> (Some (RecordInvalid a b), r1)
             | Inr st \<Rightarrow> save_step c (r1\<lparr>St := st\<rparr>)))))"

section \<open>Remote steps\<close>

text \<open>\<open>strings.ToLower\<close> as far as a search for ASCII text sees it.\<close>

definition lower_rune :: "nat \<times> string \<Rightarrow> string" where
  "lower_rune rb =
     (if 65 \<le> fst rb \<and> fst rb \<le> 90 then [char_of (fst rb + 32)]
      else if fst rb = 0x130 then ''i'' else if fst rb = 0x212A then ''k'' else snd rb)"

definition ToLower :: "string \<Rightarrow> string" where
  "ToLower s = concat (map lower_rune (go_chunks s))"

fun contains :: "string \<Rightarrow> string \<Rightarrow> bool" where
  "contains [] p = (p = [])"
| "contains (c # s) p = (has_prefix (c # s) p \<or> contains s p)"

definition sudoAuthError :: "string \<Rightarrow> bool" where
  "sudoAuthError err =
     list_ex (contains (ToLower err))
       [''sudo password required'', ''bad sudo password'', ''sorry, try again'', ''incorrect password'',
        ''authentication failure'', ''no password was provided'', ''a password is required'', ''a terminal is required'']"

text \<open>The wait for the host: the answer of one probe, and those of the probes the deadline still allows.\<close>

fun waitRemote :: "remote_answer \<Rightarrow> remote_answer list \<Rightarrow> failure option" where
  "waitRemote Ran rest = None"
| "waitRemote (RunFailed text not_ready) rest =
     (if sudoAuthError text then Some (SudoRejected text)
      else if not_ready then Some (HostNotReady text)
      else (case rest of [] \<Rightarrow> Some (HostNotReady ''deadline'') | a # rest' \<Rightarrow> waitRemote a rest'))"

definition host_of :: "clients \<Rightarrow> run \<Rightarrow> (string \<times> (remote_script \<Rightarrow> remote_answer)) option" where
  "host_of c r = (case Runner c of None \<Rightarrow> None
     | Some f \<Rightarrow> if TsName (TailscaleIn (St r)) = '''' then None else Some (TsName (TailscaleIn (St r)), f))"

definition run_remote :: "string \<Rightarrow> (remote_script \<Rightarrow> remote_answer) \<Rightarrow> remote_script \<Rightarrow> step" where
  "run_remote host f s r =
     (case f s of Ran \<Rightarrow> (None, event (EvRemote host s) r) | RunFailed e _ \<Rightarrow> (Some (RemoteFailed e), event (EvRemote host s) r))"

definition waitRemoteReady :: "clients \<Rightarrow> step" where
  "waitRemoteReady c r = (case host_of c r of None \<Rightarrow> (None, r)
     | Some (h, f) \<Rightarrow> (waitRemote (fst (Probe c)) (snd (Probe c)), event (EvRemote h ProbeTrue) r))"

definition setRemoteAdminPassword :: "clients \<Rightarrow> step" where
  "setRemoteAdminPassword c r = (case host_of c r of None \<Rightarrow> (None, r)
     | Some (h, f) \<Rightarrow> if \<not> ProtectedInput c then (Some NoProtectedInput, r) else run_remote h f SetAdminPassword r)"

text \<open>\<open>^[a-z_][a-z0-9_-]{0,31}$\<close>, and neither the admin nor root.\<close>

definition imageUserNamePattern :: "string \<Rightarrow> bool" where
  "imageUserNamePattern u \<longleftrightarrow> u \<noteq> '''' \<and> length u \<le> 32
     \<and> (isASCIILower (of_char (hd u)) \<or> hd u = CHR ''_'')
     \<and> list_all (\<lambda>c. isASCIILowerOrDigit (of_char c) \<or> c = CHR ''_'' \<or> c = CHR ''-'') (tl u)"

definition image_user_refused :: "string \<Rightarrow> string list \<Rightarrow> string option" where
  "image_user_refused admin users = find (\<lambda>u. \<not> imageUserNamePattern u \<or> u = admin \<or> u = ''root'') users"

definition removeImageUsers :: "clients \<Rightarrow> Config \<Rightarrow> step" where
  "removeImageUsers c cfg r =
     (if ImageDefaultUsers c = [] then (None, r)
      else (case host_of c r of None \<Rightarrow> (None, r)
        | Some (h, f) \<Rightarrow> (case image_user_refused (Username (AdminOf cfg)) (ImageDefaultUsers c) of
            Some u \<Rightarrow> (Some (ImageUserRefused u), r) | None \<Rightarrow> run_remote h f RemoveImageUsers r)))"

definition applyEgressLockdown :: "string \<Rightarrow> (remote_script \<Rightarrow> remote_answer) \<Rightarrow> Config \<Rightarrow> step" where
  "applyEgressLockdown h f cfg r =
     (if \<not> PhaseLockdownAfterBootstrap (NetworkEgress (NetworkOf cfg)) then (None, r)
      else run_remote h f EgressLockdown r)"

text \<open>The second step, when the first returned no error.\<close>

definition bind_step :: "step \<Rightarrow> step \<Rightarrow> step" where
  "bind_step f g r = (case f r of (Some e, r') \<Rightarrow> (Some e, r') | (None, r') \<Rightarrow> g r')"

definition bootstrapRemoteNetwork :: "clients \<Rightarrow> Config \<Rightarrow> step" where
  "bootstrapRemoteNetwork c cfg r =
     (case host_of c r of
        None \<Rightarrow> (if LockdownDue (NetworkEgress (NetworkOf cfg)) then Some LockdownUnreachable else None, r)
      | Some (h, f) \<Rightarrow>
          bind_step
            (\<lambda>r. if TunnelEnabled (tunnel_of cfg) \<and> TunnelID (CloudflareIn (St r)) \<noteq> ''''
                 then (case TunnelToken c (TunnelID (CloudflareIn (St r))) of Inl e \<Rightarrow> (Some (ClientFailure e), r)
                       | Inr tok \<Rightarrow> run_remote h f (InstallTunnel tok) r)
                 else (None, r))
            (bind_step (run_remote h f InstallTools) (applyEgressLockdown h f cfg)) r)"

definition installRebootGate :: "clients \<Rightarrow> Config \<Rightarrow> step" where
  "installRebootGate c cfg r =
     (if \<not> RebootEnabled (RebootOf cfg) then (None, r)
      else (case host_of c r of None \<Rightarrow> (Some RebootGateUnreachable, r) | Some (h, f) \<Rightarrow> run_remote h f InstallRebootGate r))"

definition disableOpenSSH :: "clients \<Rightarrow> Config \<Rightarrow> step" where
  "disableOpenSSH c cfg r =
     (if OpenSSH (AccessOf cfg) = OpenSSHEnabled then (None, r)
      else (case host_of c r of None \<Rightarrow> (Some OpenSSHUnreachable, r)
        | Some (h, f) \<Rightarrow>
            (case CheckTunnelSSHIngress (ParseURL c) (TunnelIngress c) (TunnelID (CloudflareIn (St r))) of
               Some e \<Rightarrow> (Some (OpenSSHPreflight e), r) | None \<Rightarrow> run_remote h f DisableOpenSSH r)))"

definition ValidateAdminPassword :: "string \<Rightarrow> bool" where
  "ValidateAdminPassword p \<longleftrightarrow> p \<noteq> '''' \<and> CHR 0x0D \<notin> set p \<and> CHR 0x0A \<notin> set p"

definition completeProvision :: "clients \<Rightarrow> step" where
  "completeProvision c r =
     save_step c (r\<lparr>St := (St r)\<lparr>Validations := Validations (St r)
       @ [\<lparr>ValidationTime = Now c, Summary = ''provision completed; run doctor for full matrix'', ValidationPassed = True\<rparr>]\<rparr>\<rparr>)"

section \<open>The run\<close>

datatype phase =
    Initialize | TailscalePolicy | CloudflareTunnelPhase | TailscaleAuthKey | TailscalePolicyValidation | BootstrapRender
  | ComputePhase | TailscaleDevice | RemoteReady | RemoteAdminPassword | RemoteImageUsers | RemoteBootstrap
  | RemoteRebootGate | RemoteOpenSSH | Complete

record ProvisionResources =
  ResComputeID :: string
  ResManaged :: "ManagedResourceRef list"
  ResTunnelID :: string
  ResAuthKeyID :: string
  ResNodeID :: string

record ProvisionError =
  Phase :: phase
  Resources :: ProvisionResources
  Cause :: failure

definition newProvisionError :: "phase \<Rightarrow> State \<Rightarrow> failure \<Rightarrow> ProvisionError" where
  "newProvisionError p st e =
     \<lparr>Phase = p, Resources = \<lparr>ResComputeID = CID (ComputeIn st), ResManaged = CManagedResources (ComputeIn st),
        ResTunnelID = TunnelID (CloudflareIn st), ResAuthKeyID = TsAuthKeyID (TailscaleIn st), ResNodeID = TsNodeID (TailscaleIn st)\<rparr>,
      Cause = e\<rparr>"

text \<open>A step as a phase: its error carries the resources known at that moment.\<close>

type_synonym phase_step = "run \<Rightarrow> ProvisionError option \<times> run"

definition in_phase :: "phase \<Rightarrow> step \<Rightarrow> phase_step" where
  "in_phase p f r = (case f r of (e, r') \<Rightarrow> (map_option (newProvisionError p (St r')) e, r'))"

fun phases :: "(phase \<times> step) list \<Rightarrow> phase_step" where
  "phases [] r = (None, r)"
| "phases ((p, f) # fs) r = (case in_phase p f r of (Some e, r') \<Rightarrow> (Some e, r') | (None, r') \<Rightarrow> phases fs r')"

text \<open>
  The bootstrap key of a server that does not exist yet: the result is the error, the key, its
  identifier, and whether its deletion is deferred to the end of the run.
\<close>

definition mint_key :: "clients \<Rightarrow> options \<Rightarrow> run \<Rightarrow> failure option \<times> string \<times> string \<times> bool \<times> run" where
  "mint_key c opt r =
     (let keyID = TsAuthKeyID (TailscaleIn (St r)) in
      if CID (ComputeIn (St r)) \<noteq> '''' then (None, '''', keyID, False, r)
      else (case cleanupProvisionAuthKey c keyID r of
        (Some e, r1) \<Rightarrow> (Some e, '''', keyID, False, r1)
      | (None, r1) \<Rightarrow> (case tailscaleAuthKey c (OptCreds opt) r1 of
          (Inl e, r2) \<Rightarrow> (Some e, '''', keyID, False, r2)
        | (Inr k, r2) \<Rightarrow>
            (let r3 = r2\<lparr>St := (St r2)\<lparr>TailscaleIn := (TailscaleIn (St r2))\<lparr>TsAuthKeyCreatedAt := authKeyCreatedAt c k\<rparr>\<rparr>\<rparr> in
             if KeyID k = '''' then (None, KeyText k, '''', False, r3)
             else (case save_step c (r3\<lparr>St := (St r3)\<lparr>TailscaleIn := (TailscaleIn (St r3))\<lparr>TsAuthKeyID := KeyID k\<rparr>\<rparr>\<rparr>) of
                (e, r4) \<Rightarrow> (e, KeyText k, KeyID k, True, r4))))))"

definition check_password :: "options \<Rightarrow> step" where
  "check_password opt r = (if ValidateAdminPassword (OptPassword opt) then None else Some PasswordRefused, r)"

text \<open>Rendering the user data and creating the server; \<open>needs\<close> as it was before the key was minted.\<close>

definition before_server :: "clients \<Rightarrow> options \<Rightarrow> bool \<Rightarrow> string \<Rightarrow> (phase \<times> step) list" where
  "before_server c opt needs key =
     [(TailscalePolicyValidation, validateTailscaleSSHPolicy c (OptCreds opt)),
      (BootstrapRender, check_password opt),
      (BootstrapRender, \<lambda>r. if needs then (case RenderUserData c (OptConfig opt) key of Inl e \<Rightarrow> (Some (RenderFailed e), r)
                                          | Inr _ \<Rightarrow> (None, r)) else (None, r))]"

definition user_data :: "clients \<Rightarrow> options \<Rightarrow> bool \<Rightarrow> string \<Rightarrow> string" where
  "user_data c opt needs key =
     (if needs then (case RenderUserData c (OptConfig opt) key of Inl _ \<Rightarrow> '''' | Inr d \<Rightarrow> d) else '''')"

definition after_server :: "clients \<Rightarrow> options \<Rightarrow> (phase \<times> step) list" where
  "after_server c opt =
     [(TailscaleDevice, waitTailscaleDevice c (OptCreds opt) (OptConfig opt)),
      (RemoteReady, waitRemoteReady c), (RemoteAdminPassword, setRemoteAdminPassword c),
      (RemoteImageUsers, removeImageUsers c (OptConfig opt)), (RemoteBootstrap, bootstrapRemoteNetwork c (OptConfig opt)),
      (RemoteRebootGate, installRebootGate c (OptConfig opt)), (RemoteOpenSSH, disableOpenSSH c (OptConfig opt))]"

text \<open>
  \<open>Run\<close>: the error, the returned state, and the run as the deferred deletion leaves it. The state is
  returned before the deferred deletion runs.
\<close>

definition finish :: "clients \<Rightarrow> bool \<Rightarrow> string \<Rightarrow> ProvisionError option \<times> run \<Rightarrow> ProvisionError option \<times> State \<times> run" where
  "finish c armed keyID er =
     (case er of (e, r) \<Rightarrow> (e, St r, if armed then snd (cleanupProvisionAuthKey c keyID r) else r))"

definition run_with_key ::
  "clients \<Rightarrow> options \<Rightarrow> Account \<Rightarrow> bool \<Rightarrow> string \<Rightarrow> string \<Rightarrow> bool \<Rightarrow> run \<Rightarrow> ProvisionError option \<times> State \<times> run" where
  "run_with_key c opt account needs key keyID armed r =
     (case phases (before_server c opt needs key
             @ [(ComputePhase, ensureComputeServer c (OptConfig opt) account (user_data c opt needs key))]
             @ after_server c opt) r of
        (Some e, r1) \<Rightarrow> finish c armed keyID (Some e, r1)
      | (None, r1) \<Rightarrow>
          (case cleanupProvisionAuthKey c keyID r1 of (e, r2) \<Rightarrow>
            finish c armed (if e = None then '''' else keyID) (in_phase Complete (completeProvision c) r2)))"

definition Run :: "clients \<Rightarrow> init_faults \<Rightarrow> options \<Rightarrow> state_file \<Rightarrow> ProvisionError option \<times> State \<times> run" where
  "Run c f opt file =
     (case ComputeClient c of
        None \<Rightarrow> (Some (newProvisionError ComputePhase zero_state NoComputeProvider), zero_state, \<lparr>St = zero_state, File = file, Log = []\<rparr>)
      | Some name \<Rightarrow>
          (let cfg = OptConfig opt; account = resolveComputeAccount (OptAccount opt) name in
           case initializeProvisionState (Now c) f cfg (AccountProvider account) file of
             (Some e, st, file1) \<Rightarrow> (Some (newProvisionError Initialize st e), st, \<lparr>St = st, File = file1, Log = []\<rparr>)
           | (None, st, file1) \<Rightarrow>
               (case phases [(TailscalePolicy, ensureTailscalePolicy c (OptCreds opt) cfg),
                             (CloudflareTunnelPhase, ensureCloudflareTunnel c cfg)] \<lparr>St = st, File = file1, Log = []\<rparr> of
                  (Some e, r) \<Rightarrow> (Some e, St r, r)
                | (None, r) \<Rightarrow>
                    (let needs = (CID (ComputeIn (St r)) = '''') in
                     case mint_key c opt r of
                       (Some e, key, keyID, armed, r1) \<Rightarrow>
                         finish c armed keyID (Some (newProvisionError TailscaleAuthKey (St r1) e), r1)
                     | (None, key, keyID, armed, r1) \<Rightarrow> run_with_key c opt account needs key keyID armed r1))))"

end
