(* ===== verification/Provision_Safety.thy ===== *)
theory Provision_Safety
  imports Provision
begin

text \<open>
  What a create run can leave behind. Each step of the run keeps what it is not about (frame lemmas),
  so the run is followed through the one step that creates a resource. The properties: every resource
  the run made is named by the state it returns or has been deleted, a server is created at most once and
  only behind a validated policy, and a run without error has hardened the host.
\<close>

section \<open>What the log says\<close>

fun made_tunnel :: "event \<Rightarrow> Tunnel list" where "made_tunnel (EvCreateTunnel _ t) = [t]" | "made_tunnel _ = []"
fun made_server :: "event \<Rightarrow> (CreateServerRequest \<times> ServerRecord) list" where
  "made_server (EvCreateServer q rec) = [(q, rec)]" | "made_server _ = []"
fun minted :: "event \<Rightarrow> AuthKey list" where "minted (EvMintKey k) = [k]" | "minted _ = []"
fun deleted_key :: "event \<Rightarrow> string list" where "deleted_key (EvDeleteKey k _) = [k]" | "deleted_key _ = []"

definition tunnels_made :: "event list \<Rightarrow> Tunnel list" where "tunnels_made l = concat (map made_tunnel l)"
definition servers_made :: "event list \<Rightarrow> (CreateServerRequest \<times> ServerRecord) list" where
  "servers_made l = concat (map made_server l)"
definition keys_minted :: "event list \<Rightarrow> AuthKey list" where "keys_minted l = concat (map minted l)"
definition keys_deleted :: "event list \<Rightarrow> string list" where "keys_deleted l = concat (map deleted_key l)"

lemmas made_defs = tunnels_made_def servers_made_def keys_minted_def keys_deleted_def

lemma made_append [simp]:
  "tunnels_made (l @ m) = tunnels_made l @ tunnels_made m" "servers_made (l @ m) = servers_made l @ servers_made m"
  "keys_minted (l @ m) = keys_minted l @ keys_minted m" "keys_deleted (l @ m) = keys_deleted l @ keys_deleted m"
  by (simp_all add: made_defs)

lemma made_Cons [simp]:
  "tunnels_made (e # l) = made_tunnel e @ tunnels_made l" "servers_made (e # l) = made_server e @ servers_made l"
  "keys_minted (e # l) = minted e @ keys_minted l" "keys_deleted (e # l) = deleted_key e @ keys_deleted l"
  by (simp_all add: made_defs)

lemma made_Nil [simp]: "tunnels_made [] = []" "servers_made [] = []" "keys_minted [] = []" "keys_deleted [] = []"
  by (simp_all add: made_defs)

section \<open>Frames\<close>

text \<open>From \<open>r\<close> to \<open>s\<close> no tunnel, server or key is created and neither is recorded otherwise.\<close>

definition harmless :: "event \<Rightarrow> bool" where
  "harmless e \<longleftrightarrow> made_tunnel e = [] \<and> made_server e = [] \<and> minted e = []"

definition quiet :: "run \<Rightarrow> run \<Rightarrow> bool" where
  "quiet r s \<longleftrightarrow> CloudflareIn (St s) = CloudflareIn (St r) \<and> ComputeIn (St s) = ComputeIn (St r)
     \<and> (\<exists>evs. Log s = Log r @ evs \<and> list_all harmless evs)"

lemma event_simps [simp]: "St (event e r) = St r" "Log (event e r) = Log r @ [e]"
  by (simp_all add: event_def)

lemma save_frame:
  assumes "save c r = (e, r')"
  shows "St r' = St r \<and> Log r' = Log r @ [EvSave (St r) e]"
  using assms by (auto simp: save_def event_def split: prod.splits)

lemma save_step_frame: "St (snd (save_step c r)) = St r \<and> (\<exists>e. Log (snd (save_step c r)) = Log r @ [EvSave (St r) e])"
  by (cases "save c r") (auto simp: save_step_def dest: save_frame)

lemma quiet_refl [simp]: "quiet r r"
  by (simp add: quiet_def)

lemma quiet_trans: "quiet r s \<Longrightarrow> quiet s t \<Longrightarrow> quiet r t"
  unfolding quiet_def by (metis append.assoc list_all_append)

lemma quiet_event: "quiet r s \<Longrightarrow> harmless e \<Longrightarrow> quiet r (event e s)"
  by (auto simp: quiet_def)

lemma quiet_St: "quiet r s \<Longrightarrow> CloudflareIn st = CloudflareIn (St s) \<Longrightarrow> ComputeIn st = ComputeIn (St s) \<Longrightarrow> quiet r (s\<lparr>St := st\<rparr>)"
  by (auto simp: quiet_def)

lemma quiet_save_step: "quiet r s \<Longrightarrow> quiet r (snd (save_step c s))"
  using save_step_frame [of c s] by (auto simp: quiet_def harmless_def)

lemmas quiet_intros = quiet_refl quiet_event quiet_St quiet_save_step

lemma harmless_events [simp]:
  "harmless EvEnsurePolicy" "harmless EvListTunnels" "harmless (EvDeleteTunnel i d)" "harmless (EvDeleteKey k d)"
  "harmless (EvSave st e)" "harmless EvValidatePolicy" "harmless (EvWaitDevice q dev)" "harmless (EvRemote h sc)"
  by (simp_all add: harmless_def)

lemma harmless_made: "list_all harmless evs \<Longrightarrow> tunnels_made evs = [] \<and> servers_made evs = [] \<and> keys_minted evs = []"
  by (induction evs) (auto simp: harmless_def)

lemma record_frame [simp]:
  "CloudflareIn (RecordTailscalePolicyChange cfg ch st) = CloudflareIn st"
  "ComputeIn (RecordTailscalePolicyChange cfg ch st) = ComputeIn st"
  by (simp_all add: RecordTailscalePolicyChange_def Let_def)

lemma quiet_policy: "quiet r (snd (ensureTailscalePolicy c creds cfg r))"
  by (simp add: ensureTailscalePolicy_def Let_def split: sum.split) (auto intro!: quiet_intros)

lemma quiet_cleanup: "quiet r (snd (cleanupProvisionAuthKey c k r))"
  by (simp add: cleanupProvisionAuthKey_def Let_def split: deletion.split) (auto intro!: quiet_intros)

lemma quiet_validate: "quiet r (snd (validateTailscaleSSHPolicy c creds r))"
  by (auto simp: validateTailscaleSSHPolicy_def intro!: quiet_intros)

lemma quiet_device: "quiet r (snd (waitTailscaleDevice c creds cfg r))"
  by (simp add: waitTailscaleDevice_def Let_def split: sum.split) (auto intro!: quiet_intros)

lemma quiet_remote: "quiet r (snd (run_remote h f s r))"
  by (auto simp: run_remote_def split: remote_answer.split intro!: quiet_intros)

lemma quiet_bind: "(\<And>r. quiet r (snd (f r))) \<Longrightarrow> (\<And>r. quiet r (snd (g r))) \<Longrightarrow> quiet r (snd (bind_step f g r))"
  by (auto simp: bind_step_def split: prod.split option.split) (metis quiet_trans snd_conv)+

lemma quiet_host_steps:
  "quiet r (snd (waitRemoteReady c r))" "quiet r (snd (setRemoteAdminPassword c r))"
  "quiet r (snd (removeImageUsers c cfg r))" "quiet r (snd (installRebootGate c cfg r))"
  "quiet r (snd (disableOpenSSH c cfg r))" "quiet r (snd (applyEgressLockdown h f cfg r))"
  by (auto simp: waitRemoteReady_def setRemoteAdminPassword_def removeImageUsers_def installRebootGate_def
      disableOpenSSH_def applyEgressLockdown_def split: option.split intro!: quiet_intros quiet_remote)

lemma quiet_bootstrap: "quiet r (snd (bootstrapRemoteNetwork c cfg r))"
  by (auto simp: bootstrapRemoteNetwork_def split: option.split sum.split
      intro!: quiet_bind quiet_remote quiet_host_steps)

lemma quiet_complete: "quiet r (snd (completeProvision c r))"
  by (auto simp: completeProvision_def intro!: quiet_intros)

lemma in_phase_snd: "snd (in_phase p f r) = snd (f r)"
  by (simp add: in_phase_def split: prod.split)

lemma quiet_phases: "list_all (\<lambda>(p, f). \<forall>r. quiet r (snd (f r))) fs \<Longrightarrow> quiet r (snd (phases fs r))"
proof (induction fs arbitrary: r)
  case (Cons pf fs)
  obtain p f where [simp]: "pf = (p, f)" by (cases pf)
  obtain e r1 where r1: "in_phase p f r = (e, r1)" by fastforce
  have "quiet r r1" using Cons.prems in_phase_snd [of p f r] by (simp add: r1)
  moreover have "quiet r1 (snd (phases fs r1))" using Cons by simp
  ultimately show ?case by (cases e) (auto simp: r1 intro: quiet_trans)
qed simp

lemma quiet_after_server: "quiet r (snd (phases (after_server c opt) r))"
  by (rule quiet_phases)
    (simp add: after_server_def quiet_device quiet_host_steps quiet_bootstrap)

lemma quiet_before_server: "quiet r (snd (phases (before_server c opt needs key) r))"
  by (rule quiet_phases)
    (simp add: before_server_def quiet_validate check_password_def split: sum.split)

section \<open>The steps that create\<close>

lemma tunnel_step:
  assumes "ensureCloudflareTunnel c cfg r = (e, s)"
  shows "ComputeIn (St s) = ComputeIn (St r) \<and> (\<exists>evs. Log s = Log r @ evs \<and> servers_made evs = [] \<and> keys_minted evs = []
    \<and> (tunnels_made evs = [] \<or> TunnelID (CloudflareIn (St r)) = ''''
         \<and> (\<exists>t. tunnels_made evs = [t] \<and> TunnelIDOf t = TunnelID (CloudflareIn (St s)))))"
  using assms
  by (auto simp: ensureCloudflareTunnel_def Let_def dest!: save_frame
      split: if_splits sum.splits option.splits prod.splits deletion.splits)

definition recorded :: "State \<Rightarrow> ServerRecord \<Rightarrow> bool" where
  "recorded st rec \<longleftrightarrow> RecordID rec = '''' \<or> CID (ComputeIn st) = RecordID rec
     \<or> (\<exists>e. CanonicalManagedResources (RecordResources rec) (RecordProviderState rec) = Inl e)"

lemma applied_record:
  "applyComputeRecord rec st = Inr st' \<Longrightarrow> CloudflareIn st' = CloudflareIn st \<and> CID (ComputeIn st') = RecordID rec"
  "applyComputeRecord rec st = Inl e \<Longrightarrow> \<exists>e. CanonicalManagedResources (RecordResources rec) (RecordProviderState rec) = Inl e"
  by (auto simp: applyComputeRecord_def bindR_def split: sum.splits)

lemma create_server_step:
  assumes "ensureComputeServer c cfg account ud r = (e, s)"
  shows "CloudflareIn (St s) = CloudflareIn (St r)
    \<and> (s = r \<or> CID (ComputeIn (St r)) = '''' \<and> (\<exists>q rec evs. Log s = Log r @ EvCreateServer q rec # evs
         \<and> list_all harmless evs \<and> recorded (St s) rec))"
proof (cases "CID (ComputeIn (St r)) = ''''")
  case False
  then show ?thesis using assms by (simp add: ensureComputeServer_def)
next
  case True
  obtain rec ds where cs: "CreateServer c (create_request cfg account ud (St r)) = (rec, ds)" by fastforce
  define r1 where "r1 = event (EvCreateServer (create_request cfg account ud (St r)) rec) r"
  have saved: "St s = st \<and> (\<exists>e. Log s = Log r1 @ [EvSave st e])" if "save_step c (r1\<lparr>St := st\<rparr>) = (e', s)" for st e'
    using save_step_frame [of c "r1\<lparr>St := st\<rparr>"] that by auto
  have saved': "St s = st \<and> (\<exists>e. Log s = Log r1 @ [EvSave st e])" if "save c (r1\<lparr>St := st\<rparr>) = (e', s)" for st e'
    using save_frame [OF that] by auto
  have run: "(if \<not> Passed ds then
      (if RecordID rec \<noteq> '''' \<or> RecordResources rec \<noteq> [] \<or> RecordProviderState rec \<noteq> [] then
         (case applyComputeRecord rec (St r1) of
            Inl (a, b) \<Rightarrow> (Some (PartialInvalid (err_list ds) a b), r1)
          | Inr st \<Rightarrow> (case save c (r1\<lparr>St := st\<rparr>) of
              (Some e, r2) \<Rightarrow> (Some (PartialCheckpoint (err_list ds) e), r2)
            | (None, r2) \<Rightarrow> (Some (ComputeFailed (err_list ds)), r2)))
       else (Some (ComputeFailed (err_list ds)), r1))
    else (case applyComputeRecord rec (St r1) of
        Inl (a, b) \<Rightarrow> (Some (RecordInvalid a b), r1) | Inr st \<Rightarrow> save_step c (r1\<lparr>St := st\<rparr>))) = (e, s)"
    using assms unfolding ensureComputeServer_def Let_def True cs prod.case r1_def [symmetric] by (simp only: simp_thms if_False)
  have "(s = r1 \<and> (RecordID rec = '''' \<or> (\<exists>e. applyComputeRecord rec (St r1) = Inl e)))
      \<or> (\<exists>st. applyComputeRecord rec (St r1) = Inr st \<and> St s = st \<and> (\<exists>e. Log s = Log r1 @ [EvSave st e]))"
  proof (cases "applyComputeRecord rec (St r1)")
    case (Inl x)
    then have "s = r1" using run by (cases x) (simp split: if_splits)
    then show ?thesis using Inl by blast
  next
    case (Inr st)
    obtain e1 r2 where sv: "save c (r1\<lparr>St := st\<rparr>) = (e1, r2)" by fastforce
    show ?thesis
    proof (cases "Passed ds")
      case True
      then have "save_step c (r1\<lparr>St := st\<rparr>) = (e, s)" using run Inr by simp
      then show ?thesis using saved Inr by blast
    next
      case False
      then have "s = r2 \<or> s = r1 \<and> RecordID rec = ''''" using run Inr sv by (cases e1) (simp_all split: if_splits)
      then show ?thesis using saved' sv Inr by blast
    qed
  qed
  
then have "CloudflareIn (St s) = CloudflareIn (St r) \<and> (\<exists>evs. Log s = Log r1 @ evs \<and> list_all harmless evs \<and> recorded (St s) rec)"
    using applied_record [of rec "St r1"] by (auto simp: recorded_def r1_def)
  then show ?thesis using True by (auto simp: r1_def)
qed

lemma cleanup_deletes:
  "k \<noteq> '''' \<Longrightarrow> k \<in> set (keys_deleted (Log (snd (cleanupProvisionAuthKey c k r))))"
proof -
  assume k: "k \<noteq> ''''"
  let ?d = "DeleteAuthKey c (length (filter is_key_delete (Log r)))"
  let ?r1 = "(event (EvDeleteKey k ?d) r)\<lparr>St := (St r)\<lparr>TailscaleIn := (TailscaleIn (St r))\<lparr>TsAuthKeyID := ''''\<rparr>\<rparr>\<rparr>"
  obtain e where "Log (snd (save_step c ?r1)) = Log r @ [EvDeleteKey k ?d, EvSave (St ?r1) e]"
    using save_step_frame [of c ?r1] by auto
  then show ?thesis using k by (cases ?d) (simp_all add: cleanupProvisionAuthKey_def Let_def)
qed

lemma mint_step:
  assumes "mint_key c opt r = (e, key, keyID, armed, s)"
  shows "CloudflareIn (St s) = CloudflareIn (St r) \<and> ComputeIn (St s) = ComputeIn (St r)
    \<and> (\<exists>evs. Log s = Log r @ evs \<and> tunnels_made evs = [] \<and> servers_made evs = []
        \<and> (keys_minted evs = [] \<or> (\<exists>k. keys_minted evs = [k] \<and> (KeyID k = '''' \<or> armed \<and> keyID = KeyID k)))
        \<and> (CID (ComputeIn (St r)) = '''' \<and> e = None \<longrightarrow> keys_minted evs \<noteq> [] \<and> TailscaleToken (OptCreds opt) \<noteq> ''''))"
proof (cases "CID (ComputeIn (St r)) = ''''")
  case False
  then show ?thesis using assms by (auto simp: mint_key_def Let_def)
next
  case True
  obtain e1 r1 where r1: "cleanupProvisionAuthKey c (TsAuthKeyID (TailscaleIn (St r))) r = (e1, r1)" by fastforce
  have q1: "quiet r r1" using quiet_cleanup [of r c "TsAuthKeyID (TailscaleIn (St r))"] by (simp add: r1)
  then obtain evs1 where l1: "Log r1 = Log r @ evs1" "list_all harmless evs1"
    and st1: "CloudflareIn (St r1) = CloudflareIn (St r)" "ComputeIn (St r1) = ComputeIn (St r)" by (auto simp: quiet_def)
  note h1 = harmless_made [OF l1(2)]
  show ?thesis
  proof (cases "e1 = None \<and> (\<exists>k r2. tailscaleAuthKey c (OptCreds opt) r1 = (Inr k, r2))")
    case False
    then have "Log s = Log r1 \<and> St s = St r1 \<and> e \<noteq> None"
      using assms True r1 by (auto simp: mint_key_def Let_def tailscaleAuthKey_def split: option.splits sum.splits if_splits)
    then show ?thesis using l1 st1 h1 by auto
  next
    case minted: True
    then obtain k where k: "CreateAuthKey c = Inr k" "TailscaleToken (OptCreds opt) \<noteq> ''''" "TSAuthKey (OptCreds opt) = ''''"
      by (auto simp: tailscaleAuthKey_def split: if_splits sum.splits)
    define r3 where "r3 = (event (EvMintKey k) r1)\<lparr>St := (St r1)\<lparr>TailscaleIn := (TailscaleIn (St r1))\<lparr>TsAuthKeyCreatedAt := authKeyCreatedAt c k\<rparr>\<rparr>\<rparr>"
    define r4 where "r4 = r3\<lparr>St := (St r3)\<lparr>TailscaleIn := (TailscaleIn (St r3))\<lparr>TsAuthKeyID := KeyID k\<rparr>\<rparr>\<rparr>"
    have m: "tailscaleAuthKey c (OptCreds opt) r1 = (Inr k, event (EvMintKey k) r1)" using k by (simp add: tailscaleAuthKey_def)
    have e1: "e1 = None" using minted by simp
    have run: "(if KeyID k = '''' then (None, KeyText k, '''', False, r3)
        else (case save_step c r4 of (e, r) \<Rightarrow> (e, KeyText k, KeyID k, True, r))) = (e, key, keyID, armed, s)"
      using assms unfolding mint_key_def Let_def True r1 e1 m prod.case option.case sum.case r4_def r3_def
      by (simp only: simp_thms if_False event_simps)
    then have a: "KeyID k = '''' \<or> armed \<and> keyID = KeyID k" by (auto split: if_splits prod.splits)
    have "s = r3 \<or> s = snd (save_step c r4)" using run by (cases "save_step c r4") (simp split: if_splits)
    then have q3: "quiet r3 s" by (auto simp: r4_def intro!: quiet_intros)
    then obtain evs3 where "Log s = Log r @ evs1 @ EvMintKey k # evs3" "list_all harmless evs3"
      "CloudflareIn (St s) = CloudflareIn (St r)" "ComputeIn (St s) = ComputeIn (St r)"
      using l1 st1 by (auto simp: quiet_def r3_def)
    then show ?thesis using h1 harmless_made [of evs3] a k by (intro conjI exI [of _ "evs1 @ EvMintKey k # evs3"]) auto
  qed
qed

section \<open>The run\<close>

definition names :: "State \<Rightarrow> ProvisionError \<Rightarrow> bool" where
  "names st e \<longleftrightarrow> ResComputeID (Resources e) = CID (ComputeIn st) \<and> ResManaged (Resources e) = CManagedResources (ComputeIn st)
     \<and> ResTunnelID (Resources e) = TunnelID (CloudflareIn st)"

lemma new_error_names [simp]: "names st (newProvisionError p st f)"
  by (simp add: names_def newProvisionError_def)

lemma phases_names: "phases fs r = (Some e, s) \<Longrightarrow> names (St s) e"
  by (induction fs r rule: phases.induct)
    (auto simp: in_phase_def split: prod.splits option.splits)

lemma phases_append:
  "phases (fs @ gs) r = (case phases fs r of (Some e, s) \<Rightarrow> (Some e, s) | (None, s) \<Rightarrow> phases gs s)"
  by (induction fs r rule: phases.induct) (auto split: prod.splits option.splits)

lemma finish_spec:
  assumes "finish c armed k (e, r) = (e', st, s)"
  shows "e' = e \<and> st = St r \<and> quiet r s \<and> (armed \<and> k \<noteq> '''' \<longrightarrow> k \<in> set (keys_deleted (Log s)))"
  using assms quiet_cleanup [of r c k] cleanup_deletes [of k c r] by (auto simp: finish_def)

text \<open>What happened before the server was created.\<close>

definition guarded :: "clients \<Rightarrow> options \<Rightarrow> event list \<Rightarrow> bool" where
  "guarded c opt pre \<longleftrightarrow> ValidateAdminPassword (OptPassword opt)
     \<and> (TailscaleToken (OptCreds opt) \<noteq> '''' \<longrightarrow> EvValidatePolicy \<in> set pre \<and> ValidatePolicy c = None)"

lemma before_server_guards:
  assumes "phases (before_server c opt needs key) r = (None, s)"
  shows "\<exists>pre. Log s = Log r @ pre \<and> list_all harmless pre \<and> guarded c opt pre \<and> St s = St r"
  using assms
  by (auto simp: before_server_def in_phase_def validateTailscaleSSHPolicy_def check_password_def guarded_def
      split: if_splits prod.splits option.splits sum.splits)

lemma quiet_body_tail:
  assumes "phases (after_server c opt) r = (e, s)"
  shows "quiet r s"
  using quiet_after_server [of r c opt] assms by simp

text \<open>The phases up to the readiness of the host, with the server in the middle.\<close>

definition served :: "clients \<Rightarrow> options \<Rightarrow> run \<Rightarrow> run \<Rightarrow> bool" where
  "served c opt r s \<longleftrightarrow> CloudflareIn (St s) = CloudflareIn (St r)
     \<and> (quiet r s \<or> CID (ComputeIn (St r)) = '''' \<and> (\<exists>pre q rec post. Log s = Log r @ pre @ EvCreateServer q rec # post
          \<and> list_all harmless pre \<and> list_all harmless post \<and> guarded c opt pre \<and> recorded (St s) rec))"

lemma served_quiet:
  assumes "served c opt r s" "quiet s t"
  shows "served c opt r t"
proof -
  obtain evs where evs: "Log t = Log s @ evs" "list_all harmless evs" and st: "CloudflareIn (St t) = CloudflareIn (St s)"
    "ComputeIn (St t) = ComputeIn (St s)" using assms(2) by (auto simp: quiet_def)
  show ?thesis
  proof (cases "quiet r s")
    case True
    then show ?thesis using assms by (auto simp: served_def st intro: quiet_trans)
  next
    case False
    with assms(1) obtain pre q rec post where p: "CID (ComputeIn (St r)) = ''''" "Log s = Log r @ pre @ EvCreateServer q rec # post"
      "list_all harmless pre" "list_all harmless post" "guarded c opt pre" "recorded (St s) rec" "CloudflareIn (St s) = CloudflareIn (St r)"
      by (auto simp: served_def)
    then have "Log t = Log r @ pre @ EvCreateServer q rec # (post @ evs)" "list_all harmless (post @ evs)" "recorded (St t) rec"
      using evs by (auto simp: recorded_def st)
    then show ?thesis using p st unfolding served_def
      by (intro conjI disjI2 exI [of _ pre] exI [of _ q] exI [of _ rec] exI [of _ "post @ evs"]) simp_all
  qed
qed

lemma body_served:
  assumes "phases (before_server c opt needs key @ [(ComputePhase, ensureComputeServer c cfg account ud)]
      @ after_server c opt) r = (e, s)"
  shows "served c opt r s"
proof -
  obtain e0 r0 where b: "phases (before_server c opt needs key) r = (e0, r0)" by fastforce
  have q0: "quiet r r0" using quiet_before_server [of r c opt needs key] by (simp add: b)
  show ?thesis
  proof (cases e0)
    case (Some x)
    then have "s = r0" using assms b by (simp add: phases_append)
    then show ?thesis using q0 by (simp add: served_def quiet_def)
  next
    case None
    obtain e1 r1 where sv: "ensureComputeServer c cfg account ud r0 = (e1, r1)" by fastforce
    obtain pre where pre: "Log r0 = Log r @ pre" "list_all harmless pre" "guarded c opt pre" "St r0 = St r"
      using before_server_guards b None by blast
    have s1: "served c opt r r1"
      using create_server_step [OF sv] pre q0 unfolding served_def by (auto simp: quiet_def)
    have "s = r1 \<or> phases (after_server c opt) r1 = (e, s)"
      using assms b None sv by (auto simp: phases_append in_phase_def split: option.splits prod.splits)
    then show ?thesis using s1 served_quiet [OF s1] quiet_body_tail by blast
  qed
qed

lemma run_with_key_spec:
  assumes "run_with_key c opt account needs key keyID armed r = (err, st, s)"
  shows "\<exists>u. served c opt r u \<and> St u = st \<and> quiet u s \<and> (\<forall>e. err = Some e \<longrightarrow> names st e)
    \<and> (armed \<and> keyID \<noteq> '''' \<longrightarrow> keyID \<in> set (keys_deleted (Log s)))"
proof -
  let ?fs = "before_server c opt needs key @ [(ComputePhase, ensureComputeServer c (OptConfig opt) account (user_data c opt needs key))]
      @ after_server c opt"
  obtain e1 r1 where b: "phases ?fs r = (e1, r1)" by fastforce
  have sv: "served c opt r r1" by (rule body_served [OF b])
  show ?thesis
  proof (cases e1)
    case (Some x)
    then have f: "finish c armed keyID (Some x, r1) = (err, st, s)" using assms b by (simp add: run_with_key_def)
    have "names (St r1) x" using phases_names b Some by blast
    then show ?thesis using finish_spec [OF f] sv by auto
  next
    case None
    obtain e2 r2 where cl: "cleanupProvisionAuthKey c keyID r1 = (e2, r2)" by fastforce
    obtain e3 r3 where cp: "in_phase Complete (completeProvision c) r2 = (e3, r3)" by fastforce
    have f: "finish c armed (if e2 = None then '''' else keyID) (e3, r3) = (err, st, s)"
      using assms b None cl cp by (simp add: run_with_key_def)
    have q2: "quiet r1 r2" using quiet_cleanup [of r1 c keyID] by (simp add: cl)
    have q3: "quiet r2 r3" using quiet_complete [of r2 c] in_phase_snd [of Complete "completeProvision c" r2] by (simp add: cp)
    have del: "keyID \<noteq> '''' \<Longrightarrow> keyID \<in> set (keys_deleted (Log r2))"
      using cleanup_deletes [of keyID c r1] by (simp add: cl)
    have "\<forall>e. e3 = Some e \<longrightarrow> names (St r3) e" using cp by (auto simp: in_phase_def split: prod.splits)
    moreover have "served c opt r r3" using served_quiet [OF served_quiet [OF sv q2] q3] .
    moreover have "keyID \<noteq> '''' \<Longrightarrow> keyID \<in> set (keys_deleted (Log s))"
      using del q3 finish_spec [OF f] by (auto simp: quiet_def)
    ultimately show ?thesis using finish_spec [OF f] by blast
  qed
qed

section \<open>The whole run\<close>

lemma load_CID: "LoadState rd file = Inr st \<Longrightarrow> \<exists>s p. file = StateFile s p \<and> CID (ComputeIn st) = CID (ComputeIn s)"
  by (auto simp: LoadState_def normalize_state_def Let_def split: option.splits state_file.splits if_splits sum.splits)

lemma migrate_CID: "migrate_state cfg provider m s = Inr s' \<Longrightarrow> CID (ComputeIn s') = CID (ComputeIn s)"
  by (auto simp: migrate_state_def Let_def split: if_splits)

lemma update_CID:
  assumes "UpdateState now rd wr (migrate_state cfg provider m) file = (None, file')"
  shows "\<exists>s p n. file = StateFile s p \<and> file' = StateFile n '''' \<and> CID (ComputeIn n) = CID (ComputeIn s)"
proof -
  obtain st st' where l: "LoadState rd file = Inr st" and m: "migrate_state cfg provider m st = Inr st'"
    and s: "saveStateUnlocked now wr st' file = (None, file')"
    using assms by (auto simp: UpdateState_def split: sum.splits)
  show ?thesis using load_CID [OF l] migrate_CID [OF m] save_result [OF s] by auto
qed

lemma init_CID:
  assumes "initializeProvisionState now f cfg provider file = (None, st, file')"
  shows "file = NoState \<and> CID (ComputeIn st) = '''' \<or> (\<exists>s p. file = StateFile s p \<and> CID (ComputeIn st) = CID (ComputeIn s))"
proof (cases "file = NoState")
  case True
  then have "st = fresh_state cfg provider"
    using assms by (auto simp: initializeProvisionState_def Let_def split: option.splits prod.splits)
  then show ?thesis using True by (simp add: fresh_state_def zero_state_def no_compute_def)
next
  case False
  obtain loaded where l: "LoadState (FirstRead f) file = Inr loaded"
    using assms False by (auto simp: initializeProvisionState_def Let_def split: option.splits sum.splits)
  have "st = loaded \<or> (\<exists>m file2. UpdateState now (UpdateRead f) (UpdateWrite f) (migrate_state cfg provider m) file = (None, file2)
      \<and> LoadState (SecondRead f) file2 = Inr st)"
    using assms False l by (auto simp: initializeProvisionState_def Let_def split: option.splits sum.splits if_splits prod.splits)
  then show ?thesis using load_CID [OF l] by (auto dest!: update_CID load_CID)
qed

lemma policy_step:
  assumes "ensureTailscalePolicy c creds cfg r = (None, s)" "TailscaleToken creds \<noteq> ''''"
  shows "EvEnsurePolicy \<in> set (Log s) \<and> (\<exists>ch. EnsurePolicy c = Inr ch)"
proof (cases "EnsurePolicy c")
  case (Inl e)
  then show ?thesis using assms by (simp add: ensureTailscalePolicy_def Let_def)
next
  case (Inr ch)
  let ?r = "(event EvEnsurePolicy r)\<lparr>St := RecordTailscalePolicyChange cfg ch (St r)\<rparr>"
  have "s = ?r \<or> s = snd (save_step c ?r)"
    using assms Inr by (cases "save_step c ?r") (auto simp: ensureTailscalePolicy_def Let_def split: if_splits)
  then show ?thesis using save_step_frame [of c ?r] Inr by auto
qed

definition start :: "clients \<Rightarrow> options \<Rightarrow> (phase \<times> step) list" where
  "start c opt = [(TailscalePolicy, ensureTailscalePolicy c (OptCreds opt) (OptConfig opt)),
                  (CloudflareTunnelPhase, ensureCloudflareTunnel c (OptConfig opt))]"

lemma start_spec:
  assumes "phases (start c opt) r0 = (e, r)" "Log r0 = []"
  shows "ComputeIn (St r) = ComputeIn (St r0) \<and> servers_made (Log r) = [] \<and> keys_minted (Log r) = []
    \<and> (tunnels_made (Log r) = [] \<or> (\<exists>t. tunnels_made (Log r) = [t] \<and> TunnelIDOf t = TunnelID (CloudflareIn (St r))))
    \<and> (e = None \<and> TailscaleToken (OptCreds opt) \<noteq> '''' \<longrightarrow> EvEnsurePolicy \<in> set (Log r) \<and> (\<exists>ch. EnsurePolicy c = Inr ch))"
proof -
  obtain e1 r1 where p: "ensureTailscalePolicy c (OptCreds opt) (OptConfig opt) r0 = (e1, r1)" by fastforce
  have "quiet r0 r1" using quiet_policy [of r0 c "OptCreds opt" "OptConfig opt"] by (simp add: p)
  then have q: "ComputeIn (St r1) = ComputeIn (St r0)" "list_all harmless (Log r1)" using assms(2) by (auto simp: quiet_def)
  note h = harmless_made [OF q(2)]
  show ?thesis
  proof (cases e1)
    case (Some x)
    then have "r = r1 \<and> e \<noteq> None" using assms(1) p by (auto simp: start_def in_phase_def)
    then show ?thesis using q h by auto
  next
    case None
    obtain e2 r2 where t: "ensureCloudflareTunnel c (OptConfig opt) r1 = (e2, r2)" by fastforce
    have "r = r2" using assms(1) p t None by (cases e2) (auto simp: start_def in_phase_def)
    then show ?thesis using tunnel_step [OF t] q h policy_step p None by auto
  qed
qed

text \<open>The three ways a run ends after its initialisation.\<close>

lemma Run_cases:
  assumes "Run c f opt file = (err, st, r)"
  obtains
    (early) e where "Log r = []" "err = Some e" "names st e"
  | (prepared) st0 file0 e where "initializeProvisionState (Now c) f (OptConfig opt)
        (AccountProvider (resolveComputeAccount (OptAccount opt) (the (ComputeClient c)))) file = (None, st0, file0)"
      "phases (start c opt) \<lparr>St = st0, File = file0, Log = []\<rparr> = (Some e, r)" "err = Some e" "st = St r"
  | (keyed) st0 file0 r1 key keyID armed r2 e where "initializeProvisionState (Now c) f (OptConfig opt)
        (AccountProvider (resolveComputeAccount (OptAccount opt) (the (ComputeClient c)))) file = (None, st0, file0)"
      "phases (start c opt) \<lparr>St = st0, File = file0, Log = []\<rparr> = (None, r1)"
      "mint_key c opt r1 = (Some e, key, keyID, armed, r2)"
      "finish c armed keyID (Some (newProvisionError TailscaleAuthKey (St r2) e), r2) = (err, st, r)"
  | (served) st0 file0 r1 key keyID armed r2 where "initializeProvisionState (Now c) f (OptConfig opt)
        (AccountProvider (resolveComputeAccount (OptAccount opt) (the (ComputeClient c)))) file = (None, st0, file0)"
      "phases (start c opt) \<lparr>St = st0, File = file0, Log = []\<rparr> = (None, r1)"
      "mint_key c opt r1 = (None, key, keyID, armed, r2)"
      "run_with_key c opt (resolveComputeAccount (OptAccount opt) (the (ComputeClient c)))
         (CID (ComputeIn (St r1)) = '''') key keyID armed r2 = (err, st, r)"
proof (cases "ComputeClient c")
  case None
  then show ?thesis using assms by (intro early) (auto simp: Run_def)
next
  case (Some name)
  let ?a = "resolveComputeAccount (OptAccount opt) name"
  obtain e0 st0 file0 where i: "initializeProvisionState (Now c) f (OptConfig opt) (AccountProvider ?a) file = (e0, st0, file0)"
    by (metis prod_cases3)
  obtain e1 r1 where s: "phases (start c opt) \<lparr>St = st0, File = file0, Log = []\<rparr> = (e1, r1)" by fastforce
  obtain e2 key keyID armed r2 where m: "mint_key c opt r1 = (e2, key, keyID, armed, r2)" by (metis prod_cases5)
  show ?thesis
  proof (cases e0)
    case (Some x)
    then show ?thesis using assms i \<open>ComputeClient c = Some name\<close> by (intro early) (auto simp: Run_def Let_def)
  next
    case e0: None
    show ?thesis
    proof (cases e1)
      case (Some x)
      then show ?thesis using assms i s e0 \<open>ComputeClient c = Some name\<close>
        by (intro prepared [of st0 file0 x]) (auto simp: Run_def Let_def start_def [symmetric])
    next
      case e1: None
      show ?thesis
      proof (cases e2)
        case (Some x)
        then show ?thesis using assms i s m e0 e1 \<open>ComputeClient c = Some name\<close>
          by (intro keyed [of st0 file0 r1 x key keyID armed r2]) (auto simp: Run_def Let_def start_def [symmetric])
      next
        case None
        then show ?thesis using assms i s m e0 e1 \<open>ComputeClient c = Some name\<close>
          by (intro served [of st0 file0 r1 key keyID armed r2]) (auto simp: Run_def Let_def start_def [symmetric])
      qed
    qed
  qed
qed

definition one_tunnel :: "State \<Rightarrow> event list \<Rightarrow> bool" where
  "one_tunnel st l \<longleftrightarrow> tunnels_made l = [] \<or> (\<exists>t. tunnels_made l = [t] \<and> TunnelIDOf t = TunnelID (CloudflareIn st))"

definition one_key :: "event list \<Rightarrow> bool" where
  "one_key l \<longleftrightarrow> keys_minted l = [] \<or> (\<exists>k. keys_minted l = [k] \<and> (KeyID k = '''' \<or> KeyID k \<in> set (keys_deleted l)))"

definition one_server :: "clients \<Rightarrow> options \<Rightarrow> state_file \<Rightarrow> State \<Rightarrow> event list \<Rightarrow> bool" where
  "one_server c opt file st l \<longleftrightarrow> servers_made l = []
     \<or> (\<exists>pre q rec post. l = pre @ EvCreateServer q rec # post \<and> servers_made (pre @ post) = [] \<and> recorded st rec
          \<and> keys_minted pre \<noteq> [] \<and> EvEnsurePolicy \<in> set pre \<and> (\<exists>ch. EnsurePolicy c = Inr ch)
          \<and> EvValidatePolicy \<in> set pre \<and> ValidatePolicy c = None \<and> ValidateAdminPassword (OptPassword opt)
          \<and> (case file of NoState \<Rightarrow> True | BadState \<Rightarrow> False | StateFile s p \<Rightarrow> CID (ComputeIn s) = ''''))"

lemma one_tunnel_append:
  "one_tunnel st l \<Longrightarrow> tunnels_made m = [] \<Longrightarrow> CloudflareIn st' = CloudflareIn st \<Longrightarrow> one_tunnel st' (l @ m)"
  by (auto simp: one_tunnel_def)

lemma run_summary:
  assumes "Run c f opt file = (err, st, r)"
  shows "one_tunnel st (Log r) \<and> one_key (Log r) \<and> one_server c opt file st (Log r) \<and> (\<forall>e. err = Some e \<longrightarrow> names st e)"
  using assms
proof (cases rule: Run_cases)
  case (early e)
  then show ?thesis by (simp add: one_tunnel_def one_key_def one_server_def)
next
  case (prepared st0 file0 e)
  have "names st e" using phases_names [OF prepared(2)] prepared(4) by simp
  then show ?thesis using start_spec [OF prepared(2)] prepared(3,4) by (auto simp: one_tunnel_def one_key_def one_server_def)
next
  case (keyed st0 file0 r1 key keyID armed r2 e)
  note s = start_spec [OF keyed(2)] and m = mint_step [OF keyed(3)] and fin = finish_spec [OF keyed(4)]
  obtain evs where evs: "Log r2 = Log r1 @ evs" "tunnels_made evs = []" "servers_made evs = []"
    "keys_minted evs = [] \<or> (\<exists>k. keys_minted evs = [k] \<and> (KeyID k = '''' \<or> armed \<and> keyID = KeyID k))" using m by blast
  obtain evs2 where evs2: "Log r = Log r2 @ evs2" "list_all harmless evs2" using fin by (auto simp: quiet_def)
  have "one_tunnel st (Log r)"
    unfolding evs2 evs(1) append_assoc using s m fin evs harmless_made [OF evs2(2)]
    by (intro one_tunnel_append [of "St r1"]) (auto simp: one_tunnel_def)
  moreover have "one_key (Log r)" "one_server c opt file st (Log r)"
    using s evs evs2(1) harmless_made [OF evs2(2)] fin by (auto simp: one_key_def one_server_def)
  ultimately show ?thesis using fin by auto
next
  case (served st0 file0 r1 key keyID armed r2)
  note s = start_spec [OF served(2)] and m = mint_step [OF served(3)]
  obtain u where u: "Provision_Safety.served c opt r2 u" "St u = st" "quiet u r" "\<forall>e. err = Some e \<longrightarrow> names st e"
    "armed \<and> keyID \<noteq> '''' \<longrightarrow> keyID \<in> set (keys_deleted (Log r))" using run_with_key_spec [OF served(4)] by blast
  obtain evs where evs: "Log r2 = Log r1 @ evs" "tunnels_made evs = []" "servers_made evs = []"
    "keys_minted evs = [] \<or> (\<exists>k. keys_minted evs = [k] \<and> (KeyID k = '''' \<or> armed \<and> keyID = KeyID k))"
    "CID (ComputeIn (St r1)) = '''' \<Longrightarrow> keys_minted evs \<noteq> [] \<and> TailscaleToken (OptCreds opt) \<noteq> ''''" using m by blast
  obtain evs3 where evs3: "Log r = Log u @ evs3" "list_all harmless evs3" using u(3) by (auto simp: quiet_def)
  have cf: "CloudflareIn st = CloudflareIn (St r1)" using u(1,2) m by (auto simp: Provision_Safety.served_def)
  have ot: "one_tunnel (St r1) (Log r1)" using s by (auto simp: one_tunnel_def)
  note h3 = harmless_made [OF evs3(2)]
  show ?thesis
  proof (cases "quiet r2 u")
    case True
    then obtain evs2 where evs2: "Log u = Log r2 @ evs2" "list_all harmless evs2" by (auto simp: quiet_def)
    note h2 = harmless_made [OF evs2(2)]
    have "one_tunnel st (Log r)" unfolding evs3(1) evs2(1) evs(1) append_assoc
      by (rule one_tunnel_append [OF ot _ cf]) (simp add: evs h2 h3)
    then show ?thesis using s evs evs2(1) evs3(1) h2 h3 u by (auto simp: one_key_def one_server_def)
  next
    case False
    then obtain pre q rec post where p: "CID (ComputeIn (St r2)) = ''''" "Log u = Log r2 @ pre @ EvCreateServer q rec # post"
      "list_all harmless pre" "list_all harmless post" "guarded c opt pre" "recorded st rec"
      using u(1,2) by (auto simp: Provision_Safety.served_def)
    note hp = harmless_made [OF p(3)] and hq = harmless_made [OF p(4)]
    have cid: "CID (ComputeIn (St r1)) = ''''" using p(1) m by simp
    note minted = evs(5) [OF cid]
    have l: "Log r = (Log r1 @ evs @ pre) @ EvCreateServer q rec # (post @ evs3)" using evs evs3 p(2) by simp
    have "one_tunnel st (Log r)" unfolding l append_assoc
      by (rule one_tunnel_append [OF ot _ cf]) (simp add: evs hp hq h3)
    moreover have "one_key (Log r)" using s evs p(2) evs3(1) hp hq h3 u(5) by (auto simp: one_key_def)
    moreover have "case file of NoState \<Rightarrow> True | BadState \<Rightarrow> False | StateFile s p \<Rightarrow> CID (ComputeIn s) = ''''"
      using init_CID [OF served(1)] s cid by auto
    then have "one_server c opt file st (Log r)"
      unfolding one_server_def
      using s minted p evs hp hq h3
      by (intro disjI2 exI [of _ "Log r1 @ evs @ pre"] exI [of _ q] exI [of _ rec] exI [of _ "post @ evs3"])
        (auto simp: l guarded_def)
    ultimately show ?thesis using u(4) by blast
  qed
qed

text \<open>
  C1. A create run leaves nothing unaccounted for, whichever call fails: the tunnel it created and the
  server it created are the ones the returned state and the error name (unless the provider's own record
  contradicts itself, which is an error), and it asked for the deletion of every bootstrap key it minted
  before it returned. It creates at most one of each.
\<close>

theorem provision_accounts_for_resources:
  assumes "Run c f opt file = (err, st, r)"
  shows "list_all (\<lambda>t. TunnelIDOf t = TunnelID (CloudflareIn st)) (tunnels_made (Log r))
    \<and> list_all (\<lambda>(q, rec). recorded st rec) (servers_made (Log r))
    \<and> list_all (\<lambda>k. KeyID k = '''' \<or> KeyID k \<in> set (keys_deleted (Log r))) (keys_minted (Log r))
    \<and> length (tunnels_made (Log r)) \<le> 1 \<and> length (servers_made (Log r)) \<le> 1 \<and> length (keys_minted (Log r)) \<le> 1
    \<and> (\<forall>e. err = Some e \<longrightarrow> names st e)"
  using run_summary [OF assms] by (auto simp: one_tunnel_def one_key_def one_server_def)

text \<open>
  C2. A server is created only where none is recorded, and only behind its guards: if a run asked the
  provider for a server, the state file it started from recorded none, and before that request the run
  had written the tailnet policy, read it back as valid, minted the bootstrap key and accepted the admin
  password.
\<close>

theorem provision_creates_once_guarded:
  assumes "Run c f opt file = (err, st, r)" "servers_made (Log r) \<noteq> []"
  shows "\<exists>pre q rec post. Log r = pre @ EvCreateServer q rec # post \<and> servers_made (pre @ post) = []
    \<and> keys_minted pre \<noteq> [] \<and> EvEnsurePolicy \<in> set pre \<and> EvValidatePolicy \<in> set pre \<and> ValidatePolicy c = None
    \<and> ValidateAdminPassword (OptPassword opt)
    \<and> (case file of NoState \<Rightarrow> True | BadState \<Rightarrow> False | StateFile s p \<Rightarrow> CID (ComputeIn s) = '''')"
  using run_summary [OF assms(1)] assms(2) unfolding one_server_def by blast

section \<open>A run without error has hardened the host\<close>

lemma run_remote_None:
  "run_remote h f s r = (None, t) \<Longrightarrow> f s = Ran \<and> t = event (EvRemote h s) r"
  by (auto simp: run_remote_def split: remote_answer.splits)

lemma run_remote_St [simp]: "St (snd (run_remote h f s r)) = St r"
  by (auto simp: run_remote_def split: remote_answer.splits)

definition ran_on :: "clients \<Rightarrow> run \<Rightarrow> remote_script \<Rightarrow> bool" where
  "ran_on c r s \<longleftrightarrow> EvRemote (TsName (TailscaleIn (St r))) s \<in> set (Log r) \<and> (\<exists>f. Runner c = Some f \<and> f s = Ran)"

lemma host_ofD: "host_of c r = Some (h, f) \<Longrightarrow> h = TsName (TailscaleIn (St r)) \<and> Runner c = Some f"
  by (auto simp: host_of_def split: option.splits if_splits)

lemma ran_quiet: "ran_on c r s \<Longrightarrow> quiet r t \<Longrightarrow> TsName (TailscaleIn (St t)) = TsName (TailscaleIn (St r)) \<Longrightarrow> ran_on c t s"
  by (auto simp: ran_on_def quiet_def)

lemma bind_step_None:
  "bind_step f g r = (None, t) \<Longrightarrow> \<exists>s. f r = (None, s) \<and> g s = (None, t)"
  by (auto simp: bind_step_def split: prod.splits option.splits)

lemma bootstrap_done:
  assumes "bootstrapRemoteNetwork c cfg r = (None, s)" "LockdownDue (NetworkEgress (NetworkOf cfg))"
  shows "ran_on c s EgressLockdown" "St s = St r"
proof -
  obtain h f where h: "host_of c r = Some (h, f)"
    using assms by (auto simp: bootstrapRemoteNetwork_def split: option.splits)
  note hd = host_ofD [OF h]
  let ?tun = "\<lambda>r. if TunnelEnabled (tunnel_of cfg) \<and> TunnelID (CloudflareIn (St r)) \<noteq> ''''
       then (case TunnelToken c (TunnelID (CloudflareIn (St r))) of Inl e \<Rightarrow> (Some (ClientFailure e), r)
             | Inr tok \<Rightarrow> run_remote h f (InstallTunnel tok) r)
       else (None, r)"
  have "bind_step ?tun (bind_step (run_remote h f InstallTools) (applyEgressLockdown h f cfg)) r = (None, s)"
    using assms(1) h by (simp add: bootstrapRemoteNetwork_def)
  from bind_step_None [OF this] obtain r1 where t: "?tun r = (None, r1)"
    and rest: "bind_step (run_remote h f InstallTools) (applyEgressLockdown h f cfg) r1 = (None, s)" by blast
  from bind_step_None [OF rest] obtain r2 where i: "run_remote h f InstallTools r1 = (None, r2)"
    and e: "applyEgressLockdown h f cfg r2 = (None, s)" by blast
  have r1: "St r1 = St r" using t by (auto dest: run_remote_None split: if_splits sum.splits)
  have "run_remote h f EgressLockdown r2 = (None, s)" using e assms(2) by (simp add: applyEgressLockdown_def LockdownDue_def)
  then have s: "f EgressLockdown = Ran" "s = event (EvRemote h EgressLockdown) r2" by (auto dest: run_remote_None)
  have "St r2 = St r" using run_remote_None [OF i] r1 by simp
  then have "St s = St r" using s by simp
  moreover have "TsName (TailscaleIn (St s)) = h" using hd \<open>St s = St r\<close> by simp
  moreover have "EvRemote h EgressLockdown \<in> set (Log s)" by (simp add: s(2))
  ultimately show "ran_on c s EgressLockdown" "St s = St r" using s(1) hd unfolding ran_on_def by blast+
qed

lemma bootstrap_St:
  assumes "bootstrapRemoteNetwork c cfg r = (None, s)" shows "St s = St r"
proof (cases "host_of c r")
  case None
  then show ?thesis using assms by (simp add: bootstrapRemoteNetwork_def)
next
  case (Some hf)
  obtain h f where hf: "hf = (h, f)" by fastforce
  show ?thesis using assms Some hf
    by (auto simp: bootstrapRemoteNetwork_def applyEgressLockdown_def dest!: bind_step_None run_remote_None
        split: if_splits sum.splits)
qed

lemma gate_done:
  assumes "installRebootGate c cfg r = (None, s)"
  shows "St s = St r" "RebootEnabled (RebootOf cfg) \<Longrightarrow> ran_on c s InstallRebootGate"
  using assms by (auto simp: installRebootGate_def ran_on_def dest!: run_remote_None host_ofD split: if_splits option.splits)

lemma openssh_done:
  assumes "disableOpenSSH c cfg r = (None, s)"
  shows "St s = St r" "OpenSSH (AccessOf cfg) \<noteq> OpenSSHEnabled \<Longrightarrow> ran_on c s DisableOpenSSH
    \<and> CheckTunnelSSHIngress (ParseURL c) (TunnelIngress c) (TunnelID (CloudflareIn (St s))) = None"
  using assms by (auto simp: disableOpenSSH_def ran_on_def dest!: run_remote_None host_ofD split: if_splits option.splits)

definition due :: "Config \<Rightarrow> remote_script list" where
  "due cfg = (if LockdownDue (NetworkEgress (NetworkOf cfg)) then [EgressLockdown] else [])
     @ (if RebootEnabled (RebootOf cfg) then [InstallRebootGate] else [])
     @ (if OpenSSH (AccessOf cfg) \<noteq> OpenSSHEnabled then [DisableOpenSSH] else [])"

lemma in_phase_None: "in_phase p f r = (None, s) \<longleftrightarrow> f r = (None, s)"
  by (auto simp: in_phase_def split: prod.splits)

lemma phases_None_Cons:
  "phases ((p, f) # fs) r = (None, t) \<Longrightarrow> \<exists>s. f r = (None, s) \<and> phases fs s = (None, t)"
  by (auto simp: in_phase_None split: prod.splits option.splits)

lemma after_server_done:
  assumes "phases (after_server c opt) r = (None, t)"
  shows "list_all (ran_on c t) (due (OptConfig opt)) \<and> (OpenSSH (AccessOf (OptConfig opt)) \<noteq> OpenSSHEnabled \<longrightarrow>
    CheckTunnelSSHIngress (ParseURL c) (TunnelIngress c) (TunnelID (CloudflareIn (St t))) = None)"
proof -
  let ?cfg = "OptConfig opt"
  from assms [unfolded after_server_def, THEN phases_None_Cons] obtain s1 where
    "phases [(RemoteReady, waitRemoteReady c), (RemoteAdminPassword, setRemoteAdminPassword c),
      (RemoteImageUsers, removeImageUsers c ?cfg), (RemoteBootstrap, bootstrapRemoteNetwork c ?cfg),
      (RemoteRebootGate, installRebootGate c ?cfg), (RemoteOpenSSH, disableOpenSSH c ?cfg)] s1 = (None, t)" by blast
  from phases_None_Cons [OF this] obtain s2 where
    "phases [(RemoteAdminPassword, setRemoteAdminPassword c),
      (RemoteImageUsers, removeImageUsers c ?cfg), (RemoteBootstrap, bootstrapRemoteNetwork c ?cfg),
      (RemoteRebootGate, installRebootGate c ?cfg), (RemoteOpenSSH, disableOpenSSH c ?cfg)] s2 = (None, t)" by blast
  from phases_None_Cons [OF this] obtain s3 where
    "phases [(RemoteImageUsers, removeImageUsers c ?cfg), (RemoteBootstrap, bootstrapRemoteNetwork c ?cfg),
      (RemoteRebootGate, installRebootGate c ?cfg), (RemoteOpenSSH, disableOpenSSH c ?cfg)] s3 = (None, t)" by blast
  from phases_None_Cons [OF this] obtain r1 where
    "phases [(RemoteBootstrap, bootstrapRemoteNetwork c ?cfg),
      (RemoteRebootGate, installRebootGate c ?cfg), (RemoteOpenSSH, disableOpenSSH c ?cfg)] r1 = (None, t)" by blast
  from phases_None_Cons [OF this] obtain r2 where b: "bootstrapRemoteNetwork c ?cfg r1 = (None, r2)"
    and "phases [(RemoteRebootGate, installRebootGate c ?cfg), (RemoteOpenSSH, disableOpenSSH c ?cfg)] r2 = (None, t)" by blast
  from phases_None_Cons [OF this(2)] obtain r3 where g: "installRebootGate c ?cfg r2 = (None, r3)"
    and "phases [(RemoteOpenSSH, disableOpenSSH c ?cfg)] r3 = (None, t)" by blast
  from phases_None_Cons [OF this(2)] have o: "disableOpenSSH c ?cfg r3 = (None, t)" by auto
  have q: "quiet r2 r3" "quiet r3 t"
    using quiet_host_steps(4) [of r2 c ?cfg] quiet_host_steps(5) [of r3 c ?cfg] by (simp_all add: g o)
  have st: "St r3 = St r2" "St t = St r3" using gate_done(1) [OF g] openssh_done(1) [OF o] by simp_all
  have "ran_on c t EgressLockdown" if "LockdownDue (NetworkEgress (NetworkOf ?cfg))"
    using ran_quiet [OF ran_quiet [OF bootstrap_done(1) [OF b that] q(1)] q(2)] st by simp
  moreover have "ran_on c t InstallRebootGate" if "RebootEnabled (RebootOf ?cfg)"
    using ran_quiet [OF gate_done(2) [OF g that] q(2)] st by simp
  ultimately show ?thesis using openssh_done(2) [OF o] by (auto simp: due_def)
qed

lemma cleanup_name: "TsName (TailscaleIn (St (snd (cleanupProvisionAuthKey c k r)))) = TsName (TailscaleIn (St r))"
  using save_step_frame by (auto simp: cleanupProvisionAuthKey_def Let_def split: deletion.splits)

lemma complete_name: "TsName (TailscaleIn (St (snd (completeProvision c r)))) = TsName (TailscaleIn (St r))"
  using save_step_frame by (auto simp: completeProvision_def)

text \<open>
  C3. Success means hardened: a run that returns without error has run, on the host its state names, every
  step its config promises (restricted egress, the gated reboot, OpenSSH off), each of them succeeded, and
  OpenSSH went off only after the preflight of the recorded tunnel passed.
\<close>

theorem create_success_hardened:
  assumes "Run c f opt file = (None, st, r)"
  shows "list_all (\<lambda>s. EvRemote (TsName (TailscaleIn st)) s \<in> set (Log r) \<and> (\<exists>f. Runner c = Some f \<and> f s = Ran)) (due (OptConfig opt))
    \<and> (OpenSSH (AccessOf (OptConfig opt)) \<noteq> OpenSSHEnabled \<longrightarrow>
        CheckTunnelSSHIngress (ParseURL c) (TunnelIngress c) (TunnelID (CloudflareIn st)) = None)"
proof -
  obtain needs key keyID armed r2 account where rk: "run_with_key c opt account needs key keyID armed r2 = (None, st, r)"
    using assms
  proof (cases rule: Run_cases)
    case (served st0 file0 r1 key keyID armed r2)
    then show ?thesis by (intro that)
  qed (auto dest: finish_spec)
  let ?fs = "before_server c opt needs key @ [(ComputePhase, ensureComputeServer c (OptConfig opt) account (user_data c opt needs key))]
      @ after_server c opt"
  obtain e1 r1 where b: "phases ?fs r2 = (e1, r1)" by fastforce
  then have "e1 = None" using rk by (cases e1) (auto simp: run_with_key_def finish_def split: if_splits)
  then obtain ra where "phases (after_server c opt) ra = (None, r1)"
    using b by (auto simp: phases_append split: prod.splits option.splits)
  note hardened = after_server_done [OF this]
  obtain e2 r3 where cl: "cleanupProvisionAuthKey c keyID r1 = (e2, r3)" by fastforce
  obtain e3 r4 where cp: "in_phase Complete (completeProvision c) r3 = (e3, r4)" by fastforce
  have f: "finish c armed (if e2 = None then '''' else keyID) (e3, r4) = (None, st, r)"
    using rk b \<open>e1 = None\<close> cl cp by (simp add: run_with_key_def)
  have q: "quiet r1 r3" "quiet r3 r4" "quiet r4 r"
    using quiet_cleanup [of r1 c keyID] quiet_complete [of r3 c] in_phase_snd [of Complete "completeProvision c" r3]
      finish_spec [OF f] by (simp_all add: cl cp)
  have n: "TsName (TailscaleIn (St r3)) = TsName (TailscaleIn (St r1))" "TsName (TailscaleIn (St r4)) = TsName (TailscaleIn (St r3))"
    using cleanup_name [of c keyID r1] complete_name [of c r3] in_phase_snd [of Complete "completeProvision c" r3]
    by (simp_all add: cl cp)
  have st: "st = St r4" using finish_spec [OF f] by simp
  have log: "set (Log r1) \<subseteq> set (Log r)" using q by (auto simp: quiet_def)
  have "CloudflareIn st = CloudflareIn (St r1)" using q st by (simp add: quiet_def)
  then show ?thesis using hardened log n st by (auto simp: list_all_iff ran_on_def)
qed


section \<open>A run that succeeds\<close>

definition sample_server :: ServerRecord where
  "sample_server = \<lparr>Provider = ''hetzner'', RecordAccount = ''default'', RecordNamespace = ''prod'', RecordServer = ''web'',
     RecordID = ''42'', RecordName = ''prod-web'', RecordLocation = ''fsn1'', RecordSize = ''cx23'',
     RecordImage = ''ubuntu-24.04'', PublicIPv4 = ''203.0.113.7'', PublicIPv6 = '''', RecordLabels = [],
     RecordResources = [], RecordProviderState = []\<rparr>"

definition sample_clients :: clients where
  "sample_clients = \<lparr>EnsurePolicy = Inr \<lparr>TagOwners = [], SSHRuleChanged = False, AutomationSSHRule = False, AutomationSSHRuleRemoved = False\<rparr>,
     ListTunnels = Inr [], CreateTunnel = (\<lambda>n. Inr \<lparr>TunnelIDOf = ''t1'', TunnelNameOf = n, TunnelStatus = '''', TunnelCreatedAt = ''''\<rparr>),
     DeleteTunnel = (\<lambda>i. Deleted), TunnelToken = (\<lambda>i. Inr ''token''), TunnelIngress = None,
     CreateAuthKey = Inr \<lparr>KeyID = ''k1'', KeyText = ''tskey'', KeyDescription = '''', KeyTags = [], KeyCreated = ''''\<rparr>,
     DeleteAuthKey = (\<lambda>n. Deleted), ValidatePolicy = None, ComputeClient = Some ''hetzner'',
     CreateServer = (\<lambda>q. (sample_server, [])), ImageDefaultUsers = [''ubuntu''],
     WaitForDevice = (\<lambda>q. Inr \<lparr>ID = ''1'', NodeID = ''n1'', DeviceName = ''web.ts.net'', Hostname = ''web'', Addresses = [], DeviceTags = [],
       Online = True, ConnectedToControl = True, DeviceCreated = ''''\<rparr>),
     Runner = Some (\<lambda>s. Ran), Probe = (Ran, []), ProtectedInput = True, RenderUserData = (\<lambda>cfg key. Inr ''#cloud-config''),
     ParseURL = (\<lambda>s. None), ParseTime = (\<lambda>s. Some 1000), SaveFault = (\<lambda>n. (None, None)), Now = 2000\<rparr>"

definition sample_options :: options where
  "sample_options = \<lparr>OptConfig = DefaultConfig\<lparr>ConfigNamespace := ''prod'', ConfigServer := ''web'',
       ComputeOf := (ComputeOf DefaultConfig)\<lparr>ComputeName := ''prod-web''\<rparr>\<rparr>,
     OptAccount = \<lparr>AccountName = '''', AccountProvider = '''', Token = '''', Scope = ''''\<rparr>,
     OptCreds = \<lparr>SetNamespace = ''prod'', SetServer = ''web'', ServerProvider = ''hcloud'', ServerProviderName = ''hetzner'',
       TailscaleToken = ''tskey-api'', TSAuthKey = '''', CloudflareToken = '''', AdminSudoPassword = ''secret'', GitHubPAT = ''''\<rparr>,
     OptPassword = ''secret''\<rparr>"

definition no_faults :: init_faults where
  "no_faults = \<lparr>ExistsFault = None, FirstWrite = None, FirstRead = None, UpdateRead = None, UpdateWrite = None, SecondRead = None\<rparr>"

definition sample_run :: "ProvisionError option \<times> State \<times> run" where
  "sample_run = Run sample_clients no_faults sample_options NoState"

lemma sample_run_created:
  "fst sample_run = None" "map (\<lambda>p. RecordID (snd p)) (servers_made (Log (snd (snd sample_run)))) = [''42'']"
  "TsName (TailscaleIn (fst (snd sample_run))) = ''web.ts.net''"
  by code_simp+


lemma sample_run_split:
  obtains st r where "Run sample_clients no_faults sample_options NoState = (None, st, r)"
    "map (\<lambda>p. RecordID (snd p)) (servers_made (Log r)) = [''42'']" "TsName (TailscaleIn st) = ''web.ts.net''"
  using sample_run_created unfolding sample_run_def by (metis prod.collapse)

lemma provision_accounts_for_resources_witness:
  "length (servers_made (Log (snd (snd sample_run)))) = 1 \<and> length (keys_minted (Log (snd (snd sample_run)))) \<le> 1"
proof (rule sample_run_split)
  fix st r assume r: "Run sample_clients no_faults sample_options NoState = (None, st, r)"
    and m: "map (\<lambda>p. RecordID (snd p)) (servers_made (Log r)) = [''42'']"
  have "length (servers_made (Log r)) = 1" using arg_cong [OF m, of length] by simp
  then show ?thesis using provision_accounts_for_resources [OF r] by (simp add: sample_run_def r)
qed

lemma provision_creates_once_guarded_witness:
  "EvEnsurePolicy \<in> set (Log (snd (snd sample_run))) \<and> EvValidatePolicy \<in> set (Log (snd (snd sample_run)))
    \<and> ValidateAdminPassword ''secret''"
proof (rule sample_run_split)
  fix st r assume r: "Run sample_clients no_faults sample_options NoState = (None, st, r)"
    and m: "map (\<lambda>p. RecordID (snd p)) (servers_made (Log r)) = [''42'']"
  have "servers_made (Log r) \<noteq> []" using m by auto
  moreover have "OptPassword sample_options = ''secret''" by (simp add: sample_options_def)
  ultimately show ?thesis using provision_creates_once_guarded [OF r] by (auto simp: sample_run_def r)
qed

lemma create_success_hardened_witness:
  "list_all (\<lambda>s. EvRemote ''web.ts.net'' s \<in> set (Log (snd (snd sample_run)))) [EgressLockdown, InstallRebootGate, DisableOpenSSH]"
proof (rule sample_run_split)
  fix st r assume r: "Run sample_clients no_faults sample_options NoState = (None, st, r)"
    and n: "TsName (TailscaleIn st) = ''web.ts.net''"
  have d: "due (OptConfig sample_options) = [EgressLockdown, InstallRebootGate, DisableOpenSSH]" by code_simp
  from create_success_hardened [OF r] show ?thesis by (simp add: sample_run_def r d n)
qed

end
