(* ===== verification/External_Cleanup.thy ===== *)
theory External_Cleanup
  imports State_Model Config_Model Credentials_Store Mesh_Device Tunnel_Preflight
begin

text \<open>
  What delete does to the resources outside the compute provider (internal/cli:
  server_delete_cleanup.go): the tailnet device, the tunnel and the bootstrap key of one server. Each is
  looked up and its ownership checked, once for all of them before the server is deleted and again right
  before its own deletion; each deletion is checkpointed in the state file.

  Every answer of a service is a function of the calls made so far, so the services may change between
  two calls in any way; \<open>Between\<close> is what other writers did to the state file before a checkpoint
  takes its lock. A call error is what the code tells apart: status 404, a tunnel with active
  connections, or any other text.
\<close>

datatype call_error = NotFound | ActiveConnections | CallFailed string

datatype del_event =
    DevicesRead "(call_error, Device list) result"
  | TunnelRead string "(call_error, Tunnel) result"
  | KeysRead "(call_error, AuthKey list) result"
  | DeviceDeleted string "call_error option"
  | TunnelDeleted string "call_error option"
  | KeyDeleted string "call_error option"
  | StateSaved State "state_error option"
  | ComputeDeleted DeleteServerRequest "string Diagnostic list"
  | FileRemoved string
  | RegistrySaved

type_synonym history = "del_event list"

text \<open>
  \<open>Waits\<close> is how many waits for a busy tunnel the deadline still allows. The clients of
  \<open>serverCleanupClients\<close> may be nil.
\<close>

record cleanup_env =
  HasTailscale :: bool
  HasCloudflare :: bool
  DevicesAt :: "history \<Rightarrow> (call_error, Device list) result"
  AuthKeysAt :: "history \<Rightarrow> (call_error, AuthKey list) result"
  GetTunnelAt :: "history \<Rightarrow> string \<Rightarrow> (call_error, Tunnel) result"
  DeleteDeviceAt :: "history \<Rightarrow> string \<Rightarrow> call_error option"
  DeleteAuthKeyAt :: "history \<Rightarrow> string \<Rightarrow> call_error option"
  DeleteTunnelAt :: "history \<Rightarrow> string \<Rightarrow> call_error option"
  Waits :: nat
  Between :: "history \<Rightarrow> state_file \<Rightarrow> state_file"
  ReadFault :: "history \<Rightarrow> string option"
  WriteFault :: "history \<Rightarrow> string option"
  CleanupTime :: int

record cleanup_run =
  StateOnDisk :: state_file
  History :: history

record serverDeleteCleanup =
  Required :: bool
  CleanupConfig :: Config
  CleanupStatePath :: string
  CleanupState :: State
  CleanupCreds :: Set

datatype cleanup_error =
    Call call_error | StateError state_error | TailscaleClientRequired | CloudflareClientRequired
  | DeviceNameMissing | DeviceNameMismatch string string string | DeviceTagMissing string
  | KeyDescriptionMismatch string | KeyTagMissing string
  | TunnelIDMismatch string string | TunnelStateNameMissing | TunnelLiveNameMismatch string string | TunnelStillBusy

definition did :: "del_event \<Rightarrow> cleanup_run \<Rightarrow> cleanup_run" where
  "did e r = r\<lparr>History := History r @ [e]\<rparr>"

section \<open>Ownership of a live resource\<close>

definition serverDeleteCleanupRequired :: "State \<Rightarrow> bool" where
  "serverDeleteCleanupRequired st \<longleftrightarrow>
     OwnsTunnel (CloudflareIn st) \<or> TsNodeID (TailscaleIn st) \<noteq> '''' \<or> TsAuthKeyID (TailscaleIn st) \<noteq> ''''"

definition expected_tags :: "Config \<Rightarrow> State \<Rightarrow> string list" where
  "expected_tags cfg st = (if TsTags (TailscaleIn st) = [] then Tags (tailscale_of cfg) else TsTags (TailscaleIn st))"

definition validateTailscaleDeviceOwnership :: "Config \<Rightarrow> State \<Rightarrow> Device \<Rightarrow> cleanup_error option" where
  "validateTailscaleDeviceOwnership cfg st device =
     (let expectedName = (if TsName (TailscaleIn st) = '''' then ComputeName (ComputeOf cfg) else TsName (TailscaleIn st)) in
      if expectedName = '''' then Some DeviceNameMissing
      else if \<not> DeviceMatches device expectedName []
      then Some (DeviceNameMismatch (DeviceName device) (Hostname device) expectedName)
      else map_option DeviceTagMissing (find (\<lambda>tag. tag \<notin> set (DeviceTags device)) (expected_tags cfg st)))"

definition validateAuthKeyOwnership :: "Config \<Rightarrow> State \<Rightarrow> AuthKey \<Rightarrow> cleanup_error option" where
  "validateAuthKeyOwnership cfg st key =
     (if KeyDescription key \<noteq> ''serverpro bootstrap'' then Some (KeyDescriptionMismatch (KeyDescription key))
      else map_option KeyTagMissing (find (\<lambda>tag. tag \<notin> set (KeyTags key)) (expected_tags cfg st)))"

definition expected_tunnel_name :: "Config \<Rightarrow> State \<Rightarrow> string" where
  "expected_tunnel_name cfg st =
     (let n1 = TunnelStateName (CloudflareIn st); n2 = (if n1 = '''' then TunnelName (tunnel_of cfg) else n1)
      in if n2 = '''' then ComputeName (ComputeOf cfg) else n2)"

definition validateTunnelOwnership :: "Config \<Rightarrow> State \<Rightarrow> Tunnel \<Rightarrow> cleanup_error option" where
  "validateTunnelOwnership cfg st tunnel =
     (if TunnelIDOf tunnel \<noteq> '''' \<and> TunnelIDOf tunnel \<noteq> TunnelID (CloudflareIn st)
      then Some (TunnelIDMismatch (TunnelIDOf tunnel) (TunnelID (CloudflareIn st)))
      else if expected_tunnel_name cfg st = '''' then Some TunnelStateNameMissing
      else if TunnelNameOf tunnel \<noteq> expected_tunnel_name cfg st
      then Some (TunnelLiveNameMismatch (TunnelNameOf tunnel) (expected_tunnel_name cfg st))
      else None)"

text \<open>The loops look at the first entry with the recorded identifier: \<open>Inr False\<close> when there is none.\<close>

definition found_owned :: "('a \<Rightarrow> bool) \<Rightarrow> ('a \<Rightarrow> cleanup_error option) \<Rightarrow> 'a list \<Rightarrow> (cleanup_error, bool) result" where
  "found_owned recorded owned xs =
     (case find recorded xs of None \<Rightarrow> Inr False
      | Some x \<Rightarrow> (case owned x of Some e \<Rightarrow> Inl e | None \<Rightarrow> Inr True))"

definition recorded_device :: "State \<Rightarrow> Device \<Rightarrow> bool" where
  "recorded_device st device \<longleftrightarrow> ID device = TsNodeID (TailscaleIn st) \<or> NodeID device = TsNodeID (TailscaleIn st)"

type_synonym lookup = "cleanup_run \<Rightarrow> (cleanup_error, bool) result \<times> cleanup_run"

definition validateTrackedTailscaleDevice :: "cleanup_env \<Rightarrow> Config \<Rightarrow> State \<Rightarrow> lookup" where
  "validateTrackedTailscaleDevice env cfg st r =
     (let answer = DevicesAt env (History r) in
      ((case answer of Inl e \<Rightarrow> Inl (Call e)
        | Inr devices \<Rightarrow> found_owned (recorded_device st) (validateTailscaleDeviceOwnership cfg st) devices),
       did (DevicesRead answer) r))"

definition validateTrackedAuthKey :: "cleanup_env \<Rightarrow> Config \<Rightarrow> State \<Rightarrow> lookup" where
  "validateTrackedAuthKey env cfg st r =
     (let answer = AuthKeysAt env (History r) in
      ((case answer of Inl e \<Rightarrow> Inl (Call e)
        | Inr keys \<Rightarrow> found_owned (\<lambda>key. KeyID key = TsAuthKeyID (TailscaleIn st)) (validateAuthKeyOwnership cfg st) keys),
       did (KeysRead answer) r))"

definition validateTrackedTunnel :: "cleanup_env \<Rightarrow> Config \<Rightarrow> State \<Rightarrow> lookup" where
  "validateTrackedTunnel env cfg st r =
     (let i = TunnelID (CloudflareIn st); answer = GetTunnelAt env (History r) i in
      ((case answer of
          Inl NotFound \<Rightarrow> Inr False
        | Inl e \<Rightarrow> Inl (Call e)
        | Inr tunnel \<Rightarrow> (case validateTunnelOwnership cfg st tunnel of Some e \<Rightarrow> Inl e | None \<Rightarrow> Inr True)),
       did (TunnelRead i answer) r))"

section \<open>Before the server is deleted\<close>

text \<open>One check of the preflight: skipped when nothing is tracked, refused when its client is missing.\<close>

definition preflight_check :: "bool \<Rightarrow> bool \<Rightarrow> cleanup_error \<Rightarrow> lookup \<Rightarrow> cleanup_run \<Rightarrow> cleanup_error option \<times> cleanup_run" where
  "preflight_check tracked client missing look r =
     (if \<not> tracked then (None, r)
      else if \<not> client then (Some missing, r)
      else (case look r of (Inl e, r') \<Rightarrow> (Some e, r') | (Inr _, r') \<Rightarrow> (None, r')))"

fun check_all :: "(cleanup_run \<Rightarrow> cleanup_error option \<times> cleanup_run) list \<Rightarrow> cleanup_run \<Rightarrow> cleanup_error option \<times> cleanup_run" where
  "check_all [] r = (None, r)"
| "check_all (f # fs) r = (case f r of (Some e, r') \<Rightarrow> (Some e, r') | (None, r') \<Rightarrow> check_all fs r')"

definition preflightTrackedExternalResources :: "cleanup_env \<Rightarrow> serverDeleteCleanup \<Rightarrow> cleanup_run \<Rightarrow> cleanup_error option \<times> cleanup_run" where
  "preflightTrackedExternalResources env cleanup =
     (let st = CleanupState cleanup; cfg = CleanupConfig cleanup in
      check_all
        [preflight_check (TsNodeID (TailscaleIn st) \<noteq> '''') (HasTailscale env) TailscaleClientRequired
           (validateTrackedTailscaleDevice env cfg st),
         preflight_check (OwnsTunnel (CloudflareIn st)) (HasCloudflare env) CloudflareClientRequired
           (validateTrackedTunnel env cfg st),
         preflight_check (TsAuthKeyID (TailscaleIn st) \<noteq> '''') (HasTailscale env) TailscaleClientRequired
           (validateTrackedAuthKey env cfg st)])"

section \<open>Deleting one resource\<close>

definition clearTailscaleDeviceState :: "State \<Rightarrow> State" where
  "clearTailscaleDeviceState st =
     st\<lparr>TailscaleIn := (TailscaleIn st)\<lparr>TsNodeID := '''', TsName := '''', TsIPs := [], TsTags := []\<rparr>\<rparr>"

definition clearTailscaleAuthKeyState :: "State \<Rightarrow> State" where
  "clearTailscaleAuthKeyState st = st\<lparr>TailscaleIn := (TailscaleIn st)\<lparr>TsAuthKeyID := '''', TsAuthKeyCreatedAt := 0\<rparr>\<rparr>"

definition clearTunnelState :: "State \<Rightarrow> State" where
  "clearTunnelState st = st\<lparr>CloudflareIn := no_cloudflare\<rparr>"

text \<open>
  The checkpoint: the state in memory becomes the changed file state as soon as the file was read, also
  when the write then fails.
\<close>

type_synonym cleanup_step = "State \<Rightarrow> cleanup_run \<Rightarrow> cleanup_error option \<times> State \<times> cleanup_run"

definition checkpointCleanupState :: "cleanup_env \<Rightarrow> (State \<Rightarrow> State) \<Rightarrow> cleanup_step" where
  "checkpointCleanupState env mutate st r =
     (let h = History r; file = Between env h (StateOnDisk r);
          st' = (case LoadState (ReadFault env h) file of Inl _ \<Rightarrow> st | Inr current \<Rightarrow> mutate current)
      in case UpdateState (CleanupTime env) (ReadFault env h) (WriteFault env h) (\<lambda>current. Inr (mutate current)) file of
           (e, file') \<Rightarrow> (map_option StateError e, st', did (StateSaved st' e) (r\<lparr>StateOnDisk := file'\<rparr>)))"

text \<open>The common shape of the three deletions.\<close>

definition delete_tracked ::
  "bool \<Rightarrow> bool \<Rightarrow> cleanup_error \<Rightarrow> lookup \<Rightarrow> (cleanup_run \<Rightarrow> cleanup_error option \<times> cleanup_run) \<Rightarrow> cleanup_env
     \<Rightarrow> (State \<Rightarrow> State) \<Rightarrow> cleanup_step" where
  "delete_tracked tracked client missing look del env mutate st r =
     (if \<not> tracked then (None, st, r)
      else if \<not> client then (Some missing, st, r)
      else (case look r of
        (Inl e, r1) \<Rightarrow> (Some e, st, r1)
      | (Inr found, r1) \<Rightarrow>
          (case (if found then del r1 else (None, r1)) of
             (Some e, r2) \<Rightarrow> (Some e, st, r2)
           | (None, r2) \<Rightarrow> checkpointCleanupState env mutate st r2)))"

definition gone_or_failed :: "call_error option \<Rightarrow> cleanup_error option" where
  "gone_or_failed a = (case a of None \<Rightarrow> None | Some NotFound \<Rightarrow> None | Some e \<Rightarrow> Some (Call e))"

definition deleteTrackedTailscaleDevice :: "cleanup_env \<Rightarrow> Config \<Rightarrow> cleanup_step" where
  "deleteTrackedTailscaleDevice env cfg st =
     (let i = TsNodeID (TailscaleIn st) in
      delete_tracked (i \<noteq> '''') (HasTailscale env) TailscaleClientRequired (validateTrackedTailscaleDevice env cfg st)
        (\<lambda>r. let a = DeleteDeviceAt env (History r) i in (gone_or_failed a, did (DeviceDeleted i a) r))
        env clearTailscaleDeviceState st)"

definition deleteTrackedTailscaleAuthKey :: "cleanup_env \<Rightarrow> Config \<Rightarrow> cleanup_step" where
  "deleteTrackedTailscaleAuthKey env cfg st =
     (let i = TsAuthKeyID (TailscaleIn st) in
      delete_tracked (i \<noteq> '''') (HasTailscale env) TailscaleClientRequired (validateTrackedAuthKey env cfg st)
        (\<lambda>r. let a = DeleteAuthKeyAt env (History r) i in (gone_or_failed a, did (KeyDeleted i a) r))
        env clearTailscaleAuthKeyState st)"

text \<open>The loop that waits for a busy tunnel, with the waits the deadline allows.\<close>

fun deleteTrackedTunnel :: "cleanup_env \<Rightarrow> string \<Rightarrow> nat \<Rightarrow> cleanup_run \<Rightarrow> cleanup_error option \<times> cleanup_run" where
  "deleteTrackedTunnel env i waits r =
     (let a = DeleteTunnelAt env (History r) i; r1 = did (TunnelDeleted i a) r in
      case a of
        None \<Rightarrow> (None, r1)
      | Some NotFound \<Rightarrow> (None, r1)
      | Some (CallFailed e) \<Rightarrow> (Some (Call (CallFailed e)), r1)
      | Some ActiveConnections \<Rightarrow>
          (case waits of 0 \<Rightarrow> (Some TunnelStillBusy, r1) | Suc n \<Rightarrow> deleteTrackedTunnel env i n r1))"

definition deleteTrackedCloudflareTunnel :: "cleanup_env \<Rightarrow> Config \<Rightarrow> cleanup_step" where
  "deleteTrackedCloudflareTunnel env cfg st =
     delete_tracked (OwnsTunnel (CloudflareIn st)) (HasCloudflare env) CloudflareClientRequired (validateTrackedTunnel env cfg st)
       (deleteTrackedTunnel env (TunnelID (CloudflareIn st)) (Waits env)) env clearTunnelState st"

declare deleteTrackedTunnel.simps [simp del]

fun cleanup_steps :: "cleanup_step list \<Rightarrow> cleanup_step" where
  "cleanup_steps [] st r = (None, st, r)"
| "cleanup_steps (f # fs) st r =
     (case f st r of (Some e, st', r') \<Rightarrow> (Some e, st', r') | (None, st', r') \<Rightarrow> cleanup_steps fs st' r')"

definition deleteTrackedExternalResources :: "cleanup_env \<Rightarrow> serverDeleteCleanup \<Rightarrow> cleanup_run \<Rightarrow> cleanup_error option \<times> State \<times> cleanup_run" where
  "deleteTrackedExternalResources env cleanup =
     (let cfg = CleanupConfig cleanup in
      cleanup_steps [deleteTrackedTailscaleDevice env cfg, deleteTrackedCloudflareTunnel env cfg,
        deleteTrackedTailscaleAuthKey env cfg] (CleanupState cleanup))"


section \<open>Which read licenses a deletion\<close>

text \<open>The state in memory after a part of the history: the one of the last checkpoint.\<close>

fun memory :: "State \<Rightarrow> history \<Rightarrow> State" where
  "memory st [] = st"
| "memory st (e # es) = memory (case e of StateSaved s _ \<Rightarrow> s | _ \<Rightarrow> st) es"

definition device_read_owned :: "Config \<Rightarrow> State \<Rightarrow> del_event \<Rightarrow> bool" where
  "device_read_owned cfg st rd \<longleftrightarrow> TsNodeID (TailscaleIn st) \<noteq> ''''
     \<and> (\<exists>ds d. rd = DevicesRead (Inr ds) \<and> find (recorded_device st) ds = Some d \<and> validateTailscaleDeviceOwnership cfg st d = None)"

definition tunnel_read_owned :: "Config \<Rightarrow> State \<Rightarrow> del_event \<Rightarrow> bool" where
  "tunnel_read_owned cfg st rd \<longleftrightarrow> OwnsTunnel (CloudflareIn st)
     \<and> (\<exists>t. rd = TunnelRead (TunnelID (CloudflareIn st)) (Inr t) \<and> validateTunnelOwnership cfg st t = None)"

definition key_read_owned :: "Config \<Rightarrow> State \<Rightarrow> del_event \<Rightarrow> bool" where
  "key_read_owned cfg st rd \<longleftrightarrow> TsAuthKeyID (TailscaleIn st) \<noteq> ''''
     \<and> (\<exists>ks k. rd = KeysRead (Inr ks) \<and> find (\<lambda>k. KeyID k = TsAuthKeyID (TailscaleIn st)) ks = Some k
          \<and> validateAuthKeyOwnership cfg st k = None)"

definition deletes_device :: "State \<Rightarrow> del_event \<Rightarrow> bool" where
  "deletes_device st e \<longleftrightarrow> (\<exists>a. e = DeviceDeleted (TsNodeID (TailscaleIn st)) a)"

definition deletes_tunnel :: "State \<Rightarrow> del_event \<Rightarrow> bool" where
  "deletes_tunnel st e \<longleftrightarrow> (\<exists>a. e = TunnelDeleted (TunnelID (CloudflareIn st)) a)"

definition deletes_key :: "State \<Rightarrow> del_event \<Rightarrow> bool" where
  "deletes_key st e \<longleftrightarrow> (\<exists>a. e = KeyDeleted (TsAuthKeyID (TailscaleIn st)) a)"

definition licenses :: "Config \<Rightarrow> State \<Rightarrow> del_event \<Rightarrow> del_event \<Rightarrow> bool" where
  "licenses cfg st rd e \<longleftrightarrow> device_read_owned cfg st rd \<and> deletes_device st e
     \<or> tunnel_read_owned cfg st rd \<and> deletes_tunnel st e \<or> key_read_owned cfg st rd \<and> deletes_key st e"

fun is_deletion :: "del_event \<Rightarrow> bool" where
  "is_deletion (DeviceDeleted _ _) = True"
| "is_deletion (TunnelDeleted _ _) = True"
| "is_deletion (KeyDeleted _ _) = True"
| "is_deletion _ = False"

text \<open>
  Every deletion follows a read that shows the resource as owned by the state in memory, with nothing
  between the two but earlier attempts of the same deletion.
\<close>

definition licensed_history :: "Config \<Rightarrow> State \<Rightarrow> history \<Rightarrow> bool" where
  "licensed_history cfg st evs \<longleftrightarrow> (\<forall>pre e post. evs = pre @ e # post \<and> is_deletion e \<longrightarrow>
     (\<exists>before rd tries. pre = before @ rd # tries \<and> licenses cfg (memory st pre) rd e
        \<and> list_all (licenses cfg (memory st pre) rd) tries))"

lemma memory_append [simp]: "memory st (a @ b) = memory (memory st a) b"
  by (induction st a rule: memory.induct) auto

lemma licensed_history_Nil [simp]: "licensed_history cfg st []"
  by (simp add: licensed_history_def)

lemma licensed_history_append:
  assumes "licensed_history cfg st a" "licensed_history cfg (memory st a) b"
  shows "licensed_history cfg st (a @ b)"
  unfolding licensed_history_def
proof (intro allI impI)
  fix pre e post
  assume *: "a @ b = pre @ e # post \<and> is_deletion e"
  then consider (left) rest where "a = pre @ e # rest" | (right) pre' where "pre = a @ pre'" "b = pre' @ e # post"
    by (auto simp: append_eq_append_conv2 Cons_eq_append_conv append_eq_Cons_conv)
  then show "\<exists>before rd tries. pre = before @ rd # tries \<and> licenses cfg (memory st pre) rd e
        \<and> list_all (licenses cfg (memory st pre) rd) tries"
  proof cases
    case left
    then show ?thesis using assms(1) * unfolding licensed_history_def by blast
  next
    case right
    then obtain before rd tries where "pre' = before @ rd # tries" "licenses cfg (memory (memory st a) pre') rd e"
      "list_all (licenses cfg (memory (memory st a) pre') rd) tries"
      using assms(2) * unfolding licensed_history_def by blast
    then show ?thesis using right(1) by (intro exI [of _ "a @ before"] exI [of _ rd] exI [of _ tries]) simp
  qed
qed

text \<open>A read, the attempts of one deletion, and the checkpoint.\<close>

lemma licensed_history_round:
  assumes "list_all (licenses cfg st rd) dels" "\<not> is_deletion rd" "\<forall>s a. rd \<noteq> StateSaved s a" "list_all (\<lambda>e. \<not> is_deletion e) rest"
  shows "licensed_history cfg st (rd # dels @ rest)"
proof -
  have keep: "memory st (rd # ds) = st" if "list_all (licenses cfg st rd) ds" for ds
  proof -
    have "memory st ds = st" using that
      by (induction ds) (auto simp: licenses_def deletes_device_def deletes_tunnel_def deletes_key_def)
    then show ?thesis using assms(3) by (cases rd) auto
  qed
  have "licensed_history cfg st (rd # dels)"
    unfolding licensed_history_def
  proof (intro allI impI)
    fix pre e post
    assume *: "rd # dels = pre @ e # post \<and> is_deletion e"
    then obtain tries where t: "pre = rd # tries" "dels = tries @ e # post" using assms(2) by (cases pre) auto
    then have "list_all (licenses cfg st rd) tries" "licenses cfg st rd e" using assms(1) by simp_all
    then show "\<exists>before rd tries. pre = before @ rd # tries \<and> licenses cfg (memory st pre) rd e
        \<and> list_all (licenses cfg (memory st pre) rd) tries"
      using keep t(1) by (intro exI [of _ "[]"] exI [of _ rd] exI [of _ tries]) simp
  qed
  moreover have "licensed_history cfg s rest" for s using assms(4) by (auto simp: licensed_history_def)
  ultimately show ?thesis using licensed_history_append [of cfg st "rd # dels" rest] by simp
qed


section \<open>One round: look up, delete, checkpoint\<close>

fun deletion_done :: "del_event \<Rightarrow> bool" where
  "deletion_done (DeviceDeleted _ a) = (gone_or_failed a = None)"
| "deletion_done (TunnelDeleted _ a) = (gone_or_failed a = None)"
| "deletion_done (KeyDeleted _ a) = (gone_or_failed a = None)"
| "deletion_done _ = False"

fun is_read :: "del_event \<Rightarrow> bool" where
  "is_read (DevicesRead _) = True"
| "is_read (TunnelRead _ _) = True"
| "is_read (KeysRead _) = True"
| "is_read _ = False"

text \<open>The calls to services and the checkpoints between them: no compute call, no local file.\<close>

definition external :: "del_event \<Rightarrow> bool" where
  "external e \<longleftrightarrow> is_read e \<or> is_deletion e \<or> (\<exists>s a. e = StateSaved s a)"

lemma is_readD: "is_read e \<Longrightarrow> \<not> is_deletion e \<and> (\<forall>s a. e \<noteq> StateSaved s a)"
  by (cases e) auto

lemma licenses_external: "licenses cfg st rd e \<Longrightarrow> external e"
  by (auto simp: licenses_def deletes_device_def deletes_tunnel_def deletes_key_def external_def)

text \<open>
  What the three resources share: \<open>named\<close> by the state, \<open>read_owned\<close> and \<open>read_absent\<close>
  for what a lookup showed, and \<open>deletes\<close> for a call that deletes the named one.
\<close>

locale tracked_resource =
  fixes cfg :: Config
    and named :: "State \<Rightarrow> bool"
    and read_owned :: "State \<Rightarrow> del_event \<Rightarrow> bool"
    and read_absent :: "State \<Rightarrow> del_event \<Rightarrow> bool"
    and deletes :: "State \<Rightarrow> del_event \<Rightarrow> bool"
    and look :: "State \<Rightarrow> lookup"
    and del :: "State \<Rightarrow> cleanup_run \<Rightarrow> cleanup_error option \<times> cleanup_run"
  assumes look_spec: "named st \<Longrightarrow> look st r = (x, r1) \<Longrightarrow> \<exists>rd. r1 = did rd r \<and> is_read rd
      \<and> (x = Inr True \<longrightarrow> read_owned st rd) \<and> (x = Inr False \<longrightarrow> read_absent st rd)"
    and del_spec: "del st r = (y, r1) \<Longrightarrow> \<exists>evs. History r1 = History r @ evs \<and> StateOnDisk r1 = StateOnDisk r
      \<and> list_all (deletes st) evs \<and> (y = None \<longrightarrow> (\<exists>e \<in> set evs. deletion_done e))"
    and license: "read_owned st rd \<Longrightarrow> deletes st e \<Longrightarrow> licenses cfg st rd e"
begin

definition known_gone :: "State \<Rightarrow> history \<Rightarrow> bool" where
  "known_gone st evs \<longleftrightarrow> (\<exists>e \<in> set evs. read_absent st e \<or> deletes st e \<and> deletion_done e)"

lemma round:
  assumes "delete_tracked (named st) client missing (look st) (del st) env mutate st r = (err, st', s)"
  shows "\<exists>evs. History s = History r @ evs \<and> licensed_history cfg st evs \<and> memory st evs = st' \<and> list_all external evs
    \<and> (StateOnDisk s = StateOnDisk r \<and> st' = st \<and> (err = None \<longrightarrow> \<not> named st)
       \<or> named st \<and> known_gone st evs \<and> (\<exists>r2. StateOnDisk r2 = StateOnDisk r \<and> checkpointCleanupState env mutate st r2 = (err, st', s)))"
proof (cases "named st \<and> client")
  case False
  then show ?thesis using assms by (auto simp: delete_tracked_def split: if_splits)
next
  case True
  obtain x r1 where l: "look st r = (x, r1)" by fastforce
  then obtain rd where rd: "r1 = did rd r" "is_read rd" "x = Inr True \<longrightarrow> read_owned st rd" "x = Inr False \<longrightarrow> read_absent st rd"
    using look_spec True by blast
  have rd': "\<not> is_deletion rd" "\<forall>s a. rd \<noteq> StateSaved s a" using is_readD [OF rd(2)] by simp_all
  have ext: "external rd" using rd(2) by (simp add: external_def)
  have reading: "memory st [rd] = st" using rd' by (cases rd) auto
  show ?thesis
  proof (cases x)
    case (Inl e)
    then have "s = did rd r \<and> st' = st \<and> err = Some e" using assms True l rd(1) by (auto simp: delete_tracked_def)
    then show ?thesis using licensed_history_round [of cfg st rd "[]" "[]"] rd' reading ext
      by (intro exI [of _ "[rd]"]) (simp add: did_def)
  next
    case (Inr found)
    obtain y r2 where d: "(if found then del st r1 else (None, r1)) = (y, r2)" by fastforce
    have "\<exists>dels. History r2 = History r1 @ dels \<and> StateOnDisk r2 = StateOnDisk r1 \<and> list_all (deletes st) dels
      \<and> (y = None \<longrightarrow> found \<longrightarrow> (\<exists>e \<in> set dels. deletion_done e)) \<and> (\<not> found \<longrightarrow> dels = [])"
    proof (cases found)
      case True
      then show ?thesis using del_spec d by simp
    next
      case False
      then show ?thesis using d by simp
    qed
    then obtain dels where dels: "History r2 = History r1 @ dels" "StateOnDisk r2 = StateOnDisk r1" "list_all (deletes st) dels"
      "y = None \<longrightarrow> found \<longrightarrow> (\<exists>e \<in> set dels. deletion_done e)" "\<not> found \<longrightarrow> dels = []" by blast
    have lic: "list_all (licenses cfg st rd) dels"
      using dels(3,5) rd(3) Inr license by (cases found) (auto simp: list_all_iff)
    have ext_dels: "list_all external dels" using lic licenses_external by (auto simp: list_all_iff)
    have keep: "memory st (rd # dels) = st"
    proof -
      have "memory st dels = st" using lic
        by (induction dels) (auto simp: licenses_def deletes_device_def deletes_tunnel_def deletes_key_def)
      then show ?thesis using reading by simp
    qed
    show ?thesis
    proof (cases y)
      case (Some e)
      then have "s = r2 \<and> st' = st \<and> err = Some e" using assms True l Inr d by (auto simp: delete_tracked_def)
      then show ?thesis using licensed_history_round [OF lic rd', of "[]"] keep dels rd(1) ext ext_dels
        by (intro exI [of _ "rd # dels"]) (simp add: did_def)
    next
      case None
      then have c: "checkpointCleanupState env mutate st r2 = (err, st', s)" using assms True l Inr d by (simp add: delete_tracked_def)
      then obtain a where a: "History s = History r2 @ [StateSaved st' a]"
        by (auto simp: checkpointCleanupState_def did_def Let_def split: prod.splits)
      have "known_gone st (rd # dels @ [StateSaved st' a])"
        using None dels(3,4,5) rd(4) Inr by (cases found) (auto simp: known_gone_def list_all_iff)
      moreover have "memory st (rd # dels @ [StateSaved st' a]) = st'" using keep by simp
      moreover have "external (StateSaved st' a)" by (simp add: external_def)
      ultimately show ?thesis using licensed_history_round [OF lic rd', of "[StateSaved st' a]"] a c dels True rd(1) ext ext_dels
        by (intro exI [of _ "rd # dels @ [StateSaved st' a]"]) (auto simp: did_def)
    qed
  qed
qed

lemma check:
  assumes "preflight_check (named st) client missing (look st) r = (e, s)"
  shows "\<exists>evs. History s = History r @ evs \<and> StateOnDisk s = StateOnDisk r \<and> list_all is_read evs
    \<and> (e = None \<and> named st \<longrightarrow> (\<exists>rd \<in> set evs. read_owned st rd \<or> read_absent st rd))"
proof (cases "named st \<and> client")
  case False
  then show ?thesis using assms by (auto simp: preflight_check_def split: if_splits)
next
  case True
  obtain x r1 where l: "look st r = (x, r1)" by fastforce
  then obtain rd where rd: "r1 = did rd r" "is_read rd" "x = Inr True \<longrightarrow> read_owned st rd" "x = Inr False \<longrightarrow> read_absent st rd"
    using look_spec True by blast
  have "s = r1" "e = None \<longrightarrow> (\<exists>b. x = Inr b)" using assms True l by (auto simp: preflight_check_def split: sum.splits)
  then show ?thesis using rd by (intro exI [of _ "[rd]"]) (auto simp: did_def)
qed

end

text \<open>The three resources.\<close>

definition device_absent :: "State \<Rightarrow> del_event \<Rightarrow> bool" where
  "device_absent st rd \<longleftrightarrow> (\<exists>ds. rd = DevicesRead (Inr ds) \<and> find (recorded_device st) ds = None)"

definition tunnel_absent :: "State \<Rightarrow> del_event \<Rightarrow> bool" where
  "tunnel_absent st rd \<longleftrightarrow> rd = TunnelRead (TunnelID (CloudflareIn st)) (Inl NotFound)"

definition key_absent :: "State \<Rightarrow> del_event \<Rightarrow> bool" where
  "key_absent st rd \<longleftrightarrow> (\<exists>ks. rd = KeysRead (Inr ks) \<and> find (\<lambda>k. KeyID k = TsAuthKeyID (TailscaleIn st)) ks = None)"

lemma tunnel_deletion_step:
  assumes "DeleteTunnelAt env (History r) i = a"
  shows "deleteTrackedTunnel env i n r =
    (if a = Some ActiveConnections then
       (case n of 0 \<Rightarrow> (Some TunnelStillBusy, did (TunnelDeleted i a) r)
        | Suc m \<Rightarrow> deleteTrackedTunnel env i m (did (TunnelDeleted i a) r))
     else (gone_or_failed a, did (TunnelDeleted i a) r))"
proof (cases a)
  case None
  then show ?thesis by (simp add: deleteTrackedTunnel.simps [of env i n r] assms gone_or_failed_def Let_def)
next
  case (Some e)
  show ?thesis by (subst deleteTrackedTunnel.simps) (cases e; cases n; simp add: assms Some gone_or_failed_def Let_def)
qed

lemma tunnel_tries:
  assumes "deleteTrackedTunnel env i n r = (y, r1)"
  shows "\<exists>evs. History r1 = History r @ evs \<and> StateOnDisk r1 = StateOnDisk r \<and> list_all (\<lambda>e. \<exists>a. e = TunnelDeleted i a) evs
    \<and> (y = None \<longrightarrow> (\<exists>e \<in> set evs. deletion_done e))"
  using assms
proof (induction n arbitrary: r)
  case 0
  then show ?case
    by (intro exI [of _ "[TunnelDeleted i (DeleteTunnelAt env (History r) i)]"])
      (auto simp: tunnel_deletion_step [OF refl] did_def split: if_splits)
next
  case (Suc m)
  define a where "a = DeleteTunnelAt env (History r) i"
  note run = Suc.prems [unfolded tunnel_deletion_step [OF a_def [symmetric]]]
  show ?case
  proof (cases "a = Some ActiveConnections")
    case True
    then have "deleteTrackedTunnel env i m (did (TunnelDeleted i a) r) = (y, r1)" using run by simp
    from Suc.IH [OF this] obtain evs where "History r1 = History r @ TunnelDeleted i a # evs" "StateOnDisk r1 = StateOnDisk r"
      "list_all (\<lambda>e. \<exists>a. e = TunnelDeleted i a) evs" "y = None \<longrightarrow> (\<exists>e \<in> set evs. deletion_done e)"
      by (auto simp: did_def)
    then show ?thesis by (intro exI [of _ "TunnelDeleted i a # evs"]) auto
  next
    case False
    then show ?thesis using run by (intro exI [of _ "[TunnelDeleted i a]"]) (auto simp: did_def)
  qed
qed

interpretation device: tracked_resource cfg "\<lambda>st. TsNodeID (TailscaleIn st) \<noteq> ''''" "device_read_owned cfg" device_absent deletes_device
  "validateTrackedTailscaleDevice env cfg"
  "\<lambda>st r. let a = DeleteDeviceAt env (History r) (TsNodeID (TailscaleIn st))
     in (gone_or_failed a, did (DeviceDeleted (TsNodeID (TailscaleIn st)) a) r)" for cfg env
  by unfold_locales
    (auto simp: validateTrackedTailscaleDevice_def Let_def found_owned_def device_read_owned_def device_absent_def
      deletes_device_def did_def licenses_def split: sum.splits option.splits)

interpretation tunnel: tracked_resource cfg "\<lambda>st. OwnsTunnel (CloudflareIn st)" "tunnel_read_owned cfg" tunnel_absent deletes_tunnel
  "validateTrackedTunnel env cfg"
  "\<lambda>st. deleteTrackedTunnel env (TunnelID (CloudflareIn st)) (Waits env)" for cfg env
proof unfold_locales
  fix st :: State and r y r1
  assume "deleteTrackedTunnel env (TunnelID (CloudflareIn st)) (Waits env) r = (y, r1)"
  then show "\<exists>evs. History r1 = History r @ evs \<and> StateOnDisk r1 = StateOnDisk r \<and> list_all (deletes_tunnel st) evs
      \<and> (y = None \<longrightarrow> (\<exists>e \<in> set evs. deletion_done e))"
    using tunnel_tries unfolding deletes_tunnel_def by blast
qed (auto simp: validateTrackedTunnel_def Let_def tunnel_read_owned_def tunnel_absent_def did_def licenses_def
    split: sum.splits option.splits call_error.splits)

interpretation key: tracked_resource cfg "\<lambda>st. TsAuthKeyID (TailscaleIn st) \<noteq> ''''" "key_read_owned cfg" key_absent deletes_key
  "validateTrackedAuthKey env cfg"
  "\<lambda>st r. let a = DeleteAuthKeyAt env (History r) (TsAuthKeyID (TailscaleIn st))
     in (gone_or_failed a, did (KeyDeleted (TsAuthKeyID (TailscaleIn st)) a) r)" for cfg env
  by unfold_locales
    (auto simp: validateTrackedAuthKey_def Let_def found_owned_def key_read_owned_def key_absent_def
      deletes_key_def did_def licenses_def split: sum.splits option.splits)


section \<open>The preflight\<close>

lemma preflight_reads:
  assumes "preflightTrackedExternalResources env cleanup r = (e, s)"
  shows "\<exists>evs. History s = History r @ evs \<and> StateOnDisk s = StateOnDisk r \<and> list_all is_read evs \<and> (e = None \<longrightarrow>
      (TsNodeID (TailscaleIn (CleanupState cleanup)) \<noteq> '''' \<longrightarrow>
         (\<exists>rd \<in> set evs. device_read_owned (CleanupConfig cleanup) (CleanupState cleanup) rd \<or> device_absent (CleanupState cleanup) rd))
    \<and> (OwnsTunnel (CloudflareIn (CleanupState cleanup)) \<longrightarrow>
         (\<exists>rd \<in> set evs. tunnel_read_owned (CleanupConfig cleanup) (CleanupState cleanup) rd \<or> tunnel_absent (CleanupState cleanup) rd))
    \<and> (TsAuthKeyID (TailscaleIn (CleanupState cleanup)) \<noteq> '''' \<longrightarrow>
         (\<exists>rd \<in> set evs. key_read_owned (CleanupConfig cleanup) (CleanupState cleanup) rd \<or> key_absent (CleanupState cleanup) rd)))"
proof -
  let ?st = "CleanupState cleanup" and ?cfg = "CleanupConfig cleanup"
  let ?f1 = "preflight_check (TsNodeID (TailscaleIn ?st) \<noteq> '''') (HasTailscale env) TailscaleClientRequired (validateTrackedTailscaleDevice env ?cfg ?st)"
  let ?f2 = "preflight_check (OwnsTunnel (CloudflareIn ?st)) (HasCloudflare env) CloudflareClientRequired (validateTrackedTunnel env ?cfg ?st)"
  let ?f3 = "preflight_check (TsAuthKeyID (TailscaleIn ?st) \<noteq> '''') (HasTailscale env) TailscaleClientRequired (validateTrackedAuthKey env ?cfg ?st)"
  obtain e1 r1 where 1: "?f1 r = (e1, r1)" by fastforce
  obtain e2 r2 where 2: "?f2 r1 = (e2, r2)" by fastforce
  obtain e3 r3 where 3: "?f3 r2 = (e3, r3)" by fastforce
  have run: "(e, s) = (case e1 of Some x \<Rightarrow> (Some x, r1) | None \<Rightarrow> (case e2 of Some x \<Rightarrow> (Some x, r2) | None \<Rightarrow> (e3, r3)))"
    using assms 1 2 3 by (cases e1; cases e2; cases e3) (auto simp: preflightTrackedExternalResources_def Let_def)
  obtain evs1 where h1: "History r1 = History r @ evs1" "StateOnDisk r1 = StateOnDisk r" "list_all is_read evs1"
    "e1 = None \<and> TsNodeID (TailscaleIn ?st) \<noteq> '''' \<longrightarrow> (\<exists>rd \<in> set evs1. device_read_owned ?cfg ?st rd \<or> device_absent ?st rd)"
    using device.check [where cfg = "?cfg" and st = "?st", OF 1] by blast
  obtain evs2 where h2: "History r2 = History r1 @ evs2" "StateOnDisk r2 = StateOnDisk r1" "list_all is_read evs2"
    "e2 = None \<and> OwnsTunnel (CloudflareIn ?st) \<longrightarrow> (\<exists>rd \<in> set evs2. tunnel_read_owned ?cfg ?st rd \<or> tunnel_absent ?st rd)"
    using tunnel.check [where cfg = "?cfg" and st = "?st", OF 2] by blast
  obtain evs3 where h3: "History r3 = History r2 @ evs3" "StateOnDisk r3 = StateOnDisk r2" "list_all is_read evs3"
    "e3 = None \<and> TsAuthKeyID (TailscaleIn ?st) \<noteq> '''' \<longrightarrow> (\<exists>rd \<in> set evs3. key_read_owned ?cfg ?st rd \<or> key_absent ?st rd)"
    using key.check [where cfg = "?cfg" and st = "?st", OF 3] by blast
  show ?thesis
  proof (cases e1)
    case (Some x)
    then show ?thesis using run h1 by auto
  next
    case e1: None
    show ?thesis
    proof (cases e2)
      case (Some x)
      then show ?thesis using run e1 h1 h2 by (intro exI [of _ "evs1 @ evs2"]) auto
    next
      case None
      then show ?thesis using run e1 h1 h2 h3 by (intro exI [of _ "evs1 @ evs2 @ evs3"]) auto
    qed
  qed
qed

section \<open>The whole cleanup\<close>

text \<open>
  Other writers of the state file leave what delete works on: while the server lock is held only the
  ingress and address updates of read commands write it.
\<close>

abbreviation resources :: "State \<Rightarrow> TailscaleState \<times> CloudflareState" where
  "resources st \<equiv> (TailscaleIn st, CloudflareIn st)"

definition file_resources :: "state_file \<Rightarrow> (TailscaleState \<times> CloudflareState) option" where
  "file_resources file = (case file of StateFile st _ \<Rightarrow> Some (resources st) | _ \<Rightarrow> None)"

definition calm :: "cleanup_env \<Rightarrow> bool" where
  "calm env \<longleftrightarrow> (\<forall>h file. file_resources (Between env h file) = file_resources file)"

text \<open>What a file may have forgotten of the resources \<open>st\<close> named: only what the history shows as gone.\<close>

definition forgot_only_gone :: "State \<Rightarrow> history \<Rightarrow> TailscaleState \<times> CloudflareState \<Rightarrow> bool" where
  "forgot_only_gone st evs res \<longleftrightarrow>
     (TsNodeID (fst res) = TsNodeID (TailscaleIn st) \<or> TsNodeID (fst res) = '''' \<and> device.known_gone st evs)
     \<and> (snd res = CloudflareIn st \<or> \<not> OwnsTunnel (snd res) \<and> tunnel.known_gone st evs)
     \<and> (TsAuthKeyID (fst res) = TsAuthKeyID (TailscaleIn st) \<or> TsAuthKeyID (fst res) = '''' \<and> key.known_gone st evs)"

lemma cleanup_split:
  assumes "deleteTrackedExternalResources env cleanup r = (err, st, s)"
  obtains e1 s1 r1 where "deleteTrackedTailscaleDevice env (CleanupConfig cleanup) (CleanupState cleanup) r = (e1, s1, r1)"
    "e1 \<noteq> None \<Longrightarrow> (err, st, s) = (e1, s1, r1)"
    "e1 = None \<Longrightarrow> \<exists>e2 s2 r2. deleteTrackedCloudflareTunnel env (CleanupConfig cleanup) s1 r1 = (e2, s2, r2)
       \<and> (e2 \<noteq> None \<longrightarrow> (err, st, s) = (e2, s2, r2))
       \<and> (e2 = None \<longrightarrow> deleteTrackedTailscaleAuthKey env (CleanupConfig cleanup) s2 r2 = (err, st, s))"
proof -
  obtain e1 s1 r1 where 1: "deleteTrackedTailscaleDevice env (CleanupConfig cleanup) (CleanupState cleanup) r = (e1, s1, r1)"
    by (metis prod_cases3)
  obtain e2 s2 r2 where 2: "deleteTrackedCloudflareTunnel env (CleanupConfig cleanup) s1 r1 = (e2, s2, r2)"
    by (metis prod_cases3)
  obtain e3 s3 r3 where 3: "deleteTrackedTailscaleAuthKey env (CleanupConfig cleanup) s2 r2 = (e3, s3, r3)"
    by (metis prod_cases3)
  have run: "(case e1 of Some e \<Rightarrow> (Some e, s1, r1) | None \<Rightarrow> (case e2 of Some e \<Rightarrow> (Some e, s2, r2) | None \<Rightarrow> (e3, s3, r3))) = (err, st, s)"
    using assms 1 2 3 by (cases e1; cases e2; cases e3) (auto simp: deleteTrackedExternalResources_def Let_def)
  show ?thesis
  proof (rule that [OF 1])
    show "(err, st, s) = (e1, s1, r1)" if "e1 \<noteq> None" using run that by (cases e1) auto
    show "\<exists>e2 s2 r2. deleteTrackedCloudflareTunnel env (CleanupConfig cleanup) s1 r1 = (e2, s2, r2)
       \<and> (e2 \<noteq> None \<longrightarrow> (err, st, s) = (e2, s2, r2))
       \<and> (e2 = None \<longrightarrow> deleteTrackedTailscaleAuthKey env (CleanupConfig cleanup) s2 r2 = (err, st, s))" if "e1 = None"
      using run that 2 3 by (cases e2) auto
  qed
qed


lemma rounds:
  "deleteTrackedTailscaleDevice env cfg st r = (err, st', s) \<Longrightarrow> \<exists>evs. History s = History r @ evs \<and> licensed_history cfg st evs \<and> memory st evs = st' \<and> list_all external evs
    \<and> (StateOnDisk s = StateOnDisk r \<and> st' = st \<and> (err = None \<longrightarrow> TsNodeID (TailscaleIn st) = '''')
       \<or> TsNodeID (TailscaleIn st) \<noteq> '''' \<and> device.known_gone st evs
          \<and> (\<exists>r2. StateOnDisk r2 = StateOnDisk r \<and> checkpointCleanupState env clearTailscaleDeviceState st r2 = (err, st', s)))"
  "deleteTrackedCloudflareTunnel env cfg st r = (err, st', s) \<Longrightarrow> \<exists>evs. History s = History r @ evs \<and> licensed_history cfg st evs \<and> memory st evs = st' \<and> list_all external evs
    \<and> (StateOnDisk s = StateOnDisk r \<and> st' = st \<and> (err = None \<longrightarrow> \<not> OwnsTunnel (CloudflareIn st))
       \<or> OwnsTunnel (CloudflareIn st) \<and> tunnel.known_gone st evs
          \<and> (\<exists>r2. StateOnDisk r2 = StateOnDisk r \<and> checkpointCleanupState env clearTunnelState st r2 = (err, st', s)))"
  "deleteTrackedTailscaleAuthKey env cfg st r = (err, st', s) \<Longrightarrow> \<exists>evs. History s = History r @ evs \<and> licensed_history cfg st evs \<and> memory st evs = st' \<and> list_all external evs
    \<and> (StateOnDisk s = StateOnDisk r \<and> st' = st \<and> (err = None \<longrightarrow> TsAuthKeyID (TailscaleIn st) = '''')
       \<or> TsAuthKeyID (TailscaleIn st) \<noteq> '''' \<and> key.known_gone st evs
          \<and> (\<exists>r2. StateOnDisk r2 = StateOnDisk r \<and> checkpointCleanupState env clearTailscaleAuthKeyState st r2 = (err, st', s)))"
  unfolding deleteTrackedTailscaleDevice_def deleteTrackedCloudflareTunnel_def deleteTrackedTailscaleAuthKey_def Let_def
  by (drule device.round [where cfg = cfg, unfolded Let_def], simp)
     (drule tunnel.round [where cfg = cfg], simp,
      drule key.round [where cfg = cfg, unfolded Let_def], simp)


text \<open>
  No deletion of a tailnet device, a tunnel or a bootstrap key is sent unless the read right before it
  (earlier attempts of the same deletion apart) showed the resource under the recorded identifier with the
  name and tags that make it this server's: whatever the services answer and whatever other writers do to
  the state file in between.
\<close>

lemma external_deletions_licensed:
  assumes "deleteTrackedExternalResources env cleanup r = (err, st, s)"
  shows "\<exists>evs. History s = History r @ evs \<and> licensed_history (CleanupConfig cleanup) (CleanupState cleanup) evs \<and> list_all external evs"
proof (rule cleanup_split [OF assms])
  fix e1 s1 r1
  assume 1: "deleteTrackedTailscaleDevice env (CleanupConfig cleanup) (CleanupState cleanup) r = (e1, s1, r1)"
    and stop: "e1 \<noteq> None \<Longrightarrow> (err, st, s) = (e1, s1, r1)"
    and go: "e1 = None \<Longrightarrow> \<exists>e2 s2 r2. deleteTrackedCloudflareTunnel env (CleanupConfig cleanup) s1 r1 = (e2, s2, r2)
       \<and> (e2 \<noteq> None \<longrightarrow> (err, st, s) = (e2, s2, r2))
       \<and> (e2 = None \<longrightarrow> deleteTrackedTailscaleAuthKey env (CleanupConfig cleanup) s2 r2 = (err, st, s))"
  obtain evs1 where h1: "History r1 = History r @ evs1" "licensed_history (CleanupConfig cleanup) (CleanupState cleanup) evs1"
    "memory (CleanupState cleanup) evs1 = s1" "list_all external evs1" using rounds(1) [OF 1] by blast
  show ?thesis
  proof (cases "e1 = None")
    case False
    then show ?thesis using stop h1 by auto
  next
    case True
    then obtain e2 s2 r2 where 2: "deleteTrackedCloudflareTunnel env (CleanupConfig cleanup) s1 r1 = (e2, s2, r2)"
      and stop2: "e2 \<noteq> None \<longrightarrow> (err, st, s) = (e2, s2, r2)"
      and go2: "e2 = None \<longrightarrow> deleteTrackedTailscaleAuthKey env (CleanupConfig cleanup) s2 r2 = (err, st, s)" using go by blast
    obtain evs2 where h2: "History r2 = History r1 @ evs2" "licensed_history (CleanupConfig cleanup) s1 evs2" "memory s1 evs2 = s2"
      "list_all external evs2"
      using rounds(2) [OF 2] by blast
    note l12 = licensed_history_append [OF h1(2), unfolded h1(3), OF h2(2)]
    show ?thesis
    proof (cases "e2 = None")
      case False
      then show ?thesis using stop2 h1(1,4) h2(1,4) l12 by auto
    next
      case True
      then obtain evs3 where h3: "History s = History r2 @ evs3" "licensed_history (CleanupConfig cleanup) s2 evs3"
        "list_all external evs3"
        using go2 rounds(3) by blast
      have "licensed_history (CleanupConfig cleanup) (CleanupState cleanup) ((evs1 @ evs2) @ evs3)"
        by (rule licensed_history_append [OF l12]) (simp add: h1(3) h2(3) h3(2))
      then show ?thesis using h1(1,4) h2(1,4) h3(1,3) by auto
    qed
  qed
qed

lemma loaded_resources: "LoadState rd file = Inr cur \<Longrightarrow> file_resources file = Some (resources cur)"
  by (auto simp: LoadState_def normalize_state_def file_resources_def Let_def split: option.splits state_file.splits if_splits sum.splits)

lemma checkpoint_disk:
  assumes "checkpointCleanupState env mutate st r = (e, st', s)" "calm env" "file_resources (StateOnDisk r) = Some res"
  shows "if e = None then file_resources (StateOnDisk s) = Some (resources st') \<and> (\<exists>cur. resources cur = res \<and> st' = mutate cur)
    else file_resources (StateOnDisk s) = Some res"
proof -
  let ?file = "Between env (History r) (StateOnDisk r)"
  have res: "file_resources ?file = Some res" using assms(2,3) by (simp add: calm_def)
  obtain file' e' where u: "UpdateState (CleanupTime env) (ReadFault env (History r)) (WriteFault env (History r))
      (\<lambda>current. Inr (mutate current)) ?file = (e', file')" and s: "StateOnDisk s = file'" and e: "e = map_option StateError e'"
    and st': "st' = (case LoadState (ReadFault env (History r)) ?file of Inl _ \<Rightarrow> st | Inr current \<Rightarrow> mutate current)"
    using assms(1) by (auto simp: checkpointCleanupState_def did_def Let_def split: prod.splits)
  show ?thesis
  proof (cases "LoadState (ReadFault env (History r)) ?file")
    case (Inl x)
    then show ?thesis using u s e res by (auto simp: UpdateState_def)
  next
    case (Inr cur)
    have sv: "saveStateUnlocked (CleanupTime env) (WriteFault env (History r)) (mutate cur) ?file = (e', file')"
      using u Inr by (simp add: UpdateState_def)
    have "resources cur = res" using loaded_resources [OF Inr] res by simp
    then show ?thesis using save_result [OF sv] s e st' Inr res by (auto simp: file_resources_def)
  qed
qed


lemmas known_gone_defs = device.known_gone_def tunnel.known_gone_def key.known_gone_def

lemma device_forgets:
  assumes "deleteTrackedTailscaleDevice env cfg st r = (err, st', s)" "calm env" "file_resources (StateOnDisk r) = Some (resources st)"
  shows "\<exists>evs ts. History s = History r @ evs \<and> file_resources (StateOnDisk s) = Some (ts, CloudflareIn st)
    \<and> (err = None \<longrightarrow> resources st' = (ts, CloudflareIn st) \<and> TsNodeID ts = '''') \<and> TsAuthKeyID ts = TsAuthKeyID (TailscaleIn st)
    \<and> (TsNodeID ts = TsNodeID (TailscaleIn st) \<or> TsNodeID ts = '''' \<and> device.known_gone st evs)"
proof -
  obtain evs where evs: "History s = History r @ evs" and kind: "StateOnDisk s = StateOnDisk r \<and> st' = st \<and> (err = None \<longrightarrow> TsNodeID (TailscaleIn st) = '''')
     \<or> device.known_gone st evs \<and> (\<exists>r2. StateOnDisk r2 = StateOnDisk r \<and> checkpointCleanupState env clearTailscaleDeviceState st r2 = (err, st', s))"
    using rounds(1) [OF assms(1)] by blast
  from kind show ?thesis
  proof
    assume *: "device.known_gone st evs \<and> (\<exists>r2. StateOnDisk r2 = StateOnDisk r \<and> checkpointCleanupState env clearTailscaleDeviceState st r2 = (err, st', s))"
    then obtain r2 where "StateOnDisk r2 = StateOnDisk r" "checkpointCleanupState env clearTailscaleDeviceState st r2 = (err, st', s)" by blast
    then show ?thesis using * checkpoint_disk [of env clearTailscaleDeviceState st r2 err st' s "resources st"] assms(2,3) evs
      by (auto simp: clearTailscaleDeviceState_def split: if_splits)
  qed (use assms(3) evs in auto)
qed

lemma tunnel_forgets:
  assumes "deleteTrackedCloudflareTunnel env cfg st r = (err, st', s)" "calm env" "file_resources (StateOnDisk r) = Some (resources st)"
  shows "\<exists>evs cf. History s = History r @ evs \<and> file_resources (StateOnDisk s) = Some (TailscaleIn st, cf)
    \<and> (err = None \<longrightarrow> resources st' = (TailscaleIn st, cf) \<and> \<not> OwnsTunnel cf)
    \<and> (cf = CloudflareIn st \<or> \<not> OwnsTunnel cf \<and> tunnel.known_gone st evs)"
proof -
  obtain evs where evs: "History s = History r @ evs" and kind: "StateOnDisk s = StateOnDisk r \<and> st' = st \<and> (err = None \<longrightarrow> \<not> OwnsTunnel (CloudflareIn st))
     \<or> tunnel.known_gone st evs \<and> (\<exists>r2. StateOnDisk r2 = StateOnDisk r \<and> checkpointCleanupState env clearTunnelState st r2 = (err, st', s))"
    using rounds(2) [OF assms(1)] by blast
  from kind show ?thesis
  proof
    assume *: "tunnel.known_gone st evs \<and> (\<exists>r2. StateOnDisk r2 = StateOnDisk r \<and> checkpointCleanupState env clearTunnelState st r2 = (err, st', s))"
    then obtain r2 where "StateOnDisk r2 = StateOnDisk r" "checkpointCleanupState env clearTunnelState st r2 = (err, st', s)" by blast
    then show ?thesis using * checkpoint_disk [of env clearTunnelState st r2 err st' s "resources st"] assms(2,3) evs
      by (auto simp: clearTunnelState_def no_cloudflare_def OwnsTunnel_def split: if_splits)
  qed (use assms(3) evs in auto)
qed

lemma key_forgets:
  assumes "deleteTrackedTailscaleAuthKey env cfg st r = (err, st', s)" "calm env" "file_resources (StateOnDisk r) = Some (resources st)"
  shows "\<exists>evs ts. History s = History r @ evs \<and> file_resources (StateOnDisk s) = Some (ts, CloudflareIn st)
    \<and> (err = None \<longrightarrow> resources st' = (ts, CloudflareIn st) \<and> TsAuthKeyID ts = '''') \<and> TsNodeID ts = TsNodeID (TailscaleIn st)
    \<and> (TsAuthKeyID ts = TsAuthKeyID (TailscaleIn st) \<or> TsAuthKeyID ts = '''' \<and> key.known_gone st evs)"
proof -
  obtain evs where evs: "History s = History r @ evs" and kind: "StateOnDisk s = StateOnDisk r \<and> st' = st \<and> (err = None \<longrightarrow> TsAuthKeyID (TailscaleIn st) = '''')
     \<or> key.known_gone st evs \<and> (\<exists>r2. StateOnDisk r2 = StateOnDisk r \<and> checkpointCleanupState env clearTailscaleAuthKeyState st r2 = (err, st', s))"
    using rounds(3) [OF assms(1)] by blast
  from kind show ?thesis
  proof
    assume *: "key.known_gone st evs \<and> (\<exists>r2. StateOnDisk r2 = StateOnDisk r \<and> checkpointCleanupState env clearTailscaleAuthKeyState st r2 = (err, st', s))"
    then obtain r2 where "StateOnDisk r2 = StateOnDisk r" "checkpointCleanupState env clearTailscaleAuthKeyState st r2 = (err, st', s)" by blast
    then show ?thesis using * checkpoint_disk [of env clearTailscaleAuthKeyState st r2 err st' s "resources st"] assms(2,3) evs
      by (auto simp: clearTailscaleAuthKeyState_def split: if_splits)
  qed (use assms(3) evs in auto)
qed

lemma known_gone_mono:
  "device.known_gone st evs \<Longrightarrow> device.known_gone st (a @ evs @ b)" "tunnel.known_gone st evs \<Longrightarrow> tunnel.known_gone st (a @ evs @ b)"
  "key.known_gone st evs \<Longrightarrow> key.known_gone st (a @ evs @ b)"
  by (auto simp: known_gone_defs)

lemma known_gone_cong:
  "CloudflareIn a = CloudflareIn b \<Longrightarrow> tunnel.known_gone a evs = tunnel.known_gone b evs"
  "TsAuthKeyID (TailscaleIn a) = TsAuthKeyID (TailscaleIn b) \<Longrightarrow> key.known_gone a evs = key.known_gone b evs"
  by (simp_all add: known_gone_defs tunnel_absent_def key_absent_def deletes_tunnel_def deletes_key_def)

text \<open>
  The state file forgets a resource only when it is gone: after a cleanup that stopped anywhere, the
  file still names every device, tunnel and key that was not seen missing and whose deletion did not
  succeed, so a rerun of delete takes them up again; and a cleanup without error leaves none to delete.
\<close>

lemma cleanup_forgets_only_gone:
  assumes "deleteTrackedExternalResources env cleanup r = (err, st, s)"
    and "calm env" "file_resources (StateOnDisk r) = Some (resources (CleanupState cleanup))"
  shows "\<exists>evs res. History s = History r @ evs \<and> file_resources (StateOnDisk s) = Some res
    \<and> forgot_only_gone (CleanupState cleanup) evs res
    \<and> (err = None \<longrightarrow> res = resources st \<and> \<not> serverDeleteCleanupRequired st)"
proof (rule cleanup_split [OF assms(1)])
  let ?st = "CleanupState cleanup"
  fix e1 s1 r1
  assume 1: "deleteTrackedTailscaleDevice env (CleanupConfig cleanup) ?st r = (e1, s1, r1)"
    and stop: "e1 \<noteq> None \<Longrightarrow> (err, st, s) = (e1, s1, r1)"
    and go: "e1 = None \<Longrightarrow> \<exists>e2 s2 r2. deleteTrackedCloudflareTunnel env (CleanupConfig cleanup) s1 r1 = (e2, s2, r2)
       \<and> (e2 \<noteq> None \<longrightarrow> (err, st, s) = (e2, s2, r2))
       \<and> (e2 = None \<longrightarrow> deleteTrackedTailscaleAuthKey env (CleanupConfig cleanup) s2 r2 = (err, st, s))"
  obtain evs1 ts1 where h1: "History r1 = History r @ evs1" and d1: "file_resources (StateOnDisk r1) = Some (ts1, CloudflareIn ?st)"
    and ok1: "e1 = None \<longrightarrow> resources s1 = (ts1, CloudflareIn ?st) \<and> TsNodeID ts1 = ''''"
    and k1: "TsAuthKeyID ts1 = TsAuthKeyID (TailscaleIn ?st)"
    and n1: "TsNodeID ts1 = TsNodeID (TailscaleIn ?st) \<or> TsNodeID ts1 = '''' \<and> device.known_gone ?st evs1"
    using device_forgets [OF 1 assms(2,3)] by blast
  show ?thesis
  proof (cases "e1 = None")
    case False
    then show ?thesis using stop h1 d1 k1 n1 by (auto simp: forgot_only_gone_def)
  next
    case True
    then have r1: "resources s1 = (ts1, CloudflareIn ?st)" "TsNodeID ts1 = ''''" using ok1 by simp_all
    from True go obtain e2 s2 r2 where 2: "deleteTrackedCloudflareTunnel env (CleanupConfig cleanup) s1 r1 = (e2, s2, r2)"
      and stop2: "e2 \<noteq> None \<longrightarrow> (err, st, s) = (e2, s2, r2)"
      and go2: "e2 = None \<longrightarrow> deleteTrackedTailscaleAuthKey env (CleanupConfig cleanup) s2 r2 = (err, st, s)" by blast
    obtain evs2 cf2 where h2: "History r2 = History r1 @ evs2" and d2: "file_resources (StateOnDisk r2) = Some (ts1, cf2)"
      and ok2: "e2 = None \<longrightarrow> resources s2 = (ts1, cf2) \<and> \<not> OwnsTunnel cf2"
      and t2: "cf2 = CloudflareIn ?st \<or> \<not> OwnsTunnel cf2 \<and> tunnel.known_gone ?st evs2"
      using tunnel_forgets [OF 2 assms(2)] d1 r1 known_gone_cong(1) [of s1 ?st] by auto
    show ?thesis
    proof (cases "e2 = None")
      case False
      then have "s = r2" "err = e2" using stop2 by simp_all
      then show ?thesis using False h1 h2 d2 k1 n1 t2 known_gone_mono(1) [of ?st evs1 "[]" evs2] known_gone_mono(2) [of ?st evs2 evs1 "[]"]
        by (intro exI [of _ "evs1 @ evs2"] exI [of _ "(ts1, cf2)"]) (auto simp: forgot_only_gone_def)
    next
      case True
      then have r2: "resources s2 = (ts1, cf2)" "\<not> OwnsTunnel cf2" using ok2 by simp_all
      have 3: "deleteTrackedTailscaleAuthKey env (CleanupConfig cleanup) s2 r2 = (err, st, s)" using True go2 by simp
      obtain evs3 ts3 where h3: "History s = History r2 @ evs3" and d3: "file_resources (StateOnDisk s) = Some (ts3, cf2)"
        and ok3: "err = None \<longrightarrow> resources st = (ts3, cf2) \<and> TsAuthKeyID ts3 = ''''" and n3: "TsNodeID ts3 = TsNodeID ts1"
        and k3: "TsAuthKeyID ts3 = TsAuthKeyID (TailscaleIn ?st) \<or> TsAuthKeyID ts3 = '''' \<and> key.known_gone ?st evs3"
        using key_forgets [OF 3 assms(2)] d2 r2 k1 known_gone_cong(2) [of s2 ?st] by auto
      show ?thesis
        using h1 h2 h3 d3 ok3 n3 k3 n1 t2 r1(2) r2(2)
          known_gone_mono(1) [of ?st evs1 "[]" "evs2 @ evs3"] known_gone_mono(2) [of ?st evs2 evs1 evs3] known_gone_mono(3) [of ?st evs3 "evs1 @ evs2" "[]"]
        by (intro exI [of _ "evs1 @ evs2 @ evs3"] exI [of _ "(ts3, cf2)"])
          (auto simp: forgot_only_gone_def serverDeleteCleanupRequired_def)
    qed
  qed
qed


section \<open>Examples\<close>

definition sample_tracked :: State where
  "sample_tracked = zero_state\<lparr>StateNamespace := ''prod'', StateServer := ''web'',
     TailscaleIn := no_tailscale\<lparr>TsNodeID := ''n1'', TsAuthKeyID := ''k1'', TsName := ''web'', TsTags := [''tag:a'']\<rparr>,
     CloudflareIn := \<lparr>TunnelID = ''t1'', TunnelStateName = ''web'', Provenance = CloudflareTunnelCreated\<rparr>\<rparr>"

definition sample_cleanup :: "string list \<Rightarrow> serverDeleteCleanup" where
  "sample_cleanup tags = \<lparr>Required = True,
     CleanupConfig = DefaultConfig\<lparr>AccessOf := (AccessOf DefaultConfig)\<lparr>AccessTailscale := (tailscale_of DefaultConfig)\<lparr>Tags := tags\<rparr>\<rparr>\<rparr>,
     CleanupStatePath = ''web.json'', CleanupState = sample_tracked, CleanupCreds = empty_set ''prod'' ''web''\<rparr>"

definition sample_cleanup_env :: cleanup_env where
  "sample_cleanup_env = \<lparr>HasTailscale = True, HasCloudflare = True,
     DevicesAt = (\<lambda>h. Inr [\<lparr>ID = ''1'', NodeID = ''n1'', DeviceName = ''web'', Hostname = ''web'', Addresses = [], DeviceTags = [''tag:a''],
       Online = True, ConnectedToControl = True, DeviceCreated = ''''\<rparr>]),
     AuthKeysAt = (\<lambda>h. Inr [\<lparr>KeyID = ''k1'', KeyText = '''', KeyDescription = ''serverpro bootstrap'', KeyTags = [''tag:a''], KeyCreated = ''''\<rparr>]),
     GetTunnelAt = (\<lambda>h i. Inr \<lparr>TunnelIDOf = ''t1'', TunnelNameOf = ''web'', TunnelStatus = '''', TunnelCreatedAt = ''''\<rparr>),
     DeleteDeviceAt = (\<lambda>h i. None), DeleteAuthKeyAt = (\<lambda>h i. None),
     DeleteTunnelAt = (\<lambda>h i. if TunnelDeleted i (Some ActiveConnections) \<in> set h then None else Some ActiveConnections),
     Waits = 2, Between = (\<lambda>h f. f), ReadFault = (\<lambda>h. None), WriteFault = (\<lambda>h. None), CleanupTime = 5\<rparr>"

definition sample_deletion :: "string list \<Rightarrow> cleanup_error option \<times> State \<times> cleanup_run" where
  "sample_deletion tags = deleteTrackedExternalResources sample_cleanup_env (sample_cleanup tags)
     \<lparr>StateOnDisk = StateFile sample_tracked '''', History = []\<rparr>"

lemma sample_deletion_works: "fst (sample_deletion [''tag:a'']) = None"
  "filter is_deletion (History (snd (snd (sample_deletion [''tag:a'']))))
     = [DeviceDeleted ''n1'' None, TunnelDeleted ''t1'' (Some ActiveConnections), TunnelDeleted ''t1'' None, KeyDeleted ''k1'' None]"
  by code_simp+

text \<open>
  The preflight does not cover the key: it compares the key with the tags the state records, and the
  deletion, after the device and its tags were forgotten, with the tags of the config. So with the
  services unchanged a run may pass the preflight, delete the server, and then refuse to delete the key.
\<close>

lemma preflight_passes_but_key_refused:
  "fst (preflightTrackedExternalResources sample_cleanup_env (sample_cleanup [''tag:b'']) \<lparr>StateOnDisk = StateFile sample_tracked '''', History = []\<rparr>) = None
   \<and> fst (sample_deletion [''tag:b'']) = Some (KeyTagMissing ''tag:b'')"
  by code_simp

lemma sample_deletion_licensed:
  "licensed_history (CleanupConfig (sample_cleanup [''tag:a''])) sample_tracked (History (snd (snd (sample_deletion [''tag:a'']))))"
proof -
  obtain err st s where r: "sample_deletion [''tag:a''] = (err, st, s)" by (metis prod_cases3)
  have "CleanupState (sample_cleanup [''tag:a'']) = sample_tracked" by (simp add: sample_cleanup_def)
  then show ?thesis using external_deletions_licensed [OF r [unfolded sample_deletion_def]] by (auto simp: r)
qed

lemma sample_deletion_complete:
  "\<not> serverDeleteCleanupRequired (fst (snd (sample_deletion [''tag:a''])))"
proof -
  obtain err st s where r: "sample_deletion [''tag:a''] = (err, st, s)" by (metis prod_cases3)
  have s: "CleanupState (sample_cleanup [''tag:a'']) = sample_tracked" by (simp add: sample_cleanup_def)
  have "calm sample_cleanup_env" by (simp add: calm_def sample_cleanup_env_def)
  then show ?thesis using cleanup_forgets_only_gone [OF r [unfolded sample_deletion_def]] sample_deletion_works(1)
    by (auto simp: r s file_resources_def)
qed

end
