(* ===== verification/Server_Delete.thy ===== *)
theory Server_Delete
  imports External_Cleanup State_Registry
begin

text \<open>
  Deleting a server (internal/cli: server_power_delete_commands.go, server_delete_partial.go,
  server_delete_local.go; the token guards of provider_flag_guard.go). What the operator approved is
  frozen, read again under the locks and compared; then the tracked external resources are checked, the
  server is deleted, the external resources are deleted, and only then the local files and the registry
  entry. Parameters of one attempt to read that authority: what
  \<open>loadConfigAndStateForServer\<close> and \<open>ensureCredentials\<close> returned (prompts and
  flag resolution of the command line), the credentials files, and the registry file of that moment.
\<close>

section \<open>Which provider a stored token may reach\<close>

datatype delete_error =
    StateRecordsNoProvider string | FlagDiffersFromState string string
  | TokenRecordsNoProvider string | TokenOfOtherProvider string string
  | ProviderNameEmpty | ProviderNotFound string | CredentialsFailed credentials_error | MissingToken
  | RegistryFailed registry_error | AuthorityChanged | TargetFailed string | EnsureFailed string
  | LoadFailed state_error | PreflightFailed cleanup_error | ComputeDeleteFailed "(string \<times> string option) list"
  | LockFailed string | LocalCleanupFailed string string | YesRequired | NotConfirmed
  | PartialFailure State cleanup_error

definition validateProviderFlag :: "string \<Rightarrow> State \<Rightarrow> delete_error option" where
  "validateProviderFlag flag st =
     (if flag = '''' \<or> flag = CProvider (ComputeIn st) then None
      else if CProvider (ComputeIn st) = '''' then Some (StateRecordsNoProvider flag)
      else Some (FlagDiffersFromState flag (CProvider (ComputeIn st))))"

definition validateStoredTokenProvider :: "Set \<Rightarrow> string \<Rightarrow> delete_error option" where
  "validateStoredTokenProvider creds provider =
     (if ServerProvider creds = '''' \<or> ServerProviderName creds = provider then None
      else if ServerProviderName creds = '''' then Some (TokenRecordsNoProvider provider)
      else Some (TokenOfOtherProvider provider (ServerProviderName creds)))"

definition serverCredentialConfig :: "string option \<Rightarrow> State \<Rightarrow> Config" where
  "serverCredentialConfig home st =
     (ExampleServer home (StateNamespace st) (StateServer st))
       \<lparr>CredentialsOf := \<lparr>JSONPath = ServerCredentialsPath home (StateNamespace st) (StateServer st)\<rparr>\<rparr>"

text \<open>A registered provider is known by the name it reports.\<close>

definition resolveProvider :: "string Providers \<Rightarrow> string \<Rightarrow> (delete_error, string) result" where
  "resolveProvider providers name =
     (if name = '''' then Inl ProviderNameEmpty
      else (case GetProvider providers name of None \<Rightarrow> Inl (ProviderNotFound name) | Some p \<Rightarrow> Inr p))"

definition serverProviderAccount ::
  "cred_env \<Rightarrow> string Providers \<Rightarrow> string \<Rightarrow> State \<Rightarrow> (delete_error, string \<times> Account) result" where
  "serverProviderAccount cenv providers flag st =
     (case validateProviderFlag flag st of Some e \<Rightarrow> Inl e
      | None \<Rightarrow> (case resolveProvider providers (CProvider (ComputeIn st)) of Inl e \<Rightarrow> Inl e
        | Inr provider \<Rightarrow> (case LoadPartialSet cenv (serverCredentialConfig (EnvHome cenv) st) of Inl e \<Rightarrow> Inl (CredentialsFailed e)
          | Inr creds \<Rightarrow>
              if ServerProvider creds = '''' then Inl MissingToken
              else (case (if ServerProviderName creds \<noteq> '''' then validateStoredTokenProvider creds (CProvider (ComputeIn st)) else None) of
                 Some e \<Rightarrow> Inl e
               | None \<Rightarrow>
                  (let name = StateNamespace st @ ''/'' @ StateServer st in
                   Inr (provider, \<lparr>AccountName = name, AccountProvider = provider, Token = ServerProvider creds, Scope = name\<rparr>))))))"

text \<open>
  A create run that names its provider by flag: whether the state proves that provider, and the record
  of the proof in an older credentials file.
\<close>

definition stateConfirmsCreateProvider ::
  "string \<Rightarrow> string option \<Rightarrow> string option \<Rightarrow> state_file \<Rightarrow> (delete_error, bool) result" where
  "stateConfirmsCreateProvider flag exists_fault rd file =
     (case exists_fault of Some e \<Rightarrow> Inl (LoadFailed (StateReadFailed e))
      | None \<Rightarrow>
        if file = NoState then Inr False
        else (case LoadState rd file of Inl e \<Rightarrow> Inl (LoadFailed e)
          | Inr st \<Rightarrow>
              if CProvider (ComputeIn st) = '''' \<and> CID (ComputeIn st) = '''' \<and> CManagedResources (ComputeIn st) = [] then Inr False
              else (case validateProviderFlag flag st of Some e \<Rightarrow> Inl e | None \<Rightarrow> Inr True)))"

definition validateCreateProviderAgainstState ::
  "cred_env \<Rightarrow> Config \<Rightarrow> string \<Rightarrow> string option \<Rightarrow> string option \<Rightarrow> state_file \<Rightarrow> delete_error option \<times> published_set" where
  "validateCreateProviderAgainstState cenv cfg flag exists_fault rd file =
     (case stateConfirmsCreateProvider flag exists_fault rd file of Inl e \<Rightarrow> (Some e, None)
      | Inr confirmed \<Rightarrow> (case LoadPartialSet cenv cfg of Inl e \<Rightarrow> (Some (CredentialsFailed e), None)
        | Inr creds \<Rightarrow>
            if confirmed \<and> ServerProvider creds \<noteq> '''' \<and> ServerProviderName creds = ''''
            then (case UpdateSet cenv cfg (\<lambda>cur. Inr (if ServerProviderName cur = '''' then cur\<lparr>ServerProviderName := flag\<rparr> else cur)) of
                    (e, p) \<Rightarrow> (map_option CredentialsFailed e, p))
            else (validateStoredTokenProvider creds flag, None)))"

section \<open>The authority of a delete\<close>

text \<open>\<open>reflect.DeepEqual\<close> of maps.\<close>

definition gm_same :: "('k, 'v) gomap \<Rightarrow> ('k, 'v) gomap \<Rightarrow> bool" where
  "gm_same m n \<longleftrightarrow> list_all (\<lambda>k. gm_get m k = gm_get n k) (map fst m @ map fst n)"

definition sameServerDeleteAuthority :: "State \<Rightarrow> State \<Rightarrow> bool" where
  "sameServerDeleteAuthority a b \<longleftrightarrow>
     StateNamespace a = StateNamespace b \<and> StateServer a = StateServer b
     \<and> CProvider (ComputeIn a) = CProvider (ComputeIn b) \<and> CID (ComputeIn a) = CID (ComputeIn b)
     \<and> CName (ComputeIn a) = CName (ComputeIn b) \<and> CManagedResources (ComputeIn a) = CManagedResources (ComputeIn b)
     \<and> gm_same (CProviderState (ComputeIn a)) (CProviderState (ComputeIn b))
     \<and> TsTailnet (TailscaleIn a) = TsTailnet (TailscaleIn b) \<and> TsNodeID (TailscaleIn a) = TsNodeID (TailscaleIn b)
     \<and> TsAuthKeyID (TailscaleIn a) = TsAuthKeyID (TailscaleIn b) \<and> TsName (TailscaleIn a) = TsName (TailscaleIn b)
     \<and> TsTags (TailscaleIn a) = TsTags (TailscaleIn b)
     \<and> TunnelID (CloudflareIn a) = TunnelID (CloudflareIn b) \<and> TunnelStateName (CloudflareIn a) = TunnelStateName (CloudflareIn b)
     \<and> Provenance (CloudflareIn a) = Provenance (CloudflareIn b)"

definition serverDeleteRegistryAuthority :: "registry_file \<Rightarrow> State \<Rightarrow> (delete_error, RegistryEntry option) result" where
  "serverDeleteRegistryAuthority disk st =
     (case LoadRegistry (Inr disk) of Inl e \<Rightarrow> Inl (RegistryFailed e)
      | Inr reg \<Rightarrow> Inr (Find reg (StateNamespace st) (Normalize (StateServer st))))"

definition serverDeleteRegistryTargetsState :: "string option \<Rightarrow> RegistryEntry option \<Rightarrow> string \<Rightarrow> State \<Rightarrow> bool" where
  "serverDeleteRegistryTargetsState home found stPath st =
     (case found of None \<Rightarrow> False
      | Some entry \<Rightarrow>
          EntryNamespace entry = StateNamespace st \<and> Normalize (EntryServer entry) = Normalize (StateServer st)
          \<and> Expand home (StatePath entry) = Expand home stPath
          \<and> \<not> (CName (ComputeIn st) \<noteq> '''' \<and> ComputeServer (ResourceNames entry) \<noteq> '''' \<and> ComputeServer (ResourceNames entry) \<noteq> CName (ComputeIn st))
          \<and> (TunnelStateName (CloudflareIn st) = '''' \<or> CloudflareTunnel (ResourceNames entry) = ''''
               \<or> CloudflareTunnel (ResourceNames entry) = TunnelStateName (CloudflareIn st)))"

definition expanded_entry :: "string option \<Rightarrow> RegistryEntry \<Rightarrow> RegistryEntry" where
  "expanded_entry home e =
     e\<lparr>StatePath := Expand home (StatePath e), ConfigPath := Expand home (ConfigPath e),
       CredentialsPath := Expand home (CredentialsPath e), EntryCreatedAt := 0, EntryUpdatedAt := 0\<rparr>"

definition same_entry :: "RegistryEntry \<Rightarrow> RegistryEntry \<Rightarrow> bool" where
  "same_entry a b \<longleftrightarrow> a\<lparr>EntryLabels := []\<rparr> = b\<lparr>EntryLabels := []\<rparr> \<and> gm_same (EntryLabels a) (EntryLabels b)"

definition sameServerDeleteRegistryAuthority :: "string option \<Rightarrow> RegistryEntry option \<Rightarrow> RegistryEntry option \<Rightarrow> bool" where
  "sameServerDeleteRegistryAuthority home approved current =
     (case (approved, current) of
        (None, None) \<Rightarrow> True
      | (Some a, Some c) \<Rightarrow> same_entry (expanded_entry home a) (expanded_entry home c)
      | _ \<Rightarrow> False)"

definition config_same :: "Config \<Rightarrow> Config \<Rightarrow> bool" where
  "config_same a b \<longleftrightarrow>
     a\<lparr>ComputeOf := (ComputeOf a)\<lparr>ComputeLabels := None\<rparr>\<rparr> = b\<lparr>ComputeOf := (ComputeOf b)\<lparr>ComputeLabels := None\<rparr>\<rparr>
     \<and> (case (ComputeLabels (ComputeOf a), ComputeLabels (ComputeOf b)) of
          (None, None) \<Rightarrow> True | (Some m, Some n) \<Rightarrow> gm_same m n | _ \<Rightarrow> False)"

definition sameServerDeleteCleanupAuthority :: "string option \<Rightarrow> serverDeleteCleanup \<Rightarrow> serverDeleteCleanup \<Rightarrow> bool" where
  "sameServerDeleteCleanupAuthority home a c \<longleftrightarrow>
     Required a = Required c \<and> Expand home (CleanupStatePath a) = Expand home (CleanupStatePath c)
     \<and> sameServerDeleteAuthority (CleanupState a) (CleanupState c) \<and> config_same (CleanupConfig a) (CleanupConfig c)
     \<and> CleanupCreds a = CleanupCreds c"

definition cleanupCredentialConfig :: "Config \<Rightarrow> State \<Rightarrow> Config" where
  "cleanupCredentialConfig cfg st =
     (let cfg1 = (if TsNodeID (TailscaleIn st) \<noteq> '''' \<or> TsAuthKeyID (TailscaleIn st) \<noteq> ''''
            then (let t = (tailscale_of cfg)\<lparr>TailscaleEnabled := True\<rparr>;
                      t1 = (if Tags t = [] then t\<lparr>Tags := TsTags (TailscaleIn st)\<rparr> else t)
                  in cfg\<lparr>AccessOf := (AccessOf cfg)\<lparr>AccessTailscale := t1\<rparr>\<rparr>)
            else cfg)
      in if OwnsTunnel (CloudflareIn st)
         then (let n = (tunnel_of cfg1)\<lparr>TunnelEnabled := True, CreateConnectorOnly := True\<rparr>;
                   n1 = (if TunnelName n = '''' then n\<lparr>TunnelName := TunnelStateName (CloudflareIn st)\<rparr> else n)
               in cfg1\<lparr>CloudflareOf := (CloudflareOf cfg1)\<lparr>CloudflareTunnelConfig := n1\<rparr>\<rparr>)
         else cfg1)"

record attempt =
  LoadedTarget :: "(string, Config \<times> string \<times> State) result"
  EnsuredCreds :: "Config \<Rightarrow> (string, Set) result"
  CredFiles :: cred_env
  RegistryThen :: registry_file

definition prepareServerDeleteCleanup ::
  "string option \<Rightarrow> attempt \<Rightarrow> string \<Rightarrow> State \<Rightarrow> (delete_error, serverDeleteCleanup) result" where
  "prepareServerDeleteCleanup home att stPath st =
     (let cleanup = \<lparr>Required = serverDeleteCleanupRequired st, CleanupConfig = zero_config, CleanupStatePath = stPath,
                     CleanupState = st, CleanupCreds = empty_set '''' ''''\<rparr> in
      if \<not> Required cleanup then Inr cleanup
      else (case LoadedTarget att of Inl e \<Rightarrow> Inl (TargetFailed e)
        | Inr (cfg, loadedPath, loadedState) \<Rightarrow>
            if Expand home loadedPath \<noteq> Expand home stPath \<or> \<not> sameServerDeleteAuthority st loadedState then Inl AuthorityChanged
            else (case EnsuredCreds att (cleanupCredentialConfig cfg st) of Inl e \<Rightarrow> Inl (EnsureFailed e)
              | Inr creds \<Rightarrow> Inr (cleanup\<lparr>CleanupConfig := cfg, CleanupCreds := creds\<rparr>))))"

record serverDeleteAuthority =
  AuthRegistry :: RegistryEntry
  AuthCleanup :: serverDeleteCleanup
  AuthProvider :: string
  AuthAccount :: Account

record serverDeleteExecution =
  ExecCleanup :: serverDeleteCleanup
  ExecProvider :: string
  ExecAccount :: Account

definition approveServerDelete ::
  "string option \<Rightarrow> string Providers \<Rightarrow> string \<Rightarrow> attempt \<Rightarrow> string \<Rightarrow> State \<Rightarrow> (delete_error, serverDeleteAuthority) result" where
  "approveServerDelete home providers flag att stPath st =
     bindR (serverDeleteRegistryAuthority (RegistryThen att) st) (\<lambda>found.
       (case found of None \<Rightarrow> Inl AuthorityChanged
        | Some registry \<Rightarrow>
            if \<not> serverDeleteRegistryTargetsState home found stPath st then Inl AuthorityChanged
            else bindR (prepareServerDeleteCleanup home att stPath st) (\<lambda>cleanup.
              bindR (serverProviderAccount (CredFiles att) providers flag st) (\<lambda>(provider, account).
                Inr \<lparr>AuthRegistry = registry, AuthCleanup = cleanup, AuthProvider = provider, AuthAccount = account\<rparr>))))"

definition revalidateServerDelete ::
  "string option \<Rightarrow> string Providers \<Rightarrow> string \<Rightarrow> attempt \<Rightarrow> string \<Rightarrow> serverDeleteAuthority
     \<Rightarrow> (state_error, State) result \<Rightarrow> (delete_error, serverDeleteExecution) result" where
  "revalidateServerDelete home providers flag att stPath authority loaded =
     (case loaded of Inl e \<Rightarrow> Inl (LoadFailed e)
      | Inr current \<Rightarrow>
          if \<not> sameServerDeleteAuthority (CleanupState (AuthCleanup authority)) current then Inl AuthorityChanged
          else bindR (serverDeleteRegistryAuthority (RegistryThen att) current) (\<lambda>found.
            if \<not> sameServerDeleteRegistryAuthority home (Some (AuthRegistry authority)) found then Inl AuthorityChanged
            else bindR (prepareServerDeleteCleanup home att stPath current) (\<lambda>cleanup.
              if \<not> sameServerDeleteCleanupAuthority home (AuthCleanup authority) cleanup then Inl AuthorityChanged
              else bindR (serverProviderAccount (CredFiles att) providers flag current) (\<lambda>(provider, account).
                if AuthProvider authority \<noteq> provider \<or> AuthAccount authority \<noteq> account then Inl AuthorityChanged
                else Inr \<lparr>ExecCleanup = cleanup, ExecProvider = provider, ExecAccount = account\<rparr>))))"

section \<open>Remote deletion\<close>

definition serverRecordFromState :: "State \<Rightarrow> ServerRecord" where
  "serverRecordFromState st =
     (let k = ComputeIn st in
      \<lparr>Provider = CProvider k, RecordAccount = '''', RecordNamespace = StateNamespace st, RecordServer = StateServer st,
       RecordID = CID k, RecordName = CName k, RecordLocation = CLocation k, RecordSize = CSize k, RecordImage = CImage k,
       PublicIPv4 = CPublicIPv4 k, PublicIPv6 = CPublicIPv6 k, RecordLabels = [], RecordResources = CManagedResources k,
       RecordProviderState = CProviderState k\<rparr>)"

record serverDeleteExternalResource =
  ResourceType :: string
  ExternalID :: string
  ExternalName :: string

definition serverDeleteExternalCleanupPreview :: "State \<Rightarrow> serverDeleteExternalResource list" where
  "serverDeleteExternalCleanupPreview st =
     (if TsNodeID (TailscaleIn st) \<noteq> ''''
      then [\<lparr>ResourceType = ''tailscale_device'', ExternalID = TsNodeID (TailscaleIn st), ExternalName = TsName (TailscaleIn st)\<rparr>] else [])
     @ (if TsAuthKeyID (TailscaleIn st) \<noteq> ''''
        then [\<lparr>ResourceType = ''tailscale_auth_key'', ExternalID = TsAuthKeyID (TailscaleIn st), ExternalName = ''''\<rparr>] else [])
     @ (if OwnsTunnel (CloudflareIn st)
        then [\<lparr>ResourceType = ''cloudflare_tunnel'', ExternalID = TunnelID (CloudflareIn st), ExternalName = TunnelStateName (CloudflareIn st)\<rparr>] else [])"

text \<open>\<open>ComputeDelete\<close>: the diagnostics of the provider's delete call.\<close>

type_synonym compute_delete = "history \<Rightarrow> DeleteServerRequest \<Rightarrow> string Diagnostic list"

definition retained_state :: "cleanup_env \<Rightarrow> serverDeleteCleanup \<Rightarrow> State \<Rightarrow> cleanup_run \<Rightarrow> State" where
  "retained_state env cleanup updated r =
     (case LoadState (ReadFault env (History r)) (Between env (History r) (StateOnDisk r)) of
        Inr current \<Rightarrow> current
      | Inl _ \<Rightarrow> if StateNamespace updated = '''' then CleanupState cleanup else updated)"

definition executeServerDeleteRemote ::
  "cleanup_env \<Rightarrow> compute_delete \<Rightarrow> serverDeleteExecution \<Rightarrow> cleanup_run \<Rightarrow> delete_error option \<times> cleanup_run" where
  "executeServerDeleteRemote env cd execution r =
     (let cleanup = ExecCleanup execution in
      case (if Required cleanup then preflightTrackedExternalResources env cleanup r else (None, r)) of
        (Some e, r1) \<Rightarrow> (Some (PreflightFailed e), r1)
      | (None, r1) \<Rightarrow>
          (let q = \<lparr>DeleteAccount = ExecAccount execution, DeleteRecord = serverRecordFromState (CleanupState cleanup)\<rparr>;
               ds = cd (History r1) q; r2 = did (ComputeDeleted q ds) r1 in
           if \<not> Passed ds then (Some (ComputeDeleteFailed (case Err ds of None \<Rightarrow> [] | Some l \<Rightarrow> l)), r2)
           else if \<not> Required cleanup then (None, r2)
           else (case deleteTrackedExternalResources env cleanup r2 of
               (None, updated, r3) \<Rightarrow> (None, r3)
             | (Some e, updated, r3) \<Rightarrow> (Some (PartialFailure (retained_state env cleanup updated r3) e), r3))))"

section \<open>Local deletion\<close>

definition canonicalServerDeleteLocalArtifacts :: "string option \<Rightarrow> State \<Rightarrow> string \<times> string \<times> string" where
  "canonicalServerDeleteLocalArtifacts home st =
     (ServerConfigPath home (StateNamespace st) (StateServer st), ServerCredentialsPath home (StateNamespace st) (StateServer st),
      ServerStatePath home (StateNamespace st) (StateServer st))"

definition preview_artifacts :: "string \<times> string \<times> string \<Rightarrow> string list" where
  "preview_artifacts p =
     (case p of (config, cred, st) \<Rightarrow>
       [config, config @ ''.lock'', cred, cred @ ''.lock'', Dir cred, st, st @ ''.lock'', st @ ''.operation.lock'', st @ ''.import.json''])"

text \<open>The order of removal: the credentials directory last, which may hold other files.\<close>

definition removal_order :: "string \<times> string \<times> string \<Rightarrow> string list" where
  "removal_order p =
     (case p of (config, cred, st) \<Rightarrow>
       [config, config @ ''.lock'', st @ ''.import.json'', st @ ''.lock'', st @ ''.operation.lock'', st, cred, cred @ ''.lock''])"

datatype removal = Removed | NotExist | NotEmpty | RemovalFailed string

fun remove_files :: "(string \<Rightarrow> removal) \<Rightarrow> string list \<Rightarrow> cleanup_run \<Rightarrow> delete_error option \<times> cleanup_run" where
  "remove_files rm [] r = (None, r)"
| "remove_files rm (path # paths) r =
     (case rm path of
        RemovalFailed e \<Rightarrow> (Some (LocalCleanupFailed path e), r)
      | NotEmpty \<Rightarrow> (Some (LocalCleanupFailed path ''directory not empty''), r)
      | _ \<Rightarrow> remove_files rm paths (did (FileRemoved path) r))"

definition removeCanonicalServerDeleteLocalArtifacts ::
  "(string \<Rightarrow> removal) \<Rightarrow> string \<times> string \<times> string \<Rightarrow> cleanup_run \<Rightarrow> delete_error option \<times> cleanup_run" where
  "removeCanonicalServerDeleteLocalArtifacts rm p r =
     (case remove_files rm (removal_order p) r of
        (Some e, r1) \<Rightarrow> (Some e, r1)
      | (None, r1) \<Rightarrow> (let dir = Dir (fst (snd p)) in
          case rm dir of RemovalFailed e \<Rightarrow> (Some (LocalCleanupFailed dir e), r1)
          | NotEmpty \<Rightarrow> (None, r1)
          | _ \<Rightarrow> (None, did (FileRemoved dir) r1)))"

definition executeServerDeleteLocal ::
  "string option \<Rightarrow> (string \<Rightarrow> removal) \<Rightarrow> int \<Rightarrow> string option \<Rightarrow> serverDeleteAuthority \<Rightarrow> serverDeleteExecution
     \<Rightarrow> registry_file \<Rightarrow> cleanup_run \<Rightarrow> delete_error option \<times> registry_file \<times> cleanup_run" where
  "executeServerDeleteLocal home rm now wr authority execution disk r =
     (let st = CleanupState (ExecCleanup execution) in
      case removeCanonicalServerDeleteLocalArtifacts rm (canonicalServerDeleteLocalArtifacts home st) r of
        (Some e, r1) \<Rightarrow> (Some e, disk, r1)
      | (None, r1) \<Rightarrow>
          (case UpdateRegistry now wr (\<lambda>reg.
              if \<not> sameServerDeleteRegistryAuthority home (Some (AuthRegistry authority)) (Find reg (StateNamespace st) (Normalize (StateServer st)))
              then Inl ''authority changed'' else Inr (Remove (StateNamespace st) (Normalize (StateServer st)) reg)) disk of
             (e, disk') \<Rightarrow> (map_option RegistryFailed e, disk', if e = None then did RegistrySaved r1 else r1)))"

section \<open>The command\<close>

text \<open>
  The two attempts read the authority, before and under the locks; the lock errors are those of the
  namespace, server and cleanup locks; \<open>RegistryAtEnd\<close> is the registry file at the last update.
\<close>

record delete_app =
  AppHome :: "string option"
  AppProviders :: "string Providers"
  ProviderFlag :: string
  DryRun :: bool
  Yes :: bool
  NonInteractive :: bool
  Confirmed :: bool
  FirstAttempt :: attempt
  SecondAttempt :: attempt
  NamespaceLock :: "string option"
  ServerLock :: "string option"
  CleanupLock :: "string option"
  Services :: cleanup_env
  ComputeDelete :: compute_delete
  RemoveDurably :: "string \<Rightarrow> removal"
  RegistryTime :: int
  RegistryFault :: "string option"
  RegistryAtEnd :: registry_file

definition executeApprovedServerDelete ::
  "delete_app \<Rightarrow> string \<Rightarrow> serverDeleteAuthority \<Rightarrow> cleanup_run \<Rightarrow> delete_error option \<times> registry_file \<times> cleanup_run" where
  "executeApprovedServerDelete app stPath authority r =
     (case ServerLock app of Some e \<Rightarrow> (Some (LockFailed e), RegistryAtEnd app, r)
      | None \<Rightarrow>
        (let env = Services app; file = Between env (History r) (StateOnDisk r); r0 = r\<lparr>StateOnDisk := file\<rparr> in
         case revalidateServerDelete (AppHome app) (AppProviders app) (ProviderFlag app) (SecondAttempt app) stPath authority
             (LoadState (ReadFault env (History r)) file) of
           Inl e \<Rightarrow> (Some e, RegistryAtEnd app, r0)
         | Inr execution \<Rightarrow>
             (case executeServerDeleteRemote env (ComputeDelete app) execution r0 of
                (Some e, r1) \<Rightarrow> (Some e, RegistryAtEnd app, r1)
              | (None, r1) \<Rightarrow>
                  (case CleanupLock app of Some e \<Rightarrow> (Some (LockFailed e), RegistryAtEnd app, r1)
                   | None \<Rightarrow> executeServerDeleteLocal (AppHome app) (RemoveDurably app) (RegistryTime app) (RegistryFault app)
                       authority execution (RegistryAtEnd app) r1))))"

definition deleteServerDestructive ::
  "delete_app \<Rightarrow> string \<Rightarrow> State \<Rightarrow> cleanup_run \<Rightarrow> delete_error option \<times> registry_file \<times> cleanup_run" where
  "deleteServerDestructive app stPath st r =
     (case approveServerDelete (AppHome app) (AppProviders app) (ProviderFlag app) (FirstAttempt app) stPath st of
        Inl e \<Rightarrow> (Some e, RegistryAtEnd app, r)
      | Inr authority \<Rightarrow>
          (case NamespaceLock app of Some e \<Rightarrow> (Some (LockFailed e), RegistryAtEnd app, r)
           | None \<Rightarrow> executeApprovedServerDelete app stPath authority r))"

definition runServerDelete ::
  "delete_app \<Rightarrow> string \<Rightarrow> State \<Rightarrow> cleanup_run \<Rightarrow> delete_error option \<times> registry_file \<times> cleanup_run" where
  "runServerDelete app stPath st r =
     (if DryRun app then (None, RegistryAtEnd app, r)
      else if \<not> Yes app \<and> NonInteractive app then (Some YesRequired, RegistryAtEnd app, r)
      else if \<not> Yes app \<and> \<not> Confirmed app then (Some NotConfirmed, RegistryAtEnd app, r)
      else deleteServerDestructive app stPath st r)"


section \<open>Facts\<close>

lemma approved_cleanup:
  "prepareServerDeleteCleanup home att stPath st = Inr cleanup \<Longrightarrow>
     CleanupState cleanup = st \<and> Required cleanup = serverDeleteCleanupRequired st"
  by (auto simp: prepareServerDeleteCleanup_def Let_def split: if_splits sum.splits prod.splits)

lemma approved:
  assumes "approveServerDelete home providers flag att stPath st = Inr authority"
  shows "CleanupState (AuthCleanup authority) = st
    \<and> serverDeleteRegistryTargetsState home (Some (AuthRegistry authority)) stPath st
    \<and> serverProviderAccount (CredFiles att) providers flag st = Inr (AuthProvider authority, AuthAccount authority)"
  using assms approved_cleanup
  by (fastforce simp: approveServerDelete_def bindR_eq_Inr split: option.splits if_splits prod.splits)

lemma revalidated:
  assumes "revalidateServerDelete home providers flag att stPath authority loaded = Inr execution"
  shows "\<exists>current found. loaded = Inr current \<and> CleanupState (ExecCleanup execution) = current
    \<and> Required (ExecCleanup execution) = serverDeleteCleanupRequired current
    \<and> sameServerDeleteAuthority (CleanupState (AuthCleanup authority)) current
    \<and> serverDeleteRegistryAuthority (RegistryThen att) current = Inr (Some found)
    \<and> same_entry (expanded_entry home (AuthRegistry authority)) (expanded_entry home found)
    \<and> sameServerDeleteCleanupAuthority home (AuthCleanup authority) (ExecCleanup execution)
    \<and> serverProviderAccount (CredFiles att) providers flag current = Inr (ExecProvider execution, ExecAccount execution)
    \<and> ExecProvider execution = AuthProvider authority \<and> ExecAccount execution = AuthAccount authority"
proof (cases loaded)
  case (Inl e)
  then show ?thesis using assms by (simp add: revalidateServerDelete_def)
next
  case (Inr current)
  obtain found cleanup where *: "sameServerDeleteAuthority (CleanupState (AuthCleanup authority)) current"
    "serverDeleteRegistryAuthority (RegistryThen att) current = Inr found"
    "sameServerDeleteRegistryAuthority home (Some (AuthRegistry authority)) found"
    "prepareServerDeleteCleanup home att stPath current = Inr cleanup"
    "sameServerDeleteCleanupAuthority home (AuthCleanup authority) cleanup"
    "\<exists>provider account. serverProviderAccount (CredFiles att) providers flag current = Inr (provider, account)
       \<and> AuthProvider authority = provider \<and> AuthAccount authority = account
       \<and> execution = \<lparr>ExecCleanup = cleanup, ExecProvider = provider, ExecAccount = account\<rparr>"
    using assms unfolding Inr
    by (auto simp: revalidateServerDelete_def bindR_eq_Inr split: if_splits)
  then show ?thesis using Inr approved_cleanup [OF *(4)]
    by (cases found) (auto simp: sameServerDeleteRegistryAuthority_def)
qed

text \<open>Local files and registry are touched by no remote step.\<close>

fun is_local :: "del_event \<Rightarrow> bool" where
  "is_local (FileRemoved _) = True" | "is_local RegistrySaved = True" | "is_local _ = False"

fun is_compute :: "del_event \<Rightarrow> bool" where
  "is_compute (ComputeDeleted _ _) = True" | "is_compute _ = False"

lemma external_not_local: "external e \<Longrightarrow> \<not> is_local e \<and> (\<forall>q ds. e \<noteq> ComputeDeleted q ds)"
  by (cases e) (auto simp: external_def)

definition checked :: "Config \<Rightarrow> State \<Rightarrow> history \<Rightarrow> bool" where
  "checked cfg st evs \<longleftrightarrow>
      (TsNodeID (TailscaleIn st) \<noteq> '''' \<longrightarrow> (\<exists>rd \<in> set evs. device_read_owned cfg st rd \<or> device_absent st rd))
    \<and> (OwnsTunnel (CloudflareIn st) \<longrightarrow> (\<exists>rd \<in> set evs. tunnel_read_owned cfg st rd \<or> tunnel_absent st rd))
    \<and> (TsAuthKeyID (TailscaleIn st) \<noteq> '''' \<longrightarrow> (\<exists>rd \<in> set evs. key_read_owned cfg st rd \<or> key_absent st rd))"

text \<open>A remote phase: it stops in its preflight, or it calls the provider once and cleans up after it.\<close>

definition cleaned :: "cleanup_env \<Rightarrow> State \<Rightarrow> cleanup_run \<Rightarrow> history \<Rightarrow> bool \<Rightarrow> cleanup_run \<Rightarrow> bool" where
  "cleaned env st r post success s \<longleftrightarrow> (calm env \<and> file_resources (StateOnDisk r) = Some (resources st) \<longrightarrow>
     (\<exists>res. file_resources (StateOnDisk s) = Some res \<and> forgot_only_gone st post res
        \<and> (success \<longrightarrow> TsNodeID (fst res) = '''' \<and> \<not> OwnsTunnel (snd res) \<and> TsAuthKeyID (fst res) = '''')))"

lemma remote_phase:
  assumes "executeServerDeleteRemote env cd execution r = (e, s)"
    and "Required (ExecCleanup execution) = serverDeleteCleanupRequired (CleanupState (ExecCleanup execution))"
  shows "\<exists>pre. list_all is_read pre \<and>
    (History s = History r @ pre \<and> StateOnDisk s = StateOnDisk r \<and> e \<noteq> None
     \<or> (\<exists>q ds post. History s = History r @ pre @ ComputeDeleted q ds # post
          \<and> q = \<lparr>DeleteAccount = ExecAccount execution, DeleteRecord = serverRecordFromState (CleanupState (ExecCleanup execution))\<rparr>
          \<and> checked (CleanupConfig (ExecCleanup execution)) (CleanupState (ExecCleanup execution)) pre
          \<and> licensed_history (CleanupConfig (ExecCleanup execution)) (CleanupState (ExecCleanup execution)) post \<and> list_all external post
          \<and> (e = None \<longrightarrow> Passed ds)
          \<and> cleaned env (CleanupState (ExecCleanup execution)) r post (e = None) s))"
proof -
  let ?c = "ExecCleanup execution" and ?st = "CleanupState (ExecCleanup execution)"
  obtain e1 r1 where p: "(if Required ?c then preflightTrackedExternalResources env ?c r else (None, r)) = (e1, r1)" by fastforce
  obtain pre where pre: "History r1 = History r @ pre" "StateOnDisk r1 = StateOnDisk r" "list_all is_read pre"
    "e1 = None \<longrightarrow> checked (CleanupConfig ?c) ?st pre"
  proof (cases "Required ?c")
    case True
    then have "preflightTrackedExternalResources env ?c r = (e1, r1)" using p by simp
    from preflight_reads [OF this] show ?thesis using that unfolding checked_def by blast
  next
    case False
    then show ?thesis using p assms(2) that [of "[]"] by (simp add: checked_def serverDeleteCleanupRequired_def)
  qed
  show ?thesis
  proof (cases e1)
    case (Some x)
    then have "s = r1 \<and> e = Some (PreflightFailed x)" using assms(1) p by (simp add: executeServerDeleteRemote_def Let_def)
    then show ?thesis using pre by (intro exI [of _ pre]) auto
  next
    case None
    define q where "q = \<lparr>DeleteAccount = ExecAccount execution, DeleteRecord = serverRecordFromState ?st\<rparr>"
    define ds where "ds = cd (History r1) q"
    define r2 where "r2 = did (ComputeDeleted q ds) r1"
    have h2: "History r2 = History r @ pre @ [ComputeDeleted q ds]" "StateOnDisk r2 = StateOnDisk r"
      using pre by (simp_all add: r2_def did_def)
    have run: "(if \<not> Passed ds then (Some (ComputeDeleteFailed (case Err ds of None \<Rightarrow> [] | Some l \<Rightarrow> l)), r2)
           else if \<not> Required ?c then (None, r2)
           else (case deleteTrackedExternalResources env ?c r2 of
               (None, updated, r3) \<Rightarrow> (None, r3)
             | (Some e, updated, r3) \<Rightarrow> (Some (PartialFailure (retained_state env ?c updated r3) e), r3))) = (e, s)"
      using assms(1) p unfolding executeServerDeleteRemote_def Let_def None q_def ds_def r2_def by simp
    have "\<exists>post. History s = History r2 @ post \<and> licensed_history (CleanupConfig ?c) ?st post \<and> list_all external post
        \<and> (e = None \<longrightarrow> Passed ds) \<and> cleaned env ?st r2 post (e = None) s"
    proof (cases "Passed ds \<and> Required ?c")
      case False
      then have "s = r2" "e = None \<longrightarrow> Passed ds \<and> \<not> serverDeleteCleanupRequired ?st" using run assms(2) by (auto split: if_splits)
      then show ?thesis by (intro exI [of _ "[]"]) (auto simp: cleaned_def forgot_only_gone_def serverDeleteCleanupRequired_def)
    next
      case True
      obtain x updated r3 where d: "deleteTrackedExternalResources env ?c r2 = (x, updated, r3)" by (metis prod_cases3)
      have "s = r3 \<and> (e = None \<longleftrightarrow> x = None)" using run True d by (cases x) auto
      then have s: "s = r3" "e = None \<longleftrightarrow> x = None" by simp_all
      obtain post where post: "History r3 = History r2 @ post" "licensed_history (CleanupConfig ?c) ?st post" "list_all external post"
        using external_deletions_licensed [OF d] by blast
      have "cleaned env ?st r2 post (e = None) s"
        unfolding cleaned_def
      proof
        assume *: "calm env \<and> file_resources (StateOnDisk r2) = Some (resources ?st)"
        then obtain evs res where "History r3 = History r2 @ evs" "file_resources (StateOnDisk r3) = Some res"
          "forgot_only_gone ?st evs res" "x = None \<longrightarrow> res = resources updated \<and> \<not> serverDeleteCleanupRequired updated"
          using cleanup_forgets_only_gone [OF d] by blast
        then show "\<exists>res. file_resources (StateOnDisk s) = Some res \<and> forgot_only_gone ?st post res
            \<and> (e = None \<longrightarrow> TsNodeID (fst res) = '''' \<and> \<not> OwnsTunnel (snd res) \<and> TsAuthKeyID (fst res) = '''')"
          using post(1) s by (auto simp: serverDeleteCleanupRequired_def)
      qed
      then show ?thesis using post s True by auto
    qed
    then obtain post where post: "History s = History r2 @ post" "licensed_history (CleanupConfig ?c) ?st post" "list_all external post"
      "e = None \<longrightarrow> Passed ds" "cleaned env ?st r2 post (e = None) s" by blast
    have "History s = History r @ pre @ ComputeDeleted q ds # post" using post(1) h2(1) by simp
    moreover have "cleaned env ?st r post (e = None) s" using post(5) h2(2) by (simp add: cleaned_def)
    moreover have "checked (CleanupConfig ?c) ?st pre" using pre(4) None by simp
    ultimately show ?thesis using pre(3) post(2-4) q_def by blast
  qed
qed


lemma removed_files:
  "remove_files rm paths r = (e, s) \<Longrightarrow> \<exists>evs. History s = History r @ evs \<and> list_all is_local evs \<and> StateOnDisk s = StateOnDisk r
     \<and> (e = None \<longrightarrow> (\<forall>p \<in> set paths. FileRemoved p \<in> set evs))"
proof (induction rm paths r rule: remove_files.induct)
  case (2 rm path paths r)
  show ?case
  proof (cases "rm path = Removed \<or> rm path = NotExist")
    case True
    then have rest: "remove_files rm paths (did (FileRemoved path) r) = (e, s)" using "2.prems" by auto
    have "\<exists>evs. History s = History (did (FileRemoved path) r) @ evs \<and> list_all is_local evs \<and> StateOnDisk s = StateOnDisk (did (FileRemoved path) r)
        \<and> (e = None \<longrightarrow> (\<forall>p \<in> set paths. FileRemoved p \<in> set evs))"
      using True "2.IH" [OF _ rest] "2.IH" rest by (cases "rm path") auto
    then obtain evs where "History s = History r @ FileRemoved path # evs" "list_all is_local evs" "StateOnDisk s = StateOnDisk r"
      "e = None \<longrightarrow> (\<forall>p \<in> set paths. FileRemoved p \<in> set evs)" by (auto simp: did_def)
    then show ?thesis by (intro exI [of _ "FileRemoved path # evs"]) auto
  next
    case False
    then show ?thesis using "2.prems" by (cases "rm path") auto
  qed
qed simp

lemma local_phase:
  assumes "executeServerDeleteLocal home rm now wr authority execution disk r = (e, disk', s)"
    and "st = CleanupState (ExecCleanup execution)"
  shows "\<exists>evs. History s = History r @ evs \<and> list_all is_local evs \<and> StateOnDisk s = StateOnDisk r \<and> (e \<noteq> None \<longrightarrow> disk' = disk)
    \<and> (e = None \<longrightarrow> (\<forall>p \<in> set (removal_order (canonicalServerDeleteLocalArtifacts home st)). FileRemoved p \<in> set evs)
        \<and> (\<exists>now wr. UpdateRegistry now wr (\<lambda>reg.
              if \<not> sameServerDeleteRegistryAuthority home (Some (AuthRegistry authority)) (Find reg (StateNamespace st) (Normalize (StateServer st)))
              then Inl ''authority changed'' else Inr (Remove (StateNamespace st) (Normalize (StateServer st)) reg)) disk = (None, disk')))"
proof -
  obtain e1 r1 where f: "removeCanonicalServerDeleteLocalArtifacts rm (canonicalServerDeleteLocalArtifacts home st) r = (e1, r1)" by fastforce
  obtain e0 r0 where f0: "remove_files rm (removal_order (canonicalServerDeleteLocalArtifacts home st)) r = (e0, r0)" by fastforce
  obtain evs0 where evs0: "History r0 = History r @ evs0" "list_all is_local evs0" "StateOnDisk r0 = StateOnDisk r"
    "e0 = None \<longrightarrow> (\<forall>p \<in> set (removal_order (canonicalServerDeleteLocalArtifacts home st)). FileRemoved p \<in> set evs0)"
    using removed_files [OF f0] by blast
  obtain ev1 where ev1: "History r1 = History r0 @ ev1" "list_all is_local ev1" "StateOnDisk r1 = StateOnDisk r0" "e1 = None \<longrightarrow> e0 = None"
    using f f0 by (cases e0)
      (auto simp: removeCanonicalServerDeleteLocalArtifacts_def Let_def did_def split: removal.splits)
  show ?thesis
  proof (cases e1)
    case (Some x)
    then show ?thesis using assms f evs0 ev1 by (auto simp: executeServerDeleteLocal_def Let_def)
  next
    case None
    obtain e2 d2 where u: "UpdateRegistry now wr (\<lambda>reg.
              if \<not> sameServerDeleteRegistryAuthority home (Some (AuthRegistry authority)) (Find reg (StateNamespace st) (Normalize (StateServer st)))
              then Inl ''authority changed'' else Inr (Remove (StateNamespace st) (Normalize (StateServer st)) reg)) disk = (e2, d2)" by fastforce
    have r: "e = map_option RegistryFailed e2" "disk' = d2" "s = (if e2 = None then did RegistrySaved r1 else r1)"
      using assms f u None by (auto simp: executeServerDeleteLocal_def Let_def)
    have "e2 \<noteq> None \<longrightarrow> d2 = disk"
      using u by (auto simp: UpdateRegistry_def saveRegistryUnlocked_def Let_def split: sum.splits option.splits if_splits)
    then show ?thesis using r u None evs0 ev1
      by (intro exI [of _ "evs0 @ ev1 @ (if e2 = None then [RegistrySaved] else [])"]) (auto simp: did_def)
  qed
qed

lemma run_cases:
  assumes "runServerDelete app stPath st r = (err, disk, s)" "History r = []"
  obtains (nothing) "History s = []" "disk = RegistryAtEnd app" "err \<noteq> None \<or> DryRun app"
  | (executed) authority current execution e r1 where "\<not> DryRun app" "Yes app \<or> Confirmed app"
      "approveServerDelete (AppHome app) (AppProviders app) (ProviderFlag app) (FirstAttempt app) stPath st = Inr authority"
      "LoadState (ReadFault (Services app) []) (Between (Services app) [] (StateOnDisk r)) = Inr current"
      "revalidateServerDelete (AppHome app) (AppProviders app) (ProviderFlag app) (SecondAttempt app) stPath authority (Inr current) = Inr execution"
      "executeServerDeleteRemote (Services app) (ComputeDelete app) execution
         (r\<lparr>StateOnDisk := Between (Services app) [] (StateOnDisk r)\<rparr>) = (e, r1)"
      "s = r1 \<and> disk = RegistryAtEnd app \<and> err \<noteq> None \<or> e = None \<and>
         executeServerDeleteLocal (AppHome app) (RemoveDurably app) (RegistryTime app) (RegistryFault app) authority execution (RegistryAtEnd app) r1
           = (err, disk, s)"
proof (cases "DryRun app \<or> \<not> Yes app \<and> (NonInteractive app \<or> \<not> Confirmed app)")
  case True
  then have "History s = [] \<and> disk = RegistryAtEnd app \<and> (err \<noteq> None \<or> DryRun app)"
    using assms by (auto simp: runServerDelete_def split: if_splits)
  then show ?thesis by (elim conjE) (rule nothing)
next
  case False
  then have run: "deleteServerDestructive app stPath st r = (err, disk, s)" using assms by (auto simp: runServerDelete_def split: if_splits)
  show ?thesis
  proof (cases "approveServerDelete (AppHome app) (AppProviders app) (ProviderFlag app) (FirstAttempt app) stPath st")
    case (Inl x)
    then have "History s = [] \<and> disk = RegistryAtEnd app \<and> (err \<noteq> None \<or> DryRun app)"
      using run assms(2) by (auto simp: deleteServerDestructive_def)
    then show ?thesis by (elim conjE) (rule nothing)
  next
    case (Inr authority)
    let ?file = "Between (Services app) [] (StateOnDisk r)"
    let ?re = "revalidateServerDelete (AppHome app) (AppProviders app) (ProviderFlag app) (SecondAttempt app) stPath authority
        (LoadState (ReadFault (Services app) []) ?file)"
    show ?thesis
    proof (cases "NamespaceLock app \<noteq> None \<or> ServerLock app \<noteq> None \<or> (\<exists>x. ?re = Inl x)")
      case True
      then have "History s = [] \<and> disk = RegistryAtEnd app \<and> (err \<noteq> None \<or> DryRun app)" using run assms(2) Inr
        by (auto simp: deleteServerDestructive_def executeApprovedServerDelete_def Let_def split: option.splits)
      then show ?thesis by (elim conjE) (rule nothing)
    next
      case ok: False
      then obtain execution where e: "?re = Inr execution" by (cases ?re) auto
      then obtain current where c: "LoadState (ReadFault (Services app) []) ?file = Inr current" using revalidated by blast
      obtain x r1 where x: "executeServerDeleteRemote (Services app) (ComputeDelete app) execution (r\<lparr>StateOnDisk := ?file\<rparr>) = (x, r1)" by fastforce
      have "s = r1 \<and> disk = RegistryAtEnd app \<and> err \<noteq> None \<or> x = None \<and>
         executeServerDeleteLocal (AppHome app) (RemoveDurably app) (RegistryTime app) (RegistryFault app) authority execution (RegistryAtEnd app) r1
           = (err, disk, s)"
        using run Inr ok e x assms(2)
        by (cases x) (auto simp: deleteServerDestructive_def executeApprovedServerDelete_def Let_def split: option.splits)
      moreover have "\<not> DryRun app" "Yes app \<or> Confirmed app" using False by auto
      moreover have "revalidateServerDelete (AppHome app) (AppProviders app) (ProviderFlag app) (SecondAttempt app) stPath authority (Inr current)
          = Inr execution" using e c by simp
      ultimately show ?thesis using executed Inr c x by blast
    qed
  qed
qed


section \<open>What a delete guarantees\<close>

text \<open>
  C5. The server is deleted only on an authority read twice: if the provider was asked to delete a server,
  the command was confirmed, and the state file read again under the locks names the same server and the
  same resources as the approved one, the registry still files the same entry, the provider and the token
  are those of both readings, and every tracked external resource was looked up before and was either
  owned or absent.
\<close>

theorem delete_reauthorized:
  assumes "runServerDelete app stPath st r = (err, disk, s)" "History r = []" "ComputeDeleted q ds \<in> set (History s)"
  shows "\<exists>current pre post cfg entry found provider. History s = pre @ ComputeDeleted q ds # post
    \<and> \<not> DryRun app \<and> (Yes app \<or> Confirmed app)
    \<and> LoadState (ReadFault (Services app) []) (Between (Services app) [] (StateOnDisk r)) = Inr current
    \<and> sameServerDeleteAuthority st current \<and> DeleteRecord q = serverRecordFromState current
    \<and> serverDeleteRegistryTargetsState (AppHome app) (Some entry) stPath st
    \<and> serverDeleteRegistryAuthority (RegistryThen (SecondAttempt app)) current = Inr (Some found)
    \<and> same_entry (expanded_entry (AppHome app) entry) (expanded_entry (AppHome app) found)
    \<and> serverProviderAccount (CredFiles (FirstAttempt app)) (AppProviders app) (ProviderFlag app) st = Inr (provider, DeleteAccount q)
    \<and> serverProviderAccount (CredFiles (SecondAttempt app)) (AppProviders app) (ProviderFlag app) current = Inr (provider, DeleteAccount q)
    \<and> list_all is_read pre \<and> checked cfg current pre"
proof (rule run_cases [OF assms(1,2)])
  assume "History s = []"
  then show ?thesis using assms(3) by simp
next
  fix authority current execution e r1
  assume flags: "\<not> DryRun app" "Yes app \<or> Confirmed app"
    and ap: "approveServerDelete (AppHome app) (AppProviders app) (ProviderFlag app) (FirstAttempt app) stPath st = Inr authority"
    and ld: "LoadState (ReadFault (Services app) []) (Between (Services app) [] (StateOnDisk r)) = Inr current"
    and rv: "revalidateServerDelete (AppHome app) (AppProviders app) (ProviderFlag app) (SecondAttempt app) stPath authority (Inr current) = Inr execution"
    and rm: "executeServerDeleteRemote (Services app) (ComputeDelete app) execution (r\<lparr>StateOnDisk := Between (Services app) [] (StateOnDisk r)\<rparr>) = (e, r1)"
    and rest: "s = r1 \<and> disk = RegistryAtEnd app \<and> err \<noteq> None \<or> e = None \<and>
         executeServerDeleteLocal (AppHome app) (RemoveDurably app) (RegistryTime app) (RegistryFault app) authority execution (RegistryAtEnd app) r1
           = (err, disk, s)"
  note a = approved [OF ap]
  obtain found where v: "CleanupState (ExecCleanup execution) = current" "Required (ExecCleanup execution) = serverDeleteCleanupRequired current"
    "sameServerDeleteAuthority st current" "serverDeleteRegistryAuthority (RegistryThen (SecondAttempt app)) current = Inr (Some found)"
    "same_entry (expanded_entry (AppHome app) (AuthRegistry authority)) (expanded_entry (AppHome app) found)"
    "serverProviderAccount (CredFiles (SecondAttempt app)) (AppProviders app) (ProviderFlag app) current = Inr (AuthProvider authority, AuthAccount authority)"
    "ExecAccount execution = AuthAccount authority" using revalidated [OF rv] a by auto
  obtain loc where loc: "History s = History r1 @ loc" "list_all is_local loc"
  proof (cases "s = r1")
    case True
    then show ?thesis using that [of "[]"] by simp
  next
    case False
    then show ?thesis using rest local_phase [OF _ refl] that by blast
  qed
  have no_local: "ComputeDeleted q ds \<notin> set loc" using loc(2) by (auto simp: list_all_iff)
  obtain pre where pre: "list_all is_read pre" and kind: "History r1 = pre \<or> (\<exists>q0 ds0 post. History r1 = pre @ ComputeDeleted q0 ds0 # post
      \<and> q0 = \<lparr>DeleteAccount = ExecAccount execution, DeleteRecord = serverRecordFromState current\<rparr>
      \<and> checked (CleanupConfig (ExecCleanup execution)) current pre \<and> list_all external post)"
    using remote_phase [OF rm] v(1,2) assms(2) by auto
  have no_read: "ComputeDeleted q ds \<notin> set pre" using pre by (auto simp: list_all_iff)
  then obtain q0 ds0 post where h: "History r1 = pre @ ComputeDeleted q0 ds0 # post" "list_all external post"
    "q0 = \<lparr>DeleteAccount = ExecAccount execution, DeleteRecord = serverRecordFromState current\<rparr>"
    "checked (CleanupConfig (ExecCleanup execution)) current pre"
    using kind assms(3) no_local loc(1) by auto
  have "ComputeDeleted q ds \<notin> set post" using h(2) by (auto simp: list_all_iff dest: external_not_local)
  then have q: "q0 = q" "ds0 = ds" using assms(3) no_local no_read loc(1) h(1) by auto
  show ?thesis
    by (intro exI [of _ current] exI [of _ pre] exI [of _ "post @ loc"] exI [of _ "CleanupConfig (ExecCleanup execution)"]
        exI [of _ "AuthRegistry authority"] exI [of _ found] exI [of _ "AuthProvider authority"])
      (use flags ld v a pre h q loc(1) in auto)
qed


text \<open>The phases of a command, for the remaining properties.\<close>

definition removed_entry :: "delete_app \<Rightarrow> RegistryEntry \<Rightarrow> State \<Rightarrow> registry_file \<Rightarrow> bool" where
  "removed_entry app entry st disk' \<longleftrightarrow> (\<exists>now wr. UpdateRegistry now wr (\<lambda>reg.
      if \<not> sameServerDeleteRegistryAuthority (AppHome app) (Some entry) (Find reg (StateNamespace st) (Normalize (StateServer st)))
      then Inl ''authority changed'' else Inr (Remove (StateNamespace st) (Normalize (StateServer st)) reg)) (RegistryAtEnd app) = (None, disk'))"

lemma run_phases:
  assumes "runServerDelete app stPath st r = (err, disk, s)" "History r = []"
  shows "History s = [] \<and> disk = RegistryAtEnd app \<and> (err \<noteq> None \<or> DryRun app)
    \<or> (\<exists>current cfg pre. LoadState (ReadFault (Services app) []) (Between (Services app) [] (StateOnDisk r)) = Inr current
        \<and> sameServerDeleteAuthority st current \<and> list_all is_read pre \<and>
        (History s = pre \<and> StateOnDisk s = Between (Services app) [] (StateOnDisk r) \<and> err \<noteq> None \<and> disk = RegistryAtEnd app
         \<or> (\<exists>q ds post loc clean entry. History s = pre @ ComputeDeleted q ds # post @ loc \<and> list_all external post \<and> list_all is_local loc
              \<and> licensed_history cfg current post
              \<and> cleaned (Services app) current (r\<lparr>StateOnDisk := Between (Services app) [] (StateOnDisk r)\<rparr>) post clean s
              \<and> (clean \<longrightarrow> Passed ds) \<and> (\<not> clean \<longrightarrow> loc = [] \<and> err \<noteq> None) \<and> (err \<noteq> None \<longrightarrow> disk = RegistryAtEnd app)
              \<and> (err = None \<longrightarrow> (\<forall>p \<in> set (removal_order (canonicalServerDeleteLocalArtifacts (AppHome app) current)). FileRemoved p \<in> set loc)
                   \<and> removed_entry app entry current disk))))"
proof (rule run_cases [OF assms])
  fix authority current execution e r1
  let ?r0 = "r\<lparr>StateOnDisk := Between (Services app) [] (StateOnDisk r)\<rparr>"
  assume ap: "approveServerDelete (AppHome app) (AppProviders app) (ProviderFlag app) (FirstAttempt app) stPath st = Inr authority"
    and ld: "LoadState (ReadFault (Services app) []) (Between (Services app) [] (StateOnDisk r)) = Inr current"
    and rv: "revalidateServerDelete (AppHome app) (AppProviders app) (ProviderFlag app) (SecondAttempt app) stPath authority (Inr current) = Inr execution"
    and rm: "executeServerDeleteRemote (Services app) (ComputeDelete app) execution ?r0 = (e, r1)"
    and rest: "s = r1 \<and> disk = RegistryAtEnd app \<and> err \<noteq> None \<or> e = None \<and>
         executeServerDeleteLocal (AppHome app) (RemoveDurably app) (RegistryTime app) (RegistryFault app) authority execution (RegistryAtEnd app) r1
           = (err, disk, s)"
  have v: "CleanupState (ExecCleanup execution) = current" "Required (ExecCleanup execution) = serverDeleteCleanupRequired current"
    "sameServerDeleteAuthority st current"
    using revalidated [OF rv] approved [OF ap] by auto
  obtain pre where pre: "list_all is_read pre" and kind: "History r1 = pre \<and> StateOnDisk r1 = StateOnDisk ?r0 \<and> e \<noteq> None
     \<or> (\<exists>q ds post. History r1 = pre @ ComputeDeleted q ds # post \<and> list_all external post
          \<and> licensed_history (CleanupConfig (ExecCleanup execution)) current post \<and> (e = None \<longrightarrow> Passed ds)
          \<and> cleaned (Services app) current ?r0 post (e = None) r1)"
    using remote_phase [OF rm] v(1,2) assms(2) by auto
  obtain loc where loc: "History s = History r1 @ loc" "list_all is_local loc" "StateOnDisk s = StateOnDisk r1"
    "e \<noteq> None \<longrightarrow> loc = [] \<and> err \<noteq> None" "err \<noteq> None \<longrightarrow> disk = RegistryAtEnd app"
    "err = None \<longrightarrow> (\<forall>p \<in> set (removal_order (canonicalServerDeleteLocalArtifacts (AppHome app) current)). FileRemoved p \<in> set loc)
       \<and> removed_entry app (AuthRegistry authority) current disk"
  proof (cases "s = r1 \<and> disk = RegistryAtEnd app \<and> err \<noteq> None")
    case True
    then show ?thesis using that [of "[]"] by (cases err) simp_all
  next
    case False
    then have *: "e = None" "executeServerDeleteLocal (AppHome app) (RemoveDurably app) (RegistryTime app) (RegistryFault app) authority execution (RegistryAtEnd app) r1
           = (err, disk, s)" using rest by auto
    from local_phase [OF *(2) refl, unfolded v(1)] obtain evs where l: "History s = History r1 @ evs" "list_all is_local evs"
      "StateOnDisk s = StateOnDisk r1" "err \<noteq> None \<longrightarrow> disk = RegistryAtEnd app"
      "err = None \<longrightarrow> (\<forall>p \<in> set (removal_order (canonicalServerDeleteLocalArtifacts (AppHome app) current)). FileRemoved p \<in> set evs)
         \<and> removed_entry app (AuthRegistry authority) current disk" unfolding removed_entry_def by blast
    show ?thesis by (rule that [of evs]) (use l *(1) in simp_all)
  qed
  have cl: "cleaned (Services app) current ?r0 post ok s = cleaned (Services app) current ?r0 post ok r1" for post ok
    using loc(3) by (simp add: cleaned_def)
  show ?thesis
    using kind
  proof
    assume *: "History r1 = pre \<and> StateOnDisk r1 = StateOnDisk ?r0 \<and> e \<noteq> None"
    then show ?thesis using ld v(3) pre loc by (intro disjI2 exI [of _ current] exI [of _ pre]) auto
  next
    assume "\<exists>q ds post. History r1 = pre @ ComputeDeleted q ds # post \<and> list_all external post
          \<and> licensed_history (CleanupConfig (ExecCleanup execution)) current post \<and> (e = None \<longrightarrow> Passed ds)
          \<and> cleaned (Services app) current ?r0 post (e = None) r1"
    then obtain q ds post where p: "History r1 = pre @ ComputeDeleted q ds # post" "list_all external post"
      "licensed_history (CleanupConfig (ExecCleanup execution)) current post" "e = None \<longrightarrow> Passed ds"
      "cleaned (Services app) current ?r0 post (e = None) r1" by blast
    have h: "History s = pre @ ComputeDeleted q ds # post @ loc" using loc(1) p(1) by simp
    show ?thesis
      by (intro disjI2 exI [of _ current] exI [of _ "CleanupConfig (ExecCleanup execution)"] exI [of _ pre] conjI [OF ld] conjI [OF v(3)]
          conjI [OF pre] disjI2 exI [of _ q] exI [of _ ds] exI [of _ post] exI [of _ loc] exI [of _ "e = None"]
          exI [of _ "AuthRegistry authority"] conjI [OF h] conjI [OF p(2)] conjI [OF loc(2)] conjI [OF p(3)])
        (use p(4,5) loc(4,5,6) cl in auto)
  qed
qed simp


lemma local_event: "is_local e \<Longrightarrow> \<not> is_deletion e" "is_read e \<Longrightarrow> \<not> is_local e"
  by (cases e; simp)+

lemma licensed_run:
  assumes "list_all is_read pre" "licensed_history cfg st post" "list_all is_local loc"
  shows "licensed_history cfg st (pre @ ComputeDeleted q ds # post @ loc)"
proof -
  have none: "licensed_history c s evs" if "list_all (\<lambda>e. \<not> is_deletion e) evs" for c s evs
    using that by (auto simp: licensed_history_def)
  have m: "memory st pre = st" using assms(1) by (induction pre) (auto elim: is_read.elims)
  have "licensed_history cfg st (pre @ [ComputeDeleted q ds])"
    by (rule none) (use assms(1) in \<open>auto simp: list_all_iff dest: is_readD\<close>)
  moreover have "licensed_history cfg st (post @ loc)"
    by (rule licensed_history_append [OF assms(2)], rule none) (use assms(3) local_event(1) in \<open>auto simp: list_all_iff\<close>)
  ultimately show ?thesis using licensed_history_append [of cfg st "pre @ [ComputeDeleted q ds]" "post @ loc"] m by simp
qed


text \<open>
  C7. Wherever a delete stops, it can be run again: the state file still names every tracked resource that
  was not seen missing and whose deletion did not succeed, and the local files and the registry entry are
  touched only when the file names no tracked resource any more. Other writers are assumed to leave the
  tailnet and tunnel records alone, as the ingress and address updates of the read commands do.
\<close>

theorem delete_retryable:
  assumes "runServerDelete app stPath st r = (err, disk, s)" "History r = []" "calm (Services app)"
  shows "History s = [] \<and> disk = RegistryAtEnd app \<or> (\<exists>current res. sameServerDeleteAuthority st current
    \<and> file_resources (StateOnDisk s) = Some res \<and> forgot_only_gone current (History s) res
    \<and> (list_all (\<lambda>e. \<not> is_local e) (History s) \<and> disk = RegistryAtEnd app
       \<or> TsNodeID (fst res) = '''' \<and> \<not> OwnsTunnel (snd res) \<and> TsAuthKeyID (fst res) = ''''))"
proof -
  let ?file = "Between (Services app) [] (StateOnDisk r)"
  consider (nothing) "History s = [] \<and> disk = RegistryAtEnd app"
    | (stopped) current where "LoadState (ReadFault (Services app) []) ?file = Inr current" "sameServerDeleteAuthority st current"
        "list_all is_read (History s)" "StateOnDisk s = ?file" "disk = RegistryAtEnd app"
    | (deleted) current pre q ds post loc clean where "LoadState (ReadFault (Services app) []) ?file = Inr current"
        "sameServerDeleteAuthority st current" "list_all is_read pre" "History s = pre @ ComputeDeleted q ds # post @ loc" "list_all external post"
        "cleaned (Services app) current (r\<lparr>StateOnDisk := ?file\<rparr>) post clean s" "\<not> clean \<longrightarrow> loc = [] \<and> disk = RegistryAtEnd app"
    using run_phases [OF assms(1,2)] by blast
  then show ?thesis
  proof cases
    case stopped
    have "forgot_only_gone current (History s) (resources current)" by (simp add: forgot_only_gone_def)
    moreover have "list_all (\<lambda>e. \<not> is_local e) (History s)" using stopped(3) local_event(2) by (auto simp: list_all_iff)
    ultimately show ?thesis using stopped loaded_resources [OF stopped(1)]
      by (intro disjI2 exI [of _ current] exI [of _ "resources current"]) simp
  next
    case deleted
    obtain res where res: "file_resources (StateOnDisk s) = Some res" "forgot_only_gone current post res"
      "clean \<longrightarrow> TsNodeID (fst res) = '''' \<and> \<not> OwnsTunnel (snd res) \<and> TsAuthKeyID (fst res) = ''''"
      using deleted(6) assms(3) loaded_resources [OF deleted(1)] by (auto simp: cleaned_def)
    have "forgot_only_gone current (History s) res"
      using res(2) known_gone_mono [of current post "pre @ [ComputeDeleted q ds]" loc] deleted(4) by (auto simp: forgot_only_gone_def)
    moreover have "list_all (\<lambda>e. \<not> is_local e) (History s)" if "loc = []"
      using that deleted(3,4,5) local_event(2) external_not_local by (auto simp: list_all_iff)
    ultimately show ?thesis using deleted(2,7) res(1,3) by blast
  qed blast
qed


lemma removed_entry_registry:
  assumes "removed_entry app entry st disk'" "file_wf (RegistryAtEnd app)"
  shows "\<exists>reg reg'. LoadRegistry (Inr (RegistryAtEnd app)) = Inr reg \<and> LoadRegistry (Inr disk') = Inr reg'
    \<and> (\<forall>k. reg_map reg' k = (if k = (StateNamespace st, Normalize (StateServer st)) then None else map_option (keyed (fst k) (snd k)) (reg_map reg k)))"
proof -
  let ?fn = "\<lambda>reg. if \<not> sameServerDeleteRegistryAuthority (AppHome app) (Some entry) (Find reg (StateNamespace st) (Normalize (StateServer st)))
      then Inl ''authority changed'' else Inr (Remove (StateNamespace st) (Normalize (StateServer st)) reg)"
  obtain now wr where u: "UpdateRegistry now wr ?fn (RegistryAtEnd app) = (None, disk')" using assms(1) by (auto simp: removed_entry_def)
  have keep: "reg_inv r'" if "reg_inv r" "?fn r = Inr r'" for r r'
    using that Remove_refines(1) by (auto split: if_splits)
  have "\<exists>r r' r''. LoadRegistry (Inr (RegistryAtEnd app)) = Inr r \<and> ?fn r = Inr r' \<and> LoadRegistry (Inr disk') = Inr r''
      \<and> (\<forall>k. reg_map r'' k = map_option (keyed (fst k) (snd k)) (reg_map r' k)) \<and> (disk' = NoFile \<longleftrightarrow> Namespaces r' = [])"
    by (rule update_registry_spec [OF u assms(2), unfolded option.case]) (rule keep)
  then obtain r r' r'' where r: "LoadRegistry (Inr (RegistryAtEnd app)) = Inr r" "?fn r = Inr r'" "LoadRegistry (Inr disk') = Inr r''"
    "\<forall>k. reg_map r'' k = map_option (keyed (fst k) (snd k)) (reg_map r' k)" by blast
  have n: "Normalize (Normalize x) = Normalize x" for x by (simp add: Normalize_def Default_def)
  have "r' = Remove (StateNamespace st) (Normalize (StateServer st)) r" using r(2) by (auto split: if_splits)
  then show ?thesis using r Remove_refines(2) [OF load_inv [OF assms(2) r(1)]] n by auto
qed

text \<open>
  C8. A delete that reports success left nothing behind: the provider accepted the deletion of the
  server, every tracked external resource is known to be gone, the local files of the server are removed,
  and the registry reads back without this server's entry and with every other entry as it was.
\<close>

theorem delete_complete:
  assumes "runServerDelete app stPath st r = (None, disk, s)" "History r = []" "\<not> DryRun app"
    and "calm (Services app)" "file_wf (RegistryAtEnd app)"
  shows "\<exists>current q ds reg reg'. sameServerDeleteAuthority st current \<and> ComputeDeleted q ds \<in> set (History s) \<and> Passed ds
    \<and> (TsNodeID (TailscaleIn st) = '''' \<or> device.known_gone current (History s))
    \<and> (\<not> OwnsTunnel (CloudflareIn st) \<or> tunnel.known_gone current (History s))
    \<and> (TsAuthKeyID (TailscaleIn st) = '''' \<or> key.known_gone current (History s))
    \<and> list_all (\<lambda>p. FileRemoved p \<in> set (History s)) (removal_order (canonicalServerDeleteLocalArtifacts (AppHome app) st))
    \<and> LoadRegistry (Inr (RegistryAtEnd app)) = Inr reg \<and> LoadRegistry (Inr disk) = Inr reg'
    \<and> (\<forall>k. reg_map reg' k = (if k = (StateNamespace st, Normalize (StateServer st)) then None
         else map_option (keyed (fst k) (snd k)) (reg_map reg k)))"
proof -
  let ?file = "Between (Services app) [] (StateOnDisk r)"
  obtain current cfg pre q ds post loc clean entry where *: "LoadState (ReadFault (Services app) []) ?file = Inr current"
    "sameServerDeleteAuthority st current" "History s = pre @ ComputeDeleted q ds # post @ loc"
    "cleaned (Services app) current (r\<lparr>StateOnDisk := ?file\<rparr>) post clean s" "clean \<longrightarrow> Passed ds" "clean"
    "\<forall>p \<in> set (removal_order (canonicalServerDeleteLocalArtifacts (AppHome app) current)). FileRemoved p \<in> set loc"
    "removed_entry app entry current disk"
    using run_phases [OF assms(1,2)] assms(3) by auto
  obtain res where res: "forgot_only_gone current post res" "TsNodeID (fst res) = ''''" "\<not> OwnsTunnel (snd res)" "TsAuthKeyID (fst res) = ''''"
    using *(4,6) assms(4) loaded_resources [OF *(1)] by (auto simp: cleaned_def)
  have same: "StateNamespace current = StateNamespace st" "StateServer current = StateServer st"
    "TsNodeID (TailscaleIn current) = TsNodeID (TailscaleIn st)" "TsAuthKeyID (TailscaleIn current) = TsAuthKeyID (TailscaleIn st)"
    "OwnsTunnel (CloudflareIn current) = OwnsTunnel (CloudflareIn st)"
    using *(2) by (simp_all add: sameServerDeleteAuthority_def OwnsTunnel_def)
  have gone: "TsNodeID (TailscaleIn st) = '''' \<or> device.known_gone current (History s)"
    "\<not> OwnsTunnel (CloudflareIn st) \<or> tunnel.known_gone current (History s)"
    "TsAuthKeyID (TailscaleIn st) = '''' \<or> key.known_gone current (History s)"
    using res same known_gone_mono [of current post "pre @ [ComputeDeleted q ds]" loc] *(3) by (auto simp: forgot_only_gone_def)
  have files: "canonicalServerDeleteLocalArtifacts (AppHome app) current = canonicalServerDeleteLocalArtifacts (AppHome app) st"
    by (simp add: canonicalServerDeleteLocalArtifacts_def same)
  obtain reg reg' where reg: "LoadRegistry (Inr (RegistryAtEnd app)) = Inr reg" "LoadRegistry (Inr disk) = Inr reg'"
    "\<forall>k. reg_map reg' k = (if k = (StateNamespace st, Normalize (StateServer st)) then None else map_option (keyed (fst k) (snd k)) (reg_map reg k))"
    using removed_entry_registry [OF *(8) assms(5)] same by auto
  show ?thesis
    by (intro exI [of _ current] exI [of _ q] exI [of _ ds] exI [of _ reg] exI [of _ reg'])
      (use * gone files reg in \<open>auto simp: list_all_iff\<close>)
qed


text \<open>
  A create run passes with a stored token only when the credentials record the flag's provider for it, or
  the state file proves it.
\<close>

lemma create_token_guard:
  assumes "validateCreateProviderAgainstState cenv cfg flag exists_fault rd file = (None, pub)"
  shows "\<exists>creds. LoadPartialSet cenv cfg = Inr creds \<and> (ServerProvider creds = '''' \<or> ServerProviderName creds = flag
        \<or> ServerProviderName creds = '''' \<and> (\<exists>st. LoadState rd file = Inr st \<and> (flag = '''' \<or> CProvider (ComputeIn st) = flag)))"
  using assms
  by (auto simp: validateCreateProviderAgainstState_def stateConfirmsCreateProvider_def validateProviderFlag_def validateStoredTokenProvider_def
      split: option.splits sum.splits if_splits prod.splits)


section \<open>A delete that succeeds\<close>

definition stored_creds :: cred_env where
  "stored_creds = sample_env\<lparr>EnvStat := (\<lambda>p. if p = pat_path then Other 384 else Other 448),
     EnvFile := (\<lambda>p. Inr \<lparr>FileSet = (empty_set ''prod'' ''web'')\<lparr>ServerProvider := ''hcloud-token'', ServerProviderName := ''hetzner''\<rparr>,
                           SetProject = ''''\<rparr>)\<rparr>"

definition tracked_file :: State where
  "tracked_file = sample_tracked\<lparr>ComputeIn := no_compute\<lparr>CProvider := ''hetzner'', CNamespace := ''prod'', CServer := ''web'', CID := ''42''\<rparr>\<rparr>"

definition filed_registry :: registry_file where
  "filed_registry = RegFile (Upsert 7 (sample_entry ''prod'' ''db'') sample_registry) []"

definition sample_attempt :: attempt where
  "sample_attempt = \<lparr>LoadedTarget = Inr (CleanupConfig (sample_cleanup [''tag:a'']), ''/state/web'', tracked_file),
     EnsuredCreds = (\<lambda>cfg. Inr (empty_set ''prod'' ''web'')), CredFiles = stored_creds, RegistryThen = filed_registry\<rparr>"

definition sample_app :: delete_app where
  "sample_app = \<lparr>AppHome = Some ''/home/op'', AppProviders = [(''hetzner'', ''hetzner'')], ProviderFlag = '''', DryRun = False, Yes = True,
     NonInteractive = False, Confirmed = False, FirstAttempt = sample_attempt, SecondAttempt = sample_attempt,
     NamespaceLock = None, ServerLock = None, CleanupLock = None, Services = sample_cleanup_env,
     ComputeDelete = (\<lambda>h q. []), RemoveDurably = (\<lambda>p. Removed), RegistryTime = 9, RegistryFault = None,
     RegistryAtEnd = filed_registry\<rparr>"

definition sample_delete :: "delete_error option \<times> registry_file \<times> cleanup_run" where
  "sample_delete = runServerDelete sample_app ''/state/web'' tracked_file \<lparr>StateOnDisk = StateFile tracked_file '''', History = []\<rparr>"

lemma sample_delete_succeeds:
  "fst sample_delete = None"
  by code_simp


lemma sample_delete_history:
  "length (filter is_compute (History (snd (snd sample_delete)))) = 1"
  by code_simp

lemma sample_delete_split:
  obtains disk s where "runServerDelete sample_app ''/state/web'' tracked_file \<lparr>StateOnDisk = StateFile tracked_file '''', History = []\<rparr> = (None, disk, s)"
    "sample_delete = (None, disk, s)"
proof -
  obtain err disk s where "sample_delete = (err, disk, s)" by (metis prod_cases3)
  then show ?thesis using that sample_delete_succeeds unfolding sample_delete_def by simp
qed

lemma sample_delete_server:
  "\<exists>q ds. ComputeDeleted q ds \<in> set (History (snd (snd sample_delete)))"
proof -
  let ?f = "filter is_compute (History (snd (snd sample_delete)))"
  have "?f \<noteq> []" using sample_delete_history by force
  then obtain e where "e \<in> set ?f" by (cases ?f) auto
  then have e: "e \<in> set (History (snd (snd sample_delete)))" "is_compute e" by simp_all
  from e(2) obtain q ds where "e = ComputeDeleted q ds" by (cases e) auto
  then show ?thesis using e(1) by blast
qed

lemma sample_delete_calm: "calm (Services sample_app)" "file_wf (RegistryAtEnd sample_app)"
proof -
  show "calm (Services sample_app)" by (simp add: calm_def sample_app_def sample_cleanup_env_def)
  have "reg_inv (Upsert 7 (sample_entry ''prod'' ''db'') sample_registry)" by (rule Upsert_refines(1) [OF sample_registry_inv])
  then show "file_wf (RegistryAtEnd sample_app)"
    using reg_inv_groups by (auto simp: file_wf_def sample_app_def filed_registry_def groups_wf_def)
qed

lemma delete_reauthorized_witness:
  "\<exists>current. sameServerDeleteAuthority tracked_file current \<and> (Yes sample_app \<or> Confirmed sample_app)"
proof (rule sample_delete_split)
  fix disk s
  assume r: "runServerDelete sample_app ''/state/web'' tracked_file \<lparr>StateOnDisk = StateFile tracked_file '''', History = []\<rparr> = (None, disk, s)"
    and s: "sample_delete = (None, disk, s)"
  obtain q ds where "ComputeDeleted q ds \<in> set (History s)" using sample_delete_server unfolding s snd_conv by blast
  from delete_reauthorized [OF r _ this] show ?thesis by auto
qed


lemma delete_retryable_witness:
  "\<exists>current res. file_resources (StateOnDisk (snd (snd sample_delete))) = Some res
    \<and> forgot_only_gone current (History (snd (snd sample_delete))) res"
proof (rule sample_delete_split)
  fix disk s
  assume r: "runServerDelete sample_app ''/state/web'' tracked_file \<lparr>StateOnDisk = StateFile tracked_file '''', History = []\<rparr> = (None, disk, s)"
    and s: "sample_delete = (None, disk, s)"
  have "History s \<noteq> []" using sample_delete_history unfolding s snd_conv by auto
  then show ?thesis using delete_retryable [OF r _ sample_delete_calm(1)] unfolding s snd_conv by auto
qed

lemma delete_complete_witness:
  "\<exists>current. device.known_gone current (History (snd (snd sample_delete))) \<and> tunnel.known_gone current (History (snd (snd sample_delete)))
    \<and> key.known_gone current (History (snd (snd sample_delete)))"
proof (rule sample_delete_split)
  fix disk s
  assume r: "runServerDelete sample_app ''/state/web'' tracked_file \<lparr>StateOnDisk = StateFile tracked_file '''', History = []\<rparr> = (None, disk, s)"
    and s: "sample_delete = (None, disk, s)"
  have n: "TsNodeID (TailscaleIn tracked_file) \<noteq> ''''" "OwnsTunnel (CloudflareIn tracked_file)" "TsAuthKeyID (TailscaleIn tracked_file) \<noteq> ''''"
    by (simp_all add: tracked_file_def sample_tracked_def OwnsTunnel_def)
  have "\<not> DryRun sample_app" by (simp add: sample_app_def)
  from delete_complete [OF r _ this sample_delete_calm] show ?thesis using n unfolding s snd_conv by auto
qed


end
