(* ===== verification/Redact.thy ===== *)
theory Redact
  imports Compute_Model "HOL-Library.Sublist"
begin

text \<open>
  Keeping secrets out of messages: internal/redact and internal/provider/providerutil.

  A redactor holds secrets, longest first, and replaces every occurrence of each by a mask
  (\<open>String\<close>). The provider adapters build every failure message through it, with the account
  token and the secrets inside the bootstrap data. The theorem is that a masked text holds no secret
  that was given, whatever the other secrets are, unless the secret is so short that the redactor
  drops it or can be read off the mask itself.
\<close>

section \<open>Replacing a substring\<close>

text \<open>
  \<open>strings.ReplaceAll\<close> for a substring that is not empty: from left to right, without overlap.
  The redactor drops the empty secret, so the other case of the library never runs.
\<close>

function replace_all :: "string \<Rightarrow> string \<Rightarrow> string \<Rightarrow> string" where
  "replace_all old new [] = []"
| "replace_all old new (c # s) =
     (if old \<noteq> [] \<and> has_prefix (c # s) old then new @ replace_all old new (drop (length old) (c # s))
      else c # replace_all old new s)"
  by pat_completeness auto
termination
  by (relation "measure (\<lambda>(_, _, s). length s)") (auto simp: neq_Nil_conv)

text \<open>The text between the occurrences that are replaced.\<close>

function pieces :: "string \<Rightarrow> string \<Rightarrow> string list" where
  "pieces old [] = [[]]"
| "pieces old (c # s) =
     (if old \<noteq> [] \<and> has_prefix (c # s) old then [] # pieces old (drop (length old) (c # s))
      else (case pieces old s of [] \<Rightarrow> [[c]] | p # ps \<Rightarrow> (c # p) # ps))"
  by pat_completeness auto
termination
  by (relation "measure (\<lambda>(_, s). length s)") (auto simp: neq_Nil_conv)

lemma pieces_not_Nil [simp]: "pieces old s \<noteq> []"
  by (induction old s rule: pieces.induct) (auto split: list.splits)

lemma pieces_match: "old \<noteq> [] \<Longrightarrow> pieces old (old @ t) = [] # pieces old t"
  by (cases old) (simp_all add: has_prefix_iff)

lemma pieces_step:
  "\<not> (old \<noteq> [] \<and> has_prefix (c # s) old) \<Longrightarrow> pieces old s = p # ps \<Longrightarrow> pieces old (c # s) = (c # p) # ps"
  by (simp only: pieces.simps if_False list.case)

lemma replace_match: "old \<noteq> [] \<Longrightarrow> replace_all old new (old @ t) = new @ replace_all old new t"
  by (cases old) (simp_all add: has_prefix_iff)

lemma replace_step:
  "\<not> (old \<noteq> [] \<and> has_prefix (c # s) old) \<Longrightarrow> replace_all old new (c # s) = c # replace_all old new s"
  by (simp only: replace_all.simps if_False)

declare pieces.simps(2) [simp del] replace_all.simps(2) [simp del]

text \<open>Induction along the scan: at an occurrence, or at a character that starts none.\<close>

lemma scan_induct [case_names Nil Match Step]:
  assumes "P []"
    and "\<And>t. old \<noteq> [] \<Longrightarrow> P t \<Longrightarrow> P (old @ t)"
    and "\<And>c s p ps. \<not> (old \<noteq> [] \<and> has_prefix (c # s) old) \<Longrightarrow> pieces old s = p # ps \<Longrightarrow> P s \<Longrightarrow> P (c # s)"
  shows "P s"
proof (induction s rule: length_induct)
  case (1 s)
  show ?case
  proof (cases s)
    case Nil
    with assms(1) show ?thesis by simp
  next
    case s: (Cons c s')
    show ?thesis
    proof (cases "old \<noteq> [] \<and> has_prefix s old")
      case True
      then obtain t where t: "s = old @ t" by (auto simp: has_prefix_iff)
      with True have "length t < length s" by simp
      with 1 have "P t" by blast
      with assms(2) True t show ?thesis by metis
    next
      case False
      obtain p ps where "pieces old s' = p # ps" using pieces_not_Nil by (meson neq_Nil_conv)
      moreover have "P s'" using 1 s by simp
      ultimately show ?thesis using assms(3) False s by metis
    qed
  qed
qed

lemma join_Cons_piece: "join sep ((c # p) # ps) = c # join sep (p # ps)"
  by (cases ps) simp_all

lemma join_Nil_piece: "ps \<noteq> [] \<Longrightarrow> join sep ([] # ps) = sep @ join sep ps"
  by (cases ps) simp_all

lemma replace_all_pieces: "replace_all old new s = join new (pieces old s)"
proof (induction s rule: scan_induct [of _ old])
  case (Match t)
  then show ?case by (simp add: replace_match pieces_match join_Nil_piece)
next
  case (Step c s p ps)
  then show ?case unfolding replace_step [OF Step(1)] pieces_step [OF Step(1,2)] join_Cons_piece by simp
qed simp

lemma join_pieces: "join old (pieces old s) = s"
proof (induction s rule: scan_induct [of _ old])
  case (Match t)
  then show ?case by (simp add: pieces_match join_Nil_piece)
next
  case (Step c s p ps)
  then show ?case unfolding pieces_step [OF Step(1,2)] join_Cons_piece by simp
qed simp

lemma first_piece_prefix: "pieces old s = p # ps \<Longrightarrow> has_prefix s p"
proof -
  assume "pieces old s = p # ps"
  with join_pieces [of old s] have "join old (p # ps) = s" by simp
  then show ?thesis by (cases ps) (auto simp: has_prefix_iff)
qed

lemma pieces_free: "old \<noteq> [] \<Longrightarrow> p \<in> set (pieces old s) \<Longrightarrow> \<not> sublist old p"
proof (induction s arbitrary: p rule: scan_induct [of _ old])
  case (Match t)
  then show ?case by (auto simp: pieces_match)
next
  case (Step c s q ps)
  show ?case
  proof (cases "p \<in> set ps")
    case True
    with Step show ?thesis by simp
  next
    case False
    with Step.prems Step.hyps have p: "p = c # q" by (simp add: pieces_step)
    obtain t where t: "s = q @ t" using first_piece_prefix [OF Step.hyps(2)] by (auto simp: has_prefix_iff)
    have "\<not> prefix old (c # q)"
    proof
      assume "prefix old (c # q)"
      then obtain u where "c # q = old @ u" by (auto simp: prefix_def)
      then have "c # s = old @ u @ t" using t by (metis append_Cons append_assoc)
      then have "has_prefix (c # s) old" by (auto simp: has_prefix_iff)
      with Step show False by simp
    qed
    moreover have "\<not> sublist old q" using Step by simp
    ultimately show ?thesis using p by (simp add: sublist_Cons_right)
  qed
qed simp

lemma pieces_sublist: "p \<in> set (pieces old s) \<Longrightarrow> sublist p s"
proof -
  assume p: "p \<in> set (pieces old s)"
  have "sublist p (join old ps)" if "p \<in> set ps" for ps
    using that
    by (induction old ps rule: join.induct) (auto intro: sublist_appendI sublist_append_leftI sublist_append_rightI
        simp: sublist_append)
  from this [OF p] show ?thesis by (simp add: join_pieces)
qed

section \<open>The redactor\<close>

definition Mask :: string where
  "Mask = ''[REDACTED]''"

text \<open>A redactor is its list of secrets: \<open>New\<close> drops the short ones and repetitions.\<close>

type_synonym Redactor = "string list"

fun keep_secrets :: "string list \<Rightarrow> string list \<Rightarrow> string list" where
  "keep_secrets seen [] = []"
| "keep_secrets seen (s # secrets) =
     (if length s < 4 \<or> s \<in> set seen then keep_secrets seen secrets else s # keep_secrets (s # seen) secrets)"

definition NewRedactor :: "string list \<Rightarrow> Redactor" where
  "NewRedactor secrets = sort_key (\<lambda>s. - int (length s)) (keep_secrets [] secrets)"

definition RedactString :: "Redactor \<Rightarrow> string \<Rightarrow> string" where
  "RedactString r s = foldl (\<lambda>s secret. replace_all secret Mask s) s r"

text \<open>A redacted error shows the masked message and keeps its cause.\<close>

definition RedactError :: "Redactor \<Rightarrow> ('e \<Rightarrow> string) \<Rightarrow> 'e option \<Rightarrow> (string \<times> 'e) option" where
  "RedactError r text_of err = map_option (\<lambda>e. (RedactString r (text_of e), e)) err"

text \<open>A secret that the mask cannot spell, in whole or in part.\<close>

definition maskable :: "string \<Rightarrow> bool" where
  "maskable s \<longleftrightarrow> 4 \<le> length s \<and> CHR ''['' \<notin> set s \<and> CHR '']'' \<notin> set s \<and> \<not> sublist s ''REDACTED''"

lemma maskable_not_Nil: "maskable s \<Longrightarrow> s \<noteq> []"
  by (auto simp: maskable_def)

lemma kept: "s \<in> set secrets \<Longrightarrow> 4 \<le> length s \<Longrightarrow> s \<in> set seen \<or> s \<in> set (keep_secrets seen secrets)"
  by (induction seen secrets rule: keep_secrets.induct) auto

lemma kept_in_redactor: "s \<in> set secrets \<Longrightarrow> maskable s \<Longrightarrow> s \<in> set (NewRedactor secrets)"
  using kept [of s secrets "[]"] by (simp add: NewRedactor_def maskable_def)

lemma redactor_not_Nil: "s \<in> set (NewRedactor secrets) \<Longrightarrow> s \<noteq> []"
proof -
  have "s \<in> set (keep_secrets seen secrets) \<Longrightarrow> s \<noteq> []" for seen
    by (induction seen secrets rule: keep_secrets.induct) (auto split: if_splits)
  then show "s \<in> set (NewRedactor secrets) \<Longrightarrow> s \<noteq> []" by (simp add: NewRedactor_def)
qed

text \<open>An occurrence in a text that holds a character the secret lacks lies on one side of it.\<close>

lemma sublist_around:
  assumes "sublist s (a @ c # b)" "c \<notin> set s"
  shows "sublist s a \<or> sublist s b"
proof -
  from assms(1) obtain xs ys where s: "a @ c # b = xs @ s @ ys" by (auto simp: sublist_def)
  then consider us where "a = xs @ us" "us @ c # b = s @ ys" | us where "xs = a @ us" "c # b = us @ s @ ys"
    by (auto simp: append_eq_append_conv2)
  then show ?thesis
  proof cases
    case 1
    then consider vs where "us = s @ vs" | vs where "s = us @ vs" "c # b = vs @ ys"
      by (auto simp: append_eq_append_conv2)
    then show ?thesis
    proof cases
      case 1
      with \<open>a = xs @ us\<close> show ?thesis by (auto intro: sublist_appendI)
    next
      case 2
      with assms(2) have "vs = []" by (cases vs) auto
      with 2 \<open>a = xs @ us\<close> show ?thesis by auto
    qed
  next
    case 2
    show ?thesis
    proof (cases us)
      case Nil
      with 2 assms(2) have "s = []" by (cases s) auto
      then show ?thesis by simp
    next
      case (Cons u us')
      with 2 show ?thesis by (auto intro: sublist_appendI)
    qed
  qed
qed

lemma sublist_over_mask:
  assumes "sublist s (a @ Mask @ b)" "maskable s"
  shows "sublist s a \<or> sublist s b"
proof -
  have "a @ Mask @ b = a @ CHR ''['' # (''REDACTED'' @ CHR '']'' # b)" by (simp add: Mask_def)
  with assms have "sublist s a \<or> sublist s (''REDACTED'' @ CHR '']'' # b)"
    using sublist_around [of s a "CHR ''[''"] by (simp add: maskable_def)
  then show ?thesis
    using sublist_around [of s "''REDACTED''" "CHR '']''" b] assms(2) by (auto simp: maskable_def)
qed

lemma sublist_join_mask:
  assumes s: "maskable s"
  shows "sublist s (join Mask ps) \<Longrightarrow> \<exists>p \<in> set ps. sublist s p"
proof (induction ps)
  case Nil
  with s show ?case by (simp add: maskable_def)
next
  case (Cons p ps)
  show ?case
  proof (cases ps)
    case Nil
    with Cons show ?thesis by simp
  next
    case (Cons q qs)
    then have "sublist s (p @ Mask @ join Mask ps)" using Cons.prems by simp
    with sublist_over_mask [OF _ s] Cons.IH show ?thesis by auto
  qed
qed

lemma replaced_new: "maskable s \<Longrightarrow> sublist s (replace_all old Mask x) \<Longrightarrow> sublist s x"
  using sublist_join_mask pieces_sublist replace_all_pieces sublist_order.order.trans by metis

lemma replaced_gone: "maskable s \<Longrightarrow> \<not> sublist s (replace_all s Mask x)"
  using sublist_join_mask pieces_free replace_all_pieces maskable_not_Nil by metis

lemma redacted_new: "maskable s \<Longrightarrow> sublist s (RedactString r x) \<Longrightarrow> sublist s x"
  unfolding RedactString_def
  by (induction r arbitrary: x) (auto dest: replaced_new)

lemma redacted_gone: "maskable s \<Longrightarrow> s \<in> set r \<Longrightarrow> \<not> sublist s (RedactString r x)"
proof (induction r arbitrary: x)
  case (Cons t r)
  show ?case
  proof (cases "s = t")
    case True
    have "RedactString (t # r) x = RedactString r (replace_all t Mask x)" by (simp add: RedactString_def)
    then show ?thesis using redacted_new replaced_gone Cons(2) True by metis
  next
    case False
    then have "s \<in> set r" using Cons.prems by simp
    moreover have "RedactString (t # r) x = RedactString r (replace_all t Mask x)" by (simp add: RedactString_def)
    ultimately show ?thesis using Cons by simp
  qed
qed simp

section \<open>Failure messages of a provider\<close>

text \<open>
  \<open>regexp.FindAllString\<close> for the two patterns of the bootstrap data: a fixed prefix and a
  longest run, not empty, of bytes of a class. Both classes hold either no byte above 127 or all of
  them, so a run of runes is a run of bytes.
\<close>

function find_runs :: "string \<Rightarrow> (char \<Rightarrow> bool) \<Rightarrow> string \<Rightarrow> string list" where
  "find_runs pre ok [] = []"
| "find_runs pre ok (c # s) =
     (let run = takeWhile ok (drop (length pre) (c # s)) in
      if has_prefix (c # s) pre \<and> run \<noteq> []
      then (pre @ run) # find_runs pre ok (drop (length pre + length run) (c # s))
      else find_runs pre ok s)"
  by pat_completeness auto
termination
  by (relation "measure (\<lambda>(_, _, s). length s)") (auto simp: neq_Nil_conv)

definition auth_key_char :: "char \<Rightarrow> bool" where
  "auth_key_char c \<longleftrightarrow> (c \<ge> CHR ''A'' \<and> c \<le> CHR ''Z'') \<or> (c \<ge> CHR ''a'' \<and> c \<le> CHR ''z'')
     \<or> (c \<ge> CHR ''0'' \<and> c \<le> CHR ''9'') \<or> c = CHR ''_'' \<or> c = CHR ''-''"

definition hash_char :: "char \<Rightarrow> bool" where
  "hash_char c \<longleftrightarrow> c \<notin> set '' '' \<and> c \<notin> {CHR ''\<newline>'', CHR 0x09, CHR 0x0C, CHR 0x0D, CHR 0x22, CHR 0x27}"

definition bootstrap_matches :: "string \<Rightarrow> string list" where
  "bootstrap_matches bootstrap = find_runs ''tskey-'' auth_key_char bootstrap @ find_runs ''$6$'' hash_char bootstrap"

fun add_new :: "string list \<Rightarrow> string list \<Rightarrow> string list" where
  "add_new secrets [] = secrets"
| "add_new secrets (m # ms) = (if m \<in> set secrets then add_new secrets ms else add_new (secrets @ [m]) ms)"

text \<open>\<open>seen\<close> of the code is the set of the secrets listed so far.\<close>

definition BootstrapSecrets :: "string \<Rightarrow> string list \<Rightarrow> string list" where
  "BootstrapSecrets bootstrap encoded =
     add_new (add_new [bootstrap] (filter (\<lambda>v. v \<noteq> '''') encoded)) (bootstrap_matches bootstrap)"

definition Failure :: "('e \<Rightarrow> string) \<Rightarrow> string \<Rightarrow> string \<Rightarrow> 'e \<Rightarrow> string list \<Rightarrow> 'e Diagnostic list" where
  "Failure text_of secret pre err extraSecrets =
     [FailureDiagnostic (RedactString (NewRedactor (secret # extraSecrets)) (pre @ '': '' @ text_of err)) (Some err)]"

definition ValidateRecordProvider :: "ProviderName \<Rightarrow> ProviderName \<Rightarrow> (ProviderName \<times> ProviderName) option" where
  "ValidateRecordProvider actual expected = (if actual \<noteq> expected then Some (actual, expected) else None)"

text \<open>What a diagnostic shows: its message, and the text of its error, which is the message again.\<close>

definition shown :: "'e Diagnostic list \<Rightarrow> string set" where
  "shown ds = Message ` set ds \<union> (case Err ds of None \<Rightarrow> {} | Some errs \<Rightarrow> fst ` set errs)"

lemma add_new_set: "set (add_new secrets ms) = set secrets \<union> set ms"
  by (induction secrets ms rule: add_new.induct) auto


lemma shown_Failure: "shown (Failure text_of secret pre err extra)
    = {RedactString (NewRedactor (secret # extra)) (pre @ '': '' @ text_of err)}"
  by (simp add: shown_def Failure_def FailureDiagnostic_def Err_def)

text \<open>
  A value of a class that stands alone in a text: the prefix, a run of the class, and no byte of the
  class on either side.
\<close>

definition delimited :: "string \<Rightarrow> (char \<Rightarrow> bool) \<Rightarrow> string \<Rightarrow> string \<Rightarrow> bool" where
  "delimited pre ok txt s \<longleftrightarrow> (\<exists>a run b. txt = a @ s @ b \<and> s = pre @ run \<and> run \<noteq> [] \<and> list_all ok run
     \<and> (a = [] \<or> \<not> ok (last a)) \<and> (b = [] \<or> \<not> ok (hd b)))"

lemma takeWhile_run: "list_all ok run \<Longrightarrow> b = [] \<or> \<not> ok (hd b) \<Longrightarrow> takeWhile ok (run @ b) = run"
  by (cases b) (simp_all add: takeWhile_append2 list_all_iff takeWhile_tail)

lemma find_runs_match:
  assumes "pre \<noteq> []" "run \<noteq> []" "takeWhile ok txt = run"
  shows "find_runs pre ok (pre @ txt) = (pre @ run) # find_runs pre ok (drop (length run) txt)"
  using assms by (cases pre) (simp_all add: has_prefix_iff Let_def)

declare find_runs.simps(2) [simp del]

lemma find_runs_found:
  assumes pre: "pre \<noteq> []" "list_all ok pre" and run: "run \<noteq> []" "list_all ok run" and b: "b = [] \<or> \<not> ok (hd b)"
  shows "a = [] \<or> \<not> ok (last a) \<Longrightarrow> pre @ run \<in> set (find_runs pre ok (a @ pre @ run @ b))"
proof (induction a rule: length_induct)
  case (1 a)
  show ?case
  proof (cases a)
    case Nil
    then show ?thesis using find_runs_match [OF pre(1) run(1) takeWhile_run [OF run(2) b]] by simp
  next
    case a: (Cons c a')
    let ?rest = "pre @ run @ b"
    let ?found = "takeWhile ok (drop (length pre) (a @ ?rest))"
    show ?thesis
    proof (cases "has_prefix (a @ ?rest) pre \<and> ?found \<noteq> []")
      case True
      then obtain t where t: "a @ ?rest = pre @ t" by (auto simp: has_prefix_iff)
      define n where "n = length pre + length ?found"
      have "length ?found = length (takeWhile ok t)" unfolding t by simp
      then have "take n (a @ ?rest) = pre @ takeWhile ok t"
        unfolding n_def t by (simp add: takeWhile_eq_take [symmetric])
      then have ok: "list_all ok (take n (a @ ?rest))"
        using pre(2) set_takeWhileD by (fastforce simp: list_all_iff)
      have short: "n < length a"
      proof (rule ccontr)
        assume "\<not> n < length a"
        then have "set a \<subseteq> set (take n (a @ ?rest))" by (simp add: take_append)
        moreover have "last a \<in> set a" using a by (intro last_in_set) simp
        ultimately have "last a \<in> set (take n (a @ ?rest))" by (rule subsetD)
        with ok have "ok (last a)" unfolding list_all_iff by (rule bspec)
        with 1(2) a show False by simp
      qed
      have "0 < n" using pre(1) by (simp add: n_def)
      with short have "drop n a \<noteq> []" "last (drop n a) = last a" "length (drop n a) < length a" by simp_all
      then have "pre @ run \<in> set (find_runs pre ok (drop n a @ ?rest))"
        using 1(1) [rule_format, of "drop n a"] 1(2) a by (simp only: list.distinct)
      moreover have "find_runs pre ok (a @ ?rest) = (pre @ ?found) # find_runs pre ok (drop n (a @ ?rest))"
      proof -
        have f: "?found = takeWhile ok t" unfolding t by simp
        have "drop n (pre @ t) = drop (length (takeWhile ok t)) t" unfolding n_def f by simp
        then show ?thesis using find_runs_match [OF pre(1) _ refl, of ok t] True unfolding t by simp
      qed
      ultimately show ?thesis using short by simp
    next
      case False
      then have "find_runs pre ok (a @ ?rest) = find_runs pre ok (a' @ ?rest)"
        unfolding a append_Cons find_runs.simps Let_def by (simp only: if_False)
      moreover have "a' = [] \<or> \<not> ok (last a')" using 1(2) a by (auto split: if_splits)
      ultimately show ?thesis using 1(1) [rule_format, of a'] a by simp
    qed
  qed
qed

lemma delimited_found:
  "delimited pre ok txt s \<Longrightarrow> pre \<noteq> [] \<Longrightarrow> list_all ok pre \<Longrightarrow> s \<in> set (find_runs pre ok txt)"
  unfolding delimited_def using find_runs_found by fastforce

text \<open>The secrets of a create call: the token, the bootstrap data, its encoded forms, and the keys and hashes in it.\<close>

definition create_secret :: "string \<Rightarrow> string \<Rightarrow> string list \<Rightarrow> string \<Rightarrow> bool" where
  "create_secret token bootstrap encoded s \<longleftrightarrow> s \<in> set (token # bootstrap # encoded)
     \<or> delimited ''tskey-'' auth_key_char bootstrap s \<or> delimited ''$6$'' hash_char bootstrap s"

lemma create_secret_listed:
  assumes "create_secret token bootstrap encoded s" "s \<noteq> ''''"
  shows "s \<in> set (token # BootstrapSecrets bootstrap encoded)"
proof -
  have "list_all auth_key_char ''tskey-''" "list_all hash_char ''$6$''" by code_simp+
  with assms show ?thesis
    unfolding create_secret_def using delimited_found [of "''tskey-''"] delimited_found [of "''$6$''"]
    by (auto simp: BootstrapSecrets_def add_new_set bootstrap_matches_def)
qed

lemma auth_key_maskable: "delimited ''tskey-'' auth_key_char txt s \<Longrightarrow> maskable s"
proof -
  assume "delimited ''tskey-'' auth_key_char txt s"
  then obtain run where s: "s = ''tskey-'' @ run" "list_all auth_key_char run" by (auto simp: delimited_def)
  then have "CHR ''['' \<notin> set run" "CHR '']'' \<notin> set run"
    by (auto simp: list_all_iff auth_key_char_def less_eq_char_def)
  moreover have "\<not> sublist s ''REDACTED''"
  proof
    assume "sublist s ''REDACTED''"
    then have "set s \<subseteq> set ''REDACTED''" by (rule set_mono_sublist)
    with s(1) show False by simp
  qed
  ultimately show ?thesis using s by (simp add: maskable_def)
qed


definition sample_bootstrap :: string where
  "sample_bootstrap = ''up --authkey=tskey-auth-k1 --ssh''"

definition sample_failure :: "string Diagnostic list" where
  "sample_failure = Failure id ''hcloud-token'' ''provider server create failed'' ''invalid user_data: tskey-auth-k1 (hcloud-token)''
     (BootstrapSecrets sample_bootstrap [])"


end
