(* ===== verification/Cloud_Api.thy ===== *)
theory Cloud_Api
  imports Redact Ownership Go_Json "HOL-Library.State_Monad"
begin

text \<open>
  What the three provider adapters share: calls of a provider's HTTP API, their trace, and the rules
  by which the adapters' operations are run symbolically.

  The API is a service outside the repository, so it is a parameter: what it answers to a request,
  decoded, may depend on everything that was asked before (\<open>Answer\<close>). An operation is a computation in the
  state monad over the trace of the calls made so far; \<open>wp\<close> is its weakest precondition.
  \<open>licensed\<close> says that every call of a trace is allowed by the calls before it.

  A loop over calls ends at the deadline of its context at the latest: \<open>Polls\<close> is the number of
  waits that the deadline leaves to a wait for the provider, \<open>Pages\<close> the number of pages that it
  leaves to the reading of a list.
\<close>

named_theorems wp "weakest preconditions of API computations"

section \<open>Requests and answers\<close>

record api_request =
  Verb :: string
  Path :: string
  Payload :: "json option"

datatype provider_error =
    StatusError nat string
  | CallError string
  | ServerMissing string
  | ServerAmbiguous string
  | ActionFailed string
  | ActionUnexpected string
  | WaitExpired
  | DeadlineExceeded
  | RepeatedPage
  | CredentialMissing
  | ServerIdMissing
  | ImageIdMissing
  | PolicyIdInvalid
  | OtherProvider ProviderName ProviderName
  | ServerNameMismatch string string
  | StateServerNameMissing
  | PolicyNameMismatch string string
  | LabelsMismatch ownership_error
  | PolicyIdMismatch string string
  | UnexpectedRules
  | PolicyAttached
  | PolicyForeign
  | UnsupportedPower string
  | PolicyNotFound string
  | PolicyAmbiguous string
  | PolicyIdMissing string

definition IsStatus :: "provider_error \<Rightarrow> nat \<Rightarrow> bool" where
  "IsStatus err code = (case err of StatusError c _ \<Rightarrow> c = code | _ \<Rightarrow> False)"

definition StatusNotFound :: nat where
  "StatusNotFound = 404"

type_synonym 'r api_call = "api_request \<times> (provider_error, 'r) result"
type_synonym 'r trace = "'r api_call list"
type_synonym ('r, 'a) api = "('r trace, 'a) state"

record 'r cloud =
  Answer :: "'r trace \<Rightarrow> api_request \<Rightarrow> (provider_error, 'r) result"
  Polls :: nat
  Pages :: nat

text \<open>\<open>Client.Do\<close>: one request, its answer decoded or an error.\<close>

definition Do :: "'r cloud \<Rightarrow> api_request \<Rightarrow> ('r, (provider_error, 'r) result) api" where
  "Do c q = State (\<lambda>h. (Answer c h q, h @ [(q, Answer c h q)]))"

definition fetch :: "'r cloud \<Rightarrow> ('r \<Rightarrow> 'a) \<Rightarrow> api_request \<Rightarrow> ('r, (provider_error, 'a) result) api" where
  "fetch c field q = do { a \<leftarrow> Do c q; State_Monad.return (map_sum id field a) }"

text \<open>A call whose answer is not read: its error.\<close>

definition exec :: "'r cloud \<Rightarrow> api_request \<Rightarrow> ('r, provider_error option) api" where
  "exec c q = do { a \<leftarrow> Do c q; State_Monad.return (case a of Inl e \<Rightarrow> Some e | Inr _ \<Rightarrow> None) }"

abbreviation GET :: "string \<Rightarrow> api_request" where
  "GET path \<equiv> \<lparr>Verb = ''GET'', Path = path, Payload = None\<rparr>"

abbreviation DELETE :: "string \<Rightarrow> api_request" where
  "DELETE path \<equiv> \<lparr>Verb = ''DELETE'', Path = path, Payload = None\<rparr>"

abbreviation POST :: "string \<Rightarrow> (string \<times> json) list \<Rightarrow> api_request" where
  "POST path members \<equiv> \<lparr>Verb = ''POST'', Path = path, Payload = Some (JObj members)\<rparr>"

abbreviation POST_empty :: "string \<Rightarrow> api_request" where
  "POST_empty path \<equiv> \<lparr>Verb = ''POST'', Path = path, Payload = None\<rparr>"

text \<open>
  A list that comes in pages: the server names the next page, so nothing in the code bounds their
  number. The deadline of the context does: it leaves \<open>Pages\<close> reads, and the next one fails.
\<close>

fun read_pages :: "nat \<Rightarrow> ('p \<Rightarrow> ('r, (provider_error, 'a list \<times> 'p option) result) api) \<Rightarrow> 'a list \<Rightarrow> 'p
    \<Rightarrow> ('r, (provider_error, 'a list) result) api" where
  "read_pages 0 page_at out page = State_Monad.return (Inl DeadlineExceeded)"
| "read_pages (Suc n) page_at out page = do {
     a \<leftarrow> page_at page;
     case a of
       Inl e \<Rightarrow> State_Monad.return (Inl e)
     | Inr (xs, next_page) \<Rightarrow>
         (case next_page of
            None \<Rightarrow> State_Monad.return (Inr (out @ xs))
          | Some p \<Rightarrow> read_pages n page_at (out @ xs) p) }"

text \<open>The same loop with a guard against a page that was named before.\<close>

fun read_new_pages :: "nat \<Rightarrow> ('p \<Rightarrow> ('r, (provider_error, 'a list \<times> 'p option) result) api) \<Rightarrow> 'p list \<Rightarrow> 'a list \<Rightarrow> 'p
    \<Rightarrow> ('r, (provider_error, 'a list) result) api" where
  "read_new_pages 0 page_at seen out page = State_Monad.return (Inl DeadlineExceeded)"
| "read_new_pages (Suc n) page_at seen out page = do {
     a \<leftarrow> page_at page;
     case a of
       Inl e \<Rightarrow> State_Monad.return (Inl e)
     | Inr (xs, next_page) \<Rightarrow>
         (case next_page of
            None \<Rightarrow> State_Monad.return (Inr (out @ xs))
          | Some p \<Rightarrow> if p \<in> set seen then State_Monad.return (Inl RepeatedPage)
              else read_new_pages n page_at (p # seen) (out @ xs) p) }"

section \<open>Diagnostics of an operation\<close>

text \<open>
  An operation ends well, with one passing diagnostic, or with one failing one: a refusal of its own,
  whose message is the error's text, or a call's error behind a prefix, masked.
\<close>

datatype api_failure = Refused provider_error | CallFailed string provider_error "string list"

definition diagnostics_of :: "(provider_error \<Rightarrow> string) \<Rightarrow> string \<Rightarrow> string \<Rightarrow> api_failure option \<Rightarrow> provider_error Diagnostic list" where
  "diagnostics_of text_of token passed r =
     (case r of
        None \<Rightarrow> [\<lparr>Status = Pass, Message = passed, cause = None\<rparr>]
      | Some (Refused e) \<Rightarrow> [\<lparr>Status = Fail, Message = text_of e, cause = None\<rparr>]
      | Some (CallFailed pre e extra) \<Rightarrow> Failure text_of token pre e extra)"

lemma Passed_diagnostics_of: "Passed (diagnostics_of text_of token passed r) \<longleftrightarrow> r = None"
  by (auto simp: diagnostics_of_def Passed_def Failure_def FailureDiagnostic_def split: option.splits api_failure.splits)

section \<open>Numbers in paths and records\<close>

text \<open>\<open>strconv.FormatInt\<close> and \<open>strconv.ParseInt\<close> with base 10 and 64 bits.\<close>

definition format_int :: "int \<Rightarrow> string" where
  "format_int i = (if i < 0 then ''-'' @ itoa (nat (- i)) else itoa (nat i))"

definition is_digit :: "char \<Rightarrow> bool" where
  "is_digit c \<longleftrightarrow> 48 \<le> (of_char c :: nat) \<and> of_char c \<le> (57 :: nat)"

definition parse_digits :: "string \<Rightarrow> nat option" where
  "parse_digits s = (if s \<noteq> [] \<and> list_all is_digit s then Some (of_digits 10 (map (\<lambda>c. of_char c - 48) s)) else None)"

definition parse_int64 :: "string \<Rightarrow> int option" where
  "parse_int64 s =
     (let (neg, ds) = (if has_prefix s ''-'' then (True, tl s) else if has_prefix s ''+'' then (False, tl s) else (False, s))
      in case parse_digits ds of
           None \<Rightarrow> None
         | Some n \<Rightarrow> (let i = (if neg then - int n else int n) in
             if - (2 ^ 63) \<le> i \<and> i < 2 ^ 63 then Some i else None))"

lemma parse_digits_itoa: "parse_digits (itoa n) = Some n"
proof -
  have "map (\<lambda>c. of_char c - 48) (itoa n) = digits_base 10 n"
    unfolding itoa_def map_map
    by (rule map_idI) (use digits_base_bound [of 10 _ n] in \<open>fastforce simp: of_char_digit_char\<close>)
  moreover have "list_all is_digit (itoa n)" using itoa_digits by (auto simp: list_all_iff is_digit_def)
  ultimately show ?thesis by (simp add: parse_digits_def digits_base_value)
qed

lemma itoa_no_sign: "has_prefix (itoa n) ''-'' = False" "has_prefix (itoa n) ''+'' = False"
proof -
  have "hd (itoa n) \<noteq> CHR ''-'' \<and> hd (itoa n) \<noteq> CHR ''+''"
    using itoa_digits [of "hd (itoa n)" n] by (auto simp: hd_in_set)
  moreover obtain c s where "itoa n = c # s" by (meson itoa_not_Nil neq_Nil_conv)
  ultimately show "has_prefix (itoa n) ''-'' = False" "has_prefix (itoa n) ''+'' = False" by simp_all
qed

lemma parse_format_int [simp]:
  assumes "- (2 ^ 63) \<le> i" "i < 2 ^ 63"
  shows "parse_int64 (format_int i) = Some i"
proof (cases "i < 0")
  case True
  then show ?thesis using assms by (simp add: parse_int64_def format_int_def parse_digits_itoa)
next
  case False
  then show ?thesis using assms by (simp add: parse_int64_def format_int_def parse_digits_itoa itoa_no_sign)
qed

text \<open>\<open>url.QueryEscape\<close>.\<close>

definition upper_hex :: "nat \<Rightarrow> char" where
  "upper_hex d = (if d < 10 then char_of (48 + d) else char_of (55 + d))"

definition query_escape :: "string \<Rightarrow> string" where
  "query_escape s = concat (map (\<lambda>c.
     if is_digit c \<or> (CHR ''a'' \<le> c \<and> c \<le> CHR ''z'') \<or> (CHR ''A'' \<le> c \<and> c \<le> CHR ''Z'') \<or> c \<in> set ''-_.~'' then [c]
     else if c = CHR '' '' then ''+''
     else [CHR ''%'', upper_hex (of_char c div 16), upper_hex (of_char c mod 16)]) s)"

text \<open>A JSON object of a label map; \<open>encoding/json\<close> writes the keys in order.\<close>

definition json_labels :: "labels \<Rightarrow> json" where
  "json_labels m = JObj (obj_of (map (\<lambda>kv. (fst kv, JStr (snd kv))) m))"

section \<open>Running an operation symbolically\<close>

definition wp :: "('r, 'a) api \<Rightarrow> ('a \<Rightarrow> 'r trace \<Rightarrow> bool) \<Rightarrow> 'r trace \<Rightarrow> bool" where
  "wp m Q h = (case run_state m h of (a, h') \<Rightarrow> Q a h')"

lemma wp_return [wp, simp]: "wp (State_Monad.return a) Q h = Q a h"
  by (simp add: wp_def)

lemma wp_bind [wp, simp]: "wp (m \<bind> f) Q h = wp m (\<lambda>a. wp (f a) Q) h"
  by (simp add: wp_def split: prod.splits)

lemma wp_Do [wp, simp]: "wp (Do c q) Q h = Q (Answer c h q) (h @ [(q, Answer c h q)])"
  by (simp add: wp_def Do_def)

lemma wp_fetch [wp]: "wp (fetch c field q) Q h = Q (map_sum id field (Answer c h q)) (h @ [(q, Answer c h q)])"
  by (simp add: fetch_def)

lemma wp_exec [wp]:
  "wp (exec c q) Q h = Q (case Answer c h q of Inl e \<Rightarrow> Some e | Inr _ \<Rightarrow> None) (h @ [(q, Answer c h q)])"
  by (simp add: exec_def)

lemma wp_mono: "wp m Q h \<Longrightarrow> (\<And>a h'. Q a h' \<Longrightarrow> R a h') \<Longrightarrow> wp m R h"
  by (simp add: wp_def split: prod.splits)

lemma wp_run: "wp m Q h \<Longrightarrow> run_state m h = (a, h') \<Longrightarrow> Q a h'"
  by (simp add: wp_def)

text \<open>
  The calls that a computation adds to the trace: \<open>adds m Q h\<close> says that \<open>m\<close>, run
  after \<open>h\<close>, makes calls \<open>t\<close> and returns \<open>a\<close> with \<open>Q a t\<close>.
\<close>

definition adds :: "('r, 'a) api \<Rightarrow> ('a \<Rightarrow> 'r trace \<Rightarrow> bool) \<Rightarrow> 'r trace \<Rightarrow> bool" where
  "adds m Q h = wp m (\<lambda>a h'. \<exists>t. h' = h @ t \<and> Q a t) h"

lemma adds_return [wp, simp]: "adds (State_Monad.return a) Q h = Q a []"
  by (simp add: adds_def)

lemma adds_bind [wp]:
  assumes "adds m (\<lambda>a t. adds (f a) (\<lambda>b u. Q b (t @ u)) (h @ t)) h"
  shows "adds (m \<bind> f) Q h"
  using assms unfolding adds_def wp_bind by (elim wp_mono) (force elim: wp_mono)

lemma adds_Do [wp, simp]: "adds (Do c q) Q h = Q (Answer c h q) [(q, Answer c h q)]"
  by (simp add: adds_def)

lemma adds_fetch [wp, simp]:
  "adds (fetch c field q) Q h = Q (map_sum id field (Answer c h q)) [(q, Answer c h q)]"
  by (simp add: adds_def wp_fetch)

lemma adds_exec [wp, simp]:
  "adds (exec c q) Q h = Q (case Answer c h q of Inl e \<Rightarrow> Some e | Inr _ \<Rightarrow> None) [(q, Answer c h q)]"
  by (simp add: adds_def wp_exec)

lemma adds_mono: "adds m Q h \<Longrightarrow> (\<And>a t. Q a t \<Longrightarrow> R a t) \<Longrightarrow> adds m R h"
  unfolding adds_def by (elim wp_mono) blast

lemma adds_run: "adds m Q h \<Longrightarrow> run_state m h = (a, h') \<Longrightarrow> \<exists>t. h' = h @ t \<and> Q a t"
  unfolding adds_def by (rule wp_run)

text \<open>A call, split by its answer: nothing is known of the answer but that it is in the trace.\<close>

lemma adds_fetch_bind [intro]:
  assumes "\<And>e. adds (f (Inl e)) (\<lambda>a t. Q a ((q, Inl e) # t)) (h @ [(q, Inl e)])"
    and "\<And>b. adds (f (Inr (field b))) (\<lambda>a t. Q a ((q, Inr b) # t)) (h @ [(q, Inr b)])"
  shows "adds (fetch c field q \<bind> f) Q h"
  using assms by (intro adds_bind) (cases "Answer c h q"; simp)

lemma adds_exec_bind [intro]:
  assumes "\<And>e. adds (f (Some e)) (\<lambda>a t. Q a ((q, Inl e) # t)) (h @ [(q, Inl e)])"
    and "\<And>b. adds (f None) (\<lambda>a t. Q a ((q, Inr b) # t)) (h @ [(q, Inr b)])"
  shows "adds (exec c q \<bind> f) Q h"
  using assms by (intro adds_bind) (cases "Answer c h q"; simp)

text \<open>A call inside an operation, by what is known of it.\<close>

lemma adds_bind_known:
  assumes "adds m P h" "\<And>a t. P a t \<Longrightarrow> adds (f a) (\<lambda>b u. Q b (t @ u)) (h @ t)"
  shows "adds (m \<bind> f) Q h"
  using assms by (intro adds_bind) (rule adds_mono)

section \<open>Licensed traces\<close>

definition licensed :: "('c list \<Rightarrow> 'c \<Rightarrow> bool) \<Rightarrow> 'c list \<Rightarrow> bool" where
  "licensed ok t \<longleftrightarrow> (\<forall>u x v. t = u @ x # v \<longrightarrow> ok u x)"

lemma licensed_Nil [simp]: "licensed ok []"
  by (simp add: licensed_def)

lemma licensed_snoc [simp]: "licensed ok (t @ [x]) \<longleftrightarrow> licensed ok t \<and> ok t x"
proof (intro iffI conjI)
  assume *: "licensed ok (t @ [x])"
  then show "ok t x" by (simp add: licensed_def)
  show "licensed ok t" unfolding licensed_def
  proof (intro allI impI)
    fix u y v assume "t = u @ y # v"
    then have "t @ [x] = u @ y # (v @ [x])" by simp
    with * show "ok u y" unfolding licensed_def by blast
  qed
next
  assume *: "licensed ok t \<and> ok t x"
  show "licensed ok (t @ [x])" unfolding licensed_def
  proof (intro allI impI)
    fix u y v assume e: "t @ [x] = u @ y # v"
    show "ok u y"
    proof (cases v rule: rev_cases)
      case Nil
      with e * show ?thesis by simp
    next
      case (snoc v' z)
      with e have "t = u @ y # v'" by simp
      with * show ?thesis by (simp add: licensed_def)
    qed
  qed
qed

text \<open>A licence that more history does not take away lets traces be joined.\<close>

definition lasting :: "('c list \<Rightarrow> 'c \<Rightarrow> bool) \<Rightarrow> bool" where
  "lasting ok \<longleftrightarrow> (\<forall>s u x. ok u x \<longrightarrow> ok (s @ u) x)"

lemma licensed_append:
  assumes "lasting ok" "licensed ok s" "licensed ok t"
  shows "licensed ok (s @ t)"
  using assms(3)
proof (induction t rule: rev_induct)
  case (snoc x t)
  then show ?case using assms(1) by (simp add: lasting_def flip: append_assoc)
qed (use assms(2) in simp)

lemma licensed_reads: "(\<And>u x. x \<in> set t \<Longrightarrow> ok u x) \<Longrightarrow> licensed ok t"
  by (auto simp: licensed_def)

end
