(* ===== verification/Hetzner_Compute.thy ===== *)
theory Hetzner_Compute
  imports Cloud_Api
begin

text \<open>
  The Hetzner adapter (internal/provider/hetzner): the API client of \<open>resources.go\<close> and
  \<open>actions.go\<close>, and the operations of \<open>compute.go\<close> on servers and on the firewall that is
  the server's access policy.

  Go does not say whether \<open>return res.Server, c.api.Do(..., &res)\<close> reads \<open>res.Server\<close> before or
  after the call; the model has the order of the compiler, the call first.
\<close>

section \<open>Types\<close>

text \<open>The rules and attachments of a firewall are empty structs: a slice of them is its length.\<close>

record HzFirewall =
  HzFirewallID :: int
  HzFirewallName :: string
  HzFirewallLabels :: labels
  HzRules :: nat
  HzAppliedTo :: nat

record HzServer =
  HzServerID :: int
  HzServerName :: string
  HzServerStatus :: string
  HzServerLabels :: labels
  HzIPv4 :: string
  HzIPv6 :: string
  HzServerType :: string
  HzImage :: string
  HzLocation :: string
  HzDatacenterLocation :: string

record HzAction =
  HzActionID :: int
  HzActionStatus :: string
  HzActionError :: "string option"

record hz_body =
  BodyFirewall :: HzFirewall
  BodyServer :: HzServer
  BodyAction :: HzAction
  BodyServers :: "HzServer list"
  BodyFirewalls :: "HzFirewall list"
  BodyNextPage :: "int option"

section \<open>The client\<close>

definition hz_firewall_path :: "int \<Rightarrow> string" where
  "hz_firewall_path i = ''/firewalls/'' @ format_int i"

definition hz_server_path :: "int \<Rightarrow> string" where
  "hz_server_path i = ''/servers/'' @ format_int i"

definition hz_action_path :: "int \<Rightarrow> string" where
  "hz_action_path i = ''/actions/'' @ format_int i"

definition hz_CreateFirewall :: "hz_body cloud \<Rightarrow> string \<Rightarrow> labels \<Rightarrow> (hz_body, (provider_error, HzFirewall) result) api" where
  "hz_CreateFirewall c name labs =
     fetch c BodyFirewall (POST ''/firewalls'' [(''labels'', json_labels labs), (''name'', JStr name), (''rules'', JArr [])])"

record HzCreateServerInput =
  HzInputName :: string
  HzInputLocation :: string
  HzInputSize :: string
  HzInputImage :: string
  HzInputLabels :: labels

definition hz_server_payload :: "HzCreateServerInput \<Rightarrow> int \<Rightarrow> string \<Rightarrow> (string \<times> json) list" where
  "hz_server_payload inp firewallID userData =
     [(''firewalls'', JArr [JObj [(''firewall'', JNum (format_int firewallID))]]),
      (''image'', JStr (HzInputImage inp)),
      (''labels'', json_labels (HzInputLabels inp)),
      (''location'', JStr (HzInputLocation inp)),
      (''name'', JStr (HzInputName inp)),
      (''public_net'', JObj [(''enable_ipv4'', JBool True), (''enable_ipv6'', JBool False)]),
      (''server_type'', JStr (HzInputSize inp)),
      (''start_after_create'', JBool True),
      (''user_data'', JStr userData)]"

definition hz_CreateServer ::
  "hz_body cloud \<Rightarrow> HzCreateServerInput \<Rightarrow> int \<Rightarrow> string \<Rightarrow> (hz_body, (provider_error, HzServer \<times> int) result) api" where
  "hz_CreateServer c inp firewallID userData =
     fetch c (\<lambda>b. (BodyServer b, HzActionID (BodyAction b))) (POST ''/servers'' (hz_server_payload inp firewallID userData))"

definition hz_GetServer :: "hz_body cloud \<Rightarrow> int \<Rightarrow> (hz_body, (provider_error, HzServer) result) api" where
  "hz_GetServer c i = fetch c BodyServer (GET (hz_server_path i))"

definition hz_FindServerByName :: "hz_body cloud \<Rightarrow> string \<Rightarrow> (hz_body, (provider_error, HzServer) result) api" where
  "hz_FindServerByName c name = do {
     a \<leftarrow> fetch c BodyServers (GET (''/servers?name='' @ query_escape name));
     State_Monad.return (case a of
       Inl e \<Rightarrow> Inl e
     | Inr [] \<Rightarrow> Inl (ServerMissing name)
     | Inr [srv] \<Rightarrow> Inr srv
     | Inr _ \<Rightarrow> Inl (ServerAmbiguous name)) }"

definition hz_page :: "string \<Rightarrow> int \<Rightarrow> string" where
  "hz_page resource page = ''/'' @ resource @ ''?per_page=50&page='' @ format_int page"

definition hz_ListServers :: "hz_body cloud \<Rightarrow> (hz_body, (provider_error, HzServer list) result) api" where
  "hz_ListServers c =
     read_pages (Pages c) (\<lambda>page. fetch c (\<lambda>b. (BodyServers b, BodyNextPage b)) (GET (hz_page ''servers'' page))) [] 1"

definition hz_ListFirewalls :: "hz_body cloud \<Rightarrow> (hz_body, (provider_error, HzFirewall list) result) api" where
  "hz_ListFirewalls c =
     read_pages (Pages c) (\<lambda>page. fetch c (\<lambda>b. (BodyFirewalls b, BodyNextPage b)) (GET (hz_page ''firewalls'' page))) [] 1"

definition hz_DeleteServer :: "hz_body cloud \<Rightarrow> int \<Rightarrow> (hz_body, (provider_error, int) result) api" where
  "hz_DeleteServer c i = fetch c (\<lambda>b. HzActionID (BodyAction b)) (DELETE (hz_server_path i))"

definition hz_serverAction :: "hz_body cloud \<Rightarrow> int \<Rightarrow> string \<Rightarrow> (hz_body, (provider_error, int) result) api" where
  "hz_serverAction c i action =
     fetch c (\<lambda>b. HzActionID (BodyAction b)) (POST_empty (hz_server_path i @ ''/actions/'' @ action))"

definition hz_GetFirewall :: "hz_body cloud \<Rightarrow> int \<Rightarrow> (hz_body, (provider_error, HzFirewall) result) api" where
  "hz_GetFirewall c i = fetch c BodyFirewall (GET (hz_firewall_path i))"

definition hz_DeleteFirewall :: "hz_body cloud \<Rightarrow> int \<Rightarrow> (hz_body, provider_error option) api" where
  "hz_DeleteFirewall c i = exec c (DELETE (hz_firewall_path i))"

text \<open>The wait for an action: one read per turn, until the deadline leaves no more waits.\<close>

definition hz_action_failed :: "HzAction \<Rightarrow> provider_error" where
  "hz_action_failed a = (case HzActionError a of
     Some m \<Rightarrow> if m \<noteq> '''' then ActionFailed m else ActionFailed (''status=error id='' @ format_int (HzActionID a))
   | None \<Rightarrow> ActionFailed (''status=error id='' @ format_int (HzActionID a)))"

fun hz_poll_action :: "nat \<Rightarrow> hz_body cloud \<Rightarrow> int \<Rightarrow> (hz_body, provider_error option) api" where
  "hz_poll_action n c i = do {
     a \<leftarrow> fetch c BodyAction (GET (hz_action_path i));
     case a of
       Inl e \<Rightarrow> State_Monad.return (Some e)
     | Inr action \<Rightarrow>
         if HzActionStatus action = ''success'' then State_Monad.return None
         else if HzActionStatus action = ''running'' then
           (case n of 0 \<Rightarrow> State_Monad.return (Some WaitExpired) | Suc m \<Rightarrow> hz_poll_action m c i)
         else if HzActionStatus action = ''error'' then State_Monad.return (Some (hz_action_failed action))
         else State_Monad.return (Some (ActionUnexpected (HzActionStatus action))) }"

declare hz_poll_action.simps [simp del]

definition hz_WaitAction :: "hz_body cloud \<Rightarrow> int \<Rightarrow> (hz_body, provider_error option) api" where
  "hz_WaitAction c i = (if i = 0 then State_Monad.return None else hz_poll_action (Polls c) c i)"

section \<open>Records and ownership\<close>

definition hetzner :: ProviderName where
  "hetzner = ''hetzner''"

definition hz_serverID :: "ServerRecord \<Rightarrow> (provider_error, int) result" where
  "hz_serverID record = (case parse_int64 (RecordID record) of
     None \<Rightarrow> Inl ServerIdMissing
   | Some i \<Rightarrow> if i = 0 then Inl ServerIdMissing else Inr i)"

definition recorded_policy :: "string \<Rightarrow> ServerRecord \<Rightarrow> string" where
  "recorded_policy legacy record = (case ManagedResourceID (RecordResources record) ManagedResourceAccessPolicy of
     Some raw \<Rightarrow> raw
   | None \<Rightarrow> gm_str (RecordProviderState record) legacy)"

definition hz_accessPolicyID :: "ServerRecord \<Rightarrow> (provider_error, int) result" where
  "hz_accessPolicyID record =
     (let raw = recorded_policy ''access_policy_id'' record in
      if raw = '''' then Inr 0
      else (case parse_int64 raw of None \<Rightarrow> Inl PolicyIdInvalid | Some i \<Rightarrow> Inr i))"

definition validateRecordProvider :: "ServerRecord \<Rightarrow> ProviderName \<Rightarrow> provider_error option" where
  "validateRecordProvider record provider =
     (case ValidateRecordProvider (Provider record) provider of None \<Rightarrow> None | Some (a, e) \<Rightarrow> Some (OtherProvider a e))"

definition policy_name :: "string \<Rightarrow> string" where
  "policy_name serverName = serverName @ ''-deny-public''"

definition hz_validateLiveAccessPolicyOwnership :: "ServerRecord \<Rightarrow> HzFirewall \<Rightarrow> provider_error option" where
  "hz_validateLiveAccessPolicyOwnership record firewall =
     (if RecordName record = '''' then Some StateServerNameMissing
      else if HzFirewallName firewall \<noteq> policy_name (RecordName record)
      then Some (PolicyNameMismatch (HzFirewallName firewall) (policy_name (RecordName record)))
      else map_option LabelsMismatch (ValidateLiveLabels (HzFirewallLabels firewall) (RecordNamespace record) (RecordServer record)))"

definition hz_validateLiveServerOwnership :: "ServerRecord \<Rightarrow> HzServer \<Rightarrow> provider_error option" where
  "hz_validateLiveServerOwnership record srv =
     (if RecordName record \<noteq> '''' \<and> HzServerName srv \<noteq> '''' \<and> HzServerName srv \<noteq> RecordName record
      then Some (ServerNameMismatch (HzServerName srv) (RecordName record))
      else map_option LabelsMismatch (ValidateLiveLabels (HzServerLabels srv) (RecordNamespace record) (RecordServer record)))"

definition intent_labels :: "CreateServerRequest \<Rightarrow> labels" where
  "intent_labels request = ProviderLabels (IntentNamespace (Intent request)) (IntentServer (Intent request)) (IntentLabels (Intent request))"

text \<open>The record of a server that is asked for, before the provider named it.\<close>

definition intended_record :: "ProviderName \<Rightarrow> CreateServerRequest \<Rightarrow> string \<Rightarrow> ServerRecord" where
  "intended_record provider request policy =
     zero_record\<lparr>Provider := provider, RecordNamespace := IntentNamespace (Intent request), RecordServer := IntentServer (Intent request),
       RecordName := IntentName (Intent request), RecordLocation := IntentLocation (Intent request),
       RecordSize := IntentSize (Intent request), RecordImage := IntentImage (Intent request),
       RecordLabels := intent_labels request,
       RecordResources := [\<lparr>Kind = ManagedResourceAccessPolicy, ResourceID = policy\<rparr>]\<rparr>"

definition hz_partial_record :: "CreateServerRequest \<Rightarrow> int \<Rightarrow> ServerRecord" where
  "hz_partial_record request accessPolicyID = intended_record hetzner request (format_int accessPolicyID)"

definition hz_created_record :: "CreateServerRequest \<Rightarrow> HzServer \<Rightarrow> int \<Rightarrow> ServerRecord" where
  "hz_created_record request srv accessPolicyID =
     (hz_partial_record request accessPolicyID)\<lparr>RecordID := format_int (HzServerID srv), RecordName := HzServerName srv,
        PublicIPv4 := HzIPv4 srv, PublicIPv6 := HzIPv6 srv\<rparr>"

definition hz_recordFromLive :: "HzServer \<Rightarrow> ServerRecord" where
  "hz_recordFromLive srv =
     (case OwnershipFromLabels (HzServerLabels srv) of (namespace, server, _) \<Rightarrow>
        zero_record\<lparr>Provider := hetzner, RecordNamespace := namespace, RecordServer := server,
          RecordID := format_int (HzServerID srv), RecordName := HzServerName srv,
          RecordLocation := (if HzLocation srv = '''' then HzDatacenterLocation srv else HzLocation srv),
          RecordSize := HzServerType srv, RecordImage := HzImage srv,
          PublicIPv4 := HzIPv4 srv, PublicIPv6 := HzIPv6 srv, RecordLabels := HzServerLabels srv\<rparr>)"

section \<open>Create\<close>

definition hz_validateCheckpointAccessPolicy ::
  "hz_body cloud \<Rightarrow> CreateServerRequest \<Rightarrow> string \<Rightarrow> (hz_body, (provider_error, int) result) api" where
  "hz_validateCheckpointAccessPolicy c request rawID =
     (case parse_int64 rawID of
        None \<Rightarrow> State_Monad.return (Inl PolicyIdInvalid)
      | Some i \<Rightarrow>
          if i \<le> 0 then State_Monad.return (Inl PolicyIdInvalid)
          else do {
            a \<leftarrow> hz_GetFirewall c i;
            State_Monad.return (case a of
              Inl e \<Rightarrow> Inl e
            | Inr firewall \<Rightarrow>
                if HzFirewallID firewall \<noteq> i then Inl (PolicyIdMismatch (format_int (HzFirewallID firewall)) (format_int i))
                else (case hz_validateLiveAccessPolicyOwnership (hz_partial_record request i) firewall of
                        Some e \<Rightarrow> Inl e
                      | None \<Rightarrow> if HzRules firewall \<noteq> 0 then Inl UnexpectedRules
                          else if HzAppliedTo firewall \<noteq> 0 then Inl PolicyAttached else Inr i)) })"

text \<open>The policy that an earlier run recorded, under its kind or under the legacy key of the provider.\<close>

definition checkpoint_policy :: "string \<Rightarrow> CreateServerRequest \<Rightarrow> string option" where
  "checkpoint_policy legacy request =
     (case ManagedResourceID (CreateResources request) ManagedResourceAccessPolicy of
        Some raw \<Rightarrow> Some raw
      | None \<Rightarrow> if gm_str (CreateProviderState request) legacy \<noteq> '''' then Some (gm_str (CreateProviderState request) legacy) else None)"

definition hz_ensureAccessPolicy ::
  "hz_body cloud \<Rightarrow> CreateServerRequest \<Rightarrow> (hz_body, (provider_error, int) result) api" where
  "hz_ensureAccessPolicy c request =
     (case checkpoint_policy ''access_policy_id'' request of
        Some raw \<Rightarrow> hz_validateCheckpointAccessPolicy c request raw
      | None \<Rightarrow> do {
          a \<leftarrow> hz_CreateFirewall c (policy_name (IntentName (Intent request))) (intent_labels request);
          State_Monad.return (map_sum id HzFirewallID a) })"

definition hz_reconcileCreatedServer :: "hz_body cloud \<Rightarrow> ServerRecord \<Rightarrow> (hz_body, ServerRecord) api" where
  "hz_reconcileCreatedServer c record = do {
     a \<leftarrow> hz_FindServerByName c (RecordName record);
     State_Monad.return (case a of
       Inl _ \<Rightarrow> record
     | Inr srv \<Rightarrow>
         if hz_validateLiveServerOwnership record srv \<noteq> None then record
         else record\<lparr>RecordID := format_int (HzServerID srv), RecordName := HzServerName srv,
                PublicIPv4 := HzIPv4 srv, PublicIPv6 := HzIPv6 srv,
                RecordLabels := (if HzServerLabels srv \<noteq> [] then HzServerLabels srv else RecordLabels record)\<rparr>) }"

definition hz_input :: "CreateServerRequest \<Rightarrow> HzCreateServerInput" where
  "hz_input request = \<lparr>HzInputName = IntentName (Intent request), HzInputLocation = IntentLocation (Intent request),
     HzInputSize = IntentSize (Intent request), HzInputImage = IntentImage (Intent request), HzInputLabels = intent_labels request\<rparr>"

text \<open>The server, behind the access policy: asked for, and waited for or looked for when there was no answer.\<close>

definition hz_create_server :: "hz_body cloud \<Rightarrow> CreateServerRequest \<Rightarrow> int \<Rightarrow> (hz_body, ServerRecord \<times> api_failure option) api" where
  "hz_create_server c request accessPolicyID = do {
     s \<leftarrow> hz_CreateServer c (hz_input request) accessPolicyID (BootstrapData request);
     case s of
       Inl e \<Rightarrow> do {
         record \<leftarrow> hz_reconcileCreatedServer c (hz_partial_record request accessPolicyID);
         State_Monad.return (record, Some (CallFailed ''provider server create failed'' e (BootstrapSecrets (BootstrapData request) []))) }
     | Inr (srv, actionID) \<Rightarrow> do {
         w \<leftarrow> hz_WaitAction c actionID;
         State_Monad.return (hz_created_record request srv accessPolicyID,
           map_option (\<lambda>e. CallFailed ''provider create operation failed'' e (BootstrapSecrets (BootstrapData request) [])) w) } }"

definition hz_Create :: "hz_body cloud \<Rightarrow> CreateServerRequest \<Rightarrow> (hz_body, ServerRecord \<times> api_failure option) api" where
  "hz_Create c request =
     (if Token (CreateAccount request) = '''' then State_Monad.return (zero_record, Some (Refused CredentialMissing))
      else do {
        p \<leftarrow> hz_ensureAccessPolicy c request;
        case p of
          Inl e \<Rightarrow> State_Monad.return (zero_record, Some (CallFailed ''provider access policy create failed'' e []))
        | Inr accessPolicyID \<Rightarrow> hz_create_server c request accessPolicyID })"

section \<open>Status, power and delete\<close>

definition hz_statusFromServer :: "ServerRecord \<Rightarrow> HzServer \<Rightarrow> ServerStatus" where
  "hz_statusFromServer record srv =
     \<lparr>StatusRecord = record\<lparr>RecordName := HzServerName srv, PublicIPv4 := HzIPv4 srv, PublicIPv6 := HzIPv6 srv,
        RecordLabels := (if HzServerLabels srv \<noteq> [] then HzServerLabels srv else RecordLabels record)\<rparr>,
      StatusPower = HzServerStatus srv, StatusIPv4 = HzIPv4 srv, StatusIPv6 = HzIPv6 srv\<rparr>"

definition hz_Status :: "hz_body cloud \<Rightarrow> ServerRef \<Rightarrow> (hz_body, (api_failure, ServerStatus) result) api" where
  "hz_Status c ref =
     (if Token (RefAccount ref) = '''' then State_Monad.return (Inl (Refused CredentialMissing))
      else (case validateRecordProvider (RefRecord ref) hetzner of
        Some e \<Rightarrow> State_Monad.return (Inl (Refused e))
      | None \<Rightarrow> (case hz_serverID (RefRecord ref) of
          Inl e \<Rightarrow> State_Monad.return (Inl (Refused e))
        | Inr i \<Rightarrow> do {
            a \<leftarrow> hz_GetServer c i;
            State_Monad.return (case a of
              Inl e \<Rightarrow> Inl (CallFailed ''provider server status failed'' e [])
            | Inr srv \<Rightarrow> Inr (hz_statusFromServer (RefRecord ref) srv)) })))"

definition hz_power_call :: "hz_body cloud \<Rightarrow> int \<Rightarrow> PowerAction \<Rightarrow> (hz_body, (provider_error, int) result) api" where
  "hz_power_call c i action =
     (case action of
        PowerStart \<Rightarrow> hz_serverAction c i ''poweron''
      | PowerStop \<Rightarrow> hz_serverAction c i ''shutdown''
      | PowerRestart \<Rightarrow> hz_serverAction c i ''reboot''
      | PowerOther a \<Rightarrow> State_Monad.return (Inl (UnsupportedPower a)))"

definition hz_Power :: "hz_body cloud \<Rightarrow> PowerRequest \<Rightarrow> (hz_body, (api_failure, ServerStatus) result) api" where
  "hz_Power c request =
     (if Token (PowerAccount request) = '''' then State_Monad.return (Inl (Refused CredentialMissing))
      else (case hz_serverID (PowerRecord request) of
        Inl e \<Rightarrow> State_Monad.return (Inl (Refused e))
      | Inr i \<Rightarrow> (case validateRecordProvider (PowerRecord request) hetzner of
          Some e \<Rightarrow> State_Monad.return (Inl (Refused e))
        | None \<Rightarrow> do {
            current \<leftarrow> hz_GetServer c i;
            case current of
              Inl e \<Rightarrow> State_Monad.return (Inl (CallFailed ''provider ownership check failed'' e []))
            | Inr srv \<Rightarrow> (case hz_validateLiveServerOwnership (PowerRecord request) srv of
                Some e \<Rightarrow> State_Monad.return (Inl (Refused e))
              | None \<Rightarrow> do {
                  p \<leftarrow> hz_power_call c i (PowerActionOf request);
                  case p of
                    Inl e \<Rightarrow> State_Monad.return (Inl (CallFailed ''provider power action failed'' e []))
                  | Inr actionID \<Rightarrow> do {
                      w \<leftarrow> hz_WaitAction c actionID;
                      case w of
                        Some e \<Rightarrow> State_Monad.return (Inl (CallFailed ''provider power operation failed'' e []))
                      | None \<Rightarrow> hz_Status c \<lparr>RefAccount = PowerAccount request, RefRecord = PowerRecord request\<rparr> } }) })))"

definition hz_deleteAccessPolicy :: "hz_body cloud \<Rightarrow> ServerRecord \<Rightarrow> int \<Rightarrow> (hz_body, api_failure option) api" where
  "hz_deleteAccessPolicy c record i = do {
     a \<leftarrow> hz_GetFirewall c i;
     case a of
       Inl e \<Rightarrow> State_Monad.return (if IsStatus e StatusNotFound then None
                  else Some (CallFailed ''provider access policy ownership check failed'' e []))
     | Inr firewall \<Rightarrow> (case hz_validateLiveAccessPolicyOwnership record firewall of
         Some e \<Rightarrow> State_Monad.return (Some (Refused e))
       | None \<Rightarrow> do {
           d \<leftarrow> hz_DeleteFirewall c i;
           State_Monad.return (case d of
             Some e \<Rightarrow> if IsStatus e StatusNotFound then None else Some (CallFailed ''provider access policy delete failed'' e [])
           | None \<Rightarrow> None) }) }"

text \<open>The server itself, when its record names one: looked up, checked, deleted, and the deletion waited for.\<close>

definition hz_delete_server :: "hz_body cloud \<Rightarrow> ServerRecord \<Rightarrow> int \<Rightarrow> (hz_body, api_failure option) api" where
  "hz_delete_server c record i = do {
     a \<leftarrow> hz_GetServer c i;
     case a of
       Inl e \<Rightarrow> State_Monad.return (if IsStatus e StatusNotFound then None
                  else Some (CallFailed ''provider ownership check failed'' e []))
     | Inr current \<Rightarrow> (case hz_validateLiveServerOwnership record current of
         Some e \<Rightarrow> State_Monad.return (Some (Refused e))
       | None \<Rightarrow> do {
           d \<leftarrow> hz_DeleteServer c i;
           case d of
             Inl e \<Rightarrow> State_Monad.return (if IsStatus e StatusNotFound then None
                        else Some (CallFailed ''provider server delete failed'' e []))
           | Inr actionID \<Rightarrow> do {
               w \<leftarrow> hz_WaitAction c actionID;
               State_Monad.return (map_option (\<lambda>e. CallFailed ''provider delete operation failed'' e []) w) } }) }"

definition hz_Delete :: "hz_body cloud \<Rightarrow> DeleteServerRequest \<Rightarrow> (hz_body, api_failure option) api" where
  "hz_Delete c request =
     (let record = DeleteRecord request in
      if Token (DeleteAccount request) = '''' then State_Monad.return (Some (Refused CredentialMissing))
      else (case hz_accessPolicyID record of
        Inl e \<Rightarrow> State_Monad.return (Some (Refused e))
      | Inr policy \<Rightarrow> (case validateRecordProvider record hetzner of
          Some e \<Rightarrow> State_Monad.return (Some (Refused e))
        | None \<Rightarrow> (case hz_serverID record of
            Inl e \<Rightarrow> if policy = 0 then State_Monad.return (Some (Refused e)) else hz_deleteAccessPolicy c record policy
          | Inr i \<Rightarrow> do {
              r \<leftarrow> hz_delete_server c record i;
              if r \<noteq> None then State_Monad.return r
              else if policy \<noteq> 0 then hz_deleteAccessPolicy c record policy
              else State_Monad.return None }))))"

section \<open>List\<close>

definition hz_recoverAccessPolicyID :: "ServerRecord \<Rightarrow> HzFirewall list \<Rightarrow> (provider_error, string) result" where
  "hz_recoverAccessPolicyID record firewalls =
     (let expected = policy_name (RecordName record) in
      case filter (\<lambda>f. HzFirewallName f = expected \<and> LiveLabelsMatch (HzFirewallLabels f) (RecordNamespace record) (RecordServer record)) firewalls of
        [] \<Rightarrow> Inl (PolicyNotFound expected)
      | [f] \<Rightarrow> if HzFirewallID f = 0 then Inl (PolicyIdMissing expected) else Inr (format_int (HzFirewallID f))
      | _ \<Rightarrow> Inl (PolicyAmbiguous expected))"

definition managed_record :: "ServerRecord \<Rightarrow> bool" where
  "managed_record record = snd (snd (OwnershipFromLabels (RecordLabels record)))"

fun attach_policies :: "(ServerRecord \<Rightarrow> (provider_error, string) result) \<Rightarrow> ServerRecord list \<Rightarrow> (provider_error, ServerRecord list) result" where
  "attach_policies recover [] = Inr []"
| "attach_policies recover (r # rs) =
     (if \<not> managed_record r then map_sum id ((#) r) (attach_policies recover rs)
      else bindR (recover r) (\<lambda>policy. map_sum id ((#) (r\<lparr>RecordResources := [\<lparr>Kind = ManagedResourceAccessPolicy, ResourceID = policy\<rparr>]\<rparr>))
             (attach_policies recover rs)))"

definition hz_List :: "hz_body cloud \<Rightarrow> Account \<Rightarrow> (hz_body, (api_failure, ServerRecord list) result) api" where
  "hz_List c account =
     (if Token account = '''' then State_Monad.return (Inl (Refused CredentialMissing))
      else do {
        s \<leftarrow> hz_ListServers c;
        case s of
          Inl e \<Rightarrow> State_Monad.return (Inl (CallFailed ''provider server list failed'' e []))
        | Inr servers \<Rightarrow>
            (let out = map hz_recordFromLive servers in
             if \<not> list_ex managed_record out then State_Monad.return (Inr out)
             else do {
               f \<leftarrow> hz_ListFirewalls c;
               State_Monad.return (case f of
                 Inl e \<Rightarrow> Inl (CallFailed ''provider access policy list failed'' e [])
               | Inr firewalls \<Rightarrow> (case attach_policies (\<lambda>r. hz_recoverAccessPolicyID r firewalls) out of
                   Inl e \<Rightarrow> Inl (CallFailed ''provider access policy recovery failed'' e [])
                 | Inr rs \<Rightarrow> Inr rs)) }) })"

end
