(* ===== verification/Compute_Adapter.thy ===== *)
theory Compute_Adapter
  imports Cloud_Api
begin

text \<open>
  The contract of a provider adapter's deletion, as the delete workflows rely on it: the calls it makes
  are licensed by what it read, and a deletion that passes has shown that nothing of the record is
  left. The lemmas of the locale hold for every adapter that keeps the contract; the three adapters
  are its interpretations.
\<close>

section \<open>Evidence in a trace\<close>

definition not_found :: "api_request \<Rightarrow> 'r trace \<Rightarrow> bool" where
  "not_found q t \<longleftrightarrow> (\<exists>e. (q, Inl e) \<in> set t \<and> IsStatus e StatusNotFound)"

text \<open>A resource is gone when a read or its deletion did not find it, or its deletion was accepted.\<close>

definition resource_gone :: "string \<Rightarrow> 'r trace \<Rightarrow> bool" where
  "resource_gone path t \<longleftrightarrow> not_found (GET path) t \<or> not_found (DELETE path) t \<or> (\<exists>b. (DELETE path, Inr b) \<in> set t)"

lemma not_found_append: "not_found q s \<or> not_found q t \<Longrightarrow> not_found q (s @ t)"
  by (auto simp: not_found_def)

lemma resource_gone_append: "resource_gone p s \<or> resource_gone p t \<Longrightarrow> resource_gone p (s @ t)"
  using not_found_append unfolding resource_gone_def by fastforce

text \<open>
  The shape that the adapters share: look a resource up, check that it is owned, delete it. \<open>chk\<close> is
  the ownership check on the answer.
\<close>

definition remove_owned ::
  "'r cloud \<Rightarrow> string \<Rightarrow> ('r \<Rightarrow> provider_error option) \<Rightarrow> string \<Rightarrow> string \<Rightarrow> ('r, api_failure option) api" where
  "remove_owned c path chk look_prefix delete_prefix = do {
     a \<leftarrow> Do c (GET path);
     case a of
       Inl e \<Rightarrow> State_Monad.return (if IsStatus e StatusNotFound then None else Some (CallFailed look_prefix e []))
     | Inr b \<Rightarrow> (case chk b of
         Some e \<Rightarrow> State_Monad.return (Some (Refused e))
       | None \<Rightarrow> do {
           d \<leftarrow> exec c (DELETE path);
           State_Monad.return (case d of
             Some e \<Rightarrow> if IsStatus e StatusNotFound then None else Some (CallFailed delete_prefix e [])
           | None \<Rightarrow> None) }) }"

text \<open>The licence of such a deletion: reads, and the deletion of what a read before it showed as owned.\<close>

definition owned_deletion :: "string \<Rightarrow> ('r \<Rightarrow> provider_error option) \<Rightarrow> 'r trace \<Rightarrow> api_request \<Rightarrow> bool" where
  "owned_deletion path chk u q \<longleftrightarrow> q = DELETE path \<and> (\<exists>b. (GET path, Inr b) \<in> set u \<and> chk b = None)"

lemma adds_Do_bind [intro]:
  assumes "\<And>e. adds (f (Inl e)) (\<lambda>a t. Q a ((q, Inl e) # t)) (h @ [(q, Inl e)])"
    and "\<And>b. adds (f (Inr b)) (\<lambda>a t. Q a ((q, Inr b) # t)) (h @ [(q, Inr b)])"
  shows "adds (Do c q \<bind> f) Q h"
  using assms by (intro adds_bind) (cases "Answer c h q"; simp)

lemma remove_owned_adds:
  assumes reads: "\<And>u x. Verb (fst x) = ''GET'' \<Longrightarrow> ok u x"
    and deletes: "\<And>u x. owned_deletion path chk u (fst x) \<Longrightarrow> ok u x"
  shows "adds (remove_owned c path chk p1 p2) (\<lambda>r t. licensed ok t \<and> (r = None \<longrightarrow> resource_gone path t)) h"
proof -
  let ?G = "GET path" and ?D = "DELETE path"
  have one: "licensed ok [(?G, a)]" for a
    by (rule licensed_reads) (simp add: reads)
  have two: "licensed ok [(?G, Inr b), (?D, a)]" if "chk b = None" for a b
    using licensed_snoc [of ok "[(?G, Inr b)]"] one deletes that by (auto simp: owned_deletion_def)
  show ?thesis
    unfolding remove_owned_def
    by (rule adds_Do_bind)
      (auto intro!: adds_exec_bind one two simp: resource_gone_def not_found_def split: option.splits)
qed

lemma licensed_extend:
  assumes "licensed ok s" "\<And>v x. x \<in> set u \<Longrightarrow> ok (s @ v) x"
  shows "licensed ok (s @ u)"
  using assms(2)
proof (induction u rule: rev_induct)
  case (snoc x u)
  then show ?case by (simp flip: append_assoc)
qed (use assms(1) in simp)

section \<open>Reads and whole lists\<close>

definition reads_only :: "'r trace \<Rightarrow> bool" where
  "reads_only t \<longleftrightarrow> (\<forall>x \<in> set t. Verb (fst x) = ''GET'')"

lemma reads_only_simps [simp]:
  "reads_only []" "reads_only (x # t) \<longleftrightarrow> Verb (fst x) = ''GET'' \<and> reads_only t"
  "reads_only (s @ t) \<longleftrightarrow> reads_only s \<and> reads_only t"
  by (auto simp: reads_only_def)

text \<open>Answers of \<open>u\<close> that together are the whole list: the last one ends it (\<open>last_page\<close>).\<close>

definition listed :: "('r \<Rightarrow> 'a list) \<Rightarrow> ('r \<Rightarrow> bool) \<Rightarrow> ('p \<Rightarrow> api_request) \<Rightarrow> 'r trace \<Rightarrow> 'a list \<Rightarrow> bool" where
  "listed field last_page req u ds \<longleftrightarrow> (\<exists>bs. bs \<noteq> [] \<and> ds = concat (map field bs) \<and> last_page (last bs)
     \<and> (\<forall>b \<in> set bs. \<exists>page. (req page, Inr b) \<in> set u))"

lemma listed_append:
  "listed field last_page req u ds \<Longrightarrow> listed field last_page req (s @ u) ds"
  "listed field last_page req u ds \<Longrightarrow> listed field last_page req (u @ s) ds"
  unfolding listed_def by fastforce+

lemma listed_page: "last_page b \<Longrightarrow> listed field last_page req [(req page, Inr b)] (field b)"
  unfolding listed_def by (intro exI [of _ "[b]"]) auto

lemma listed_more:
  assumes "listed field last_page req t ds"
  shows "listed field last_page req ((req page, Inr b) # t) (field b @ ds)"
proof -
  obtain bs where bs: "bs \<noteq> []" "ds = concat (map field bs)" "last_page (last bs)" "\<forall>b \<in> set bs. \<exists>page. (req page, Inr b) \<in> set t"
    using assms unfolding listed_def by blast
  then show ?thesis unfolding listed_def by (intro exI [of _ "b # bs"]) auto
qed

text \<open>One page, read by one request.\<close>

definition page_read :: "('r \<Rightarrow> 'a list) \<Rightarrow> ('r \<Rightarrow> bool) \<Rightarrow> api_request \<Rightarrow> (provider_error, 'a list \<times> 'p option) result \<Rightarrow> 'r trace \<Rightarrow> bool" where
  "page_read field last_page q r t \<longleftrightarrow> reads_only t
     \<and> (\<forall>xs p. r = Inr (xs, p) \<longrightarrow> (\<exists>b. t = [(q, Inr b)] \<and> xs = field b \<and> (p = None \<longrightarrow> last_page b)))"

lemma read_pages_whole:
  assumes page: "\<And>page h. adds (page_at page) (page_read field last_page (req page)) h"
  shows "adds (read_new_pages n page_at seen out page)
     (\<lambda>r t. reads_only t \<and> (\<forall>ds. r = Inr ds \<longrightarrow> (\<exists>ds'. ds = out @ ds' \<and> listed field last_page req t ds'))) h"
proof (induction n arbitrary: seen out page h)
  case (Suc n)
  have rest: "adds (read_new_pages n page_at seen' (out @ field b) p)
      (\<lambda>r t. reads_only t \<and> (\<forall>ds. r = Inr ds \<longrightarrow> (\<exists>ds'. ds = out @ ds' \<and> listed field last_page req ((req page, Inr b) # t) ds'))) k" for seen' b p k
    by (rule adds_mono [OF Suc]) (use listed_more in fastforce)
  show ?case
    unfolding read_new_pages.simps
  proof (rule adds_bind_known [OF page], goal_cases)
    case (1 a t)
    show ?case
    proof (cases a)
      case (Inl e)
      then show ?thesis using 1 by (simp add: page_read_def)
    next
      case (Inr xp)
      then obtain xs p where a: "a = Inr (xs, p)" by (cases xp) auto
      then obtain b where b: "t = [(req page, Inr b)]" "xs = field b" "p = None \<longrightarrow> last_page b" "reads_only t"
        using 1 by (auto simp: page_read_def)
      then show ?thesis unfolding a using listed_page [of last_page b field req page] rest by (cases p) auto
    qed
  qed
qed simp

section \<open>The contract\<close>

text \<open>Deletions one after another, as the deletion of a namespace runs them: the first failure stops.\<close>

fun delete_each ::
  "('r cloud \<Rightarrow> DeleteServerRequest \<Rightarrow> ('r, api_failure option) api) \<Rightarrow> 'r cloud \<Rightarrow> DeleteServerRequest list \<Rightarrow> ('r, api_failure option) api" where
  "delete_each del c [] = State_Monad.return None"
| "delete_each del c (r # rs) = do {
     e \<leftarrow> del c r;
     if e \<noteq> None then State_Monad.return e else delete_each del c rs }"

locale compute_adapter =
  fixes del :: "'r cloud \<Rightarrow> DeleteServerRequest \<Rightarrow> ('r, api_failure option) api"
    and provider :: ProviderName
    and may_delete :: "ServerRecord \<Rightarrow> 'r trace \<Rightarrow> 'r api_call \<Rightarrow> bool"
    and gone :: "ServerRecord \<Rightarrow> 'r trace \<Rightarrow> bool"
  assumes lasting_delete: "lasting (may_delete rec)"
    and gone_append: "gone rec s \<or> gone rec t \<Longrightarrow> gone rec (s @ t)"
    and delete_adds: "adds (del c request)
      (\<lambda>r t. licensed (may_delete (DeleteRecord request)) t \<and> (r = None \<longrightarrow> gone (DeleteRecord request) t)
        \<and> (Token (DeleteAccount request) = '''' \<or> Provider (DeleteRecord request) \<noteq> provider \<longrightarrow> t = [] \<and> r \<noteq> None)) h"
begin

lemma delete_guarded:
  assumes "run_state (del c request) h = (r, h')"
  shows "\<exists>t. h' = h @ t \<and> licensed (may_delete (DeleteRecord request)) t \<and> (r = None \<longrightarrow> gone (DeleteRecord request) t)
    \<and> (Token (DeleteAccount request) = '''' \<or> Provider (DeleteRecord request) \<noteq> provider \<longrightarrow> t = [] \<and> r \<noteq> None)"
  using adds_run [OF delete_adds assms] by blast

text \<open>A licence for one of several records lasts, and a trace licensed for one is licensed for all.\<close>

lemma lasting_any: "lasting (\<lambda>u x. \<exists>rec \<in> R. may_delete rec u x)"
  using lasting_delete unfolding lasting_def by blast

lemma licensed_any: "licensed (may_delete rec) t \<Longrightarrow> rec \<in> R \<Longrightarrow> licensed (\<lambda>u x. \<exists>rec \<in> R. may_delete rec u x) t"
  unfolding licensed_def by blast

lemma delete_each_adds:
  "set requests \<subseteq> S \<Longrightarrow> adds (delete_each del c requests)
     (\<lambda>r t. licensed (\<lambda>u x. \<exists>rec \<in> DeleteRecord ` S. may_delete rec u x) t
        \<and> (r = None \<longrightarrow> (\<forall>q \<in> set requests. gone (DeleteRecord q) t))) h"
proof (induction requests arbitrary: h)
  case (Cons q requests)
  let ?ok = "\<lambda>u x. \<exists>rec \<in> DeleteRecord ` S. may_delete rec u x"
  have q: "DeleteRecord q \<in> DeleteRecord ` S" using Cons.prems by simp
  have rest: "adds (delete_each del c requests) (\<lambda>r u. licensed ?ok (t @ u) \<and> (r = None \<longrightarrow> (\<forall>q' \<in> set (q # requests). gone (DeleteRecord q') (t @ u)))) k"
    if "licensed ?ok t" "gone (DeleteRecord q) t" for t k
  proof (rule adds_mono [OF Cons.IH])
    show "set requests \<subseteq> S" using Cons.prems by simp
    fix r :: "api_failure option" and u :: "'r trace"
    assume "licensed ?ok u \<and> (r = None \<longrightarrow> (\<forall>q \<in> set requests. gone (DeleteRecord q) u))"
    then have u: "licensed ?ok u" "r = None \<longrightarrow> (\<forall>q \<in> set requests. gone (DeleteRecord q) u)" by (blast, blast)
    have "licensed ?ok (t @ u)" by (rule licensed_append [OF lasting_any that(1) u(1)])
    moreover have "r = None \<longrightarrow> (\<forall>q' \<in> set (q # requests). gone (DeleteRecord q') (t @ u))"
      using u(2) that(2) gone_append by simp
    ultimately show "licensed ?ok (t @ u) \<and> (r = None \<longrightarrow> (\<forall>q' \<in> set (q # requests). gone (DeleteRecord q') (t @ u)))" ..
  qed
  show ?case
    unfolding delete_each.simps
    by (rule adds_bind_known [OF delete_adds]) (use rest licensed_any [OF _ q] in auto)
qed simp

text \<open>A deletion that failed is repeated: together the runs are still licensed, and the last verdict holds.\<close>

lemma delete_again:
  "adds (do { _ \<leftarrow> del c request; del c' request })
     (\<lambda>r t. licensed (may_delete (DeleteRecord request)) t \<and> (r = None \<longrightarrow> gone (DeleteRecord request) t)) h"
proof (rule adds_bind_known [OF delete_adds])
  fix a :: "api_failure option" and t :: "'r trace"
  assume "licensed (may_delete (DeleteRecord request)) t \<and> (a = None \<longrightarrow> gone (DeleteRecord request) t)
        \<and> (Token (DeleteAccount request) = '''' \<or> Provider (DeleteRecord request) \<noteq> provider \<longrightarrow> t = [] \<and> a \<noteq> None)"
  then have t: "licensed (may_delete (DeleteRecord request)) t" by blast
  show "adds (del c' request) (\<lambda>r u. licensed (may_delete (DeleteRecord request)) (t @ u) \<and> (r = None \<longrightarrow> gone (DeleteRecord request) (t @ u))) (h @ t)"
    by (rule adds_mono [OF delete_adds]) (use t licensed_append [OF lasting_delete] gone_append in auto)
qed

end

end
