(* ===== verification/Hetzner_Safety.thy ===== *)
theory Hetzner_Safety
  imports Hetzner_Compute Compute_Adapter
begin

text \<open>
  What the Hetzner adapter guarantees, whatever the API answers: the wait for an action ends and
  believes only a success, a deletion takes nothing that the live data does not show as owned and
  passes only when the resources are gone, a power action reaches only an owned server, and a create
  asks for at most one server, behind an access policy of its own that lets nothing in.
\<close>

section \<open>Waiting for an action\<close>

definition polled :: "int \<Rightarrow> nat \<Rightarrow> provider_error option \<Rightarrow> hz_body trace \<Rightarrow> bool" where
  "polled i n r t \<longleftrightarrow> (\<exists>u a. t = u @ [(GET (hz_action_path i), a)] \<and> length u \<le> n
     \<and> (\<forall>x \<in> set u. \<exists>b. x = (GET (hz_action_path i), Inr b) \<and> HzActionStatus (BodyAction b) = ''running'')
     \<and> (r = None \<longleftrightarrow> (\<exists>b. a = Inr b \<and> HzActionStatus (BodyAction b) = ''success'')))"

lemma poll_action: "adds (hz_poll_action n c i) (polled i n) h"
proof (induction n arbitrary: h)
  case 0
  show ?case
    by (subst hz_poll_action.simps, rule adds_fetch_bind) (auto simp: polled_def)
next
  case (Suc n)
  let ?q = "GET (hz_action_path i)"
  have step: "adds (hz_poll_action n c i) (\<lambda>r t. polled i (Suc n) r ((?q, Inr b) # t)) k"
    if "HzActionStatus (BodyAction b) = ''running''" for b k
  proof (rule adds_mono [OF Suc])
    fix r t assume "polled i n r t"
    then obtain u a where "t = u @ [(?q, a)]" "length u \<le> n"
      "\<forall>x \<in> set u. \<exists>b. x = (?q, Inr b) \<and> HzActionStatus (BodyAction b) = ''running''"
      "r = None \<longleftrightarrow> (\<exists>b. a = Inr b \<and> HzActionStatus (BodyAction b) = ''success'')"
      unfolding polled_def by blast
    with that show "polled i (Suc n) r ((?q, Inr b) # t)"
      unfolding polled_def by (intro exI [of _ "(?q, Inr b) # u"] exI [of _ a]) auto
  qed
  show ?case
    by (subst hz_poll_action.simps, rule adds_fetch_bind) (auto simp: step polled_def [of _ _ _ "[_]"])
qed

definition action_done :: "int \<Rightarrow> hz_body trace \<Rightarrow> bool" where
  "action_done i t \<longleftrightarrow> i = 0 \<or> (\<exists>b. (GET (hz_action_path i), Inr b) \<in> set t \<and> HzActionStatus (BodyAction b) = ''success'')"

lemma wait_action:
  "adds (hz_WaitAction c i) (\<lambda>r t. (\<forall>x \<in> set t. fst x = GET (hz_action_path i)) \<and> (r = None \<longrightarrow> action_done i t)) h"
proof (cases "i = 0")
  case False
  have "(\<forall>x \<in> set t. fst x = GET (hz_action_path i)) \<and> (r = None \<longrightarrow> action_done i t)" if polled: "polled i (Polls c) r t" for r t
  proof -
    from polled obtain u a where t: "t = u @ [(GET (hz_action_path i), a)]"
      "\<forall>x \<in> set u. \<exists>b. x = (GET (hz_action_path i), Inr b) \<and> HzActionStatus (BodyAction b) = ''running''"
      "r = None \<longleftrightarrow> (\<exists>b. a = Inr b \<and> HzActionStatus (BodyAction b) = ''success'')"
      unfolding polled_def by blast
    then have "\<forall>x \<in> set t. fst x = GET (hz_action_path i)" by fastforce
    moreover have "r = None \<longrightarrow> action_done i t" using t unfolding action_done_def by auto
    ultimately show ?thesis ..
  qed
  then show ?thesis using False unfolding hz_WaitAction_def by (auto intro: adds_mono [OF poll_action])
qed (simp add: hz_WaitAction_def action_done_def)

text \<open>
  C19. The wait for an action ends: with a deadline that leaves \<open>Polls\<close> waits it sends at most
  \<open>Polls + 1\<close> requests, each a read of that action, none before the answer to the last one said that
  the action runs; and it reports success exactly when the last answer said so.
\<close>

theorem wait_action_terminates:
  assumes "i \<noteq> 0" "run_state (hz_WaitAction c i) h = (r, h')"
  shows "\<exists>u a. h' = h @ u @ [(GET (hz_action_path i), a)] \<and> length u \<le> Polls c
     \<and> (\<forall>x \<in> set u. \<exists>b. x = (GET (hz_action_path i), Inr b) \<and> HzActionStatus (BodyAction b) = ''running'')
     \<and> (r = None \<longleftrightarrow> (\<exists>b. a = Inr b \<and> HzActionStatus (BodyAction b) = ''success''))"
proof -
  from assms have "run_state (hz_poll_action (Polls c) c i) h = (r, h')" by (simp add: hz_WaitAction_def)
  from adds_run [OF poll_action this] show ?thesis unfolding polled_def by auto
qed

section \<open>Deleting\<close>

definition hz_deletes_server :: "ServerRecord \<Rightarrow> hz_body trace \<Rightarrow> api_request \<Rightarrow> bool" where
  "hz_deletes_server record u q \<longleftrightarrow> (\<exists>i b. hz_serverID record = Inr i \<and> q = DELETE (hz_server_path i)
     \<and> (GET (hz_server_path i), Inr b) \<in> set u \<and> hz_validateLiveServerOwnership record (BodyServer b) = None)"

definition hz_deletes_policy :: "ServerRecord \<Rightarrow> hz_body trace \<Rightarrow> api_request \<Rightarrow> bool" where
  "hz_deletes_policy record u q \<longleftrightarrow> (\<exists>i b. hz_accessPolicyID record = Inr i \<and> q = DELETE (hz_firewall_path i)
     \<and> (GET (hz_firewall_path i), Inr b) \<in> set u \<and> hz_validateLiveAccessPolicyOwnership record (BodyFirewall b) = None)"

text \<open>The licence of a deletion: reads, and what a read before it showed as owned by the record.\<close>

definition hz_may_delete :: "ServerRecord \<Rightarrow> hz_body trace \<Rightarrow> hz_body api_call \<Rightarrow> bool" where
  "hz_may_delete record u x \<longleftrightarrow> Verb (fst x) = ''GET'' \<or> hz_deletes_server record u (fst x) \<or> hz_deletes_policy record u (fst x)"

definition hz_server_gone :: "int \<Rightarrow> hz_body trace \<Rightarrow> bool" where
  "hz_server_gone i t \<longleftrightarrow> not_found (GET (hz_server_path i)) t \<or> not_found (DELETE (hz_server_path i)) t
     \<or> (\<exists>b. (DELETE (hz_server_path i), Inr b) \<in> set t \<and> action_done (HzActionID (BodyAction b)) t)"

text \<open>What a deletion that passed has shown of every resource that the record names.\<close>

definition hz_gone :: "ServerRecord \<Rightarrow> hz_body trace \<Rightarrow> bool" where
  "hz_gone record t \<longleftrightarrow> (\<forall>i. hz_serverID record = Inr i \<longrightarrow> hz_server_gone i t)
     \<and> (\<forall>i. hz_accessPolicyID record = Inr i \<and> i \<noteq> 0 \<longrightarrow> resource_gone (hz_firewall_path i) t)"

lemma hz_may_delete_lasting: "lasting (hz_may_delete record)"
  by (auto simp: lasting_def hz_may_delete_def hz_deletes_server_def hz_deletes_policy_def)

lemma action_done_append: "action_done i s \<or> action_done i t \<Longrightarrow> action_done i (s @ t)"
  by (auto simp: action_done_def)

lemma server_gone_append: "hz_server_gone i s \<or> hz_server_gone i t \<Longrightarrow> hz_server_gone i (s @ t)"
  using not_found_append action_done_append unfolding hz_server_gone_def by fastforce

lemma hz_gone_append: "hz_gone record s \<or> hz_gone record t \<Longrightarrow> hz_gone record (s @ t)"
  using server_gone_append resource_gone_append unfolding hz_gone_def by metis

text \<open>The access policy goes the way that the adapters share.\<close>

lemma hz_deleteAccessPolicy_eq:
  "hz_deleteAccessPolicy c record i =
     remove_owned c (hz_firewall_path i) (\<lambda>b. hz_validateLiveAccessPolicyOwnership record (BodyFirewall b))
       ''provider access policy ownership check failed'' ''provider access policy delete failed''"
  unfolding hz_deleteAccessPolicy_def remove_owned_def hz_GetFirewall_def hz_DeleteFirewall_def fetch_def State_Monad.bind_assoc
  by (rule arg_cong [where f = "State_Monad.bind _"]) (auto split: sum.split)

lemma delete_policy:
  assumes "hz_accessPolicyID record = Inr i"
  shows "adds (hz_deleteAccessPolicy c record i) (\<lambda>r t. licensed (hz_may_delete record) t \<and> (r = None \<longrightarrow> resource_gone (hz_firewall_path i) t)) h"
  unfolding hz_deleteAccessPolicy_eq
  by (rule remove_owned_adds) (use assms in \<open>auto simp: hz_may_delete_def hz_deletes_policy_def owned_deletion_def\<close>)

lemma delete_server:
  assumes "hz_serverID record = Inr i"
  shows "adds (hz_delete_server c record i) (\<lambda>r t. licensed (hz_may_delete record) t \<and> (r = None \<longrightarrow> hz_server_gone i t)) h"
proof -
  let ?G = "GET (hz_server_path i)" and ?D = "DELETE (hz_server_path i)"
  have one: "licensed (hz_may_delete record) [(?G, a)]" for a
    by (rule licensed_reads) (simp add: hz_may_delete_def)
  have two: "licensed (hz_may_delete record) [(?G, Inr b), (?D, a)]"
    if "hz_validateLiveServerOwnership record (BodyServer b) = None" for a b
    using licensed_snoc [of "hz_may_delete record" "[(?G, Inr b)]"] one that assms
    by (auto simp: hz_may_delete_def hz_deletes_server_def)
  have wait: "adds (hz_WaitAction c (HzActionID (BodyAction b')))
      (\<lambda>w t. licensed (hz_may_delete record) ((?G, Inr b) # (?D, Inr b') # t) \<and> (w = None \<longrightarrow> hz_server_gone i ((?G, Inr b) # (?D, Inr b') # t))) k"
    if "hz_validateLiveServerOwnership record (BodyServer b) = None" for b b' k
  proof (rule adds_mono [OF wait_action])
    fix w :: "provider_error option" and t :: "hz_body trace"
    assume *: "(\<forall>x \<in> set t. fst x = GET (hz_action_path (HzActionID (BodyAction b')))) \<and> (w = None \<longrightarrow> action_done (HzActionID (BodyAction b')) t)"
    then have "licensed (hz_may_delete record) t" by (intro licensed_reads) (simp add: hz_may_delete_def)
    then have "licensed (hz_may_delete record) ([(?G, Inr b), (?D, Inr b')] @ t)"
      using licensed_append [OF hz_may_delete_lasting two [OF that]] by blast
    moreover have "w = None \<Longrightarrow> hz_server_gone i ((?G, Inr b) # (?D, Inr b') # t)"
      using * action_done_append [of _ "[(?G, Inr b), (?D, Inr b')]" t] by (auto simp: hz_server_gone_def)
    ultimately show "licensed (hz_may_delete record) ((?G, Inr b) # (?D, Inr b') # t)
        \<and> (w = None \<longrightarrow> hz_server_gone i ((?G, Inr b) # (?D, Inr b') # t))" by simp
  qed
  show ?thesis
    unfolding hz_delete_server_def hz_GetServer_def hz_DeleteServer_def
    by (rule adds_fetch_bind)
      (auto intro!: adds_fetch_bind adds_bind_known [OF wait] one two simp: hz_server_gone_def not_found_def split: option.splits)
qed

lemma delete_hetzner:
  "adds (hz_Delete c request)
     (\<lambda>r t. licensed (hz_may_delete (DeleteRecord request)) t \<and> (r = None \<longrightarrow> hz_gone (DeleteRecord request) t)
        \<and> (Token (DeleteAccount request) = '''' \<or> Provider (DeleteRecord request) \<noteq> hetzner \<longrightarrow> t = [] \<and> r \<noteq> None)) h"
proof -
  let ?rec = "DeleteRecord request"
  note gone = server_gone_append resource_gone_append
  have policy: "adds (hz_deleteAccessPolicy c ?rec p) (\<lambda>r u. licensed (hz_may_delete ?rec) (t @ u) \<and> (r = None \<longrightarrow> resource_gone (hz_firewall_path p) (t @ u))) k"
    if "licensed (hz_may_delete ?rec) t" "hz_accessPolicyID ?rec = Inr p" for t k p
    using that(1)
    by (intro adds_mono [OF delete_policy [OF that(2)]])
      (auto intro: licensed_append [OF hz_may_delete_lasting] resource_gone_append)
  have both: "adds (do { r \<leftarrow> hz_delete_server c ?rec i;
           if r \<noteq> None then State_Monad.return r
           else if p \<noteq> 0 then hz_deleteAccessPolicy c ?rec p else State_Monad.return None })
      (\<lambda>r t. licensed (hz_may_delete ?rec) t \<and> (r = None \<longrightarrow> hz_gone ?rec t)) h"
    if i: "hz_serverID ?rec = Inr i" and p: "hz_accessPolicyID ?rec = Inr p" for i p
  proof (rule adds_bind_known [OF delete_server [OF i]])
    fix r :: "api_failure option" and t :: "hz_body trace"
    assume *: "licensed (hz_may_delete ?rec) t \<and> (r = None \<longrightarrow> hz_server_gone i t)"
    have "adds (hz_deleteAccessPolicy c ?rec p) (\<lambda>r u. licensed (hz_may_delete ?rec) (t @ u) \<and> (r = None \<longrightarrow> hz_gone ?rec (t @ u))) (h @ t)"
      if "r = None"
      using * that i p by (intro adds_mono [OF policy [OF _ p]]) (auto simp: hz_gone_def server_gone_append)
    then show "adds (if r \<noteq> None then State_Monad.return r else if p \<noteq> 0 then hz_deleteAccessPolicy c ?rec p else State_Monad.return None)
        (\<lambda>r u. licensed (hz_may_delete ?rec) (t @ u) \<and> (r = None \<longrightarrow> hz_gone ?rec (t @ u))) (h @ t)"
      using * i p by (auto simp: hz_gone_def)
  qed
  show ?thesis
  proof (cases "Token (DeleteAccount request) = '''' \<or> Provider ?rec \<noteq> hetzner")
    case True
    then show ?thesis
      by (auto simp: hz_Delete_def Let_def validateRecordProvider_def ValidateRecordProvider_def split: sum.split)
  next
    case False
    then have run: "hz_Delete c request = (case hz_accessPolicyID ?rec of Inl e \<Rightarrow> State_Monad.return (Some (Refused e))
      | Inr p \<Rightarrow> (case hz_serverID ?rec of
            Inl e \<Rightarrow> if p = 0 then State_Monad.return (Some (Refused e)) else hz_deleteAccessPolicy c ?rec p
          | Inr i \<Rightarrow> do { r \<leftarrow> hz_delete_server c ?rec i;
              if r \<noteq> None then State_Monad.return r
              else if p \<noteq> 0 then hz_deleteAccessPolicy c ?rec p else State_Monad.return None }))"
      by (auto simp: hz_Delete_def Let_def validateRecordProvider_def ValidateRecordProvider_def split: sum.split)
    show ?thesis
    proof (cases "hz_accessPolicyID ?rec")
      case p: (Inr p)
      show ?thesis
      proof (cases "hz_serverID ?rec")
        case (Inl e)
        then show ?thesis
          unfolding run p sum.case Inl
          using False p Inl policy [of "[]" p h] by (auto simp: hz_gone_def)
      next
        case i: (Inr i)
        show ?thesis
          unfolding run p i sum.case by (rule adds_mono [OF both [OF i p]]) (use False in simp)
      qed
    qed (use False in \<open>simp add: run\<close>)
  qed
qed

section \<open>Creating\<close>

definition hz_posts_policy :: "CreateServerRequest \<Rightarrow> api_request" where
  "hz_posts_policy request = POST ''/firewalls''
     [(''labels'', json_labels (intent_labels request)), (''name'', JStr (policy_name (IntentName (Intent request)))), (''rules'', JArr [])]"

definition hz_posts_server :: "CreateServerRequest \<Rightarrow> int \<Rightarrow> api_request" where
  "hz_posts_server request i = POST ''/servers'' (hz_server_payload (hz_input request) i (BootstrapData request))"

text \<open>
  The access policy \<open>i\<close> is one that this run created, or one that an earlier run recorded and that a
  read shows as owned by this server, without a rule and attached to nothing.
\<close>

definition hz_own_policy :: "CreateServerRequest \<Rightarrow> hz_body trace \<Rightarrow> int \<Rightarrow> bool" where
  "hz_own_policy request u i \<longleftrightarrow>
     (\<exists>b. (hz_posts_policy request, Inr b) \<in> set u \<and> HzFirewallID (BodyFirewall b) = i)
     \<or> (\<exists>b raw. checkpoint_policy ''access_policy_id'' request = Some raw \<and> parse_int64 raw = Some i
          \<and> (GET (hz_firewall_path i), Inr b) \<in> set u \<and> HzFirewallID (BodyFirewall b) = i
          \<and> hz_validateLiveAccessPolicyOwnership (hz_partial_record request i) (BodyFirewall b) = None
          \<and> HzRules (BodyFirewall b) = 0 \<and> HzAppliedTo (BodyFirewall b) = 0)"

definition hz_may_create :: "CreateServerRequest \<Rightarrow> hz_body trace \<Rightarrow> hz_body api_call \<Rightarrow> bool" where
  "hz_may_create request u x \<longleftrightarrow> Verb (fst x) = ''GET''
     \<or> (fst x = hz_posts_policy request \<and> checkpoint_policy ''access_policy_id'' request = None \<and> u = [])
     \<or> (\<exists>i. fst x = hz_posts_server request i \<and> hz_own_policy request u i \<and> (\<forall>y \<in> set u. Path (fst y) \<noteq> ''/servers''))"

text \<open>What is known of the server: the provider's answer, or a server found by name whose labels are this server's.\<close>

definition hz_record_backed :: "CreateServerRequest \<Rightarrow> ServerRecord \<Rightarrow> hz_body trace \<Rightarrow> bool" where
  "hz_record_backed request record t \<longleftrightarrow>
     (\<forall>b. (hz_posts_policy request, Inr b) \<in> set t \<longrightarrow>
        ManagedResourceID (RecordResources record) ManagedResourceAccessPolicy = Some (format_int (HzFirewallID (BodyFirewall b))))
     \<and> (\<forall>i b. (hz_posts_server request i, Inr b) \<in> set t \<longrightarrow>
        RecordID record = format_int (HzServerID (BodyServer b))
        \<and> ManagedResourceID (RecordResources record) ManagedResourceAccessPolicy = Some (format_int i))
     \<and> (RecordID record = '''' \<or> (\<exists>i b. (hz_posts_server request i, Inr b) \<in> set t)
        \<or> (\<exists>i srv. RecordID record = format_int (HzServerID srv)
            \<and> hz_validateLiveServerOwnership (hz_partial_record request i) srv = None
            \<and> (\<exists>b. (GET (''/servers?name='' @ query_escape (IntentName (Intent request))), Inr b) \<in> set t \<and> BodyServers b = [srv])))"

lemma format_int_not_Nil [simp]: "format_int i \<noteq> ''''"
  by (simp add: format_int_def)

lemma partial_record_simps [simp]:
  "RecordName (hz_partial_record request i) = IntentName (Intent request)"
  "RecordID (hz_partial_record request i) = ''''"
  "RecordResources (hz_partial_record request i) = [\<lparr>Kind = ManagedResourceAccessPolicy, ResourceID = format_int i\<rparr>]"
  by (simp_all add: hz_partial_record_def intended_record_def zero_record_def)

lemma created_record_simps [simp]:
  "RecordID (hz_created_record request srv i) = format_int (HzServerID srv)"
  "RecordResources (hz_created_record request srv i) = [\<lparr>Kind = ManagedResourceAccessPolicy, ResourceID = format_int i\<rparr>]"
  by (simp_all add: hz_created_record_def)

lemma posts_distinct [simp]: "hz_posts_server request i \<noteq> hz_posts_policy request'" "hz_posts_policy request' \<noteq> hz_posts_server request i"
  "hz_posts_server request i \<noteq> GET p" "hz_posts_policy request \<noteq> GET p" "GET p \<noteq> hz_posts_server request i" "GET p \<noteq> hz_posts_policy request"
  "Path (hz_posts_server request i) = ''/servers''" "Path (hz_posts_policy request) = ''/firewalls''"
  "Verb (hz_posts_policy request) = ''POST''" "Verb (hz_posts_server request i) = ''POST''"
  by (simp_all add: hz_posts_server_def hz_posts_policy_def)

lemma posts_server_inj [simp]: "hz_posts_server request i = hz_posts_server request j \<longleftrightarrow> i = j"
proof
  assume "hz_posts_server request i = hz_posts_server request j"
  then have "format_int i = format_int j" by (simp add: hz_posts_server_def hz_server_payload_def)
  then show "i = j"
    by (auto simp: format_int_def split: if_splits dest: arg_cong [where f = hd])
      (use itoa_no_sign in \<open>metis has_prefix.simps(1,3) append_Cons has_prefix_append\<close>)+
qed simp

lemma may_create_reads [simp]: "Verb (fst x) = ''GET'' \<Longrightarrow> hz_may_create request u x"
  by (simp add: hz_may_create_def)

lemma own_policy_append: "hz_own_policy request s i \<Longrightarrow> hz_own_policy request (s @ t) i"
  unfolding hz_own_policy_def by fastforce

lemma ensure_policy:
  "adds (hz_ensureAccessPolicy c request)
     (\<lambda>r t. licensed (hz_may_create request) t \<and> (\<forall>x \<in> set t. Path (fst x) \<noteq> ''/servers'')
        \<and> (\<forall>i. r = Inr i \<longrightarrow> hz_own_policy request t i)
        \<and> (\<forall>b. (hz_posts_policy request, Inr b) \<in> set t \<longrightarrow> r = Inr (HzFirewallID (BodyFirewall b)))) h"
proof (cases "checkpoint_policy ''access_policy_id'' request")
  case None
  let ?q = "hz_posts_policy request"
  have "licensed (hz_may_create request) [(?q, a)]" for a
    using licensed_snoc [of "hz_may_create request" "[]"] None by (simp add: hz_may_create_def)
  then show ?thesis
    unfolding hz_ensureAccessPolicy_def None option.case hz_CreateFirewall_def hz_posts_policy_def [symmetric]
    by (intro adds_fetch_bind) (auto simp: hz_own_policy_def)
next
  case (Some raw)
  show ?thesis
  proof (cases "\<exists>i. parse_int64 raw = Some i \<and> 0 < i")
    case False
    then show ?thesis
      by (auto simp: hz_ensureAccessPolicy_def Some hz_validateCheckpointAccessPolicy_def split: option.split)
  next
    case True
    then obtain i where i: "parse_int64 raw = Some i" "0 < i" by blast
    let ?q = "GET (hz_firewall_path i)"
    have lic: "licensed (hz_may_create request) [(?q, a)]" for a
      by (rule licensed_reads) (simp add: hz_may_create_def)
    have path: "hz_firewall_path i \<noteq> ''/servers''" by (simp add: hz_firewall_path_def)
    have pos: "\<not> i \<le> 0" using i(2) by simp
    have own: "hz_own_policy request [(?q, Inr b)] i"
      if "HzFirewallID (BodyFirewall b) = i" "hz_validateLiveAccessPolicyOwnership (hz_partial_record request i) (BodyFirewall b) = None"
        "HzRules (BodyFirewall b) = 0" "HzAppliedTo (BodyFirewall b) = 0" for b
      using that i Some unfolding hz_own_policy_def by simp
    show ?thesis
      unfolding hz_ensureAccessPolicy_def Some option.case hz_validateCheckpointAccessPolicy_def i(1) hz_GetFirewall_def
      using lic own unfolding if_not_P [OF pos] by (intro adds_fetch_bind) (auto simp: path split: option.splits if_splits)
  qed
qed

text \<open>Looking for a server whose creation was not answered.\<close>

lemma reconcile:
  "adds (hz_reconcileCreatedServer c (hz_partial_record request i))
     (\<lambda>record t. \<exists>a. t = [(GET (''/servers?name='' @ query_escape (IntentName (Intent request))), a)]
        \<and> RecordResources record = [\<lparr>Kind = ManagedResourceAccessPolicy, ResourceID = format_int i\<rparr>]
        \<and> (RecordID record = '''' \<or> (\<exists>b srv. a = Inr b \<and> BodyServers b = [srv] \<and> RecordID record = format_int (HzServerID srv)
              \<and> hz_validateLiveServerOwnership (hz_partial_record request i) srv = None))) h"
  unfolding hz_reconcileCreatedServer_def hz_FindServerByName_def partial_record_simps
    State_Monad.bind_assoc
  by (rule adds_fetch_bind) (auto split: list.split)

text \<open>What holds of a create, stated of the whole trace \<open>t\<close>; the calls up to the access policy are its prefix.\<close>

definition hz_create_safe :: "CreateServerRequest \<Rightarrow> ServerRecord \<times> api_failure option \<Rightarrow> hz_body trace \<Rightarrow> bool" where
  "hz_create_safe request res t \<longleftrightarrow> licensed (hz_may_create request) t \<and> hz_record_backed request (fst res) t
     \<and> (snd res = None \<longrightarrow> (\<exists>i b. (hz_posts_server request i, Inr b) \<in> set t \<and> action_done (HzActionID (BodyAction b)) t))"

lemma create_server:
  assumes "licensed (hz_may_create request) t" "\<forall>x \<in> set t. Path (fst x) \<noteq> ''/servers''" "hz_own_policy request t i"
    and policy: "\<forall>b. (hz_posts_policy request, Inr b) \<in> set t \<longrightarrow> i = HzFirewallID (BodyFirewall b)"
  shows "adds (hz_create_server c request i) (\<lambda>res u. hz_create_safe request res (t @ u)) k"
  unfolding hz_create_server_def hz_CreateServer_def hz_posts_server_def [symmetric]
proof (rule adds_fetch_bind)
  let ?post = "hz_posts_server request"
  have none: "(?post j, a) \<notin> set t" for j a using assms(2) by force
  have post: "licensed (hz_may_create request) (t @ [(?post i, a)])" for a
    using assms unfolding licensed_snoc by (auto simp: hz_may_create_def)
  have reads: "licensed (hz_may_create request) (t @ (?post i, a) # u)" if "\<forall>x \<in> set u. Verb (fst x) = ''GET''" for a u
    using that
  proof (induction u rule: rev_induct)
    case (snoc x u)
    then show ?case using licensed_snoc [of "hz_may_create request" "t @ (?post i, a) # u" x] by simp
  qed (use post in simp)
  have not_answered: "hz_create_safe request (r, Some x) (t @ (?post i, Inl e) # u)"
    if "u = [(GET (''/servers?name='' @ query_escape (IntentName (Intent request))), a)]"
      "RecordResources r = [\<lparr>Kind = ManagedResourceAccessPolicy, ResourceID = format_int i\<rparr>]"
      "RecordID r = '''' \<or> (\<exists>b srv. a = Inr b \<and> BodyServers b = [srv] \<and> RecordID r = format_int (HzServerID srv)
         \<and> hz_validateLiveServerOwnership (hz_partial_record request i) srv = None)" for r e u a x
  proof -
    let ?find = "GET (''/servers?name='' @ query_escape (IntentName (Intent request)))"
    let ?t = "t @ (?post i, Inl e) # u"
    have "RecordID r = '''' \<or> (\<exists>i srv. RecordID r = format_int (HzServerID srv)
        \<and> hz_validateLiveServerOwnership (hz_partial_record request i) srv = None \<and> (\<exists>b. (?find, Inr b) \<in> set ?t \<and> BodyServers b = [srv]))"
      using that(1,3) by (elim disjE exE conjE) (rule disjI1, assumption, intro disjI2 exI conjI, auto)
    with that(1,2) policy none have "hz_record_backed request r ?t" unfolding hz_record_backed_def by auto
    with reads that(1) show ?thesis by (simp add: hz_create_safe_def)
  qed
  show "adds (case Inl e of
         Inl e \<Rightarrow> do {
           record \<leftarrow> hz_reconcileCreatedServer c (hz_partial_record request i);
           State_Monad.return (record, Some (CallFailed ''provider server create failed'' e (BootstrapSecrets (BootstrapData request) []))) }
       | Inr (srv, actionID) \<Rightarrow> do {
           w \<leftarrow> hz_WaitAction c actionID;
           State_Monad.return (hz_created_record request srv i,
             map_option (\<lambda>e. CallFailed ''provider create operation failed'' e (BootstrapSecrets (BootstrapData request) [])) w) })
      (\<lambda>res u. hz_create_safe request res (t @ (?post i, Inl e) # u)) (k @ [(?post i, Inl e)])" for e
    unfolding sum.case
    by (rule adds_bind_known [OF reconcile]) (auto intro: not_answered simp del: append.simps)
  have answered: "hz_create_safe request (hz_created_record request (BodyServer b) i, map_option f w) (t @ (?post i, Inr b) # u)"
    if "\<forall>x \<in> set u. fst x = GET p" "w = None \<longrightarrow> action_done (HzActionID (BodyAction b)) u" for f w b p u
  proof -
    have "w = None \<longrightarrow> action_done (HzActionID (BodyAction b)) (t @ (?post i, Inr b) # u)"
      using that(2) action_done_append [of _ "t @ [(?post i, Inr b)]" u] by simp
    with that(1) reads policy none show ?thesis
      unfolding hz_create_safe_def hz_record_backed_def by fastforce
  qed
  show "adds (case Inr (BodyServer b, HzActionID (BodyAction b)) of
         Inl e \<Rightarrow> do {
           record \<leftarrow> hz_reconcileCreatedServer c (hz_partial_record request i);
           State_Monad.return (record, Some (CallFailed ''provider server create failed'' e (BootstrapSecrets (BootstrapData request) []))) }
       | Inr (srv, actionID) \<Rightarrow> do {
           w \<leftarrow> hz_WaitAction c actionID;
           State_Monad.return (hz_created_record request srv i,
             map_option (\<lambda>e. CallFailed ''provider create operation failed'' e (BootstrapSecrets (BootstrapData request) [])) w) })
      (\<lambda>res u. hz_create_safe request res (t @ (?post i, Inr b) # u)) (k @ [(?post i, Inr b)])" for b
    unfolding sum.case prod.case
    by (rule adds_bind_known [OF wait_action], unfold adds_return append_Nil2 append_Cons, rule answered) blast+
qed

lemma create_hetzner:
  "adds (hz_Create c request)
     (\<lambda>res t. hz_create_safe request res t \<and> (Token (CreateAccount request) = '''' \<longrightarrow> t = [] \<and> snd res \<noteq> None)) h"
proof (cases "Token (CreateAccount request) = ''''")
  case True
  then show ?thesis by (simp add: hz_Create_def hz_create_safe_def hz_record_backed_def zero_record_def)
next
  case False
  have failed: "hz_create_safe request (zero_record, Some x) t"
    if "licensed (hz_may_create request) t" "\<forall>x \<in> set t. Path (fst x) \<noteq> ''/servers''"
      "\<forall>b. (hz_posts_policy request, Inr b) \<notin> set t" for t x
    using that unfolding hz_create_safe_def hz_record_backed_def zero_record_def by force
  show ?thesis
    using False unfolding hz_Create_def
    by (auto intro!: adds_bind_known [OF ensure_policy] failed create_server split: sum.split)
qed

section \<open>The contract\<close>

interpretation hetzner_adapter: compute_adapter hz_Delete hetzner hz_may_delete hz_gone
  by unfold_locales (rule hz_may_delete_lasting, erule hz_gone_append, rule delete_hetzner)

text \<open>
  C11. A deletion on Hetzner deletes a server or a firewall only after a read of this run that shows it
  as the record's own, whatever the API answers. It passes only when nothing the record names is left:
  the server was not found, or its deletion was accepted and its action succeeded, and the firewall is
  gone as well. Without a token, or with a record of another provider, nothing is sent and it fails.
\<close>

theorem hetzner_delete_owned:
  assumes "run_state (hz_Delete c request) h = (r, h')"
  shows "\<exists>t. h' = h @ t \<and> licensed (hz_may_delete (DeleteRecord request)) t \<and> (r = None \<longrightarrow> hz_gone (DeleteRecord request) t)
    \<and> (Token (DeleteAccount request) = '''' \<or> Provider (DeleteRecord request) \<noteq> hetzner \<longrightarrow> t = [] \<and> r \<noteq> None)"
  by (rule hetzner_adapter.delete_guarded [OF assms])

lemma one_server:
  "licensed (hz_may_create request) t \<Longrightarrow> length (filter (\<lambda>x. Verb (fst x) = ''POST'' \<and> Path (fst x) = ''/servers'') t) \<le> 1"
proof (induction t rule: rev_induct)
  case (snoc x t)
  then have x: "hz_may_create request t x" and t: "licensed (hz_may_create request) t" by simp_all
  show ?case
  proof (cases "Verb (fst x) = ''POST'' \<and> Path (fst x) = ''/servers''")
    case True
    with x have "\<forall>y \<in> set t. Path (fst y) \<noteq> ''/servers''" by (auto simp: hz_may_create_def)
    then have "filter (\<lambda>x. Verb (fst x) = ''POST'' \<and> Path (fst x) = ''/servers'') t = []" by (simp add: filter_empty_conv)
    then show ?thesis by simp
  next
    case False
    then have "filter (\<lambda>x. Verb (fst x) = ''POST'' \<and> Path (fst x) = ''/servers'') [x] = []" by simp
    then show ?thesis using snoc.IH [OF t] unfolding filter_append by simp
  qed
qed simp

text \<open>
  C10. A create asks Hetzner for at most one server, and only behind an access policy of its own: a
  firewall without rules that this run created, or one that an earlier run recorded and that a read
  shows as owned by this server, still without a rule and attached to nothing. Whatever is answered,
  the record that comes back names every resource that an answer confirmed, and a server that no answer
  named only when the account lists one under its name with this server's labels. It passes only
  when the server's creation was accepted and its action succeeded; without a token nothing is sent.
\<close>

theorem hetzner_create_safe:
  assumes "run_state (hz_Create c request) h = ((rec, r), h')"
  shows "\<exists>t. h' = h @ t \<and> licensed (hz_may_create request) t
    \<and> length (filter (\<lambda>x. Verb (fst x) = ''POST'' \<and> Path (fst x) = ''/servers'') t) \<le> 1
    \<and> hz_record_backed request rec t
    \<and> (r = None \<longrightarrow> (\<exists>i b. (hz_posts_server request i, Inr b) \<in> set t \<and> action_done (HzActionID (BodyAction b)) t))
    \<and> (Token (CreateAccount request) = '''' \<longrightarrow> t = [] \<and> r \<noteq> None)"
  using adds_run [OF create_hetzner assms] one_server unfolding hz_create_safe_def by fastforce

section \<open>Power\<close>

text \<open>A power action reaches only a server that a read before it showed as owned by the record.\<close>

definition hz_may_power :: "ServerRecord \<Rightarrow> hz_body trace \<Rightarrow> hz_body api_call \<Rightarrow> bool" where
  "hz_may_power record u x \<longleftrightarrow> Verb (fst x) = ''GET''
     \<or> (\<exists>i b a. hz_serverID record = Inr i \<and> fst x = POST_empty (hz_server_path i @ ''/actions/'' @ a)
          \<and> (GET (hz_server_path i), Inr b) \<in> set u \<and> hz_validateLiveServerOwnership record (BodyServer b) = None)"

lemma may_power_lasting: "lasting (hz_may_power record)"
  by (auto simp: lasting_def hz_may_power_def)

lemma status_hetzner: "adds (hz_Status c ref) (\<lambda>_ t. \<forall>x \<in> set t. Verb (fst x) = ''GET'') h"
  by (auto simp: hz_Status_def hz_GetServer_def intro!: adds_fetch_bind split: option.split sum.split)

lemma power_hetzner: "adds (hz_Power c request) (\<lambda>_ t. licensed (hz_may_power (PowerRecord request)) t) h"
proof -
  let ?rec = "PowerRecord request" and ?ok = "hz_may_power (PowerRecord request)"
  have reads: "licensed ?ok (t @ u)" if "licensed ?ok t" "\<forall>x \<in> set u. Verb (fst x) = ''GET''" for t u
    using licensed_append [OF may_power_lasting that(1)] that(2) licensed_reads [of u ?ok] by (simp add: hz_may_power_def)
  have status: "adds (hz_Status c ref) (\<lambda>_ u. licensed ?ok (t @ u)) k" if "licensed ?ok t" for t ref k
    by (rule adds_mono [OF status_hetzner]) (use reads that in blast)
  have finish: "adds (do { w \<leftarrow> hz_WaitAction c i;
        case w of Some e \<Rightarrow> State_Monad.return (Inl (CallFailed ''provider power operation failed'' e []))
        | None \<Rightarrow> hz_Status c ref }) (\<lambda>_ u. licensed ?ok (t @ u)) k" if "licensed ?ok t" for t i ref k
  proof (rule adds_bind_known [OF wait_action])
    fix w :: "provider_error option" and u :: "hz_body trace"
    assume "(\<forall>x \<in> set u. fst x = GET (hz_action_path i)) \<and> (w = None \<longrightarrow> action_done i u)"
    then have "licensed ?ok (t @ u)" using reads [OF that, of u] by simp
    with status show "adds (case w of Some e \<Rightarrow> State_Monad.return (Inl (CallFailed ''provider power operation failed'' e []))
        | None \<Rightarrow> hz_Status c ref) (\<lambda>_ v. licensed ?ok (t @ u @ v)) (k @ u)"
      by (auto simp flip: append_assoc split: option.split)
  qed
  have act: "adds (do { p \<leftarrow> hz_power_call c i (PowerActionOf request);
        case p of Inl e \<Rightarrow> State_Monad.return (Inl (CallFailed ''provider power action failed'' e []))
        | Inr actionID \<Rightarrow> do { w \<leftarrow> hz_WaitAction c actionID;
            case w of Some e \<Rightarrow> State_Monad.return (Inl (CallFailed ''provider power operation failed'' e []))
            | None \<Rightarrow> hz_Status c ref } }) (\<lambda>_ u. licensed ?ok ((GET (hz_server_path i), Inr b) # u)) k"
    if "hz_serverID ?rec = Inr i" "hz_validateLiveServerOwnership ?rec (BodyServer b) = None" for i b ref k
  proof -
    have one: "licensed ?ok [(GET (hz_server_path i), Inr b)]" by (rule licensed_reads) (simp add: hz_may_power_def)
    have two: "licensed ?ok ([(GET (hz_server_path i), Inr b), (POST_empty (hz_server_path i @ ''/actions/'' @ a), x)])" for a x
      using licensed_snoc [of ?ok "[(GET (hz_server_path i), Inr b)]"] one that by (auto simp: hz_may_power_def)
    show ?thesis
      using one two finish [OF two] unfolding hz_power_call_def hz_serverAction_def
      by (cases "PowerActionOf request") (auto intro!: adds_fetch_bind)
  qed
  show ?thesis
    unfolding hz_Power_def hz_GetServer_def
    using act by (auto intro!: adds_fetch_bind licensed_reads simp: hz_may_power_def split: option.split sum.split)
qed

text \<open>A run on a concrete account: the firewall, the server, and an action that runs once before it succeeds.\<close>

definition sample_hz_body :: hz_body where
  "sample_hz_body = \<lparr>BodyFirewall = \<lparr>HzFirewallID = 7, HzFirewallName = ''prod-web-deny-public'', HzFirewallLabels = [], HzRules = 0, HzAppliedTo = 0\<rparr>,
     BodyServer = \<lparr>HzServerID = 42, HzServerName = ''prod-web'', HzServerStatus = ''running'', HzServerLabels = [], HzIPv4 = ''203.0.113.7'',
       HzIPv6 = '''', HzServerType = ''cx22'', HzImage = ''ubuntu-24.04'', HzLocation = ''fsn1'', HzDatacenterLocation = ''''\<rparr>,
     BodyAction = \<lparr>HzActionID = 5, HzActionStatus = ''running'', HzActionError = None\<rparr>,
     BodyServers = [], BodyFirewalls = [], BodyNextPage = None\<rparr>"

definition sample_hz_cloud :: "hz_body cloud" where
  "sample_hz_cloud = \<lparr>Answer = (\<lambda>h q. Inr (if length h < 3 then sample_hz_body
     else sample_hz_body\<lparr>BodyAction := \<lparr>HzActionID = 5, HzActionStatus = ''success'', HzActionError = None\<rparr>\<rparr>)), Polls = 2, Pages = 1\<rparr>"

definition sample_create :: CreateServerRequest where
  "sample_create = \<lparr>CreateAccount = \<lparr>AccountName = ''prod'', AccountProvider = ''hetzner'', Token = ''t'', Scope = ''''\<rparr>,
     Intent = \<lparr>IntentNamespace = ''prod'', IntentServer = ''web'', IntentName = ''prod-web'', IntentLocation = ''fsn1'', IntentSize = ''cx22'',
       IntentImage = ''ubuntu-24.04'', IntentLabels = []\<rparr>, BootstrapData = '''', CreateResources = [], CreateProviderState = []\<rparr>"

definition sample_wait :: "provider_error option \<times> hz_body trace" where
  "sample_wait = run_state (hz_WaitAction sample_hz_cloud 5) (replicate 2 (GET ''/'', Inr sample_hz_body))"

theorem wait_action_terminates_witness:
  "\<exists>u a. snd sample_wait = replicate 2 (GET ''/'', Inr sample_hz_body) @ u @ [(GET (hz_action_path 5), a)]
    \<and> length u = 1 \<and> length u \<le> Polls sample_hz_cloud \<and> fst sample_wait = None"
proof -
  have "run_state (hz_WaitAction sample_hz_cloud 5) (replicate 2 (GET ''/'', Inr sample_hz_body)) = (fst sample_wait, snd sample_wait)"
    by (simp add: sample_wait_def)
  from wait_action_terminates [OF _ this] obtain u a where
    u: "snd sample_wait = replicate 2 (GET ''/'', Inr sample_hz_body) @ u @ [(GET (hz_action_path 5), a)]"
      "length u \<le> Polls sample_hz_cloud" by auto
  have "length (snd sample_wait) = 4" "fst sample_wait = None" by code_simp+
  with u show ?thesis by auto
qed

theorem hetzner_create_safe_witness:
  "\<exists>t. snd (run_state (hz_Create sample_hz_cloud sample_create) []) = t
    \<and> hz_record_backed sample_create (fst (fst (run_state (hz_Create sample_hz_cloud sample_create) []))) t
    \<and> (\<exists>i b. (hz_posts_server sample_create i, Inr b) \<in> set t \<and> action_done (HzActionID (BodyAction b)) t)"
proof -
  obtain rec r h' where run: "run_state (hz_Create sample_hz_cloud sample_create) [] = ((rec, r), h')" by (metis prod.exhaust)
  have "snd (fst (run_state (hz_Create sample_hz_cloud sample_create) [])) = None" by code_simp
  with run have "r = None" by simp
  with hetzner_create_safe [OF run] run show ?thesis by auto
qed

text \<open>A deletion of the server 42 and the firewall 7 that Hetzner shows as owned.\<close>

definition sample_hz_record :: ServerRecord where
  "sample_hz_record = zero_record\<lparr>Provider := hetzner, RecordNamespace := ''prod'', RecordServer := ''web'', RecordID := ''42'',
     RecordName := ''prod-web'', RecordResources := [\<lparr>Kind = ManagedResourceAccessPolicy, ResourceID = ''7''\<rparr>]\<rparr>"

definition sample_hz_delete :: DeleteServerRequest where
  "sample_hz_delete = \<lparr>DeleteAccount = \<lparr>AccountName = ''prod'', AccountProvider = ''hetzner'', Token = ''t'', Scope = ''''\<rparr>, DeleteRecord = sample_hz_record\<rparr>"

definition sample_hz_owned :: "hz_body cloud" where
  "sample_hz_owned = (let labs = ConfigLabels ''prod'' ''web'' []; b = sample_hz_body
     \<lparr>BodyFirewall := BodyFirewall sample_hz_body\<lparr>HzFirewallLabels := labs\<rparr>, BodyServer := BodyServer sample_hz_body\<lparr>HzServerLabels := labs\<rparr>,
      BodyAction := \<lparr>HzActionID = 5, HzActionStatus = ''success'', HzActionError = None\<rparr>\<rparr>
     in \<lparr>Answer = (\<lambda>h q. Inr b), Polls = 2, Pages = 1\<rparr>)"

theorem hetzner_delete_owned_witness:
  "\<exists>t. snd (run_state (hz_Delete sample_hz_owned sample_hz_delete) []) = t \<and> map (Verb \<circ> fst) t = [''GET'', ''DELETE'', ''GET'', ''GET'', ''DELETE'']
    \<and> licensed (hz_may_delete sample_hz_record) t \<and> hz_gone sample_hz_record t"
proof -
  obtain r h' where run: "run_state (hz_Delete sample_hz_owned sample_hz_delete) [] = (r, h')" by (metis prod.exhaust)
  have "fst (run_state (hz_Delete sample_hz_owned sample_hz_delete) []) = None
    \<and> map (Verb \<circ> fst) (snd (run_state (hz_Delete sample_hz_owned sample_hz_delete) [])) = [''GET'', ''DELETE'', ''GET'', ''GET'', ''DELETE'']"
    by code_simp
  moreover have "DeleteRecord sample_hz_delete = sample_hz_record" by (simp add: sample_hz_delete_def)
  ultimately show ?thesis using hetzner_delete_owned [OF run] run by auto
qed


end
