(* ===== verification/Digitalocean_Compute.thy ===== *)
theory Digitalocean_Compute
  imports Hetzner_Compute
begin

text \<open>
  The DigitalOcean adapter (internal/provider/digitalocean): API client, firewall rules, and the
  operations on Droplets. A Droplet carries its ownership in tags; its firewall is attached by one tag
  of its own, or, in firewalls of earlier versions, by the ownership tags.

  What \<open>nextPage\<close> makes of the link to the next page, which net/url parses, is part of the decoded
  answer (\<open>DoNext\<close>).
\<close>

section \<open>Types\<close>

record DoDroplet =
  DropletID :: int
  DropletName :: string
  DropletStatus :: string
  DropletV4 :: "(string \<times> string) list"
  DropletTags :: "string list"

record RuleTargets =
  Addresses :: "string list"
  TargetTags :: "string list"
  TargetDroplets :: "int list"
  LoadBalancers :: "string list"
  Kubernetes :: "string list"

record DoRule =
  RuleProtocol :: string
  RulePorts :: string
  RuleSources :: "RuleTargets option"
  RuleDestinations :: "RuleTargets option"

record DoFirewall =
  DoFirewallID :: string
  DoFirewallName :: string
  DoFirewallTags :: "string list"
  DoFirewallDroplets :: "int list"
  DoInbound :: "DoRule list"
  DoOutbound :: "DoRule list"

record do_body =
  DoDropletOf :: DoDroplet
  DoDropletsOf :: "DoDroplet list"
  DoFirewallOf :: DoFirewall
  DoFirewallsOf :: "DoFirewall list"
  DoNext :: "(provider_error, int option) result"

section \<open>Rules and tags\<close>

definition firewallTargetLabelKey :: string where
  "firewallTargetLabelKey = ''serverpro-firewall-target''"

definition firewallTargetTags :: "string \<Rightarrow> string \<Rightarrow> string list" where
  "firewallTargetTags namespace server = ProviderTags [(firewallTargetLabelKey, namespace @ ''/'' @ server)]"

definition firewallTargetTag :: "string \<Rightarrow> string \<Rightarrow> string" where
  "firewallTargetTag namespace server = hd (firewallTargetTags namespace server)"

definition firewallTargetsServer :: "DoFirewall \<Rightarrow> string \<Rightarrow> string \<Rightarrow> bool" where
  "firewallTargetsServer firewall namespace server \<longleftrightarrow> length (DoFirewallTags firewall) = 1
     \<and> hd (DoFirewallTags firewall) = firewallTargetTag namespace server \<and> DoFirewallDroplets firewall = []"

definition everywhere :: RuleTargets where
  "everywhere = \<lparr>Addresses = [''0.0.0.0/0'', ''::/0''], TargetTags = [], TargetDroplets = [], LoadBalancers = [], Kubernetes = []\<rparr>"

definition tailscaleInboundRules :: "DoRule list" where
  "tailscaleInboundRules =
     [\<lparr>RuleProtocol = ''udp'', RulePorts = ''41641'', RuleSources = Some everywhere, RuleDestinations = None\<rparr>,
      \<lparr>RuleProtocol = ''udp'', RulePorts = ''3478'', RuleSources = Some everywhere, RuleDestinations = None\<rparr>]"

definition allowAllOutboundRules :: "DoRule list" where
  "allowAllOutboundRules =
     map (\<lambda>p. \<lparr>RuleProtocol = p, RulePorts = ''0'', RuleSources = None, RuleDestinations = Some everywhere\<rparr>)
       [''tcp'', ''udp'', ''icmp'']"

text \<open>\<open>multisetsMatch\<close>: the counts of the left list, taken down by the right one.\<close>

fun balance_down :: "('a \<Rightarrow> int) \<Rightarrow> 'a list \<Rightarrow> bool" where
  "balance_down counts [] = True"
| "balance_down counts (v # vs) = (if counts v - 1 < 0 then False else balance_down (counts(v := counts v - 1)) vs)"

definition multisetsMatch :: "'a list \<Rightarrow> 'a list \<Rightarrow> bool" where
  "multisetsMatch left right \<longleftrightarrow>
     length left = length right \<and> balance_down (foldl (\<lambda>counts v. counts(v := counts v + 1)) (\<lambda>_. 0) left) right"

definition targets_empty :: "RuleTargets \<Rightarrow> bool" where
  "targets_empty t \<longleftrightarrow> Addresses t = [] \<and> TargetTags t = [] \<and> TargetDroplets t = [] \<and> LoadBalancers t = [] \<and> Kubernetes t = []"

definition firewallRuleTargetsMatch :: "RuleTargets option \<Rightarrow> RuleTargets option \<Rightarrow> bool" where
  "firewallRuleTargetsMatch live expected =
     (case expected of
        None \<Rightarrow> (case live of None \<Rightarrow> True | Some l \<Rightarrow> targets_empty l)
      | Some e \<Rightarrow> (case live of
          None \<Rightarrow> False
        | Some l \<Rightarrow> multisetsMatch (Addresses l) (Addresses e) \<and> multisetsMatch (TargetTags l) (TargetTags e)
            \<and> multisetsMatch (TargetDroplets l) (TargetDroplets e) \<and> multisetsMatch (LoadBalancers l) (LoadBalancers e)
            \<and> multisetsMatch (Kubernetes l) (Kubernetes e)))"

definition do_firewallRuleMatches :: "DoRule \<Rightarrow> DoRule \<Rightarrow> bool" where
  "do_firewallRuleMatches live expected \<longleftrightarrow> RuleProtocol live = RuleProtocol expected \<and> RulePorts live = RulePorts expected
     \<and> firewallRuleTargetsMatch (RuleSources live) (RuleSources expected)
     \<and> firewallRuleTargetsMatch (RuleDestinations live) (RuleDestinations expected)"

text \<open>The live rules that are not matched yet: each expected rule takes the first that matches.\<close>

fun take_rule :: "(DoRule \<Rightarrow> bool) \<Rightarrow> DoRule list \<Rightarrow> DoRule list option" where
  "take_rule matches [] = None"
| "take_rule matches (r # rs) = (if matches r then Some rs else map_option ((#) r) (take_rule matches rs))"

fun all_taken :: "DoRule list \<Rightarrow> DoRule list \<Rightarrow> bool" where
  "all_taken live [] = True"
| "all_taken live (e # es) = (case take_rule (\<lambda>l. do_firewallRuleMatches l e) live of None \<Rightarrow> False | Some live' \<Rightarrow> all_taken live' es)"

definition firewallRulesMatch :: "DoRule list \<Rightarrow> DoRule list \<Rightarrow> bool" where
  "firewallRulesMatch live expected \<longleftrightarrow> length live = length expected \<and> all_taken live expected"

lemma balance_down_iff:
  "balance_down counts vs \<longleftrightarrow> (\<forall>v. v \<in> set vs \<longrightarrow> int (count_list vs v) \<le> counts v)"
proof (induction vs arbitrary: counts)
  case (Cons x vs)
  have "(\<forall>v. v \<in> set vs \<longrightarrow> int (count_list vs v) \<le> (counts(x := counts x - 1)) v) \<and> 1 \<le> counts x
      \<longleftrightarrow> (\<forall>v. v \<in> set (x # vs) \<longrightarrow> int (count_list (x # vs) v) \<le> counts v)"
    by (cases "x \<in> set vs") (auto split: if_splits simp: count_notin)
  then show ?case using Cons by auto
qed simp

lemma counted_up: "foldl (\<lambda>counts v. counts(v := counts v + 1)) f xs = (\<lambda>v. f v + int (count_list xs v))"
  by (induction xs arbitrary: f) auto

lemma multisetsMatch_iff: "multisetsMatch left right \<longleftrightarrow> mset left = mset right"
proof
  assume *: "multisetsMatch left right"
  then have le: "v \<in> set right \<Longrightarrow> count_list right v \<le> count_list left v" for v
    by (auto simp: multisetsMatch_def counted_up balance_down_iff)
  have "mset right \<subseteq># mset left"
  proof (rule mset_subset_eqI)
    fix v show "count (mset right) v \<le> count (mset left) v"
      using le [of v] by (cases "v \<in> set right") (simp_all add: count_mset not_in_iff)
  qed
  moreover have "size (mset right) = size (mset left)" using * by (simp add: multisetsMatch_def)
  ultimately show "mset left = mset right" by (metis mset_subset_size nless_le subset_mset.le_neq_trans)
next
  assume *: "mset left = mset right"
  then have "length left = length right" by (metis size_mset)
  moreover have "count_list left v = count_list right v" for v using * by (metis count_mset)
  ultimately show "multisetsMatch left right" by (simp add: multisetsMatch_def counted_up balance_down_iff)
qed

section \<open>The client\<close>

definition path_escape :: "string \<Rightarrow> string" where
  "path_escape s = concat (map (\<lambda>c.
     if is_digit c \<or> (CHR ''a'' \<le> c \<and> c \<le> CHR ''z'') \<or> (CHR ''A'' \<le> c \<and> c \<le> CHR ''Z'') \<or> c \<in> set ''-_.~$&+:=@'' then [c]
     else [CHR ''%'', upper_hex (of_char c div 16), upper_hex (of_char c mod 16)]) s)"

definition json_strings :: "string list \<Rightarrow> json" where
  "json_strings xs = JArr (map JStr xs)"

text \<open>An empty list of a target is left out of the JSON text (\<open>omitempty\<close>).\<close>

definition json_targets :: "RuleTargets \<Rightarrow> json" where
  "json_targets t = JObj (
     (if Addresses t = [] then [] else [(''addresses'', json_strings (Addresses t))])
     @ (if TargetTags t = [] then [] else [(''tags'', json_strings (TargetTags t))])
     @ (if TargetDroplets t = [] then [] else [(''droplet_ids'', JArr (map (\<lambda>i. JNum (format_int i)) (TargetDroplets t)))])
     @ (if LoadBalancers t = [] then [] else [(''load_balancer_uids'', json_strings (LoadBalancers t))])
     @ (if Kubernetes t = [] then [] else [(''kubernetes_ids'', json_strings (Kubernetes t))]))"

definition json_rule :: "DoRule \<Rightarrow> json" where
  "json_rule r = JObj ([(''protocol'', JStr (RuleProtocol r)), (''ports'', JStr (RulePorts r))]
     @ (case RuleSources r of None \<Rightarrow> [] | Some t \<Rightarrow> [(''sources'', json_targets t)])
     @ (case RuleDestinations r of None \<Rightarrow> [] | Some t \<Rightarrow> [(''destinations'', json_targets t)]))"

definition do_firewall_path :: "string \<Rightarrow> string" where
  "do_firewall_path i = ''/firewalls/'' @ i"

definition do_droplet_path :: "int \<Rightarrow> string" where
  "do_droplet_path i = ''/droplets/'' @ format_int i"

definition CreateTag :: "do_body cloud \<Rightarrow> string \<Rightarrow> (do_body, provider_error option) api" where
  "CreateTag c name = exec c (POST ''/tags'' [(''name'', JStr name)])"

definition GetTag :: "do_body cloud \<Rightarrow> string \<Rightarrow> (do_body, provider_error option) api" where
  "GetTag c name = exec c (GET (''/tags/'' @ path_escape name))"

fun EnsureTags :: "do_body cloud \<Rightarrow> string list \<Rightarrow> string list \<Rightarrow> (do_body, provider_error option) api" where
  "EnsureTags c seen [] = State_Monad.return None"
| "EnsureTags c seen (tag # tags) =
     (if tag = '''' \<or> tag \<in> set seen then EnsureTags c seen tags
      else do {
        err \<leftarrow> CreateTag c tag;
        case err of
          None \<Rightarrow> EnsureTags c (tag # seen) tags
        | Some e \<Rightarrow> do {
            getErr \<leftarrow> GetTag c tag;
            if getErr = None then EnsureTags c (tag # seen) tags else State_Monad.return (Some e) } })"

definition do_firewall_payload :: "string \<Rightarrow> string list \<Rightarrow> (string \<times> json) list" where
  "do_firewall_payload name tags =
     [(''inbound_rules'', JArr (map json_rule tailscaleInboundRules)), (''name'', JStr name),
      (''outbound_rules'', JArr (map json_rule allowAllOutboundRules)), (''tags'', json_strings tags)]"

definition do_CreateFirewall :: "do_body cloud \<Rightarrow> string \<Rightarrow> string list \<Rightarrow> (do_body, (provider_error, DoFirewall) result) api" where
  "do_CreateFirewall c name tags = fetch c DoFirewallOf (POST ''/firewalls'' (do_firewall_payload name tags))"

text \<open>\<open>catalogListPath\<close>: the keys of the query in order, the name before the page.\<close>

definition catalogListPath :: "string \<Rightarrow> int \<Rightarrow> string option \<Rightarrow> string" where
  "catalogListPath path page name = path @ ''?''
     @ (case name of None \<Rightarrow> [] | Some n \<Rightarrow> ''name='' @ query_escape n @ ''&'')
     @ ''page='' @ format_int page @ ''&per_page=200''"

text \<open>One page of a list: the answer's items and what its link makes the next page.\<close>

definition do_page :: "do_body cloud \<Rightarrow> (do_body \<Rightarrow> 'a list) \<Rightarrow> string \<Rightarrow> string option \<Rightarrow> int \<Rightarrow> (do_body, (provider_error, 'a list \<times> int option) result) api" where
  "do_page c field path name page = do {
     a \<leftarrow> Do c (GET (catalogListPath path page name));
     State_Monad.return (case a of Inl e \<Rightarrow> Inl e | Inr b \<Rightarrow> map_sum id (\<lambda>p. (field b, p)) (DoNext b)) }"

definition do_pagedList :: "do_body cloud \<Rightarrow> (do_body \<Rightarrow> 'a list) \<Rightarrow> string \<Rightarrow> string option \<Rightarrow> (do_body, (provider_error, 'a list) result) api" where
  "do_pagedList c field path name = read_new_pages (Pages c) (do_page c field path name) [1] [] 1"

definition do_ListFirewalls :: "do_body cloud \<Rightarrow> (do_body, (provider_error, DoFirewall list) result) api" where
  "do_ListFirewalls c = do_pagedList c DoFirewallsOf ''/firewalls'' None"

definition do_GetFirewall :: "do_body cloud \<Rightarrow> string \<Rightarrow> (do_body, (provider_error, DoFirewall) result) api" where
  "do_GetFirewall c i = fetch c DoFirewallOf (GET (do_firewall_path i))"

definition do_DeleteFirewall :: "do_body cloud \<Rightarrow> string \<Rightarrow> (do_body, provider_error option) api" where
  "do_DeleteFirewall c i = exec c (DELETE (do_firewall_path i))"

record DoCreateDropletInput =
  DoInputName :: string
  DoInputRegion :: string
  DoInputSize :: string
  DoInputImage :: string
  DoInputTags :: "string list"
  DoInputUserData :: string

definition do_droplet_payload :: "DoCreateDropletInput \<Rightarrow> (string \<times> json) list" where
  "do_droplet_payload inp =
     [(''image'', JStr (DoInputImage inp)), (''ipv6'', JBool False), (''name'', JStr (DoInputName inp)),
      (''region'', JStr (DoInputRegion inp)), (''size'', JStr (DoInputSize inp)), (''tags'', json_strings (DoInputTags inp))]
     @ (if DoInputUserData inp \<noteq> '''' then [(''user_data'', JStr (DoInputUserData inp))] else [])"

definition CreateDroplet :: "do_body cloud \<Rightarrow> DoCreateDropletInput \<Rightarrow> (do_body, (provider_error, DoDroplet) result) api" where
  "CreateDroplet c inp = fetch c DoDropletOf (POST ''/droplets'' (do_droplet_payload inp))"

definition GetDroplet :: "do_body cloud \<Rightarrow> int \<Rightarrow> (do_body, (provider_error, DoDroplet) result) api" where
  "GetDroplet c i = fetch c DoDropletOf (GET (do_droplet_path i))"

definition FindDropletByName :: "do_body cloud \<Rightarrow> string \<Rightarrow> (do_body, (provider_error, DoDroplet) result) api" where
  "FindDropletByName c name = do {
     a \<leftarrow> do_pagedList c DoDropletsOf ''/droplets'' (Some name);
     State_Monad.return (case a of
       Inl e \<Rightarrow> Inl e
     | Inr droplets \<Rightarrow> (case filter (\<lambda>d. DropletName d = name) droplets of
         [] \<Rightarrow> Inl (ServerMissing name)
       | [d] \<Rightarrow> Inr d
       | _ \<Rightarrow> Inl (ServerAmbiguous name))) }"

definition ListDroplets :: "do_body cloud \<Rightarrow> (do_body, (provider_error, DoDroplet list) result) api" where
  "ListDroplets c = do_pagedList c DoDropletsOf ''/droplets'' None"

definition DeleteDroplet :: "do_body cloud \<Rightarrow> int \<Rightarrow> (do_body, provider_error option) api" where
  "DeleteDroplet c i = exec c (DELETE (do_droplet_path i))"

definition dropletAction :: "do_body cloud \<Rightarrow> int \<Rightarrow> string \<Rightarrow> (do_body, provider_error option) api" where
  "dropletAction c i action = exec c (POST (do_droplet_path i @ ''/actions'') [(''type'', JStr action)])"

section \<open>Records and ownership\<close>

definition digitalocean :: ProviderName where
  "digitalocean = ''digitalocean''"

definition dropletID :: "ServerRecord \<Rightarrow> (provider_error, int) result" where
  "dropletID record = (case parse_int64 (RecordID record) of
     None \<Rightarrow> Inl ServerIdMissing
   | Some i \<Rightarrow> if i = 0 then Inl ServerIdMissing else Inr i)"

definition do_firewallID :: "ServerRecord \<Rightarrow> string \<times> bool" where
  "do_firewallID record =
     (case ManagedResourceID (RecordResources record) ManagedResourceAccessPolicy of
        Some raw \<Rightarrow> (raw, True)
      | None \<Rightarrow> (let raw = gm_str (RecordProviderState record) ''firewall_id'' in (raw, raw \<noteq> '''')))"

definition validateLiveDropletOwnership :: "ServerRecord \<Rightarrow> DoDroplet \<Rightarrow> provider_error option" where
  "validateLiveDropletOwnership record droplet =
     (if RecordName record \<noteq> '''' \<and> DropletName droplet \<noteq> '''' \<and> DropletName droplet \<noteq> RecordName record
      then Some (ServerNameMismatch (DropletName droplet) (RecordName record))
      else map_option LabelsMismatch
        (ValidateLiveLabels (LabelsFromProviderTags (DropletTags droplet)) (RecordNamespace record) (RecordServer record)))"

definition validateLiveFirewallOwnership :: "ServerRecord \<Rightarrow> DoFirewall \<Rightarrow> provider_error option" where
  "validateLiveFirewallOwnership record firewall =
     (if RecordName record = '''' then Some StateServerNameMissing
      else if DoFirewallName firewall \<noteq> policy_name (RecordName record)
      then Some (PolicyNameMismatch (DoFirewallName firewall) (policy_name (RecordName record)))
      else if DoFirewallDroplets firewall \<noteq> [] then Some PolicyAttached
      else if length (DoFirewallTags firewall) \<noteq> 1
        \<or> hd (DoFirewallTags firewall) \<noteq> firewallTargetTag (RecordNamespace record) (RecordServer record) then Some PolicyForeign
      else None)"

fun publicIPv4 :: "(string \<times> string) list \<Rightarrow> string" where
  "publicIPv4 [] = ''''"
| "publicIPv4 ((ip, kind) # networks) = (if kind = ''public'' then ip else publicIPv4 networks)"

definition do_recordFromLive :: "DoDroplet \<Rightarrow> ServerRecord" where
  "do_recordFromLive droplet =
     (let labs = LabelsFromProviderTags (DropletTags droplet) in
      case OwnershipFromLabels labs of (namespace, server, _) \<Rightarrow>
        zero_record\<lparr>Provider := digitalocean, RecordNamespace := namespace, RecordServer := server,
          RecordID := format_int (DropletID droplet), RecordName := DropletName droplet,
          PublicIPv4 := publicIPv4 (DropletV4 droplet), RecordLabels := labs\<rparr>)"

definition do_partial_record :: "CreateServerRequest \<Rightarrow> string \<Rightarrow> ServerRecord" where
  "do_partial_record request firewallID =
     (intended_record digitalocean request firewallID)\<lparr>RecordAccount := AccountName (CreateAccount request)\<rparr>"

definition do_created_record :: "CreateServerRequest \<Rightarrow> DoDroplet \<Rightarrow> string \<Rightarrow> ServerRecord" where
  "do_created_record request droplet firewallID =
     (do_partial_record request firewallID)\<lparr>RecordID := format_int (DropletID droplet), RecordName := DropletName droplet,
        PublicIPv4 := publicIPv4 (DropletV4 droplet)\<rparr>"

section \<open>Create\<close>

definition dropletTagsFromRequest :: "CreateServerRequest \<Rightarrow> string list" where
  "dropletTagsFromRequest request = ProviderTags (intent_labels request)
     @ [firewallTargetTag (IntentNamespace (Intent request)) (IntentServer (Intent request))]"

definition do_input :: "CreateServerRequest \<Rightarrow> DoCreateDropletInput" where
  "do_input request = \<lparr>DoInputName = IntentName (Intent request), DoInputRegion = IntentLocation (Intent request),
     DoInputSize = IntentSize (Intent request), DoInputImage = IntentImage (Intent request),
     DoInputTags = dropletTagsFromRequest request, DoInputUserData = BootstrapData request\<rparr>"

definition validateCheckpointFirewall :: "do_body cloud \<Rightarrow> CreateServerRequest \<Rightarrow> string \<Rightarrow> (do_body, provider_error option) api" where
  "validateCheckpointFirewall c request firewallID = do {
     a \<leftarrow> do_GetFirewall c firewallID;
     State_Monad.return (case a of
       Inl e \<Rightarrow> Some e
     | Inr firewall \<Rightarrow>
         if DoFirewallID firewall \<noteq> firewallID then Some (PolicyIdMismatch (DoFirewallID firewall) firewallID)
         else (case validateLiveFirewallOwnership (do_partial_record request firewallID) firewall of
           Some e \<Rightarrow> Some e
         | None \<Rightarrow> if \<not> firewallRulesMatch (DoInbound firewall) tailscaleInboundRules
                     \<or> \<not> firewallRulesMatch (DoOutbound firewall) allowAllOutboundRules
             then Some UnexpectedRules else None)) }"

text \<open>The identifier comes back with an error too: a recorded firewall stays named when its check fails.\<close>

definition ensureFirewall :: "do_body cloud \<Rightarrow> CreateServerRequest \<Rightarrow> (do_body, string \<times> provider_error option) api" where
  "ensureFirewall c request =
     (case checkpoint_policy ''firewall_id'' request of
        Some raw \<Rightarrow> do { err \<leftarrow> validateCheckpointFirewall c request raw; State_Monad.return (raw, err) }
      | None \<Rightarrow> do {
          err \<leftarrow> EnsureTags c [] (dropletTagsFromRequest request);
          case err of
            Some e \<Rightarrow> State_Monad.return ('''', Some e)
          | None \<Rightarrow> do {
              fw \<leftarrow> do_CreateFirewall c (policy_name (IntentName (Intent request)))
                (firewallTargetTags (IntentNamespace (Intent request)) (IntentServer (Intent request)));
              State_Monad.return (case fw of Inl e \<Rightarrow> ('''', Some e) | Inr f \<Rightarrow> (DoFirewallID f, None)) } })"

definition reconcileCreatedDroplet :: "do_body cloud \<Rightarrow> ServerRecord \<Rightarrow> (do_body, ServerRecord) api" where
  "reconcileCreatedDroplet c record = do {
     a \<leftarrow> FindDropletByName c (RecordName record);
     State_Monad.return (case a of
       Inl _ \<Rightarrow> record
     | Inr droplet \<Rightarrow>
         if validateLiveDropletOwnership record droplet \<noteq> None then record
         else record\<lparr>RecordID := format_int (DropletID droplet), RecordName := DropletName droplet,
                PublicIPv4 := publicIPv4 (DropletV4 droplet),
                RecordLabels := (if DropletTags droplet \<noteq> [] then LabelsFromProviderTags (DropletTags droplet) else RecordLabels record)\<rparr>) }"

definition do_Create :: "do_body cloud \<Rightarrow> CreateServerRequest \<Rightarrow> (do_body, ServerRecord \<times> api_failure option) api" where
  "do_Create c request =
     (if Token (CreateAccount request) = '''' then State_Monad.return (zero_record, Some (Refused CredentialMissing))
      else do {
        p \<leftarrow> ensureFirewall c request;
        case p of
          (firewallID, Some e) \<Rightarrow>
            State_Monad.return (if firewallID \<noteq> '''' then do_partial_record request firewallID else zero_record,
              Some (CallFailed ''provider access policy create failed'' e []))
        | (firewallID, None) \<Rightarrow> do {
            d \<leftarrow> CreateDroplet c (do_input request);
            case d of
              Inl e \<Rightarrow> do {
                record \<leftarrow> reconcileCreatedDroplet c (do_partial_record request firewallID);
                State_Monad.return (record, Some (CallFailed ''provider droplet create failed'' e (BootstrapSecrets (BootstrapData request) []))) }
            | Inr droplet \<Rightarrow> State_Monad.return (do_created_record request droplet firewallID, None) } })"

section \<open>Status, power, list\<close>

definition do_Status :: "do_body cloud \<Rightarrow> ServerRef \<Rightarrow> (do_body, (api_failure, ServerStatus) result) api" where
  "do_Status c ref =
     (let record = RefRecord ref in
      if Token (RefAccount ref) = '''' then State_Monad.return (Inl (Refused CredentialMissing))
      else (case validateRecordProvider record digitalocean of
        Some e \<Rightarrow> State_Monad.return (Inl (Refused e))
      | None \<Rightarrow> (case dropletID record of
          Inl e \<Rightarrow> State_Monad.return (Inl (Refused e))
        | Inr i \<Rightarrow> do {
            a \<leftarrow> GetDroplet c i;
            State_Monad.return (case a of
              Inl e \<Rightarrow> Inl (CallFailed ''provider droplet status failed'' e [])
            | Inr d \<Rightarrow> Inr
                \<lparr>StatusRecord = record\<lparr>RecordID := format_int (DropletID d), RecordName := DropletName d,
                   PublicIPv4 := publicIPv4 (DropletV4 d), PublicIPv6 := '''',
                   RecordLabels := (if DropletTags d \<noteq> [] then LabelsFromProviderTags (DropletTags d) else RecordLabels record)\<rparr>,
                 StatusPower = DropletStatus d, StatusIPv4 = publicIPv4 (DropletV4 d), StatusIPv6 = ''''\<rparr>) })))"

definition do_power_call :: "do_body cloud \<Rightarrow> int \<Rightarrow> PowerAction \<Rightarrow> (do_body, provider_error option) api" where
  "do_power_call c i action =
     (case action of
        PowerStart \<Rightarrow> dropletAction c i ''power_on''
      | PowerStop \<Rightarrow> dropletAction c i ''shutdown''
      | PowerRestart \<Rightarrow> dropletAction c i ''reboot''
      | PowerOther a \<Rightarrow> State_Monad.return (Some (UnsupportedPower a)))"

definition do_Power :: "do_body cloud \<Rightarrow> PowerRequest \<Rightarrow> (do_body, (api_failure, ServerStatus) result) api" where
  "do_Power c request =
     (if Token (PowerAccount request) = '''' then State_Monad.return (Inl (Refused CredentialMissing))
      else (case dropletID (PowerRecord request) of
        Inl e \<Rightarrow> State_Monad.return (Inl (Refused e))
      | Inr i \<Rightarrow> (case validateRecordProvider (PowerRecord request) digitalocean of
          Some e \<Rightarrow> State_Monad.return (Inl (Refused e))
        | None \<Rightarrow> do {
            current \<leftarrow> GetDroplet c i;
            case current of
              Inl e \<Rightarrow> State_Monad.return (Inl (CallFailed ''provider ownership check failed'' e []))
            | Inr d \<Rightarrow> (case validateLiveDropletOwnership (PowerRecord request) d of
                Some e \<Rightarrow> State_Monad.return (Inl (Refused e))
              | None \<Rightarrow> do {
                  p \<leftarrow> do_power_call c i (PowerActionOf request);
                  case p of
                    Some e \<Rightarrow> State_Monad.return (Inl (CallFailed ''provider power action failed'' e []))
                  | None \<Rightarrow> do_Status c \<lparr>RefAccount = PowerAccount request, RefRecord = PowerRecord request\<rparr> }) })))"

definition legacyFirewallTargetsServer :: "ServerRecord \<Rightarrow> DoFirewall \<Rightarrow> bool" where
  "legacyFirewallTargetsServer record firewall \<longleftrightarrow>
     \<not> (RecordName record = '''' \<or> DoFirewallName firewall \<noteq> policy_name (RecordName record) \<or> DoFirewallDroplets firewall \<noteq> [])
     \<and> multisetsMatch (DoFirewallTags firewall)
         (ProviderTags (ProviderLabels (RecordNamespace record) (RecordServer record) (RecordLabels record)))"

definition validateLegacyFirewallImpact :: "ServerRecord \<Rightarrow> DoFirewall \<Rightarrow> bool \<Rightarrow> DoDroplet list \<Rightarrow> provider_error option" where
  "validateLegacyFirewallImpact record firewall dropletExists droplets =
     (if list_ex (\<lambda>d. list_ex (\<lambda>tag. tag \<in> set (DoFirewallTags firewall)) (DropletTags d)
            \<and> (\<not> dropletExists \<or> dropletID record \<noteq> Inr (DropletID d))) droplets
      then Some PolicyForeign else None)"

fun recover_firewalls ::
  "ServerRecord \<Rightarrow> DoDroplet list \<Rightarrow> DoFirewall list \<Rightarrow> provider_error option \<Rightarrow> DoFirewall list \<Rightarrow> provider_error option \<times> DoFirewall list" where
  "recover_firewalls record droplets [] err matches = (err, matches)"
| "recover_firewalls record droplets (f # fs) err matches =
     (if DoFirewallName f \<noteq> policy_name (RecordName record) then recover_firewalls record droplets fs err matches
      else if firewallTargetsServer f (RecordNamespace record) (RecordServer record)
      then recover_firewalls record droplets fs err (matches @ [f])
      else if \<not> legacyFirewallTargetsServer record f then recover_firewalls record droplets fs err matches
      else (case validateLegacyFirewallImpact record f True droplets of
              Some e \<Rightarrow> recover_firewalls record droplets fs (Some e) matches
            | None \<Rightarrow> recover_firewalls record droplets fs err (matches @ [f])))"

definition recoverFirewallID :: "ServerRecord \<Rightarrow> DoFirewall list \<Rightarrow> DoDroplet list \<Rightarrow> (provider_error, string) result" where
  "recoverFirewallID record firewalls droplets =
     (let expected = policy_name (RecordName record) in
      case recover_firewalls record droplets firewalls None [] of
        (Some e, []) \<Rightarrow> Inl e
      | (None, []) \<Rightarrow> Inl (PolicyNotFound expected)
      | (_, [f]) \<Rightarrow> if DoFirewallID f = '''' then Inl (PolicyIdMissing expected) else Inr (DoFirewallID f)
      | _ \<Rightarrow> Inl (PolicyAmbiguous expected))"

definition do_List :: "do_body cloud \<Rightarrow> Account \<Rightarrow> (do_body, (api_failure, ServerRecord list) result) api" where
  "do_List c account =
     (if Token account = '''' then State_Monad.return (Inl (Refused CredentialMissing))
      else do {
        s \<leftarrow> ListDroplets c;
        case s of
          Inl e \<Rightarrow> State_Monad.return (Inl (CallFailed ''provider droplet list failed'' e []))
        | Inr droplets \<Rightarrow>
            (let out = map do_recordFromLive droplets in
             if \<not> list_ex managed_record out then State_Monad.return (Inr out)
             else do {
               f \<leftarrow> do_ListFirewalls c;
               State_Monad.return (case f of
                 Inl e \<Rightarrow> Inl (CallFailed ''provider access policy list failed'' e [])
               | Inr firewalls \<Rightarrow> (case attach_policies (\<lambda>r. recoverFirewallID r firewalls droplets) out of
                   Inl e \<Rightarrow> Inl (CallFailed ''provider access policy recovery failed'' e [])
                 | Inr rs \<Rightarrow> Inr rs)) }) })"

section \<open>Delete\<close>

text \<open>
  The checks of a deletion before its first \<open>DELETE\<close>: what they found (a failure, or whether the
  resource exists).
\<close>

definition check_droplet :: "do_body cloud \<Rightarrow> ServerRecord \<Rightarrow> (provider_error, int) result \<Rightarrow> (do_body, (api_failure, bool) result) api" where
  "check_droplet c record rid =
     (case rid of
        Inl _ \<Rightarrow> State_Monad.return (Inr False)
      | Inr i \<Rightarrow> do {
          a \<leftarrow> GetDroplet c i;
          State_Monad.return (case a of
            Inl e \<Rightarrow> if \<not> IsStatus e StatusNotFound then Inl (CallFailed ''provider ownership check failed'' e []) else Inr False
          | Inr current \<Rightarrow> (case validateLiveDropletOwnership record current of
              Some e \<Rightarrow> Inl (Refused e) | None \<Rightarrow> Inr True)) })"

definition check_legacy_impact :: "do_body cloud \<Rightarrow> ServerRecord \<Rightarrow> DoFirewall \<Rightarrow> bool \<Rightarrow> (do_body, (api_failure, bool) result) api" where
  "check_legacy_impact c record firewall dropletExists = do {
     l \<leftarrow> ListDroplets c;
     State_Monad.return (case l of
       Inl e \<Rightarrow> Inl (CallFailed ''provider legacy access policy impact check failed'' e [])
     | Inr droplets \<Rightarrow> (case validateLegacyFirewallImpact record firewall dropletExists droplets of
         Some e \<Rightarrow> Inl (Refused e) | None \<Rightarrow> Inr True)) }"

definition check_firewall :: "do_body cloud \<Rightarrow> ServerRecord \<Rightarrow> string \<times> bool \<Rightarrow> bool \<Rightarrow> (do_body, (api_failure, bool) result) api" where
  "check_firewall c record policy dropletExists =
     (if \<not> snd policy then State_Monad.return (Inr False)
      else do {
        a \<leftarrow> do_GetFirewall c (fst policy);
        case a of
          Inl e \<Rightarrow> State_Monad.return (if \<not> IsStatus e StatusNotFound
            then Inl (CallFailed ''provider access policy ownership check failed'' e []) else Inr False)
        | Inr firewall \<Rightarrow> (case validateLiveFirewallOwnership record firewall of
            None \<Rightarrow> State_Monad.return (Inr True)
          | Some e \<Rightarrow> if \<not> legacyFirewallTargetsServer record firewall then State_Monad.return (Inl (Refused e))
              else check_legacy_impact c record firewall dropletExists) })"

text \<open>The deletions, each of a resource that exists; one that vanished meanwhile is as good as deleted.\<close>

definition delete_existing :: "do_body cloud \<Rightarrow> bool \<Rightarrow> (do_body, provider_error option) api \<Rightarrow> string \<Rightarrow> (do_body, api_failure option) api" where
  "delete_existing c exists del pre =
     (if \<not> exists then State_Monad.return None
      else do {
        d \<leftarrow> del;
        State_Monad.return (case d of
          Some e \<Rightarrow> if \<not> IsStatus e StatusNotFound then Some (CallFailed pre e []) else None
        | None \<Rightarrow> None) })"

definition do_Delete :: "do_body cloud \<Rightarrow> DeleteServerRequest \<Rightarrow> (do_body, api_failure option) api" where
  "do_Delete c request =
     (let record = DeleteRecord request; policy = do_firewallID record; rid = dropletID record in
      if Token (DeleteAccount request) = '''' then State_Monad.return (Some (Refused CredentialMissing))
      else (case validateRecordProvider record digitalocean of
        Some e \<Rightarrow> State_Monad.return (Some (Refused e))
      | None \<Rightarrow>
          (case (rid, snd policy) of
             (Inl e, False) \<Rightarrow> State_Monad.return (Some (Refused e))
           | _ \<Rightarrow> do {
               d \<leftarrow> check_droplet c record rid;
               case d of
                 Inl r \<Rightarrow> State_Monad.return (Some r)
               | Inr dropletExists \<Rightarrow> do {
                   f \<leftarrow> check_firewall c record policy dropletExists;
                   case f of
                     Inl r \<Rightarrow> State_Monad.return (Some r)
                   | Inr firewallExists \<Rightarrow> do {
                       r \<leftarrow> delete_existing c dropletExists (DeleteDroplet c (case rid of Inr i \<Rightarrow> i | Inl _ \<Rightarrow> 0)) ''provider droplet delete failed'';
                       if r \<noteq> None then State_Monad.return r
                       else delete_existing c firewallExists (do_DeleteFirewall c (fst policy)) ''provider access policy delete failed'' } } })))"

end
