(* ===== verification/Digitalocean_Safety.thy ===== *)
theory Digitalocean_Safety
  imports Digitalocean_Compute Compute_Adapter
begin

text \<open>
  What the DigitalOcean adapter guarantees of a deletion: every check comes before the first
  deletion, so a refusal leaves everything in place; it takes only a Droplet and a firewall that the
  reads show as the record's own; and a firewall of an earlier version, which is attached by ownership
  tags, is deleted only when the whole list of Droplets shows no other Droplet behind it.
\<close>

section \<open>Lists\<close>

abbreviation do_listed :: "(do_body \<Rightarrow> 'a list) \<Rightarrow> string \<Rightarrow> string option \<Rightarrow> do_body trace \<Rightarrow> 'a list \<Rightarrow> bool" where
  "do_listed field path name \<equiv> listed field (\<lambda>b. DoNext b = Inr None) (\<lambda>page. GET (catalogListPath path page name))"

lemma do_page_adds:
  "adds (do_page c field path name page) (page_read field (\<lambda>b. DoNext b = Inr None) (GET (catalogListPath path page name))) h"
proof -
  have "map_sum id (\<lambda>p. (ys, p)) v = Inr (xs, p) \<longleftrightarrow> ys = xs \<and> v = Inr p" for v :: "(provider_error, int option) result" and xs ys p
    by (cases v) auto
  note eq = this
  show ?thesis unfolding do_page_def by (intro adds_Do_bind) (simp_all add: eq page_read_def)
qed

lemma paged_whole:
  "adds (do_pagedList c field path name) (\<lambda>r t. reads_only t \<and> (\<forall>ds. r = Inr ds \<longrightarrow> do_listed field path name t ds)) h"
  unfolding do_pagedList_def by (rule adds_mono [OF read_pages_whole [OF do_page_adds]]) simp

section \<open>Checks\<close>

definition droplet_owned :: "ServerRecord \<Rightarrow> do_body trace \<Rightarrow> int \<Rightarrow> bool" where
  "droplet_owned record u i \<longleftrightarrow> dropletID record = Inr i
     \<and> (\<exists>b. (GET (do_droplet_path i), Inr b) \<in> set u \<and> validateLiveDropletOwnership record (DoDropletOf b) = None)"

definition firewall_owned :: "ServerRecord \<Rightarrow> do_body trace \<Rightarrow> bool" where
  "firewall_owned record u \<longleftrightarrow> snd (do_firewallID record)
     \<and> (\<exists>b. (GET (do_firewall_path (fst (do_firewallID record))), Inr b) \<in> set u
         \<and> (validateLiveFirewallOwnership record (DoFirewallOf b) = None
            \<or> (legacyFirewallTargetsServer record (DoFirewallOf b)
               \<and> (\<exists>ds. do_listed DoDropletsOf ''/droplets'' None u ds \<and> validateLegacyFirewallImpact record (DoFirewallOf b) True ds = None))))"

lemma impact_weaker:
  "validateLegacyFirewallImpact record f ex ds = None \<Longrightarrow> validateLegacyFirewallImpact record f True ds = None"
  by (auto simp: validateLegacyFirewallImpact_def list_ex_iff split: if_splits)

lemma check_droplet_adds:
  "adds (check_droplet c record (dropletID record))
     (\<lambda>r t. reads_only t \<and> (r = Inr True \<longrightarrow> (\<exists>i. droplet_owned record t i))
        \<and> (r = Inr False \<longrightarrow> (\<forall>i. dropletID record = Inr i \<longrightarrow> not_found (GET (do_droplet_path i)) t))) h"
  unfolding check_droplet_def GetDroplet_def
  by (cases "dropletID record")
    (auto intro!: adds_fetch_bind simp: droplet_owned_def not_found_def split: option.splits)

lemma check_firewall_adds:
  "adds (check_firewall c record (do_firewallID record) ex)
     (\<lambda>r t. reads_only t \<and> (r = Inr True \<longrightarrow> firewall_owned record t)
        \<and> (r = Inr False \<longrightarrow> snd (do_firewallID record) \<longrightarrow> not_found (GET (do_firewall_path (fst (do_firewallID record)))) t)) h"
proof -
  let ?q = "GET (do_firewall_path (fst (do_firewallID record)))"
  have legacy: "adds (check_legacy_impact c record (DoFirewallOf b) ex)
      (\<lambda>r t. reads_only t \<and> (r = Inr True \<longrightarrow> firewall_owned record ((?q, Inr b) # t)) \<and> r \<noteq> Inr False) k"
    if targets: "legacyFirewallTargetsServer record (DoFirewallOf b)" "snd (do_firewallID record)" for b k
    unfolding check_legacy_impact_def ListDroplets_def
  proof (rule adds_bind_known [OF paged_whole])
    fix a :: "(provider_error, DoDroplet list) result" and t
    assume *: "reads_only t \<and> (\<forall>ds. a = Inr ds \<longrightarrow> do_listed DoDropletsOf ''/droplets'' None t ds)"
    then have "firewall_owned record ((?q, Inr b) # t)" if "a = Inr ds" "validateLegacyFirewallImpact record (DoFirewallOf b) ex ds = None" for ds
      using that targets
        listed_append(1) [of DoDropletsOf "\<lambda>b. DoNext b = Inr None" "\<lambda>page. GET (catalogListPath ''/droplets'' page None)" t ds "[(?q, Inr b)]"] impact_weaker
      unfolding firewall_owned_def by (intro conjI exI [of _ b] disjI2 exI [of _ ds]) simp_all
    with * show "adds (State_Monad.return (case a of Inl e \<Rightarrow> Inl (CallFailed ''provider legacy access policy impact check failed'' e [])
         | Inr droplets \<Rightarrow> (case validateLegacyFirewallImpact record (DoFirewallOf b) ex droplets of Some e \<Rightarrow> Inl (Refused e) | None \<Rightarrow> Inr True)))
        (\<lambda>r u. reads_only (t @ u) \<and> (r = Inr True \<longrightarrow> firewall_owned record ((?q, Inr b) # t @ u)) \<and> r \<noteq> Inr False) (k @ t)"
      by (auto split: sum.splits option.splits)
  qed
  have legacy': "adds (check_legacy_impact c record (DoFirewallOf b) ex)
      (\<lambda>r t. reads_only t \<and> (r = Inr True \<longrightarrow> firewall_owned record ((?q, Inr b) # t)) \<and> (r = Inr False \<longrightarrow> not_found ?q ((?q, Inr b) # t))) k"
    if "legacyFirewallTargetsServer record (DoFirewallOf b)" "snd (do_firewallID record)" for b k
    by (rule adds_mono [OF legacy [OF that]]) blast
  show ?thesis
    unfolding check_firewall_def do_GetFirewall_def
    using legacy'
    by (auto intro!: adds_fetch_bind simp: not_found_def firewall_owned_def [of _ "[_]"] split: option.splits)
qed

section \<open>Deleting\<close>

definition do_may_delete :: "ServerRecord \<Rightarrow> do_body trace \<Rightarrow> do_body api_call \<Rightarrow> bool" where
  "do_may_delete record u x \<longleftrightarrow> Verb (fst x) = ''GET''
     \<or> (\<exists>i. fst x = DELETE (do_droplet_path i) \<and> droplet_owned record u i)
     \<or> (fst x = DELETE (do_firewall_path (fst (do_firewallID record))) \<and> firewall_owned record u)"

definition do_gone :: "ServerRecord \<Rightarrow> do_body trace \<Rightarrow> bool" where
  "do_gone record t \<longleftrightarrow> (\<forall>i. dropletID record = Inr i \<longrightarrow> resource_gone (do_droplet_path i) t)
     \<and> (snd (do_firewallID record) \<longrightarrow> resource_gone (do_firewall_path (fst (do_firewallID record))) t)"

lemma owned_append:
  "droplet_owned record u i \<Longrightarrow> droplet_owned record (s @ u) i" "droplet_owned record u i \<Longrightarrow> droplet_owned record (u @ s) i"
  "firewall_owned record u \<Longrightarrow> firewall_owned record (s @ u)" "firewall_owned record u \<Longrightarrow> firewall_owned record (u @ s)"
  using listed_append unfolding droplet_owned_def firewall_owned_def by fastforce+

lemma do_may_delete_lasting: "lasting (do_may_delete record)"
  unfolding lasting_def do_may_delete_def using owned_append by blast

lemma do_gone_append: "do_gone record s \<or> do_gone record t \<Longrightarrow> do_gone record (s @ t)"
  using resource_gone_append unfolding do_gone_def by blast

lemma delete_existing_adds:
  "adds (delete_existing c ex (exec c (DELETE p)) pre)
     (\<lambda>r t. (\<forall>x \<in> set t. fst x = DELETE p \<and> ex) \<and> length t \<le> 1 \<and> (r = None \<longrightarrow> ex \<longrightarrow> resource_gone p t)) h"
  unfolding delete_existing_def
  by (auto intro!: adds_exec_bind simp: resource_gone_def not_found_def split: if_splits)

text \<open>Reads first, then deletions: the checks of the code stand before its first deletion.\<close>

definition checked_first :: "'r trace \<Rightarrow> bool" where
  "checked_first t \<longleftrightarrow> (\<exists>s u. t = s @ u \<and> reads_only s \<and> (\<forall>x \<in> set u. Verb (fst x) = ''DELETE''))"

lemma licensed_deletions:
  assumes "lasting ok" "\<And>u x. Verb (fst x) = ''GET'' \<Longrightarrow> ok u x" "reads_only s"
    and "\<forall>x \<in> set u. ok s x" "\<And>v x. ok s x \<Longrightarrow> ok (s @ v) x"
  shows "licensed ok (s @ u)"
  using assms(4)
proof (induction u rule: rev_induct)
  case Nil
  then show ?case using assms(2,3) licensed_reads [of s ok] by (simp add: reads_only_def)
next
  case (snoc x u)
  then have "licensed ok (s @ u)" "ok (s @ u) x" using assms(5) by simp_all
  then show ?case by (simp flip: append_assoc)
qed

text \<open>The deletions of what the checks \<open>s\<close> found.\<close>

lemma delete_both:
  assumes s: "reads_only s" "ex \<longrightarrow> (\<exists>i. droplet_owned record s i)"
      "\<not> ex \<longrightarrow> (\<forall>i. dropletID record = Inr i \<longrightarrow> not_found (GET (do_droplet_path i)) s)"
      "fex \<longrightarrow> firewall_owned record s"
      "\<not> fex \<longrightarrow> snd (do_firewallID record) \<longrightarrow> not_found (GET (do_firewall_path (fst (do_firewallID record)))) s"
  shows "adds (do {
      r \<leftarrow> delete_existing c ex (DeleteDroplet c (case dropletID record of Inr i \<Rightarrow> i | Inl _ \<Rightarrow> 0)) p1;
      if r \<noteq> None then State_Monad.return r
      else delete_existing c fex (do_DeleteFirewall c (fst (do_firewallID record))) p2 })
    (\<lambda>r t. licensed (do_may_delete record) (s @ t) \<and> checked_first (s @ t) \<and> (r = None \<longrightarrow> do_gone record (s @ t))) h"
proof -
  let ?i = "case dropletID record of Inr i \<Rightarrow> i | Inl _ \<Rightarrow> 0"
  let ?d = "DELETE (do_droplet_path ?i)" and ?f = "DELETE (do_firewall_path (fst (do_firewallID record)))"
  have droplet: "do_may_delete record s (?d, a)" if "ex" for a
    using s(2) that by (auto simp: do_may_delete_def droplet_owned_def)
  have firewall: "do_may_delete record s (?f, a)" if "fex" for a
    using s(4) that by (simp add: do_may_delete_def)
  have ok: "licensed (do_may_delete record) (s @ u) \<and> checked_first (s @ u)"
    if "\<forall>x \<in> set u. fst x = ?d \<and> ex \<or> fst x = ?f \<and> fex" for u
  proof
    have "\<forall>x \<in> set u. do_may_delete record s x" using that droplet firewall by (metis prod.collapse)
    then show "licensed (do_may_delete record) (s @ u)"
      using licensed_deletions [OF do_may_delete_lasting _ s(1)] owned_append
      by (simp add: do_may_delete_def) blast
    show "checked_first (s @ u)" unfolding checked_first_def
      by (rule exI [of _ s], rule exI [of _ u]) (use s(1) that in force)
  qed
  have gone: "do_gone record (s @ u)"
    if "ex \<longrightarrow> resource_gone (do_droplet_path ?i) u" "fex \<longrightarrow> resource_gone (do_firewall_path (fst (do_firewallID record))) u" for u
    using s(3,5) that resource_gone_append [of _ s u] not_found_append [of _ s u]
    unfolding do_gone_def by (cases ex; cases fex) (auto simp: resource_gone_def)
  show ?thesis
    unfolding DeleteDroplet_def do_DeleteFirewall_def
  proof (rule adds_bind_known [OF delete_existing_adds])
    fix r :: "api_failure option" and t :: "do_body trace"
    assume t: "(\<forall>x \<in> set t. fst x = ?d \<and> ex) \<and> length t \<le> 1 \<and> (r = None \<longrightarrow> ex \<longrightarrow> resource_gone (do_droplet_path ?i) t)"
    show "adds (if r \<noteq> None then State_Monad.return r else delete_existing c fex (exec c ?f) p2)
      (\<lambda>r u. licensed (do_may_delete record) (s @ t @ u) \<and> checked_first (s @ t @ u) \<and> (r = None \<longrightarrow> do_gone record (s @ t @ u))) (h @ t)"
    proof (cases r)
      case None
      have "adds (delete_existing c fex (exec c ?f) p2)
        (\<lambda>r u. licensed (do_may_delete record) (s @ t @ u) \<and> checked_first (s @ t @ u) \<and> (r = None \<longrightarrow> do_gone record (s @ t @ u))) (h @ t)"
      proof (rule adds_mono [OF delete_existing_adds])
        fix r' :: "api_failure option" and u :: "do_body trace"
        assume u: "(\<forall>x \<in> set u. fst x = ?f \<and> fex) \<and> length u \<le> 1
          \<and> (r' = None \<longrightarrow> fex \<longrightarrow> resource_gone (do_firewall_path (fst (do_firewallID record))) u)"
        have "licensed (do_may_delete record) (s @ t @ u) \<and> checked_first (s @ t @ u)" by (rule ok) (use t u in auto)
        moreover have "r' = None \<longrightarrow> do_gone record (s @ t @ u)"
          using gone [of "t @ u"] t u None resource_gone_append [of _ t u] by blast
        ultimately show "licensed (do_may_delete record) (s @ t @ u) \<and> checked_first (s @ t @ u) \<and> (r' = None \<longrightarrow> do_gone record (s @ t @ u))"
          by blast
      qed
      then show ?thesis using None by simp
    next
      case (Some e)
      with ok [of t] t show ?thesis by simp
    qed
  qed
qed

lemma delete_digitalocean:
  "adds (do_Delete c request)
     (\<lambda>r t. (licensed (do_may_delete (DeleteRecord request)) t \<and> checked_first t)
        \<and> (r = None \<longrightarrow> do_gone (DeleteRecord request) t)
        \<and> (Token (DeleteAccount request) = '''' \<or> Provider (DeleteRecord request) \<noteq> digitalocean \<longrightarrow> t = [] \<and> r \<noteq> None)) h"
proof (cases "Token (DeleteAccount request) = '''' \<or> Provider (DeleteRecord request) \<noteq> digitalocean
    \<or> (\<exists>e. dropletID (DeleteRecord request) = Inl e) \<and> \<not> snd (do_firewallID (DeleteRecord request))")
  case True
  have "checked_first []" by (simp add: checked_first_def)
  with True show ?thesis
    by (auto simp: do_Delete_def Let_def validateRecordProvider_def ValidateRecordProvider_def split: sum.split)
next
  case False
  let ?rec = "DeleteRecord request"
  have reads: "licensed (do_may_delete ?rec) s \<and> checked_first s" if "reads_only s" for s
    using that licensed_reads [of s "do_may_delete ?rec"]
    unfolding checked_first_def
    by (intro conjI exI [of _ s] exI [of _ "[]"]) (simp_all add: reads_only_def do_may_delete_def)
  have run: "do_Delete c request = do {
      d \<leftarrow> check_droplet c ?rec (dropletID ?rec);
      case d of
        Inl r \<Rightarrow> State_Monad.return (Some r)
      | Inr dropletExists \<Rightarrow> do {
          f \<leftarrow> check_firewall c ?rec (do_firewallID ?rec) dropletExists;
          case f of
            Inl r \<Rightarrow> State_Monad.return (Some r)
          | Inr firewallExists \<Rightarrow> do {
              r \<leftarrow> delete_existing c dropletExists (DeleteDroplet c (case dropletID ?rec of Inr i \<Rightarrow> i | Inl _ \<Rightarrow> 0)) ''provider droplet delete failed'';
              if r \<noteq> None then State_Monad.return r
              else delete_existing c firewallExists (do_DeleteFirewall c (fst (do_firewallID ?rec))) ''provider access policy delete failed'' } } }"
    using False unfolding do_Delete_def Let_def validateRecordProvider_def ValidateRecordProvider_def
    by (cases "dropletID ?rec"; cases "snd (do_firewallID ?rec)") simp_all
  have "adds (do_Delete c request) (\<lambda>r t. (licensed (do_may_delete ?rec) t \<and> checked_first t) \<and> (r = None \<longrightarrow> do_gone ?rec t)) h"
    unfolding run
  proof (rule adds_bind_known [OF check_droplet_adds])
    fix d :: "(api_failure, bool) result" and t :: "do_body trace"
    assume d: "reads_only t \<and> (d = Inr True \<longrightarrow> (\<exists>i. droplet_owned ?rec t i))
        \<and> (d = Inr False \<longrightarrow> (\<forall>i. dropletID ?rec = Inr i \<longrightarrow> not_found (GET (do_droplet_path i)) t))"
    have rest: "adds (do {
          f \<leftarrow> check_firewall c ?rec (do_firewallID ?rec) ex;
          case f of
            Inl r \<Rightarrow> State_Monad.return (Some r)
          | Inr firewallExists \<Rightarrow> do {
              r \<leftarrow> delete_existing c ex (DeleteDroplet c (case dropletID ?rec of Inr i \<Rightarrow> i | Inl _ \<Rightarrow> 0)) ''provider droplet delete failed'';
              if r \<noteq> None then State_Monad.return r
              else delete_existing c firewallExists (do_DeleteFirewall c (fst (do_firewallID ?rec))) ''provider access policy delete failed'' } })
        (\<lambda>r u. (licensed (do_may_delete ?rec) (t @ u) \<and> checked_first (t @ u)) \<and> (r = None \<longrightarrow> do_gone ?rec (t @ u))) (h @ t)"
      if "d = Inr ex" for ex
    proof (rule adds_bind_known [OF check_firewall_adds])
      fix f :: "(api_failure, bool) result" and u :: "do_body trace"
      assume f: "reads_only u \<and> (f = Inr True \<longrightarrow> firewall_owned ?rec u)
        \<and> (f = Inr False \<longrightarrow> snd (do_firewallID ?rec) \<longrightarrow> not_found (GET (do_firewall_path (fst (do_firewallID ?rec)))) u)"
      have both: "adds (do {
              r \<leftarrow> delete_existing c ex (DeleteDroplet c (case dropletID ?rec of Inr i \<Rightarrow> i | Inl _ \<Rightarrow> 0)) ''provider droplet delete failed'';
              if r \<noteq> None then State_Monad.return r
              else delete_existing c fex (do_DeleteFirewall c (fst (do_firewallID ?rec))) ''provider access policy delete failed'' })
          (\<lambda>r v. licensed (do_may_delete ?rec) ((t @ u) @ v) \<and> checked_first ((t @ u) @ v) \<and> (r = None \<longrightarrow> do_gone ?rec ((t @ u) @ v))) ((h @ t) @ u)"
        if "f = Inr fex" for fex
      proof (rule delete_both)
        show "reads_only (t @ u)" using d f by simp
        show "ex \<longrightarrow> (\<exists>i. droplet_owned ?rec (t @ u) i)"
          using d \<open>d = Inr ex\<close> owned_append(2) by (cases ex) blast+
        show "\<not> ex \<longrightarrow> (\<forall>i. dropletID ?rec = Inr i \<longrightarrow> not_found (GET (do_droplet_path i)) (t @ u))"
          using d \<open>d = Inr ex\<close> not_found_append by (cases ex) blast+
        show "fex \<longrightarrow> firewall_owned ?rec (t @ u)" using f that owned_append(3) by (cases fex) blast+
        show "\<not> fex \<longrightarrow> snd (do_firewallID ?rec) \<longrightarrow> not_found (GET (do_firewall_path (fst (do_firewallID ?rec)))) (t @ u)"
          using f that not_found_append by (cases fex) blast+
      qed
      show "adds (case f of
            Inl r \<Rightarrow> State_Monad.return (Some r)
          | Inr firewallExists \<Rightarrow> do {
              r \<leftarrow> delete_existing c ex (DeleteDroplet c (case dropletID ?rec of Inr i \<Rightarrow> i | Inl _ \<Rightarrow> 0)) ''provider droplet delete failed'';
              if r \<noteq> None then State_Monad.return r
              else delete_existing c firewallExists (do_DeleteFirewall c (fst (do_firewallID ?rec))) ''provider access policy delete failed'' })
          (\<lambda>r v. (licensed (do_may_delete ?rec) (t @ u @ v) \<and> checked_first (t @ u @ v)) \<and> (r = None \<longrightarrow> do_gone ?rec (t @ u @ v))) ((h @ t) @ u)"
      proof (cases f)
        case (Inl r)
        then show ?thesis using reads [of "t @ u"] d f by simp
      next
        case (Inr fex)
        then show ?thesis unfolding Inr sum.case using adds_mono [OF both [OF Inr]] by simp
      qed
    qed
    show "adds (case d of
        Inl r \<Rightarrow> State_Monad.return (Some r)
      | Inr dropletExists \<Rightarrow> do {
          f \<leftarrow> check_firewall c ?rec (do_firewallID ?rec) dropletExists;
          case f of
            Inl r \<Rightarrow> State_Monad.return (Some r)
          | Inr firewallExists \<Rightarrow> do {
              r \<leftarrow> delete_existing c dropletExists (DeleteDroplet c (case dropletID ?rec of Inr i \<Rightarrow> i | Inl _ \<Rightarrow> 0)) ''provider droplet delete failed'';
              if r \<noteq> None then State_Monad.return r
              else delete_existing c firewallExists (do_DeleteFirewall c (fst (do_firewallID ?rec))) ''provider access policy delete failed'' } })
        (\<lambda>r u. (licensed (do_may_delete ?rec) (t @ u) \<and> checked_first (t @ u)) \<and> (r = None \<longrightarrow> do_gone ?rec (t @ u))) (h @ t)"
    proof (cases d)
      case (Inl r)
      then show ?thesis using reads [of t] d by simp
    next
      case (Inr ex)
      show ?thesis unfolding Inr sum.case by (rule rest [OF Inr])
    qed
  qed
  then show ?thesis using False by (auto elim: adds_mono)
qed

section \<open>The contract\<close>

interpretation digitalocean_adapter: compute_adapter do_Delete digitalocean
    do_may_delete do_gone
proof unfold_locales
  show "lasting (do_may_delete rec)" for rec by (rule do_may_delete_lasting)
  show "do_gone rec s \<or> do_gone rec t \<Longrightarrow> do_gone rec (s @ t)" for rec s t by (rule do_gone_append)
  show "adds (do_Delete c request)
      (\<lambda>r t. licensed (do_may_delete (DeleteRecord request)) t \<and> (r = None \<longrightarrow> do_gone (DeleteRecord request) t)
        \<and> (Token (DeleteAccount request) = '''' \<or> Provider (DeleteRecord request) \<noteq> digitalocean \<longrightarrow> t = [] \<and> r \<noteq> None)) h" for c request h
    by (rule adds_mono [OF delete_digitalocean]) blast
qed


text \<open>
  C12. A deletion on DigitalOcean makes every check before its first deletion, so a refusal leaves all in
  place. It deletes only a Droplet that a read shows as the record's own, and only a firewall that is
  attached by the server's own tag alone, or one of an earlier version behind which the whole list of
  Droplets shows no other Droplet. It passes only when every resource the record names is gone.
\<close>

theorem digitalocean_delete_checked:
  assumes "run_state (do_Delete c request) h = (r, h')"
  shows "\<exists>t. h' = h @ t \<and> licensed (do_may_delete (DeleteRecord request)) t \<and> checked_first t
    \<and> (r = None \<longrightarrow> do_gone (DeleteRecord request) t)
    \<and> (Token (DeleteAccount request) = '''' \<or> Provider (DeleteRecord request) \<noteq> digitalocean \<longrightarrow> t = [] \<and> r \<noteq> None)"
  using adds_run [OF delete_digitalocean assms] by auto

text \<open>
  A firewall of an earlier version, attached by the ownership tags: the list of Droplets comes in two
  pages, the firewall vanishes before its deletion.
\<close>

definition sample_do_record :: ServerRecord where
  "sample_do_record = zero_record\<lparr>Provider := digitalocean, RecordNamespace := ''prod'', RecordServer := ''web'', RecordID := ''42'',
     RecordName := ''prod-web'', RecordResources := [\<lparr>Kind = ManagedResourceAccessPolicy, ResourceID = ''f7''\<rparr>]\<rparr>"

definition sample_do_delete :: DeleteServerRequest where
  "sample_do_delete = \<lparr>DeleteAccount = \<lparr>AccountName = ''prod'', AccountProvider = ''digitalocean'', Token = ''t'', Scope = ''''\<rparr>, DeleteRecord = sample_do_record\<rparr>"

definition sample_do_cloud :: "do_body cloud" where
  "sample_do_cloud = (let tags = ProviderTags (ConfigLabels ''prod'' ''web'' []);
      d = \<lparr>DropletID = 42, DropletName = ''prod-web'', DropletStatus = ''active'', DropletV4 = [], DropletTags = tags\<rparr>;
      f = \<lparr>DoFirewallID = ''f7'', DoFirewallName = policy_name ''prod-web'', DoFirewallTags = tags, DoFirewallDroplets = [], DoInbound = [], DoOutbound = []\<rparr>;
      b = \<lparr>DoDropletOf = d, DoDropletsOf = [d\<lparr>DropletID := 41, DropletTags := []\<rparr>], DoFirewallOf = f, DoFirewallsOf = [], DoNext = Inr (Some 2)\<rparr>
     in \<lparr>Answer = (\<lambda>h q. if Path q = catalogListPath ''/droplets'' 2 None then Inr (b\<lparr>DoDropletsOf := [d], DoNext := Inr None\<rparr>)
            else if Path q = do_firewall_path ''f7'' \<and> Verb q = ''DELETE'' then Inl (StatusError 404 ''gone'') else Inr b), Polls = 1, Pages = 3\<rparr>)"

theorem digitalocean_delete_checked_witness:
  "\<exists>t. snd (run_state (do_Delete sample_do_cloud sample_do_delete) []) = t
    \<and> map (Verb \<circ> fst) t = [''GET'', ''GET'', ''GET'', ''GET'', ''DELETE'', ''DELETE'']
    \<and> licensed (do_may_delete sample_do_record) t \<and> checked_first t \<and> do_gone sample_do_record t"
proof -
  obtain r h' where run: "run_state (do_Delete sample_do_cloud sample_do_delete) [] = (r, h')" by (metis prod.exhaust)
  have "fst (run_state (do_Delete sample_do_cloud sample_do_delete) []) = None
    \<and> map (Verb \<circ> fst) (snd (run_state (do_Delete sample_do_cloud sample_do_delete) [])) = [''GET'', ''GET'', ''GET'', ''GET'', ''DELETE'', ''DELETE'']"
    by code_simp
  moreover have "DeleteRecord sample_do_delete = sample_do_record" by (simp add: sample_do_delete_def)
  ultimately show ?thesis using digitalocean_delete_checked [OF run] run by auto
qed


end
