(* ===== verification/Vultr_Compute.thy ===== *)
theory Vultr_Compute
  imports Hetzner_Compute
begin

text \<open>
  The Vultr adapter (internal/provider/vultr): API client, firewall rules, and the operations on
  instances. Identifiers are strings. A firewall group carries no label, so its description is all that
  shows whose it is; it is attached by the instance that names it.
\<close>

section \<open>Types\<close>

record VuInstance =
  InstanceID :: string
  InstanceLabel :: string
  InstanceRegion :: string
  InstancePlan :: string
  InstanceOS :: int
  InstancePower :: string
  InstanceIP :: string
  InstanceTags :: "string list"
  InstanceGroup :: string

record VuGroup =
  GroupID :: string
  GroupDescription :: string
  GroupInstances :: int

record VuRule =
  LiveAction :: string
  LiveIPType :: string
  LiveProtocol :: string
  LivePort :: string
  LiveSubnet :: string
  LiveSubnetSize :: int
  LiveSource :: string

record VuRuleInput =
  RuleIPType :: string
  RuleProto :: string
  RulePort :: string
  RuleSubnet :: string
  RuleSubnetSize :: int
  RuleNotes :: string

record vu_body =
  VuInstanceOf :: VuInstance
  VuInstancesOf :: "VuInstance list"
  VuGroupOf :: VuGroup
  VuRulesOf :: "VuRule list"
  VuNext :: string

section \<open>The client\<close>

definition vu_group_path :: "string \<Rightarrow> string" where
  "vu_group_path i = ''/firewalls/'' @ i"

definition vu_rules_path :: "string \<Rightarrow> string" where
  "vu_rules_path i = vu_group_path i @ ''/rules''"

definition vu_instance_path :: "string \<Rightarrow> string" where
  "vu_instance_path i = ''/instances/'' @ i"

definition CreateFirewallGroup :: "vu_body cloud \<Rightarrow> string \<Rightarrow> (vu_body, (provider_error, VuGroup) result) api" where
  "CreateFirewallGroup c name = fetch c VuGroupOf (POST ''/firewalls'' [(''description'', JStr name)])"

definition GetFirewallGroup :: "vu_body cloud \<Rightarrow> string \<Rightarrow> (vu_body, (provider_error, VuGroup) result) api" where
  "GetFirewallGroup c i = fetch c VuGroupOf (GET (vu_group_path i))"

definition DeleteFirewallGroup :: "vu_body cloud \<Rightarrow> string \<Rightarrow> (vu_body, provider_error option) api" where
  "DeleteFirewallGroup c i = exec c (DELETE (vu_group_path i))"

text \<open>The members of a rule's payload in the order that \<open>encoding/json\<close> writes them.\<close>

definition vu_rule_payload :: "VuRuleInput \<Rightarrow> (string \<times> json) list" where
  "vu_rule_payload r =
     [(''ip_type'', JStr (RuleIPType r))]
     @ (if RuleNotes r \<noteq> '''' then [(''notes'', JStr (RuleNotes r))] else [])
     @ (if RulePort r \<noteq> '''' then [(''port'', JStr (RulePort r))] else [])
     @ [(''protocol'', JStr (RuleProto r)), (''subnet'', JStr (RuleSubnet r)), (''subnet_size'', JNum (format_int (RuleSubnetSize r)))]"

definition CreateFirewallRule :: "vu_body cloud \<Rightarrow> string \<Rightarrow> VuRuleInput \<Rightarrow> (vu_body, provider_error option) api" where
  "CreateFirewallRule c i r = exec c (POST (vu_rules_path i) (vu_rule_payload r))"

definition vu_listPath :: "string \<Rightarrow> string \<Rightarrow> string" where
  "vu_listPath path cursor = path @ ''?'' @ (if cursor \<noteq> '''' then ''cursor='' @ query_escape cursor @ ''&'' else '''') @ ''per_page=50''"

definition vu_pagedList :: "vu_body cloud \<Rightarrow> (vu_body \<Rightarrow> 'a list) \<Rightarrow> string \<Rightarrow> (vu_body, (provider_error, 'a list) result) api" where
  "vu_pagedList c field path = read_new_pages (Pages c)
     (\<lambda>cursor. fetch c (\<lambda>b. (field b, if VuNext b = '''' then None else Some (VuNext b))) (GET (vu_listPath path cursor))) [] [] ''''"

definition ListFirewallRules :: "vu_body cloud \<Rightarrow> string \<Rightarrow> (vu_body, (provider_error, VuRule list) result) api" where
  "ListFirewallRules c i = vu_pagedList c VuRulesOf (vu_rules_path i)"

text \<open>\<open>encodeUserData\<close>: base64 in the standard alphabet, padded.\<close>

definition std_char :: "nat \<Rightarrow> char" where
  "std_char n = (if n = 62 then CHR ''+'' else if n = 63 then CHR ''/'' else b64_char n)"

definition encodeUserData :: "string \<Rightarrow> string" where
  "encodeUserData s = map std_char (b64_sextets (map of_char s)) @ replicate ((3 - length s mod 3) mod 3) CHR ''=''"

record VuCreateInput =
  VuRegion :: string
  VuPlan :: string
  VuOSID :: int
  VuLabel :: string
  VuHostname :: string
  VuTags :: "string list"
  VuGroupID :: string
  VuUserData :: string

definition vu_instance_payload :: "VuCreateInput \<Rightarrow> (string \<times> json) list" where
  "vu_instance_payload inp =
     [(''enable_ipv6'', JBool False)]
     @ (if VuGroupID inp \<noteq> '''' then [(''firewall_group_id'', JStr (VuGroupID inp))] else [])
     @ [(''hostname'', JStr (VuHostname inp)), (''label'', JStr (VuLabel inp)), (''os_id'', JNum (format_int (VuOSID inp))),
        (''plan'', JStr (VuPlan inp)), (''region'', JStr (VuRegion inp)), (''tags'', JArr (map JStr (VuTags inp)))]
     @ (if VuUserData inp \<noteq> '''' then [(''user_data'', JStr (encodeUserData (VuUserData inp)))] else [])"

definition CreateInstance :: "vu_body cloud \<Rightarrow> VuCreateInput \<Rightarrow> (vu_body, (provider_error, VuInstance) result) api" where
  "CreateInstance c inp = fetch c VuInstanceOf (POST ''/instances'' (vu_instance_payload inp))"

definition GetInstance :: "vu_body cloud \<Rightarrow> string \<Rightarrow> (vu_body, (provider_error, VuInstance) result) api" where
  "GetInstance c i = fetch c VuInstanceOf (GET (vu_instance_path i))"

definition FindInstanceByLabel :: "vu_body cloud \<Rightarrow> string \<Rightarrow> (vu_body, (provider_error, VuInstance) result) api" where
  "FindInstanceByLabel c label = do {
     a \<leftarrow> fetch c VuInstancesOf (GET (''/instances?label='' @ query_escape label));
     State_Monad.return (case a of
       Inl e \<Rightarrow> Inl e
     | Inr instances \<Rightarrow> (case filter (\<lambda>i. InstanceLabel i = label) instances of
         [] \<Rightarrow> Inl (ServerMissing label)
       | [i] \<Rightarrow> Inr i
       | _ \<Rightarrow> Inl (ServerAmbiguous label))) }"

definition ListInstances :: "vu_body cloud \<Rightarrow> (vu_body, (provider_error, VuInstance list) result) api" where
  "ListInstances c = vu_pagedList c VuInstancesOf ''/instances''"

definition DeleteInstance :: "vu_body cloud \<Rightarrow> string \<Rightarrow> (vu_body, provider_error option) api" where
  "DeleteInstance c i = exec c (DELETE (vu_instance_path i))"

definition instanceAction :: "vu_body cloud \<Rightarrow> string \<Rightarrow> string \<Rightarrow> (vu_body, provider_error option) api" where
  "instanceAction c i action = exec c (POST_empty (vu_instance_path i @ ''/'' @ action))"

section \<open>Records and ownership\<close>

definition vultr :: ProviderName where
  "vultr = ''vultr''"

definition osIDFromImage :: "string \<Rightarrow> (provider_error, int) result" where
  "osIDFromImage img = (case parse_int64 img of
     None \<Rightarrow> Inl ImageIdMissing
   | Some i \<Rightarrow> if i = 0 then Inl ImageIdMissing else Inr i)"

definition instanceID :: "ServerRecord \<Rightarrow> (provider_error, string) result" where
  "instanceID record = (if RecordID record = '''' then Inl ServerIdMissing else Inr (RecordID record))"

definition firewallGroupID :: "ServerRecord \<Rightarrow> string \<times> bool" where
  "firewallGroupID record =
     (case ManagedResourceID (RecordResources record) ManagedResourceAccessPolicy of
        Some raw \<Rightarrow> (raw, True)
      | None \<Rightarrow> (let raw = gm_str (RecordProviderState record) ''firewall_group_id'' in (raw, raw \<noteq> '''')))"

definition validateLiveInstanceOwnership :: "ServerRecord \<Rightarrow> VuInstance \<Rightarrow> provider_error option" where
  "validateLiveInstanceOwnership record inst =
     (if RecordName record \<noteq> '''' \<and> InstanceLabel inst \<noteq> '''' \<and> InstanceLabel inst \<noteq> RecordName record
      then Some (ServerNameMismatch (InstanceLabel inst) (RecordName record))
      else map_option LabelsMismatch
        (ValidateLiveLabels (LabelsFromProviderTags (InstanceTags inst)) (RecordNamespace record) (RecordServer record)))"

definition validateLiveFirewallGroupOwnership :: "ServerRecord \<Rightarrow> VuGroup \<Rightarrow> provider_error option" where
  "validateLiveFirewallGroupOwnership record fw =
     (if RecordName record = '''' then Some StateServerNameMissing
      else if GroupDescription fw \<noteq> policy_name (RecordName record)
      then Some (PolicyNameMismatch (GroupDescription fw) (policy_name (RecordName record)))
      else None)"

definition vu_partial_record :: "CreateServerRequest \<Rightarrow> string \<Rightarrow> ServerRecord" where
  "vu_partial_record request groupID = intended_record vultr request groupID"

definition vu_created_record :: "CreateServerRequest \<Rightarrow> VuInstance \<Rightarrow> string \<Rightarrow> ServerRecord" where
  "vu_created_record request inst groupID =
     (vu_partial_record request groupID)\<lparr>RecordID := InstanceID inst, RecordName := InstanceLabel inst, PublicIPv4 := InstanceIP inst\<rparr>"

definition vu_recordFromLive :: "VuInstance \<Rightarrow> ServerRecord" where
  "vu_recordFromLive inst =
     (let labs = LabelsFromProviderTags (InstanceTags inst) in
      case OwnershipFromLabels labs of (namespace, server, _) \<Rightarrow>
        zero_record\<lparr>Provider := vultr, RecordNamespace := namespace, RecordServer := server,
          RecordID := InstanceID inst, RecordName := InstanceLabel inst, RecordLocation := InstanceRegion inst,
          RecordSize := InstancePlan inst, RecordImage := format_int (InstanceOS inst), PublicIPv4 := InstanceIP inst,
          RecordLabels := labs,
          RecordResources := (if InstanceGroup inst \<noteq> '''' then [\<lparr>Kind = ManagedResourceAccessPolicy, ResourceID = InstanceGroup inst\<rparr>] else [])\<rparr>)"

section \<open>Create\<close>

definition requiredFirewallRules :: "VuRuleInput list" where
  "requiredFirewallRules =
     [\<lparr>RuleIPType = ''v4'', RuleProto = ''udp'', RulePort = ''41641'', RuleSubnet = ''0.0.0.0'', RuleSubnetSize = 0, RuleNotes = ''tailscale wireguard''\<rparr>,
      \<lparr>RuleIPType = ''v6'', RuleProto = ''udp'', RulePort = ''41641'', RuleSubnet = ''::'', RuleSubnetSize = 0, RuleNotes = ''tailscale wireguard''\<rparr>,
      \<lparr>RuleIPType = ''v4'', RuleProto = ''udp'', RulePort = ''3478'', RuleSubnet = ''0.0.0.0'', RuleSubnetSize = 0, RuleNotes = ''tailscale stun''\<rparr>,
      \<lparr>RuleIPType = ''v6'', RuleProto = ''udp'', RulePort = ''3478'', RuleSubnet = ''::'', RuleSubnetSize = 0, RuleNotes = ''tailscale stun''\<rparr>]"

definition vu_firewallRuleMatches :: "VuRule \<Rightarrow> VuRuleInput \<Rightarrow> bool" where
  "vu_firewallRuleMatches live required \<longleftrightarrow> LiveAction live = ''accept'' \<and> LiveIPType live = RuleIPType required
     \<and> LiveProtocol live = RuleProto required \<and> LivePort live = RulePort required \<and> LiveSubnet live = RuleSubnet required
     \<and> LiveSubnetSize live = RuleSubnetSize required \<and> LiveSource live = ''''"

definition firewallRuleIsRequired :: "VuRule \<Rightarrow> VuRuleInput list \<Rightarrow> bool" where
  "firewallRuleIsRequired live requiredRules \<longleftrightarrow> list_ex (vu_firewallRuleMatches live) requiredRules"

fun create_missing_rules :: "vu_body cloud \<Rightarrow> string \<Rightarrow> VuRule list \<Rightarrow> VuRuleInput list \<Rightarrow> (vu_body, provider_error option) api" where
  "create_missing_rules c groupID existing [] = State_Monad.return None"
| "create_missing_rules c groupID existing (required # rs) =
     (if list_ex (\<lambda>live. vu_firewallRuleMatches live required) existing then create_missing_rules c groupID existing rs
      else do {
        err \<leftarrow> CreateFirewallRule c groupID required;
        if err \<noteq> None then State_Monad.return err else create_missing_rules c groupID existing rs })"

definition ensureFirewallRules :: "vu_body cloud \<Rightarrow> string \<Rightarrow> (vu_body, provider_error option) api" where
  "ensureFirewallRules c groupID = do {
     a \<leftarrow> ListFirewallRules c groupID;
     case a of
       Inl e \<Rightarrow> State_Monad.return (Some e)
     | Inr existing \<Rightarrow>
         if \<not> list_all (\<lambda>live. firewallRuleIsRequired live requiredFirewallRules) existing then State_Monad.return (Some UnexpectedRules)
         else create_missing_rules c groupID existing requiredFirewallRules }"

definition validateCheckpointFirewallGroup :: "vu_body cloud \<Rightarrow> CreateServerRequest \<Rightarrow> string \<Rightarrow> (vu_body, provider_error option) api" where
  "validateCheckpointFirewallGroup c request groupID = do {
     a \<leftarrow> GetFirewallGroup c groupID;
     case a of
       Inl e \<Rightarrow> State_Monad.return (Some e)
     | Inr fw \<Rightarrow>
         if GroupID fw \<noteq> groupID then State_Monad.return (Some (PolicyIdMismatch (GroupID fw) groupID))
         else (case validateLiveFirewallGroupOwnership (vu_partial_record request groupID) fw of
           Some e \<Rightarrow> State_Monad.return (Some e)
         | None \<Rightarrow> if GroupInstances fw \<noteq> 0 then State_Monad.return (Some PolicyAttached)
             else ensureFirewallRules c groupID) }"

definition ensureFirewallGroup :: "vu_body cloud \<Rightarrow> CreateServerRequest \<Rightarrow> (vu_body, string \<times> provider_error option) api" where
  "ensureFirewallGroup c request =
     (case checkpoint_policy ''firewall_group_id'' request of
        Some raw \<Rightarrow> do { err \<leftarrow> validateCheckpointFirewallGroup c request raw; State_Monad.return (raw, err) }
      | None \<Rightarrow> do {
          a \<leftarrow> CreateFirewallGroup c (policy_name (IntentName (Intent request)));
          case a of
            Inl e \<Rightarrow> State_Monad.return ('''', Some e)
          | Inr fw \<Rightarrow> do { err \<leftarrow> ensureFirewallRules c (GroupID fw); State_Monad.return (GroupID fw, err) } })"

definition vu_input :: "CreateServerRequest \<Rightarrow> int \<Rightarrow> string \<Rightarrow> VuCreateInput" where
  "vu_input request osID groupID = \<lparr>VuRegion = IntentLocation (Intent request), VuPlan = IntentSize (Intent request), VuOSID = osID,
     VuLabel = IntentName (Intent request), VuHostname = IntentName (Intent request), VuTags = ProviderTags (intent_labels request),
     VuGroupID = groupID, VuUserData = BootstrapData request\<rparr>"

definition reconcileCreatedInstance :: "vu_body cloud \<Rightarrow> ServerRecord \<Rightarrow> (vu_body, ServerRecord) api" where
  "reconcileCreatedInstance c record = do {
     a \<leftarrow> FindInstanceByLabel c (RecordName record);
     State_Monad.return (case a of
       Inl _ \<Rightarrow> record
     | Inr inst \<Rightarrow>
         if validateLiveInstanceOwnership record inst \<noteq> None then record
         else record\<lparr>RecordID := InstanceID inst, RecordName := InstanceLabel inst, PublicIPv4 := InstanceIP inst,
                RecordLabels := (if InstanceTags inst \<noteq> [] then LabelsFromProviderTags (InstanceTags inst) else RecordLabels record)\<rparr>) }"

definition vu_Create :: "vu_body cloud \<Rightarrow> CreateServerRequest \<Rightarrow> (vu_body, ServerRecord \<times> api_failure option) api" where
  "vu_Create c request =
     (if Token (CreateAccount request) = '''' then State_Monad.return (zero_record, Some (Refused CredentialMissing))
      else (case osIDFromImage (IntentImage (Intent request)) of
        Inl e \<Rightarrow> State_Monad.return (zero_record, Some (Refused e))
      | Inr osID \<Rightarrow> do {
          p \<leftarrow> ensureFirewallGroup c request;
          case p of
            (groupID, Some e) \<Rightarrow>
              State_Monad.return (if groupID \<noteq> '''' then vu_partial_record request groupID else zero_record,
                Some (CallFailed ''provider access policy create failed'' e []))
          | (groupID, None) \<Rightarrow> do {
              i \<leftarrow> CreateInstance c (vu_input request osID groupID);
              case i of
                Inl e \<Rightarrow> do {
                  rec \<leftarrow> reconcileCreatedInstance c (vu_partial_record request groupID);
                  State_Monad.return (rec, Some (CallFailed ''provider instance create failed'' e
                    (BootstrapSecrets (BootstrapData request) [encodeUserData (BootstrapData request)]))) }
              | Inr inst \<Rightarrow> State_Monad.return (vu_created_record request inst groupID, None) } }))"

section \<open>Status, power, list\<close>

definition statusFromInstance :: "ServerRecord \<Rightarrow> VuInstance \<Rightarrow> ServerStatus" where
  "statusFromInstance record inst =
     \<lparr>StatusRecord = record\<lparr>RecordName := InstanceLabel inst, PublicIPv4 := InstanceIP inst, PublicIPv6 := '''',
        RecordLabels := (if InstanceTags inst \<noteq> [] then LabelsFromProviderTags (InstanceTags inst) else RecordLabels record)\<rparr>,
      StatusPower = InstancePower inst, StatusIPv4 = InstanceIP inst, StatusIPv6 = ''''\<rparr>"

definition vu_Status :: "vu_body cloud \<Rightarrow> ServerRef \<Rightarrow> (vu_body, (api_failure, ServerStatus) result) api" where
  "vu_Status c ref =
     (if Token (RefAccount ref) = '''' then State_Monad.return (Inl (Refused CredentialMissing))
      else (case validateRecordProvider (RefRecord ref) vultr of
        Some e \<Rightarrow> State_Monad.return (Inl (Refused e))
      | None \<Rightarrow> (case instanceID (RefRecord ref) of
          Inl e \<Rightarrow> State_Monad.return (Inl (Refused e))
        | Inr i \<Rightarrow> do {
            a \<leftarrow> GetInstance c i;
            State_Monad.return (case a of
              Inl e \<Rightarrow> Inl (CallFailed ''provider instance status failed'' e [])
            | Inr inst \<Rightarrow> Inr (statusFromInstance (RefRecord ref) inst)) })))"

definition vu_power_call :: "vu_body cloud \<Rightarrow> string \<Rightarrow> PowerAction \<Rightarrow> (vu_body, provider_error option) api" where
  "vu_power_call c i action =
     (case action of
        PowerStart \<Rightarrow> instanceAction c i ''start''
      | PowerStop \<Rightarrow> instanceAction c i ''halt''
      | PowerRestart \<Rightarrow> instanceAction c i ''reboot''
      | PowerOther a \<Rightarrow> State_Monad.return (Some (UnsupportedPower a)))"

definition vu_Power :: "vu_body cloud \<Rightarrow> PowerRequest \<Rightarrow> (vu_body, (api_failure, ServerStatus) result) api" where
  "vu_Power c request =
     (if Token (PowerAccount request) = '''' then State_Monad.return (Inl (Refused CredentialMissing))
      else (case instanceID (PowerRecord request) of
        Inl e \<Rightarrow> State_Monad.return (Inl (Refused e))
      | Inr i \<Rightarrow> (case validateRecordProvider (PowerRecord request) vultr of
          Some e \<Rightarrow> State_Monad.return (Inl (Refused e))
        | None \<Rightarrow> do {
            current \<leftarrow> GetInstance c i;
            case current of
              Inl e \<Rightarrow> State_Monad.return (Inl (CallFailed ''provider ownership check failed'' e []))
            | Inr inst \<Rightarrow> (case validateLiveInstanceOwnership (PowerRecord request) inst of
                Some e \<Rightarrow> State_Monad.return (Inl (Refused e))
              | None \<Rightarrow> do {
                  p \<leftarrow> vu_power_call c i (PowerActionOf request);
                  case p of
                    Some e \<Rightarrow> State_Monad.return (Inl (CallFailed ''provider power action failed'' e []))
                  | None \<Rightarrow> vu_Status c \<lparr>RefAccount = PowerAccount request, RefRecord = PowerRecord request\<rparr> }) })))"

definition vu_List :: "vu_body cloud \<Rightarrow> Account \<Rightarrow> (vu_body, (api_failure, ServerRecord list) result) api" where
  "vu_List c account =
     (if Token account = '''' then State_Monad.return (Inl (Refused CredentialMissing))
      else do {
        a \<leftarrow> ListInstances c;
        State_Monad.return (case a of
          Inl e \<Rightarrow> Inl (CallFailed ''provider instance list failed'' e [])
        | Inr instances \<Rightarrow> Inr (map vu_recordFromLive instances)) })"

section \<open>Delete\<close>

definition deleteAccessPolicy :: "vu_body cloud \<Rightarrow> ServerRecord \<Rightarrow> string \<Rightarrow> (vu_body, api_failure option) api" where
  "deleteAccessPolicy c record i = do {
     a \<leftarrow> GetFirewallGroup c i;
     case a of
       Inl e \<Rightarrow> State_Monad.return (if IsStatus e StatusNotFound then None
                  else Some (CallFailed ''provider access policy ownership check failed'' e []))
     | Inr fw \<Rightarrow> (case validateLiveFirewallGroupOwnership record fw of
         Some e \<Rightarrow> State_Monad.return (Some (Refused e))
       | None \<Rightarrow> do {
           d \<leftarrow> DeleteFirewallGroup c i;
           State_Monad.return (case d of
             Some e \<Rightarrow> if IsStatus e StatusNotFound then None else Some (CallFailed ''provider access policy delete failed'' e [])
           | None \<Rightarrow> None) }) }"

definition delete_instance :: "vu_body cloud \<Rightarrow> ServerRecord \<Rightarrow> string \<Rightarrow> (vu_body, api_failure option) api" where
  "delete_instance c record i = do {
     a \<leftarrow> GetInstance c i;
     case a of
       Inl e \<Rightarrow> State_Monad.return (if IsStatus e StatusNotFound then None else Some (CallFailed ''provider ownership check failed'' e []))
     | Inr current \<Rightarrow> (case validateLiveInstanceOwnership record current of
         Some e \<Rightarrow> State_Monad.return (Some (Refused e))
       | None \<Rightarrow> do {
           d \<leftarrow> DeleteInstance c i;
           State_Monad.return (case d of
             Some e \<Rightarrow> if IsStatus e StatusNotFound then None else Some (CallFailed ''provider instance delete failed'' e [])
           | None \<Rightarrow> None) }) }"

definition vu_Delete :: "vu_body cloud \<Rightarrow> DeleteServerRequest \<Rightarrow> (vu_body, api_failure option) api" where
  "vu_Delete c request =
     (let record = DeleteRecord request; policy = firewallGroupID record in
      if Token (DeleteAccount request) = '''' then State_Monad.return (Some (Refused CredentialMissing))
      else (case validateRecordProvider record vultr of
        Some e \<Rightarrow> State_Monad.return (Some (Refused e))
      | None \<Rightarrow> (case instanceID record of
          Inl e \<Rightarrow> if \<not> snd policy then State_Monad.return (Some (Refused e)) else deleteAccessPolicy c record (fst policy)
        | Inr i \<Rightarrow> do {
            r \<leftarrow> delete_instance c record i;
            if r \<noteq> None then State_Monad.return r
            else if snd policy then deleteAccessPolicy c record (fst policy)
            else State_Monad.return None })))"

end
