(* ===== verification/Vultr_Safety.thy ===== *)
theory Vultr_Safety
  imports Vultr_Compute Compute_Adapter
begin

text \<open>
  What the Vultr adapter guarantees, whatever the API answers: a deletion takes nothing that the live
  data does not show as the record's, and an instance is asked for only behind a firewall group whose
  whole list of rules holds nothing but the required rules, with each of those listed or accepted.
\<close>

section \<open>Deleting\<close>

definition vu_may_delete :: "ServerRecord \<Rightarrow> vu_body trace \<Rightarrow> vu_body api_call \<Rightarrow> bool" where
  "vu_may_delete record u x \<longleftrightarrow> Verb (fst x) = ''GET''
     \<or> (\<exists>i. instanceID record = Inr i
          \<and> owned_deletion (vu_instance_path i) (\<lambda>b. validateLiveInstanceOwnership record (VuInstanceOf b)) u (fst x))
     \<or> (snd (firewallGroupID record)
          \<and> owned_deletion (vu_group_path (fst (firewallGroupID record))) (\<lambda>b. validateLiveFirewallGroupOwnership record (VuGroupOf b)) u (fst x))"

definition vu_gone :: "ServerRecord \<Rightarrow> vu_body trace \<Rightarrow> bool" where
  "vu_gone record t \<longleftrightarrow> (\<forall>i. instanceID record = Inr i \<longrightarrow> resource_gone (vu_instance_path i) t)
     \<and> (snd (firewallGroupID record) \<longrightarrow> resource_gone (vu_group_path (fst (firewallGroupID record))) t)"

lemma vu_may_delete_lasting: "lasting (vu_may_delete record)"
  by (auto simp: lasting_def vu_may_delete_def owned_deletion_def)

lemma vu_gone_append: "vu_gone record s \<or> vu_gone record t \<Longrightarrow> vu_gone record (s @ t)"
  using resource_gone_append unfolding vu_gone_def by blast

text \<open>Instance and firewall group go the way that the adapters share.\<close>

lemma delete_instance_eq:
  "delete_instance c record i =
     remove_owned c (vu_instance_path i) (\<lambda>b. validateLiveInstanceOwnership record (VuInstanceOf b))
       ''provider ownership check failed'' ''provider instance delete failed''"
  unfolding delete_instance_def remove_owned_def GetInstance_def DeleteInstance_def fetch_def State_Monad.bind_assoc
  by (rule arg_cong [where f = "State_Monad.bind _"]) (auto split: sum.split)

lemma deleteAccessPolicy_eq:
  "deleteAccessPolicy c record i =
     remove_owned c (vu_group_path i) (\<lambda>b. validateLiveFirewallGroupOwnership record (VuGroupOf b))
       ''provider access policy ownership check failed'' ''provider access policy delete failed''"
  unfolding deleteAccessPolicy_def remove_owned_def GetFirewallGroup_def DeleteFirewallGroup_def fetch_def State_Monad.bind_assoc
  by (rule arg_cong [where f = "State_Monad.bind _"]) (auto split: sum.split)

lemma delete_group:
  assumes "snd (firewallGroupID record)"
  shows "adds (deleteAccessPolicy c record (fst (firewallGroupID record)))
     (\<lambda>r t. licensed (vu_may_delete record) t \<and> (r = None \<longrightarrow> resource_gone (vu_group_path (fst (firewallGroupID record))) t)) h"
  unfolding deleteAccessPolicy_eq by (rule remove_owned_adds) (use assms in \<open>simp_all add: vu_may_delete_def\<close>)

lemma delete_instance_adds:
  assumes "instanceID record = Inr i"
  shows "adds (delete_instance c record i)
     (\<lambda>r t. licensed (vu_may_delete record) t \<and> (r = None \<longrightarrow> resource_gone (vu_instance_path i) t)) h"
  unfolding delete_instance_eq by (rule remove_owned_adds) (use assms in \<open>simp_all add: vu_may_delete_def\<close>)

lemma delete_vultr:
  "adds (vu_Delete c request)
     (\<lambda>r t. licensed (vu_may_delete (DeleteRecord request)) t \<and> (r = None \<longrightarrow> vu_gone (DeleteRecord request) t)
        \<and> (Token (DeleteAccount request) = '''' \<or> Provider (DeleteRecord request) \<noteq> vultr \<longrightarrow> t = [] \<and> r \<noteq> None)) h"
proof (cases "Token (DeleteAccount request) = '''' \<or> Provider (DeleteRecord request) \<noteq> vultr")
  case True
  then show ?thesis
    by (auto simp: vu_Delete_def Let_def validateRecordProvider_def ValidateRecordProvider_def)
next
  case False
  let ?rec = "DeleteRecord request"
  let ?group = "\<lambda>c. deleteAccessPolicy c ?rec (fst (firewallGroupID ?rec))"
  have run: "vu_Delete c request = (case instanceID ?rec of
      Inl e \<Rightarrow> if \<not> snd (firewallGroupID ?rec) then State_Monad.return (Some (Refused e)) else ?group c
    | Inr i \<Rightarrow> do { r \<leftarrow> delete_instance c ?rec i;
        if r \<noteq> None then State_Monad.return r
        else if snd (firewallGroupID ?rec) then ?group c else State_Monad.return None })"
    using False by (simp add: vu_Delete_def Let_def validateRecordProvider_def ValidateRecordProvider_def)
  have "adds (vu_Delete c request) (\<lambda>r t. licensed (vu_may_delete ?rec) t \<and> (r = None \<longrightarrow> vu_gone ?rec t)) h"
  proof (cases "instanceID ?rec")
    case (Inl e)
    show ?thesis
    proof (cases "snd (firewallGroupID ?rec)")
      case True
      have "adds (?group c) (\<lambda>r t. licensed (vu_may_delete ?rec) t \<and> (r = None \<longrightarrow> vu_gone ?rec t)) h"
        by (rule adds_mono [OF delete_group [OF True]]) (simp add: vu_gone_def Inl)
      then show ?thesis unfolding run Inl sum.case using True by simp
    qed (simp add: run Inl)
  next
    case (Inr i)
    show ?thesis unfolding run Inr sum.case
    proof (rule adds_bind_known [OF delete_instance_adds [OF Inr]], goal_cases)
      case (1 r t)
      have "adds (?group c) (\<lambda>r u. licensed (vu_may_delete ?rec) (t @ u) \<and> (r = None \<longrightarrow> vu_gone ?rec (t @ u))) (h @ t)"
        if "snd (firewallGroupID ?rec)" "r = None"
        by (rule adds_mono [OF delete_group [OF that(1)]])
          (use 1 that in \<open>auto simp: vu_gone_def Inr intro: licensed_append [OF vu_may_delete_lasting] resource_gone_append\<close>)
      with 1 show ?case by (cases r) (auto simp: vu_gone_def Inr)
    qed
  qed
  then show ?thesis using False by (auto elim: adds_mono)
qed

interpretation vultr_adapter: compute_adapter vu_Delete vultr vu_may_delete vu_gone
  by unfold_locales (rule vu_may_delete_lasting, erule vu_gone_append, rule delete_vultr)

section \<open>Creating\<close>

definition vu_posts_group :: "CreateServerRequest \<Rightarrow> api_request" where
  "vu_posts_group request = POST ''/firewalls'' [(''description'', JStr (policy_name (IntentName (Intent request))))]"

definition vu_posts_rule :: "string \<Rightarrow> VuRuleInput \<Rightarrow> api_request" where
  "vu_posts_rule g r = POST (vu_rules_path g) (vu_rule_payload r)"

definition vu_posts_instance :: "CreateServerRequest \<Rightarrow> string \<Rightarrow> api_request" where
  "vu_posts_instance request g = POST ''/instances''
     (vu_instance_payload (vu_input request (case osIDFromImage (IntentImage (Intent request)) of Inr i \<Rightarrow> i | Inl _ \<Rightarrow> 0) g))"

text \<open>A group that this run created, or that an earlier run recorded and a read shows as this server's and unattached.\<close>

definition own_group :: "CreateServerRequest \<Rightarrow> vu_body trace \<Rightarrow> string \<Rightarrow> bool" where
  "own_group request u g \<longleftrightarrow> (\<exists>b. (vu_posts_group request, Inr b) \<in> set u \<and> GroupID (VuGroupOf b) = g)
     \<or> (checkpoint_policy ''firewall_group_id'' request = Some g \<and> (\<exists>b. (GET (vu_group_path g), Inr b) \<in> set u
          \<and> GroupID (VuGroupOf b) = g \<and> GroupDescription (VuGroupOf b) = policy_name (IntentName (Intent request))
          \<and> GroupInstances (VuGroupOf b) = 0))"

abbreviation vu_listed :: "(vu_body \<Rightarrow> 'a list) \<Rightarrow> string \<Rightarrow> vu_body trace \<Rightarrow> 'a list \<Rightarrow> bool" where
  "vu_listed field path \<equiv> listed field (\<lambda>b. VuNext b = '''') (\<lambda>cursor. GET (vu_listPath path cursor))"

text \<open>The group's whole list holds required rules only, and each required rule is listed or was accepted.\<close>

definition rules_complete :: "string \<Rightarrow> vu_body trace \<Rightarrow> bool" where
  "rules_complete g u \<longleftrightarrow> (\<exists>rs. vu_listed VuRulesOf (vu_rules_path g) u rs
     \<and> (\<forall>live \<in> set rs. \<exists>r \<in> set requiredFirewallRules. vu_firewallRuleMatches live r)
     \<and> (\<forall>r \<in> set requiredFirewallRules. (\<exists>live \<in> set rs. vu_firewallRuleMatches live r) \<or> (\<exists>b. (vu_posts_rule g r, Inr b) \<in> set u)))"

definition vu_may_create :: "CreateServerRequest \<Rightarrow> vu_body trace \<Rightarrow> vu_body api_call \<Rightarrow> bool" where
  "vu_may_create request u x \<longleftrightarrow> Verb (fst x) = ''GET'' \<or> fst x = vu_posts_group request
     \<or> (\<exists>g. \<exists>r \<in> set requiredFirewallRules. fst x = vu_posts_rule g r \<and> own_group request u g)
     \<or> (\<exists>g. fst x = vu_posts_instance request g \<and> own_group request u g \<and> rules_complete g u)"

lemma own_group_append: "own_group request u g \<Longrightarrow> own_group request (s @ u) g" "own_group request u g \<Longrightarrow> own_group request (u @ s) g"
  unfolding own_group_def by auto

lemma rules_complete_append: "rules_complete g u \<Longrightarrow> rules_complete g (s @ u)"
  using listed_append(1) unfolding rules_complete_def by fastforce

lemma vu_may_create_lasting: "lasting (vu_may_create request)"
  unfolding lasting_def vu_may_create_def using own_group_append(1) rules_complete_append by blast

lemma vu_page:
  "adds (fetch c (\<lambda>b. (field b, if VuNext b = '''' then None else Some (VuNext b))) (GET (vu_listPath path cursor)))
     (page_read field (\<lambda>b. VuNext b = '''') (GET (vu_listPath path cursor))) h"
  unfolding page_read_def by (cases "Answer c h (GET (vu_listPath path cursor))") auto

lemma vu_paged_whole:
  "adds (vu_pagedList c field path) (\<lambda>r t. reads_only t \<and> (\<forall>ds. r = Inr ds \<longrightarrow> vu_listed field path t ds)) h"
  unfolding vu_pagedList_def by (rule adds_mono [OF read_pages_whole [OF vu_page]]) simp

lemma create_missing:
  "adds (create_missing_rules c g existing rs)
     (\<lambda>e t. (\<forall>x \<in> set t. \<exists>r \<in> set rs. fst x = vu_posts_rule g r)
        \<and> (e = None \<longrightarrow> (\<forall>r \<in> set rs. (\<exists>live \<in> set existing. vu_firewallRuleMatches live r) \<or> (\<exists>b. (vu_posts_rule g r, Inr b) \<in> set t)))) h"
proof (induction rs arbitrary: h)
  case (Cons r rs)
  have posted: "adds (create_missing_rules c g existing rs)
      (\<lambda>e t. (\<forall>x \<in> set ((vu_posts_rule g r, Inr b) # t). \<exists>r \<in> set (r # rs). fst x = vu_posts_rule g r)
        \<and> (e = None \<longrightarrow> (\<forall>r' \<in> set (r # rs). (\<exists>live \<in> set existing. vu_firewallRuleMatches live r')
             \<or> (\<exists>b'. (vu_posts_rule g r', Inr b') \<in> set ((vu_posts_rule g r, Inr b) # t))))) k" for b k
    by (rule adds_mono [OF Cons]) auto
  show ?case
  proof (cases "list_ex (\<lambda>live. vu_firewallRuleMatches live r) existing")
    case True
    have "adds (create_missing_rules c g existing rs)
      (\<lambda>e t. (\<forall>x \<in> set t. \<exists>r \<in> set (r # rs). fst x = vu_posts_rule g r)
        \<and> (e = None \<longrightarrow> (\<forall>r \<in> set (r # rs). (\<exists>live \<in> set existing. vu_firewallRuleMatches live r) \<or> (\<exists>b. (vu_posts_rule g r, Inr b) \<in> set t)))) h"
      by (rule adds_mono [OF Cons]) (use True in \<open>auto simp: list_ex_iff\<close>)
    with True show ?thesis by simp
  next
    case False
    have "adds (exec c (vu_posts_rule g r) \<bind> (\<lambda>err. if err \<noteq> None then State_Monad.return err else create_missing_rules c g existing rs))
      (\<lambda>e t. (\<forall>x \<in> set t. \<exists>r \<in> set (r # rs). fst x = vu_posts_rule g r)
        \<and> (e = None \<longrightarrow> (\<forall>r \<in> set (r # rs). (\<exists>live \<in> set existing. vu_firewallRuleMatches live r) \<or> (\<exists>b. (vu_posts_rule g r, Inr b) \<in> set t)))) h"
      by (rule adds_exec_bind) (use posted in auto)
    with False show ?thesis by (simp add: CreateFirewallRule_def vu_posts_rule_def)
  qed
qed simp

lemma ensure_rules:
  "adds (ensureFirewallRules c g)
     (\<lambda>e t. (\<forall>x \<in> set t. Verb (fst x) = ''GET'' \<or> (\<exists>r \<in> set requiredFirewallRules. fst x = vu_posts_rule g r))
        \<and> (e = None \<longrightarrow> rules_complete g t)) h"
  unfolding ensureFirewallRules_def ListFirewallRules_def
proof (rule adds_bind_known [OF vu_paged_whole], goal_cases)
  case (1 a t)
  show ?case
  proof (cases a)
    case (Inl e)
    with 1 show ?thesis by (simp add: reads_only_def)
  next
    case (Inr rs)
    with 1 have rs: "vu_listed VuRulesOf (vu_rules_path g) t rs" and t: "reads_only t" by simp_all
    have complete: "rules_complete g (t @ u)"
      if "\<forall>r \<in> set requiredFirewallRules. (\<exists>live \<in> set rs. vu_firewallRuleMatches live r) \<or> (\<exists>b. (vu_posts_rule g r, Inr b) \<in> set u)"
        "list_all (\<lambda>live. firewallRuleIsRequired live requiredFirewallRules) rs" for u
      unfolding rules_complete_def
      by (intro exI [of _ rs] conjI listed_append(2) [OF rs])
        (use that in \<open>auto simp: list_all_iff list_ex_iff firewallRuleIsRequired_def\<close>)
    have "adds (create_missing_rules c g rs requiredFirewallRules)
        (\<lambda>e u. (\<forall>x \<in> set (t @ u). Verb (fst x) = ''GET'' \<or> (\<exists>r \<in> set requiredFirewallRules. fst x = vu_posts_rule g r))
          \<and> (e = None \<longrightarrow> rules_complete g (t @ u))) (h @ t)"
      if "list_all (\<lambda>live. firewallRuleIsRequired live requiredFirewallRules) rs"
      by (rule adds_mono [OF create_missing]) (use that t complete in \<open>auto simp: reads_only_def\<close>)
    then show ?thesis unfolding Inr sum.case using t by (auto simp: reads_only_def)
  qed
qed

lemma posts_not_get [simp]:
  "Verb (vu_posts_group request) = ''POST''" "Verb (vu_posts_rule g r) = ''POST''" "Verb (vu_posts_instance request g) = ''POST''"
  "Path (vu_posts_group request) = ''/firewalls''" "Path (vu_posts_instance request g) = ''/instances''"
  "Path (vu_posts_rule g r) \<noteq> ''/instances''" "vu_posts_rule g r \<noteq> vu_posts_group request"
  by (simp_all add: vu_posts_group_def vu_posts_rule_def vu_posts_instance_def vu_rules_path_def vu_group_path_def)

text \<open>What holds when the firewall group was settled: \<open>g\<close> is the group, \<open>e\<close> what failed of it.\<close>

definition group_settled :: "CreateServerRequest \<Rightarrow> string \<times> provider_error option \<Rightarrow> vu_body trace \<Rightarrow> bool" where
  "group_settled request ge t \<longleftrightarrow> licensed (vu_may_create request) t \<and> (\<forall>x \<in> set t. Verb (fst x) = ''GET'' \<or> Path (fst x) \<noteq> ''/instances'')
     \<and> (\<forall>b. (vu_posts_group request, Inr b) \<in> set t \<longrightarrow> fst ge = GroupID (VuGroupOf b))
     \<and> (snd ge = None \<longrightarrow> own_group request t (fst ge) \<and> rules_complete (fst ge) t)"

text \<open>The rules of a group that the calls \<open>s\<close> showed as this server's.\<close>

lemma settle_rules:
  assumes "licensed (vu_may_create request) s" "\<forall>x \<in> set s. Verb (fst x) = ''GET'' \<or> Path (fst x) \<noteq> ''/instances''"
    and "\<forall>b. (vu_posts_group request, Inr b) \<in> set s \<longrightarrow> g = GroupID (VuGroupOf b)" "own_group request s g"
  shows "adds (ensureFirewallRules c g) (\<lambda>e u. group_settled request (g, e) (s @ u)) h"
proof (rule adds_mono [OF ensure_rules])
  fix e :: "provider_error option" and u :: "vu_body trace"
  assume u: "(\<forall>x \<in> set u. Verb (fst x) = ''GET'' \<or> (\<exists>r \<in> set requiredFirewallRules. fst x = vu_posts_rule g r)) \<and> (e = None \<longrightarrow> rules_complete g u)"
  have "licensed (vu_may_create request) (s @ u)"
  proof (rule licensed_extend [OF assms(1)])
    fix v x
    assume "x \<in> set u"
    with u have "Verb (fst x) = ''GET'' \<or> (\<exists>r \<in> set requiredFirewallRules. fst x = vu_posts_rule g r)" by blast
    then show "vu_may_create request (s @ v) x" using own_group_append(2) [OF assms(4)] unfolding vu_may_create_def by blast
  qed
  moreover have "\<forall>x \<in> set u. Verb (fst x) = ''GET'' \<or> Path (fst x) \<noteq> ''/instances''" using u by fastforce
  moreover have "(vu_posts_group request, Inr b) \<notin> set u" for b
  proof
    assume "(vu_posts_group request, Inr b) \<in> set u"
    from bspec [OF conjunct1 [OF u] this] show False using posts_not_get(7) [of _ _ request] by (auto dest: sym)
  qed
  ultimately show "group_settled request (g, e) (s @ u)"
    using assms u own_group_append(2) [OF assms(4)] rules_complete_append [of g u s] unfolding group_settled_def by auto
qed

lemma ensure_group: "adds (ensureFirewallGroup c request) (group_settled request) h"
proof (cases "checkpoint_policy ''firewall_group_id'' request")
  case None
  have failed: "group_settled request ('''', Some e) [(vu_posts_group request, Inl e')]" for e e'
    unfolding group_settled_def by (auto intro!: licensed_reads simp: vu_may_create_def)
  have rules: "adds (do { err \<leftarrow> ensureFirewallRules c (GroupID (VuGroupOf b)); State_Monad.return (GroupID (VuGroupOf b), err) })
      (\<lambda>ge u. group_settled request ge ((vu_posts_group request, Inr b) # u)) k" for b k
  proof (rule adds_bind_known)
    show "adds (ensureFirewallRules c (GroupID (VuGroupOf b)))
        (\<lambda>e u. group_settled request (GroupID (VuGroupOf b), e) ([(vu_posts_group request, Inr b)] @ u)) k"
      by (rule settle_rules) (auto intro!: licensed_reads simp: vu_may_create_def own_group_def)
  qed simp
  show ?thesis
    unfolding ensureFirewallGroup_def None option.case CreateFirewallGroup_def vu_posts_group_def [symmetric]
    by (rule adds_fetch_bind) (use failed rules in simp_all)
next
  case (Some raw)
  let ?q = "GET (vu_group_path raw)"
  have read: "group_settled request (raw, Some e) [(?q, a)]" for e a
    unfolding group_settled_def by (auto intro!: licensed_reads simp: vu_may_create_def vu_posts_group_def)
  have rules: "adds (ensureFirewallRules c raw) (\<lambda>e u. group_settled request (raw, e) ((?q, Inr b) # u)) k"
    if "GroupID (VuGroupOf b) = raw" "GroupDescription (VuGroupOf b) = policy_name (IntentName (Intent request))" "GroupInstances (VuGroupOf b) = 0" for b k
  proof -
    have "licensed (vu_may_create request) [(?q, Inr b)]" by (rule licensed_reads) (simp add: vu_may_create_def)
    from settle_rules [OF this, of raw c k] show ?thesis
      using that Some by (auto simp: vu_posts_group_def own_group_def)
  qed
  have "adds (validateCheckpointFirewallGroup c request raw) (\<lambda>e t. group_settled request (raw, e) t) h"
    unfolding validateCheckpointFirewallGroup_def GetFirewallGroup_def
    by (rule adds_fetch_bind)
      (use read rules in \<open>auto simp: validateLiveFirewallGroupOwnership_def vu_partial_record_def intended_record_def split: option.splits if_splits\<close>)
  then show ?thesis unfolding ensureFirewallGroup_def Some option.case by (rule adds_bind_known) simp
qed


text \<open>
  The record that comes back: the group of the run, and an identifier only of an instance that the
  creation answered, or that the account lists under its label with this server's tags.
\<close>

definition vu_finds :: "CreateServerRequest \<Rightarrow> api_request" where
  "vu_finds request = GET (''/instances?label='' @ query_escape (IntentName (Intent request)))"

definition vu_record_backed :: "CreateServerRequest \<Rightarrow> ServerRecord \<Rightarrow> vu_body trace \<Rightarrow> bool" where
  "vu_record_backed request record t \<longleftrightarrow>
     (\<forall>b. (vu_posts_group request, Inr b) \<in> set t \<longrightarrow> GroupID (VuGroupOf b) \<noteq> '''' \<longrightarrow>
        RecordResources record = [\<lparr>Kind = ManagedResourceAccessPolicy, ResourceID = GroupID (VuGroupOf b)\<rparr>])
     \<and> (\<forall>g b. (vu_posts_instance request g, Inr b) \<in> set t \<longrightarrow> RecordID record = InstanceID (VuInstanceOf b))
     \<and> (RecordID record \<noteq> '''' \<longrightarrow> (\<exists>g b. (vu_posts_instance request g, Inr b) \<in> set t \<and> RecordID record = InstanceID (VuInstanceOf b))
          \<or> (\<exists>g b inst. (vu_finds request, Inr b) \<in> set t \<and> inst \<in> set (VuInstancesOf b) \<and> RecordID record = InstanceID inst
               \<and> validateLiveInstanceOwnership (vu_partial_record request g) inst = None))"

definition vu_create_safe :: "CreateServerRequest \<Rightarrow> ServerRecord \<times> api_failure option \<Rightarrow> vu_body trace \<Rightarrow> bool" where
  "vu_create_safe request res t \<longleftrightarrow> licensed (vu_may_create request) t
     \<and> length (filter (\<lambda>x. Verb (fst x) = ''POST'' \<and> Path (fst x) = ''/instances'') t) \<le> 1
     \<and> vu_record_backed request (fst res) t
     \<and> (snd res = None \<longrightarrow> (\<exists>g b. (vu_posts_instance request g, Inr b) \<in> set t))"

lemma vu_record_simps [simp]:
  "RecordName (vu_partial_record request g) = IntentName (Intent request)" "RecordID (vu_partial_record request g) = ''''"
  "RecordResources (vu_partial_record request g) = [\<lparr>Kind = ManagedResourceAccessPolicy, ResourceID = g\<rparr>]"
  "RecordID (vu_created_record request inst g) = InstanceID inst"
  "RecordResources (vu_created_record request inst g) = [\<lparr>Kind = ManagedResourceAccessPolicy, ResourceID = g\<rparr>]"
  by (simp_all add: vu_partial_record_def vu_created_record_def intended_record_def zero_record_def)

lemma reconcile_instance:
  "adds (reconcileCreatedInstance c (vu_partial_record request g))
     (\<lambda>rec t. \<exists>a. t = [(vu_finds request, a)]
        \<and> RecordResources rec = [\<lparr>Kind = ManagedResourceAccessPolicy, ResourceID = g\<rparr>]
        \<and> (RecordID rec \<noteq> '''' \<longrightarrow> (\<exists>b inst. a = Inr b \<and> inst \<in> set (VuInstancesOf b) \<and> RecordID rec = InstanceID inst
              \<and> validateLiveInstanceOwnership (vu_partial_record request g) inst = None))) h"
proof -
  have one: "i \<in> set xs" if "filter P xs = i # ys" for P :: "VuInstance \<Rightarrow> bool" and xs i ys
    using that by (metis filter_is_subset list.set_intros(1) subsetD)
  show ?thesis
    unfolding reconcileCreatedInstance_def FindInstanceByLabel_def vu_record_simps State_Monad.bind_assoc vu_finds_def [symmetric]
    by (rule adds_fetch_bind) (auto dest: one split: list.split)
qed


lemma finds_not_post [simp]:
  "vu_posts_instance request g \<noteq> vu_finds request" "vu_posts_group request \<noteq> vu_finds request"
  "vu_posts_group request \<noteq> vu_posts_instance request g" "Verb (vu_finds request) = ''GET''"
  by (simp_all add: vu_finds_def vu_posts_instance_def vu_posts_group_def)

text \<open>The record after a creation that failed, and after one that was answered; \<open>t\<close> are the calls before it.\<close>

lemma backed_failed:
  assumes "group_settled request (g, None) t"
    and rec: "RecordResources rec = [\<lparr>Kind = ManagedResourceAccessPolicy, ResourceID = g\<rparr>]"
      "RecordID rec \<noteq> '''' \<longrightarrow> (\<exists>b inst. a = Inr b \<and> inst \<in> set (VuInstancesOf b) \<and> RecordID rec = InstanceID inst
              \<and> validateLiveInstanceOwnership (vu_partial_record request g) inst = None)"
  shows "vu_record_backed request rec (t @ [(vu_posts_instance request g, Inl e), (vu_finds request, a)])"
proof -
  have none: "(vu_posts_instance request g', x) \<notin> set t" for g' x
    using assms(1) unfolding group_settled_def by force
  have "(\<exists>b inst. (vu_finds request, Inr b) \<in> set (t @ [(vu_posts_instance request g, Inl e), (vu_finds request, a)])
      \<and> inst \<in> set (VuInstancesOf b) \<and> RecordID rec = InstanceID inst \<and> validateLiveInstanceOwnership (vu_partial_record request g) inst = None)"
    if "RecordID rec \<noteq> ''''"
    using rec(2) that by auto
  then show ?thesis using assms(1) rec(1) none unfolding vu_record_backed_def group_settled_def by auto
qed

lemma backed_created:
  assumes "group_settled request (g, None) t"
  shows "vu_record_backed request (vu_created_record request (VuInstanceOf b) g) (t @ [(vu_posts_instance request g, Inr b)])"
proof -
  have none: "(vu_posts_instance request g', x) \<notin> set t" for g' x
    using assms unfolding group_settled_def by force
  then show ?thesis using assms unfolding vu_record_backed_def group_settled_def by auto
qed

lemma create_vultr:
  "adds (vu_Create c request)
     (\<lambda>res t. vu_create_safe request res t \<and> (Token (CreateAccount request) = '''' \<longrightarrow> t = [] \<and> snd res \<noteq> None)) h"
proof (cases "Token (CreateAccount request) = '''' \<or> (\<exists>e. osIDFromImage (IntentImage (Intent request)) = Inl e)")
  case True
  have "vu_create_safe request (zero_record, Some x) []" for x
    by (simp add: vu_create_safe_def vu_record_backed_def zero_record_def)
  with True show ?thesis by (auto simp: vu_Create_def)
next
  case False
  then obtain os where os: "osIDFromImage (IntentImage (Intent request)) = Inr os" by (cases "osIDFromImage (IntentImage (Intent request))") auto
  have post: "POST ''/instances'' (vu_instance_payload (vu_input request os g)) = vu_posts_instance request g" for g
    by (simp add: vu_posts_instance_def os)
  let ?posted = "\<lambda>x :: vu_body api_call. Verb (fst x) = ''POST'' \<and> Path (fst x) = ''/instances''"
  have failed: "vu_create_safe request (if g \<noteq> '''' then vu_partial_record request g else zero_record, Some x) t"
    if "group_settled request (g, e) t" for g e t x
  proof -
    have "filter ?posted t = []" using that by (auto simp: filter_empty_conv group_settled_def)
    moreover have "(vu_posts_instance request g', Inr b) \<notin> set t" for g' b
      using that unfolding group_settled_def by force
    moreover have "vu_record_backed request (if g \<noteq> '''' then vu_partial_record request g else zero_record) t"
      using that calculation(2) unfolding vu_record_backed_def group_settled_def by (auto simp: zero_record_def)
    ultimately show ?thesis using that by (simp add: vu_create_safe_def group_settled_def)
  qed
  have asked: "vu_create_safe request res (t @ (vu_posts_instance request g, a) # u)"
    if t: "group_settled request (g, None) t" and u: "reads_only u" and backed: "vu_record_backed request (fst res) (t @ (vu_posts_instance request g, a) # u)"
      and passed: "snd res = None \<longrightarrow> (\<exists>b. a = Inr b)" for g a u res t
  proof -
    have "licensed (vu_may_create request) (t @ [(vu_posts_instance request g, a)])"
      unfolding licensed_snoc using t by (auto simp: group_settled_def vu_may_create_def)
    then have "licensed (vu_may_create request) ((t @ [(vu_posts_instance request g, a)]) @ u)"
      by (rule licensed_extend) (use u in \<open>auto simp: reads_only_def vu_may_create_def\<close>)
    moreover have "filter ?posted t = []" "filter ?posted u = []"
      using t u by (auto simp: filter_empty_conv group_settled_def reads_only_def)
    ultimately show ?thesis using backed passed unfolding vu_create_safe_def by auto
  qed
  let ?create = "\<lambda>g. do {
      i \<leftarrow> fetch c VuInstanceOf (vu_posts_instance request g);
      case i of
        Inl e \<Rightarrow> do {
          rec \<leftarrow> reconcileCreatedInstance c (vu_partial_record request g);
          State_Monad.return (rec, Some (CallFailed ''provider instance create failed'' e
            (BootstrapSecrets (BootstrapData request) [encodeUserData (BootstrapData request)]))) }
      | Inr inst \<Rightarrow> State_Monad.return (vu_created_record request inst g, None) }"
  have run: "vu_Create c request = do {
      p \<leftarrow> ensureFirewallGroup c request;
      case p of
        (g, Some e) \<Rightarrow> State_Monad.return (if g \<noteq> '''' then vu_partial_record request g else zero_record,
          Some (CallFailed ''provider access policy create failed'' e []))
      | (g, None) \<Rightarrow> ?create g }"
    using False os post by (simp add: vu_Create_def CreateInstance_def)
  have created: "adds (?create g) (\<lambda>res u. vu_create_safe request res (t @ u)) k" if t: "group_settled request (g, None) t" for g t k
  proof (rule adds_fetch_bind)
    show "adds (case Inl e of
        Inl e \<Rightarrow> do {
          rec \<leftarrow> reconcileCreatedInstance c (vu_partial_record request g);
          State_Monad.return (rec, Some (CallFailed ''provider instance create failed'' e
            (BootstrapSecrets (BootstrapData request) [encodeUserData (BootstrapData request)]))) }
      | Inr inst \<Rightarrow> State_Monad.return (vu_created_record request inst g, None))
      (\<lambda>res u. vu_create_safe request res (t @ (vu_posts_instance request g, Inl e) # u)) (k @ [(vu_posts_instance request g, Inl e)])" for e
      unfolding sum.case
      by (rule adds_bind_known [OF reconcile_instance]) (auto intro!: asked [OF t] backed_failed [OF t] simp: reads_only_def)
    show "adds (case Inr (VuInstanceOf b) of
        Inl e \<Rightarrow> do {
          rec \<leftarrow> reconcileCreatedInstance c (vu_partial_record request g);
          State_Monad.return (rec, Some (CallFailed ''provider instance create failed'' e
            (BootstrapSecrets (BootstrapData request) [encodeUserData (BootstrapData request)]))) }
      | Inr inst \<Rightarrow> State_Monad.return (vu_created_record request inst g, None))
      (\<lambda>res u. vu_create_safe request res (t @ (vu_posts_instance request g, Inr b) # u)) (k @ [(vu_posts_instance request g, Inr b)])" for b
      unfolding sum.case adds_return by (rule asked [OF t]) (simp_all add: backed_created [OF t])
  qed
  have "adds (vu_Create c request) (vu_create_safe request) h"
    unfolding run
  proof (rule adds_bind_known [OF ensure_group], goal_cases)
    case (1 p t)
    obtain g e where p: "p = (g, e)" by (cases p)
    show ?case unfolding p prod.case using 1 created failed by (cases e) (auto simp: p)
  qed
  then show ?thesis using False by (auto elim: adds_mono)
qed



text \<open>A deletion on Vultr, as on Hetzner: by the contract of the adapters.\<close>

lemma vultr_delete_owned:
  assumes "run_state (vu_Delete c request) h = (r, h')"
  shows "\<exists>t. h' = h @ t \<and> licensed (vu_may_delete (DeleteRecord request)) t \<and> (r = None \<longrightarrow> vu_gone (DeleteRecord request) t)
    \<and> (Token (DeleteAccount request) = '''' \<or> Provider (DeleteRecord request) \<noteq> vultr \<longrightarrow> t = [] \<and> r \<noteq> None)"
  by (rule vultr_adapter.delete_guarded [OF assms])

text \<open>
  A create behind a recorded group: two of the four rules are listed, on two pages, the others are
  created.
\<close>

definition sample_vu_create :: CreateServerRequest where
  "sample_vu_create = \<lparr>CreateAccount = \<lparr>AccountName = ''prod'', AccountProvider = ''vultr'', Token = ''t'', Scope = ''''\<rparr>,
     Intent = \<lparr>IntentNamespace = ''prod'', IntentServer = ''web'', IntentName = ''prod-web'', IntentLocation = ''fra'', IntentSize = ''vc2-1c-1gb'',
       IntentImage = ''2284'', IntentLabels = []\<rparr>, BootstrapData = ''#cloud-config'', CreateResources = [\<lparr>Kind = ManagedResourceAccessPolicy, ResourceID = ''g1''\<rparr>],
     CreateProviderState = []\<rparr>"

definition sample_live_rule :: "VuRuleInput \<Rightarrow> VuRule" where
  "sample_live_rule r = \<lparr>LiveAction = ''accept'', LiveIPType = RuleIPType r, LiveProtocol = RuleProto r, LivePort = RulePort r,
     LiveSubnet = RuleSubnet r, LiveSubnetSize = RuleSubnetSize r, LiveSource = ''''\<rparr>"

definition sample_vu_cloud :: "vu_body cloud" where
  "sample_vu_cloud = (let i = \<lparr>InstanceID = ''i9'', InstanceLabel = ''prod-web'', InstanceRegion = ''fra'', InstancePlan = ''vc2-1c-1gb'', InstanceOS = 2284,
        InstancePower = ''running'', InstanceIP = ''203.0.113.9'', InstanceTags = [], InstanceGroup = ''g1''\<rparr>;
      g = \<lparr>GroupID = ''g1'', GroupDescription = ''prod-web-deny-public'', GroupInstances = 0\<rparr>;
      b = \<lparr>VuInstanceOf = i, VuInstancesOf = [], VuGroupOf = g, VuRulesOf = [sample_live_rule (requiredFirewallRules ! 0)], VuNext = ''c2''\<rparr>
     in \<lparr>Answer = (\<lambda>h q. Inr (if Path q = vu_listPath (vu_rules_path ''g1'') ''c2''
            then b\<lparr>VuRulesOf := [sample_live_rule (requiredFirewallRules ! 1)], VuNext := ''''\<rparr> else b)), Polls = 0, Pages = 2\<rparr>)"



end
