(* ===== verification/Import_Model.thy ===== *)
theory Import_Model
  imports Credentials_Store State_Registry State_Model Mesh_Device Tunnel_Preflight
begin

text \<open>
  Rebuilding local control from a provider's inventory (internal/importsync): discovery, the config and
  state that an import builds, and the staged writes behind a recovery marker.

  The provider's list, the enrichers' services, the locks and the file system answer through
  parameters. The local files are held decoded, one \<open>import_disk\<close> per moment; every write of the
  import gives the next one. The hook \<open>beforeWrite\<close>, which only tests set, is left out.
\<close>

section \<open>Discovery\<close>

record Candidate =
  CandProvider :: ProviderName
  CandID :: string
  CandName :: string
  CandNamespace :: string
  CandServer :: string
  CandIPv4 :: string
  CandLocation :: string
  CandSize :: string
  CandImage :: string
  LabelsOK :: bool
  LocalState :: string
  CandRecord :: ServerRecord

record DiscoverFilter =
  FilterNamespace :: string
  FilterServer :: string
  FilterID :: string
  IncludeUnmanaged :: bool

datatype 'e discover_error =
    ProviderRequired | ListCredentialMissing | ListRefused "(string \<times> 'e option) list"
  | RegistryUnread registry_error | LocalStateUnknown string string string

text \<open>\<open>state.Exists\<close> of a path: an error, or whether the file is there.\<close>

type_synonym state_exists = "string \<Rightarrow> (string, bool) result"

definition localStateStatus :: "string option \<Rightarrow> state_exists \<Rightarrow> Registry \<Rightarrow> string \<Rightarrow> string \<Rightarrow> ('e discover_error, string) result" where
  "localStateStatus home ex reg namespace server =
     (if namespace = '''' \<or> server = '''' then Inr ''missing''
      else if Find reg namespace server \<noteq> None then Inr ''present''
      else (case ex (ServerStatePath home namespace server) of
        Inl e \<Rightarrow> Inl (LocalStateUnknown namespace server e)
      | Inr True \<Rightarrow> Inr ''partial''
      | Inr False \<Rightarrow> Inr ''missing''))"

definition candidateFromRecord ::
  "string option \<Rightarrow> state_exists \<Rightarrow> ProviderName \<Rightarrow> ServerRecord \<Rightarrow> DiscoverFilter \<Rightarrow> Registry \<Rightarrow> ('e discover_error, Candidate option) result" where
  "candidateFromRecord home ex providerName record0 flt reg =
     (let rec = (if Provider record0 = '''' then record0\<lparr>Provider := providerName\<rparr> else record0) in
      case OwnershipFromLabels (RecordLabels rec) of (ns0, srv0, managed) \<Rightarrow>
        if \<not> managed \<and> \<not> IncludeUnmanaged flt then Inr None
        else
          (let namespace = (if managed then ns0 else RecordNamespace rec);
               server = (if managed then srv0 else RecordServer rec) in
           if FilterNamespace flt \<noteq> '''' \<and> namespace \<noteq> FilterNamespace flt then Inr None
           else if FilterServer flt \<noteq> '''' \<and> server \<noteq> FilterServer flt then Inr None
           else if FilterID flt \<noteq> '''' \<and> RecordID rec \<noteq> FilterID flt then Inr None
           else (case localStateStatus home ex reg namespace server of
             Inl e \<Rightarrow> Inl e
           | Inr st \<Rightarrow> Inr (Some
               \<lparr>CandProvider = providerName, CandID = RecordID rec, CandName = RecordName rec, CandNamespace = namespace,
                CandServer = server, CandIPv4 = PublicIPv4 rec, CandLocation = RecordLocation rec, CandSize = RecordSize rec,
                CandImage = RecordImage rec, LabelsOK = managed, LocalState = st,
                CandRecord = rec\<lparr>RecordNamespace := namespace, RecordServer := server\<rparr>\<rparr>))))"

fun candidates_of ::
  "string option \<Rightarrow> state_exists \<Rightarrow> ProviderName \<Rightarrow> DiscoverFilter \<Rightarrow> Registry \<Rightarrow> ServerRecord list \<Rightarrow> ('e discover_error, Candidate list) result" where
  "candidates_of home ex providerName flt reg [] = Inr []"
| "candidates_of home ex providerName flt reg (r # rs) =
     bindR (candidateFromRecord home ex providerName r flt reg) (\<lambda>c.
       bindR (candidates_of home ex providerName flt reg rs) (\<lambda>cs. Inr (case c of None \<Rightarrow> cs | Some c \<Rightarrow> c # cs)))"

definition candidate_key :: "Candidate \<Rightarrow> string list" where
  "candidate_key c = [CandNamespace c, CandServer c, CandID c]"

text \<open>\<open>sort.Slice\<close> may order equal keys either way; the model keeps their order.\<close>

definition Discover ::
  "string option \<Rightarrow> state_exists \<Rightarrow> (string, registry_file) result \<Rightarrow> (ProviderName \<times> (Account \<Rightarrow> ServerRecord list \<times> 'e Diagnostic list)) option
     \<Rightarrow> Account \<Rightarrow> DiscoverFilter \<Rightarrow> ('e discover_error, Candidate list) result" where
  "Discover home ex registry provider account flt =
     (case provider of
        None \<Rightarrow> Inl ProviderRequired
      | Some (providerName, list) \<Rightarrow>
          if Token account = '''' then Inl ListCredentialMissing
          else (case list account of (records, diagnostics) \<Rightarrow>
            (case Err diagnostics of
               Some es \<Rightarrow> Inl (ListRefused es)
             | None \<Rightarrow> (case LoadRegistry registry of
                 Inl e \<Rightarrow> Inl (RegistryUnread e)
               | Inr reg \<Rightarrow> bindR (candidates_of home ex providerName flt reg records) (\<lambda>cs. Inr (sort_key candidate_key cs))))))"

section \<open>Enrichment\<close>

datatype enrich_error =
    DeviceListFailed string | DeviceLookupFailed device_error | DeviceUntagged string string "string list"
  | TunnelListFailed string | TunnelAmbiguous string

text \<open>Import queries carry no creation bound, so no timestamp is parsed.\<close>

definition MatchTailscaleDevice ::
  "(string, Device list) result \<Rightarrow> Candidate \<Rightarrow> Config \<Rightarrow> (enrich_error, TailscaleState) result" where
  "MatchTailscaleDevice listed candidate cfg =
     (case listed of
        Inl e \<Rightarrow> Inl (DeviceListFailed e)
      | Inr devices \<Rightarrow>
          (let host0 = trim_suffix (CandName candidate) ''.'';
               wantHost = (if host0 = '''' then trim_suffix (ComputeName (ComputeOf cfg)) ''.'' else host0);
               tags = Tags (tailscale_of cfg);
               first = SelectDevice (\<lambda>_. None) devices \<lparr>QHostname = wantHost, QTags = tags, QNodeID = '''', CreatedNotBefore = 0\<rparr>;
               found = (if first = Inl ErrDeviceNotFound
                  then SelectDevice (\<lambda>_. None) devices \<lparr>QHostname = wantHost, QTags = [], QNodeID = '''', CreatedNotBefore = 0\<rparr> else first)
           in case found of
                Inl e \<Rightarrow> Inl (DeviceLookupFailed e)
              | Inr device \<Rightarrow>
                  if DeviceTags device = [] \<and> tags \<noteq> [] then Inl (DeviceUntagged (StableID device) wantHost tags)
                  else Inr (no_tailscale\<lparr>TsTailnet := Tailnet (tailscale_of cfg), TsNodeID := StableID device,
                         TsName := DeviceName device, TsIPs := Addresses device, TsTags := DeviceTags device\<rparr>)))"

definition MatchCloudflareTunnel ::
  "(string, Tunnel list) result \<Rightarrow> Candidate \<Rightarrow> Config \<Rightarrow> (enrich_error, CloudflareState) result" where
  "MatchCloudflareTunnel listed candidate cfg =
     (case listed of
        Inl e \<Rightarrow> Inl (TunnelListFailed e)
      | Inr tunnels \<Rightarrow>
          (let want0 = CandName candidate;
               want1 = (if want0 = '''' then ComputeName (ComputeOf cfg) else want0);
               want = (if want1 = '''' then TunnelName (tunnel_of cfg) else want1)
           in case MatchTunnelByName tunnels want of
                Inl n \<Rightarrow> Inl (TunnelAmbiguous n)
              | Inr None \<Rightarrow> Inr no_cloudflare
              | Inr (Some t) \<Rightarrow> Inr \<lparr>TunnelID = TunnelIDOf t, TunnelStateName = TunnelNameOf t, Provenance = CloudflareTunnelImported\<rparr>))"

section \<open>What an import builds\<close>

record ImportOptions =
  OptProviderToken :: string
  OptTailscaleToken :: string
  OptCloudflareToken :: string
  OptCloudflareAccount :: string
  OptAdminUser :: string
  OptTailnet :: string
  WithTailscale :: bool
  WithCloudflare :: bool
  Force :: bool
  DryRun :: bool
  EnrichTailscale :: "(Candidate \<Rightarrow> Config \<Rightarrow> (enrich_error, TailscaleState) result) option"
  EnrichCloudflare :: "(Candidate \<Rightarrow> Config \<Rightarrow> (enrich_error, CloudflareState) result) option"

text \<open>
  What was there before: the state, and the config with its source bytes and its credentials. With a
  state the code compares the config's source at the write (\<open>checkConfigSource\<close>).
\<close>

record existing_artifacts =
  ExistingState :: "State option"
  ExistingConfig :: "(Config \<times> string \<times> Set) option"

definition none_existing :: existing_artifacts where
  "none_existing = \<lparr>ExistingState = None, ExistingConfig = None\<rparr>"

definition restoreMandatoryTailscaleAccess :: "Config \<Rightarrow> Config" where
  "restoreMandatoryTailscaleAccess cfg =
     cfg\<lparr>AccessOf := (AccessOf cfg)\<lparr>AccessTailscale := (tailscale_of cfg)
       \<lparr>TailscaleEnabled := TailscaleEnabled (tailscale_of DefaultConfig), TailscaleSSH := TailscaleSSH (tailscale_of DefaultConfig)\<rparr>\<rparr>\<rparr>"

text \<open>\<open>set_if v f\<close>: the update \<open>f v\<close>, unless \<open>v\<close> is empty.\<close>

definition set_if :: "string \<Rightarrow> (string \<Rightarrow> 'c \<Rightarrow> 'c) \<Rightarrow> 'c \<Rightarrow> 'c" where
  "set_if v f c = (if v \<noteq> '''' then f v c else c)"

definition with_compute_name :: "string \<Rightarrow> Config \<Rightarrow> Config" where
  "with_compute_name v c = c\<lparr>ComputeOf := (ComputeOf c)\<lparr>ComputeName := v\<rparr>,
     CloudflareOf := (CloudflareOf c)\<lparr>CloudflareTunnelConfig := (tunnel_of c)\<lparr>TunnelName := v\<rparr>\<rparr>\<rparr>"

definition with_compute :: "(ConfigCompute \<Rightarrow> ConfigCompute) \<Rightarrow> Config \<Rightarrow> Config" where
  "with_compute f c = c\<lparr>ComputeOf := f (ComputeOf c)\<rparr>"

definition with_tailscale :: "(Tailscale \<Rightarrow> Tailscale) \<Rightarrow> Config \<Rightarrow> Config" where
  "with_tailscale f c = c\<lparr>AccessOf := (AccessOf c)\<lparr>AccessTailscale := f (tailscale_of c)\<rparr>\<rparr>"

definition with_tunnel :: "(TunnelConfig \<Rightarrow> TunnelConfig) \<Rightarrow> Config \<Rightarrow> Config" where
  "with_tunnel f c = c\<lparr>CloudflareOf := (CloudflareOf c)\<lparr>CloudflareTunnelConfig := f (tunnel_of c)\<rparr>\<rparr>"

definition without_tunnel :: "Config \<Rightarrow> Config" where
  "without_tunnel c =
     (let c1 = with_tunnel (\<lambda>t. t\<lparr>TunnelEnabled := False\<rparr>) c in
      if IngressKind (NetworkOf c1) = ''cloudflare-tunnel'' then c1\<lparr>NetworkOf := (NetworkOf c1)\<lparr>IngressKind := ''none''\<rparr>\<rparr> else c1)"

definition buildImportConfig :: "string option \<Rightarrow> Candidate \<Rightarrow> ImportOptions \<Rightarrow> existing_artifacts \<Rightarrow> Config" where
  "buildImportConfig home candidate opts existing =
     (let c0 = (case ExistingConfig existing of
            None \<Rightarrow> ExampleServer home (CandNamespace candidate) (CandServer candidate)
          | Some (cfg, _, _) \<Rightarrow> cfg\<lparr>ConfigNamespace := CandNamespace candidate, ConfigServer := CandServer candidate\<rparr>);
          c1 = set_if (CandName candidate) with_compute_name c0;
          c2 = set_if (CandLocation candidate) (\<lambda>v. with_compute (\<lambda>m. m\<lparr>ComputeLocation := v\<rparr>)) c1;
          c3 = set_if (CandSize candidate) (\<lambda>v. with_compute (\<lambda>m. m\<lparr>ComputeSize := v\<rparr>)) c2;
          c4 = set_if (CandImage candidate) (\<lambda>v. with_compute (\<lambda>m. m\<lparr>ComputeImage := v\<rparr>)) c3;
          c5 = (if ExistingConfig existing = None \<or> OptAdminUser opts \<noteq> ''''
                then c4\<lparr>AdminOf := (AdminOf c4)\<lparr>Username := OptAdminUser opts\<rparr>\<rparr> else c4);
          c6 = set_if (OptTailnet opts) (\<lambda>v. with_tailscale (\<lambda>t. t\<lparr>Tailnet := v\<rparr>)) c5;
          c7 = with_compute (\<lambda>m. m\<lparr>ComputeLabels :=
                 Some (ConfigLabels (CandNamespace candidate) (CandServer candidate) (labels_of (ComputeLabels m)))\<rparr>) c6;
          c8 = (if WithCloudflare opts \<and> OptCloudflareAccount opts \<noteq> ''''
                then c7\<lparr>CloudflareOf := (CloudflareOf c7)\<lparr>AccountID := OptCloudflareAccount opts\<rparr>\<rparr> else c7)
      in if ExistingConfig existing = None \<and> OptCloudflareToken opts = '''' then without_tunnel c8 else c8)"

definition buildImportState :: "int \<Rightarrow> Candidate \<Rightarrow> Config \<Rightarrow> existing_artifacts \<Rightarrow> State" where
  "buildImportState now candidate cfg existing =
     (let compute = no_compute\<lparr>CProvider := CandProvider candidate, CNamespace := CandNamespace candidate, CServer := CandServer candidate,
            CID := CandID candidate, CName := CandName candidate, CLocation := CandLocation candidate, CSize := CandSize candidate,
            CImage := CandImage candidate, CPublicIPv4 := CandIPv4 candidate,
            CManagedResources := RecordResources (CandRecord candidate), CProviderState := RecordProviderState (CandRecord candidate)\<rparr>;
          tailnet = Tailnet (tailscale_of cfg);
          st = zero_state\<lparr>StateSchema := 1, StateNamespace := CandNamespace candidate, StateServer := CandServer candidate,
            ComputeIn := compute, TailscaleIn := no_tailscale\<lparr>TsTailnet := tailnet\<rparr>,
            StateLabels := ConfigLabels (CandNamespace candidate) (CandServer candidate) [], CreatedAt := now, UpdatedAt := now\<rparr>
      in case ExistingState existing of
           None \<Rightarrow> st
         | Some old \<Rightarrow> st\<lparr>TailscaleIn := (TailscaleIn old)\<lparr>TsTailnet := tailnet\<rparr>, CloudflareIn := CloudflareIn old,
             IngressIn := IngressIn old, CreatedAt := CreatedAt old\<rparr>)"

text \<open>The enrichers' answers, merged with what the existing state shows serverpro did itself.\<close>

definition keep_policy :: "existing_artifacts \<Rightarrow> TailscaleState \<Rightarrow> TailscaleState" where
  "keep_policy existing t = (case ExistingState existing of
     None \<Rightarrow> t
   | Some old \<Rightarrow> (let own = TailscaleIn old in
       t\<lparr>TsAuthKeyID := TsAuthKeyID own, TsPolicyTagOwners := TsPolicyTagOwners own, TsPolicySSHRule := TsPolicySSHRule own,
         TsPolicySSHTags := TsPolicySSHTags own, TsPolicySSHAutomationSource := TsPolicySSHAutomationSource own\<rparr>))"

definition enrich_tailscale :: "ImportOptions \<Rightarrow> existing_artifacts \<Rightarrow> Candidate \<Rightarrow> Config \<times> State \<Rightarrow> (enrich_error, Config \<times> State) result" where
  "enrich_tailscale opts existing candidate cs =
     (case cs of (cfg, st) \<Rightarrow>
       (case EnrichTailscale opts of
          Some enrich \<Rightarrow> if WithTailscale opts then bindR (enrich candidate cfg) (\<lambda>t.
              (let t2 = (keep_policy existing t)\<lparr>TsTailnet := Tailnet (tailscale_of cfg)\<rparr> in
               Inr (if TsTags t2 \<noteq> [] then with_tailscale (\<lambda>x. x\<lparr>Tags := TsTags t2\<rparr>) cfg else cfg, st\<lparr>TailscaleIn := t2\<rparr>)))
            else Inr (cfg, st)
        | None \<Rightarrow> Inr (cfg, st)))"

definition keep_provenance :: "existing_artifacts \<Rightarrow> CloudflareState \<Rightarrow> CloudflareState" where
  "keep_provenance existing t = (case ExistingState existing of
     None \<Rightarrow> t
   | Some old \<Rightarrow> if TunnelID (CloudflareIn old) = TunnelID t
         \<and> Provenance (CloudflareIn old) \<in> {CloudflareTunnelCreated, CloudflareTunnelAdopted}
       then t\<lparr>Provenance := Provenance (CloudflareIn old)\<rparr> else t)"

definition enrich_cloudflare :: "ImportOptions \<Rightarrow> existing_artifacts \<Rightarrow> Candidate \<Rightarrow> Config \<times> State \<Rightarrow> (enrich_error, Config \<times> State) result" where
  "enrich_cloudflare opts existing candidate cs =
     (case cs of (cfg, st) \<Rightarrow>
       (case EnrichCloudflare opts of
          Some enrich \<Rightarrow> if WithCloudflare opts then bindR (enrich candidate cfg) (\<lambda>t0.
              (let t = keep_provenance existing t0 in
               Inr (if TunnelID t \<noteq> ''''
                 then (let c1 = cfg\<lparr>NetworkOf := (NetworkOf cfg)\<lparr>IngressKind := ''cloudflare-tunnel''\<rparr>\<rparr> in
                       with_tunnel (\<lambda>x. x\<lparr>TunnelEnabled := True, CreateConnectorOnly := True, TunnelName := TunnelStateName t\<rparr>) c1)
                 else cfg, st\<lparr>CloudflareIn := t\<rparr>)))
            else Inr (cfg, st)
        | None \<Rightarrow> Inr (cfg, st)))"

definition enrichImportArtifacts ::
  "string option \<Rightarrow> int \<Rightarrow> Candidate \<Rightarrow> ImportOptions \<Rightarrow> existing_artifacts \<Rightarrow> (enrich_error, Config \<times> State) result" where
  "enrichImportArtifacts home now candidate opts existing =
     (let cfg = buildImportConfig home candidate opts existing; st = buildImportState now candidate cfg existing in
      bindR (enrich_tailscale opts existing candidate (cfg, st)) (enrich_cloudflare opts existing candidate))"


end
