(* ===== verification/Import_Transaction.thy ===== *)
theory Import_Transaction
  imports Import_Model
begin

text \<open>
  The import of a candidate (internal/importsync: import.go, import_transaction.go): what it reads of
  the local files, the guard against overwriting, and five writes behind a recovery marker. A run gives
  its outcome and the disk after each write, so that every moment at which a process may die is a value.

  Other processes may change the disk while the workflow lock is waited for (\<open>wait\<close>). A write that
  fails leaves its file as it was.
\<close>

section \<open>The marker\<close>

record importMarker =
  MarkerSchema :: int
  MarkerNamespace :: string
  MarkerServer :: string
  MarkerProvider :: string
  MarkerID :: string

definition importMarkerSchemaVersion :: int where
  "importMarkerSchemaVersion = 1"

definition markerForCandidate :: "Candidate \<Rightarrow> importMarker" where
  "markerForCandidate c = \<lparr>MarkerSchema = importMarkerSchemaVersion, MarkerNamespace = CandNamespace c, MarkerServer = CandServer c,
     MarkerProvider = CandProvider c, MarkerID = CandID c\<rparr>"

definition markerForState :: "State \<Rightarrow> importMarker" where
  "markerForState st = \<lparr>MarkerSchema = importMarkerSchemaVersion, MarkerNamespace = StateNamespace st, MarkerServer = StateServer st,
     MarkerProvider = CProvider (ComputeIn st), MarkerID = CID (ComputeIn st)\<rparr>"

section \<open>Disk and environment\<close>

text \<open>The local files of one server, and the registry. Of the credentials it holds what was last published.\<close>

record import_disk =
  MarkerOn :: "importMarker option"
  ConfigOn :: "string option"
  CredentialsOn :: published_set
  StateOn :: state_file
  RegistryOn :: registry_file

datatype importWriteStage = StageMarker | StageConfig | StageState | StageRegistry | StageComplete

record import_env =
  ImpHome :: "string option"
  ImpCwd :: "string option"
  ImpYaml :: yaml_codec
  ImpDuration :: "string \<Rightarrow> int option"
  ImpCreds :: cred_env
  MarkerReadError :: "string option"
  ConfigReadError :: "string option"
  StateReadError :: "string option"
  StatError :: "string option"            \<comment> \<open>of the first look at the state file\<close>
  StatAgainError :: "string option"       \<comment> \<open>of the second one, under the lock\<close>
  StageError :: "importWriteStage \<Rightarrow> string option"
  WorkflowLockError :: "string option"
  TailnetLockError :: "string option"
  NowBuild :: int
  NowState :: int
  NowRegistry :: int

datatype import_error =
    LabelsMissing | StateUnknown string | WorkflowLocked string | MarkerUnread string | MarkerMismatch string string
  | StateUnloaded state_error | ConfigUnloaded config_error | ConfigUnread string | CredentialsUnloaded credentials_error
  | EnrichFailed enrich_error | TailnetLocked string
  | MarkerWriteFailed string | ConfigWriteFailed config_error | CredentialsWriteFailed credentials_error
  | StateSaveFailed state_error | RegistryWriteFailed registry_error | CompleteFailed string

definition loadImportMarker :: "import_env \<Rightarrow> import_disk \<Rightarrow> (import_error, importMarker option) result" where
  "loadImportMarker env d = (case MarkerReadError env of Some e \<Rightarrow> Inl (MarkerUnread e) | None \<Rightarrow> Inr (MarkerOn d))"

definition importIsResumable :: "import_env \<Rightarrow> import_disk \<Rightarrow> Candidate \<Rightarrow> (import_error, bool) result" where
  "importIsResumable env d candidate = bindR (loadImportMarker env d) (\<lambda>m.
     (case m of
        None \<Rightarrow> Inr False
      | Some marker \<Rightarrow> if marker \<noteq> markerForCandidate candidate then Inl (MarkerMismatch (CandNamespace candidate) (CandServer candidate))
          else Inr True))"

section \<open>The writes\<close>

type_synonym import_write = "import_disk \<Rightarrow> import_error option \<times> import_disk"

definition write_marker :: "import_env \<Rightarrow> State \<Rightarrow> import_write" where
  "write_marker env st d = (case StageError env StageMarker of
     Some e \<Rightarrow> (Some (MarkerWriteFailed e), d)
   | None \<Rightarrow> (None, d\<lparr>MarkerOn := Some (markerForState st)\<rparr>))"

definition write_config :: "import_env \<Rightarrow> existing_artifacts \<Rightarrow> Config \<Rightarrow> import_write" where
  "write_config env existing cfg d =
     (case (if ExistingState existing \<noteq> None
            then SaveIfUnchanged (ImpYaml env) (ImpHome env) (StageError env StageConfig) cfg
                   (map_option (\<lambda>(_, source, _). source) (ExistingConfig existing)) (ConfigOn d)
            else saveConfigUnlocked (ImpYaml env) (ImpHome env) (StageError env StageConfig) cfg (ConfigOn d)) of
        (e, body) \<Rightarrow> (map_option ConfigWriteFailed e, d\<lparr>ConfigOn := body\<rparr>))"

definition import_credentials :: "ImportOptions \<Rightarrow> existing_artifacts \<Rightarrow> Config \<Rightarrow> State \<Rightarrow> Set" where
  "import_credentials opts existing cfg st =
     (let s0 = (case ExistingConfig existing of Some (_, _, creds) \<Rightarrow> creds | None \<Rightarrow> empty_set '''' '''');
          s1 = s0\<lparr>SetNamespace := ConfigNamespace cfg, SetServer := ConfigServer cfg, ServerProvider := OptProviderToken opts,
                ServerProviderName := CProvider (ComputeIn st)\<rparr>;
          s2 = (if OptTailscaleToken opts \<noteq> '''' then s1\<lparr>TailscaleToken := OptTailscaleToken opts\<rparr> else s1)
      in if OptCloudflareToken opts \<noteq> '''' then s2\<lparr>CloudflareToken := OptCloudflareToken opts\<rparr> else s2)"

definition write_credentials :: "import_env \<Rightarrow> Config \<Rightarrow> Set \<Rightarrow> import_write" where
  "write_credentials env cfg creds d =
     (case (if MissingForConfig creds cfg \<noteq> [] then SavePartialSet (ImpCreds env) cfg creds else SaveSet (ImpCreds env) cfg creds) of
        (e, p) \<Rightarrow> (map_option CredentialsWriteFailed e, if p = None then d else d\<lparr>CredentialsOn := p\<rparr>))"

definition write_state :: "import_env \<Rightarrow> State \<Rightarrow> import_write" where
  "write_state env st d =
     (case saveStateUnlocked (NowState env) (StageError env StageState) st (StateOn d) of
        (e, file) \<Rightarrow> (map_option StateSaveFailed e, d\<lparr>StateOn := file\<rparr>))"

definition import_entry :: "import_env \<Rightarrow> Config \<Rightarrow> string \<Rightarrow> string \<Rightarrow> RegistryEntry" where
  "import_entry env cfg cfgPath stPath =
     \<lparr>EntryNamespace = ConfigNamespace cfg, EntryServer = ConfigServer cfg, StatePath = stPath,
      ConfigPath = (let expanded = Expand (ImpHome env) cfgPath in case ImpCwd env of Some cwd \<Rightarrow> Abs cwd expanded | None \<Rightarrow> expanded),
      CredentialsPath = JSONPath (CredentialsOf cfg),
      ResourceNames = \<lparr>ComputeServer = ComputeName (ComputeOf cfg), CloudflareTunnel = TunnelName (tunnel_of cfg)\<rparr>,
      EntryLabels = labels_of (ComputeLabels (ComputeOf cfg)), EntryCreatedAt = 0, EntryUpdatedAt = 0\<rparr>"

definition write_registry :: "import_env \<Rightarrow> RegistryEntry \<Rightarrow> import_write" where
  "write_registry env entry d =
     (case UpdateRegistry (NowRegistry env) (StageError env StageRegistry) (\<lambda>reg. Inr (Upsert (NowRegistry env) entry reg)) (RegistryOn d) of
        (e, file) \<Rightarrow> (map_option RegistryWriteFailed e, d\<lparr>RegistryOn := file\<rparr>))"

definition remove_marker :: "import_env \<Rightarrow> import_write" where
  "remove_marker env d = (case StageError env StageComplete of
     Some e \<Rightarrow> (Some (CompleteFailed e), d)
   | None \<Rightarrow> (None, d\<lparr>MarkerOn := None\<rparr>))"

fun run_writes :: "import_write list \<Rightarrow> import_disk \<Rightarrow> import_error option \<times> import_disk list" where
  "run_writes [] d = (None, [])"
| "run_writes (w # ws) d =
     (case w d of
        (Some e, d') \<Rightarrow> (Some e, [d'])
      | (None, d') \<Rightarrow> (case run_writes ws d' of (r, ds) \<Rightarrow> (r, d' # ds)))"

definition writeImportArtifacts ::
  "import_env \<Rightarrow> ImportOptions \<Rightarrow> existing_artifacts \<Rightarrow> Config \<Rightarrow> State \<Rightarrow> string \<Rightarrow> string \<Rightarrow> import_disk \<Rightarrow> import_error option \<times> import_disk list" where
  "writeImportArtifacts env opts existing cfg st cfgPath stPath d =
     (case loadImportMarker env d of
        Inl e \<Rightarrow> (Some e, [])
      | Inr found \<Rightarrow>
          if found \<noteq> None \<and> found \<noteq> Some (markerForState st) then (Some (MarkerMismatch (StateNamespace st) (StateServer st)), [])
          else run_writes
            [write_marker env st, write_config env existing cfg,
             write_credentials env cfg (import_credentials opts existing cfg st), write_state env st,
             write_registry env (import_entry env cfg cfgPath stPath), remove_marker env] d)"

definition publishImportArtifacts ::
  "import_env \<Rightarrow> ImportOptions \<Rightarrow> existing_artifacts \<Rightarrow> Config \<Rightarrow> State \<Rightarrow> string \<Rightarrow> string \<Rightarrow> import_disk \<Rightarrow> import_error option \<times> import_disk list" where
  "publishImportArtifacts env opts existing cfg st cfgPath stPath d =
     (case TailnetLockError env of
        Some e \<Rightarrow> (Some (TailnetLocked e), [])
      | None \<Rightarrow> writeImportArtifacts env opts existing cfg st cfgPath stPath d)"

section \<open>One candidate\<close>

datatype import_status = Planned | Imported | Skipped | Failed import_error

definition load_existing :: "import_env \<Rightarrow> ImportOptions \<Rightarrow> import_disk \<Rightarrow> (import_error, existing_artifacts) result" where
  "load_existing env opts d =
     (case LoadState (StateReadError env) (StateOn d) of
        Inl e \<Rightarrow> Inl (StateUnloaded e)
      | Inr old \<Rightarrow>
          (case ConfigReadError env of
             Some e \<Rightarrow> Inl (ConfigUnread e)
           | None \<Rightarrow> (case ConfigOn d of
               None \<Rightarrow> Inr \<lparr>ExistingState = Some old, ExistingConfig = None\<rparr>
             | Some source \<Rightarrow>
                 (case LoadPartialBytes (ImpYaml env) (ImpHome env) source of
                    Inl e \<Rightarrow> Inl (ConfigUnloaded e)
                  | Inr c0 \<Rightarrow>
                      (let cfg = restoreMandatoryTailscaleAccess c0 in
                       case (if Force opts then ValidateConfig (ImpDuration env) cfg else None) of
                         Some e \<Rightarrow> Inl (ConfigUnloaded e)
                       | None \<Rightarrow> (case LoadPartialSet (ImpCreds env) cfg of
                           Inl e \<Rightarrow> Inl (CredentialsUnloaded e)
                         | Inr creds \<Rightarrow> Inr \<lparr>ExistingState = Some old, ExistingConfig = Some (cfg, source, creds)\<rparr>))))))"

definition executeImportAttempt ::
  "import_env \<Rightarrow> ImportOptions \<Rightarrow> Candidate \<Rightarrow> bool \<Rightarrow> import_disk \<Rightarrow> import_status \<times> import_disk list" where
  "executeImportAttempt env opts candidate exists d =
     (case importIsResumable env d candidate of
        Inl e \<Rightarrow> (Failed e, [])
      | Inr resumable \<Rightarrow>
          if exists \<and> \<not> Force opts \<and> \<not> resumable then (Skipped, [])
          else
            (case (if exists \<and> (Force opts \<or> resumable) then load_existing env opts d else Inr none_existing) of
               Inl e \<Rightarrow> (Failed e, [])
             | Inr existing \<Rightarrow>
                 (case enrichImportArtifacts (ImpHome env) (NowBuild env) candidate opts existing of
                    Inl e \<Rightarrow> (Failed (EnrichFailed e), [])
                  | Inr (cfg, st) \<Rightarrow>
                      if DryRun opts then (Planned, [])
                      else (case publishImportArtifacts env opts existing cfg st
                              (ServerConfigPath (ImpHome env) (CandNamespace candidate) (CandServer candidate))
                              (ServerStatePath (ImpHome env) (CandNamespace candidate) (CandServer candidate)) d of
                              (Some e, ds) \<Rightarrow> (Failed e, ds)
                            | (None, ds) \<Rightarrow> (Imported, ds)))))"

definition importOne ::
  "import_env \<Rightarrow> ImportOptions \<Rightarrow> (import_disk \<Rightarrow> import_disk) \<Rightarrow> Candidate \<Rightarrow> import_disk \<Rightarrow> import_status \<times> import_disk list" where
  "importOne env opts wait candidate d =
     (if \<not> LabelsOK candidate \<or> CandNamespace candidate = '''' \<or> CandServer candidate = '''' then (Failed LabelsMissing, [])
      else (case StatError env of
        Some e \<Rightarrow> (Failed (StateUnknown e), [])
      | None \<Rightarrow>
          if DryRun opts then executeImportAttempt env opts candidate (StateOn d \<noteq> NoState) d
          else (case WorkflowLockError env of
            Some e \<Rightarrow> (Failed (WorkflowLocked e), [])
          | None \<Rightarrow> (case StatAgainError env of
              Some e \<Rightarrow> (Failed (StateUnknown e), [])
            | None \<Rightarrow> executeImportAttempt env opts candidate (StateOn (wait d) \<noteq> NoState) (wait d)))))"

section \<open>A batch\<close>

datatype batch_error = ImportCredentialMissing | NoCandidates | DuplicateOwnership string string string

fun validate_keys :: "(string, string) gomap \<Rightarrow> Candidate list \<Rightarrow> batch_error option" where
  "validate_keys seen [] = None"
| "validate_keys seen (c # cs) =
     (if \<not> LabelsOK c \<or> CandNamespace c = '''' \<or> CandServer c = '''' then validate_keys seen cs
      else (let key = CandNamespace c @ ''/'' @ CandServer c in
        case gm_get seen key of
          Some prev \<Rightarrow> if prev \<noteq> CandID c then Some (DuplicateOwnership key prev (CandID c))
            else validate_keys (gm_put key (CandID c) seen) cs
        | None \<Rightarrow> validate_keys (gm_put key (CandID c) seen) cs))"

definition validateCandidateKeys :: "Candidate list \<Rightarrow> batch_error option" where
  "validateCandidateKeys candidates = validate_keys [] candidates"

text \<open>The files of all servers, and the registry that they share. In a batch no other process writes.\<close>

record import_world =
  FilesOf :: "string \<times> string \<Rightarrow> import_disk"
  SharedRegistry :: registry_file

definition disk_of :: "import_world \<Rightarrow> Candidate \<Rightarrow> import_disk" where
  "disk_of w c = (FilesOf w (CandNamespace c, CandServer c))\<lparr>RegistryOn := SharedRegistry w\<rparr>"

definition put_disk :: "Candidate \<Rightarrow> import_disk \<Rightarrow> import_world \<Rightarrow> import_world" where
  "put_disk c d w = w\<lparr>FilesOf := (FilesOf w)((CandNamespace c, CandServer c) := d), SharedRegistry := RegistryOn d\<rparr>"

fun import_each ::
  "(Candidate \<Rightarrow> import_env) \<Rightarrow> ImportOptions \<Rightarrow> Candidate list \<Rightarrow> import_world \<Rightarrow> import_status list \<times> import_world" where
  "import_each env opts [] w = ([], w)"
| "import_each env opts (c # cs) w =
     (case importOne (env c) opts id c (disk_of w c) of
        (s, ds) \<Rightarrow> (case import_each env opts cs (if ds = [] then w else put_disk c (last ds) w) of (ss, w') \<Rightarrow> (s # ss, w')))"

definition ImportAll ::
  "(Candidate \<Rightarrow> import_env) \<Rightarrow> ImportOptions \<Rightarrow> Candidate list \<Rightarrow> import_world
     \<Rightarrow> (batch_error, import_status list) result \<times> import_world" where
  "ImportAll env opts candidates w =
     (if OptProviderToken opts = '''' then (Inl ImportCredentialMissing, w)
      else if candidates = [] then (Inl NoCandidates, w)
      else (case validateCandidateKeys candidates of
        Some e \<Rightarrow> (Inl e, w)
      | None \<Rightarrow> (case import_each env opts candidates w of (ss, w') \<Rightarrow> (Inr ss, w'))))"

end
