(* ===== verification/Import_Safety.thy ===== *)
theory Import_Safety
  imports Import_Transaction
begin

text \<open>
  What an import guarantees. Wherever it stops, the disk is as it was, or a marker names this server and
  a rerun of the same import resumes while one of another server is refused, or the import is complete.
  It writes nothing over a state unless it was told to or resumes. And it never makes serverpro the
  owner of a tunnel that the state before did not record as created by serverpro.
\<close>

section \<open>What is built\<close>

lemma set_if_keeps: "(\<And>v c. g (f v c) = g c) \<Longrightarrow> g (set_if v f c) = g c"
  by (simp add: set_if_def)

lemma with_keeps [simp]:
  "ConfigNamespace (with_compute f c) = ConfigNamespace c" "ConfigServer (with_compute f c) = ConfigServer c"
  "ConfigNamespace (with_tailscale g c) = ConfigNamespace c" "ConfigServer (with_tailscale g c) = ConfigServer c"
  "ConfigNamespace (with_tunnel k c) = ConfigNamespace c" "ConfigServer (with_tunnel k c) = ConfigServer c"
  "ConfigNamespace (with_compute_name v c) = ConfigNamespace c" "ConfigServer (with_compute_name v c) = ConfigServer c"
  "ConfigNamespace (without_tunnel c) = ConfigNamespace c" "ConfigServer (without_tunnel c) = ConfigServer c"
  by (simp_all add: with_compute_def with_tailscale_def with_tunnel_def with_compute_name_def without_tunnel_def Let_def)

text \<open>A field survives a chain of \<open>let\<close>s when every step keeps it.\<close>

lemma keep_let: "g a = v \<Longrightarrow> (\<And>x. g x = v \<Longrightarrow> g (f x) = v) \<Longrightarrow> g (Let a f) = v"
  by simp

lemma built_namespace: "ConfigNamespace (buildImportConfig home c opts existing) = CandNamespace c"
  unfolding buildImportConfig_def
  by ((rule keep_let [of ConfigNamespace], simp add: set_if_def ExampleServer_def Let_def split: option.split)+)
    (simp add: set_if_def)

lemma built_server: "ConfigServer (buildImportConfig home c opts existing)
     = (if ExistingConfig existing = None then Normalize (CandServer c) else CandServer c)"
  unfolding buildImportConfig_def
  by ((rule keep_let [of ConfigServer], simp add: set_if_def ExampleServer_def Let_def split: option.split)+)
    (simp add: set_if_def)

lemmas built_config_identity = built_namespace built_server

lemma built_state_identity:
  "StateNamespace (buildImportState now c cfg existing) = CandNamespace c" "StateServer (buildImportState now c cfg existing) = CandServer c"
  "CProvider (ComputeIn (buildImportState now c cfg existing)) = CandProvider c" "CID (ComputeIn (buildImportState now c cfg existing)) = CandID c"
  by (simp_all add: buildImportState_def Let_def split: option.splits)

text \<open>The enrichers change the tailnet and tunnel parts only.\<close>

lemma enriched:
  assumes "enrichImportArtifacts home now c opts existing = Inr (cfg, st)"
  shows "markerForState st = markerForCandidate c" "ConfigNamespace cfg = CandNamespace c"
    "ConfigServer cfg = (if ExistingConfig existing = None then Normalize (CandServer c) else CandServer c)"
    "StateServer st = CandServer c" "StateNamespace st = CandNamespace c"
    "CProvider (ComputeIn st) = CandProvider c" "CID (ComputeIn st) = CandID c"
  using assms built_config_identity [of home c opts existing]
    built_state_identity [of now c "buildImportConfig home c opts existing" existing]
  by (auto simp: enrichImportArtifacts_def enrich_tailscale_def enrich_cloudflare_def bindR_def Let_def markerForState_def markerForCandidate_def
      split: sum.splits option.splits if_splits)

section \<open>The transaction\<close>

lemma run_writes_append:
  "run_writes (ws @ vs) d = (case run_writes ws d of
     (Some e, ds) \<Rightarrow> (Some e, ds)
   | (None, ds) \<Rightarrow> (case run_writes vs (last (d # ds)) of (r, es) \<Rightarrow> (r, ds @ es)))"
  by (induction ws arbitrary: d) (auto split: prod.splits option.splits)

lemma run_writes_done:
  "run_writes [] d = (None, ds) \<longleftrightarrow> ds = []"
  "run_writes (w # ws) d = (None, ds) \<longleftrightarrow> (\<exists>d' ds'. w d = (None, d') \<and> run_writes ws d' = (None, ds') \<and> ds = d' # ds')"
  by (auto split: prod.splits option.splits)

text \<open>The writes between the marker's and its removal leave the marker alone.\<close>

definition keeps_marker :: "import_write \<Rightarrow> bool" where
  "keeps_marker w \<longleftrightarrow> (\<forall>d. MarkerOn (snd (w d)) = MarkerOn d)"

lemma run_keeps_marker:
  assumes "list_all keeps_marker ws" "run_writes ws d = (r, ds)" "d' \<in> set ds"
  shows "MarkerOn d' = MarkerOn d"
  using assms
proof (induction ws arbitrary: d r ds)
  case (Cons w ws)
  obtain e d1 where w: "w d = (e, d1)" by (cases "w d")
  with Cons.prems(1) have m: "MarkerOn d1 = MarkerOn d" by (simp add: keeps_marker_def) (metis snd_conv)
  obtain r2 es where ws: "run_writes ws d1 = (r2, es)" by (cases "run_writes ws d1")
  from Cons.prems(2,3) w ws have "d' = d1 \<or> e = None \<and> d' \<in> set es" by (auto split: option.splits)
  then show ?case using Cons.IH [OF _ ws] Cons.prems(1) m by auto
qed simp

definition middle_writes :: "import_env \<Rightarrow> ImportOptions \<Rightarrow> existing_artifacts \<Rightarrow> Config \<Rightarrow> State \<Rightarrow> string \<Rightarrow> string \<Rightarrow> import_write list" where
  "middle_writes env opts existing cfg st cfgPath stPath =
     [write_config env existing cfg, write_credentials env cfg (import_credentials opts existing cfg st), write_state env st,
      write_registry env (import_entry env cfg cfgPath stPath)]"

lemma middle_keeps: "list_all keeps_marker (middle_writes env opts existing cfg st cfgPath stPath)"
  by (auto simp: middle_writes_def keeps_marker_def write_config_def write_credentials_def write_state_def write_registry_def
      split: prod.splits)

text \<open>Every moment of the transaction: untouched, marked, or over.\<close>

lemma transaction_moments:
  assumes run: "writeImportArtifacts env opts existing cfg st cfgPath stPath d = (r, ds)" and d': "d' \<in> set ds"
  shows "d' = d \<or> MarkerOn d' = Some (markerForState st) \<or> (r = None \<and> d' = last ds)"
proof -
  let ?mid = "middle_writes env opts existing cfg st cfgPath stPath"
  have ws: "run_writes (write_marker env st # ?mid @ [remove_marker env]) d = (r, ds)"
    using run d' by (auto simp: writeImportArtifacts_def middle_writes_def split: sum.splits if_splits)
  show ?thesis
  proof (cases "StageError env StageMarker")
    case (Some e)
    with ws have "ds = [d]" by (auto simp: write_marker_def)
    with d' show ?thesis by simp
  next
    case None
    let ?d1 = "d\<lparr>MarkerOn := Some (markerForState st)\<rparr>"
    obtain r1 es where mid: "run_writes ?mid ?d1 = (r1, es)" by (cases "run_writes ?mid ?d1")
    have marked: "MarkerOn x = Some (markerForState st)" if "x \<in> set (?d1 # es)" for x
      using run_keeps_marker [OF middle_keeps mid, of x] that by auto
    have last: "MarkerOn (last (?d1 # es)) = Some (markerForState st)" by (rule marked) (rule last_in_set, simp)
    show ?thesis
    proof (cases r1)
      case (Some e)
      with None ws mid have "ds = ?d1 # es" by (simp add: write_marker_def run_writes_append)
      with d' marked show ?thesis by blast
    next
      case no_err: None
      define dl where "dl = last (?d1 # es)"
      have all: "ds = ?d1 # es @ snd (run_writes [remove_marker env] dl)" "r = fst (run_writes [remove_marker env] dl)"
        using None ws mid no_err unfolding dl_def
        by (simp_all add: write_marker_def run_writes_append del: last.simps run_writes.simps(2) add: run_writes.simps(2) [of "write_marker env st"]
            split: prod.splits)
      have dl: "MarkerOn dl = Some (markerForState st)" unfolding dl_def by (rule last)
      show ?thesis
      proof (cases "StageError env StageComplete")
        case (Some e)
        then have "ds = (?d1 # es) @ [dl]" using all by (simp add: remove_marker_def)
        with d' marked dl show ?thesis by auto
      next
        case gone: None
        then have "ds = (?d1 # es) @ [dl\<lparr>MarkerOn := None\<rparr>]" "r = None" using all by (simp_all add: remove_marker_def)
        with d' marked show ?thesis by auto
      qed
    qed
  qed
qed

text \<open>The end of a transaction that went through: each write took effect.\<close>

definition published_files :: "import_env \<Rightarrow> ImportOptions \<Rightarrow> existing_artifacts \<Rightarrow> Config \<Rightarrow> State \<Rightarrow> string \<Rightarrow> string \<Rightarrow> import_disk \<Rightarrow> import_disk \<Rightarrow> bool" where
  "published_files env opts existing cfg st cfgPath stPath d d' \<longleftrightarrow> MarkerOn d' = None
     \<and> (\<exists>body. Marshal (ImpYaml env) (saved_config (ImpHome env) cfg) = Inr body \<and> ConfigOn d' = Some body)
     \<and> (\<exists>p. CredentialsOn d' = Some (p, (import_credentials opts existing cfg st)\<lparr>SetNamespace := ConfigNamespace cfg, SetServer := ConfigServer cfg\<rparr>))
     \<and> saveStateUnlocked (NowState env) None st (StateOn d) = (None, StateOn d')
     \<and> UpdateRegistry (NowRegistry env) None (\<lambda>reg. Inr (Upsert (NowRegistry env) (import_entry env cfg cfgPath stPath) reg)) (RegistryOn d) = (None, RegistryOn d')"

lemma save_config_done:
  "saveConfigUnlocked yaml home wr cfg old = (None, new) \<Longrightarrow> \<exists>body. Marshal yaml (saved_config home cfg) = Inr body \<and> new = Some body"
  "SaveIfUnchanged yaml home wr cfg expected old = (None, new) \<Longrightarrow> \<exists>body. Marshal yaml (saved_config home cfg) = Inr body \<and> new = Some body"
  by (auto simp: SaveIfUnchanged_def saveConfigUnlocked_def split: sum.splits option.splits if_splits)

lemma save_set_done:
  "save_set env cfg creds b = (None, p) \<Longrightarrow> \<exists>path. p = Some (path, creds\<lparr>SetNamespace := ConfigNamespace cfg, SetServer := ConfigServer cfg\<rparr>)"
  by (auto simp: save_set_def writeCredentialSet_def Let_def split: sum.splits option.splits if_splits)

lemma save_state_done: "saveStateUnlocked now wr s old = (None, new) \<Longrightarrow> saveStateUnlocked now None s old' = (None, new)"
  by (auto simp: saveStateUnlocked_def Let_def split: sum.splits option.splits)

lemma update_registry_done: "UpdateRegistry now wr fn disk = (None, new) \<Longrightarrow> UpdateRegistry now None fn disk = (None, new)"
  by (auto simp: UpdateRegistry_def saveRegistryUnlocked_def Let_def split: sum.splits option.splits if_splits)

lemma transaction_done:
  assumes "writeImportArtifacts env opts existing cfg st cfgPath stPath d = (None, ds)"
  shows "ds \<noteq> [] \<and> published_files env opts existing cfg st cfgPath stPath d (last ds)"
proof -
  from assms have "run_writes
            [write_marker env st, write_config env existing cfg,
             write_credentials env cfg (import_credentials opts existing cfg st), write_state env st,
             write_registry env (import_entry env cfg cfgPath stPath), remove_marker env] d = (None, ds)"
    by (auto simp: writeImportArtifacts_def simp del: run_writes.simps split: sum.splits if_splits)
  then obtain d1 d2 d3 d4 d5 d6 where ds: "ds = [d1, d2, d3, d4, d5, d6]"
    and w: "write_marker env st d = (None, d1)" "write_config env existing cfg d1 = (None, d2)"
      "write_credentials env cfg (import_credentials opts existing cfg st) d2 = (None, d3)" "write_state env st d3 = (None, d4)"
      "write_registry env (import_entry env cfg cfgPath stPath) d4 = (None, d5)" "remove_marker env d5 = (None, d6)"
    unfolding run_writes_done by blast
  have 1: "d1 = d\<lparr>MarkerOn := Some (markerForState st)\<rparr>" using w(1) by (simp add: write_marker_def split: option.splits)
  have 2: "\<exists>body. Marshal (ImpYaml env) (saved_config (ImpHome env) cfg) = Inr body \<and> d2 = d1\<lparr>ConfigOn := Some body\<rparr>"
    using w(2) save_config_done by (fastforce simp: write_config_def split: prod.splits if_splits)
  have 3: "\<exists>p. d3 = d2\<lparr>CredentialsOn := Some (p, (import_credentials opts existing cfg st)\<lparr>SetNamespace := ConfigNamespace cfg, SetServer := ConfigServer cfg\<rparr>)\<rparr>"
    using w(3) save_set_done by (fastforce simp: write_credentials_def SaveSet_def SavePartialSet_def split: prod.splits if_splits)
  have 4: "\<exists>file. saveStateUnlocked (NowState env) None st (StateOn d3) = (None, file) \<and> d4 = d3\<lparr>StateOn := file\<rparr>"
    using w(4) save_state_done by (fastforce simp: write_state_def split: prod.splits)
  have 5: "\<exists>file. UpdateRegistry (NowRegistry env) None (\<lambda>reg. Inr (Upsert (NowRegistry env) (import_entry env cfg cfgPath stPath) reg)) (RegistryOn d4) = (None, file)
      \<and> d5 = d4\<lparr>RegistryOn := file\<rparr>"
    using w(5) update_registry_done by (fastforce simp: write_registry_def split: prod.splits)
  have 6: "d6 = d5\<lparr>MarkerOn := None\<rparr>" using w(6) by (simp add: remove_marker_def split: option.splits)
  from 1 2 3 4 5 6 show ?thesis unfolding published_files_def ds by auto
qed


section \<open>One candidate\<close>

text \<open>An import that writes got past every guard.\<close>

lemma attempt_writes:
  assumes "executeImportAttempt env opts c exists d = (s, ds)" "ds \<noteq> [] \<or> s = Imported"
  obtains existing cfg st r where
    "(if exists then load_existing env opts d else Inr none_existing) = Inr existing"
    "enrichImportArtifacts (ImpHome env) (NowBuild env) c opts existing = Inr (cfg, st)"
    "writeImportArtifacts env opts existing cfg st (ServerConfigPath (ImpHome env) (CandNamespace c) (CandServer c))
       (ServerStatePath (ImpHome env) (CandNamespace c) (CandServer c)) d = (r, ds)"
    "s = Imported \<longleftrightarrow> r = None" "\<not> DryRun opts" "\<forall>m. MarkerOn d = Some m \<longrightarrow> m = markerForCandidate c"
    "exists \<and> \<not> Force opts \<longrightarrow> MarkerOn d = Some (markerForCandidate c)"
proof -
  from assms obtain resumable where res: "importIsResumable env d c = Inr resumable" "\<not> (exists \<and> \<not> Force opts \<and> \<not> resumable)"
    by (auto simp: executeImportAttempt_def split: sum.splits if_splits)
  have marker: "\<forall>m. MarkerOn d = Some m \<longrightarrow> m = markerForCandidate c" "resumable \<longrightarrow> MarkerOn d = Some (markerForCandidate c)"
    using res(1) by (auto simp: importIsResumable_def loadImportMarker_def bindR_def split: option.splits sum.splits if_splits)
  have cond: "(exists \<and> (Force opts \<or> resumable)) = exists" using res(2) by blast
  have load: "\<exists>existing. (if exists then load_existing env opts d else Inr none_existing) = Inr existing"
    using assms res by (auto simp: executeImportAttempt_def cond split: sum.splits if_splits)
  then obtain existing where ex: "(if exists then load_existing env opts d else Inr none_existing) = Inr existing" by blast
  have guard: "(exists \<and> \<not> Force opts \<and> \<not> resumable) = False" using res(2) by blast
  have eqn: "executeImportAttempt env opts c exists d =
      (case enrichImportArtifacts (ImpHome env) (NowBuild env) c opts existing of
         Inl e \<Rightarrow> (Failed (EnrichFailed e), [])
       | Inr (cfg, st) \<Rightarrow>
           if DryRun opts then (Planned, [])
           else (case publishImportArtifacts env opts existing cfg st
                   (ServerConfigPath (ImpHome env) (CandNamespace c) (CandServer c))
                   (ServerStatePath (ImpHome env) (CandNamespace c) (CandServer c)) d of
                   (Some e, ds) \<Rightarrow> (Failed e, ds)
                 | (None, ds) \<Rightarrow> (Imported, ds)))"
    unfolding executeImportAttempt_def res(1) sum.case guard if_False cond ex by (rule refl)
  obtain cfg st where en: "enrichImportArtifacts (ImpHome env) (NowBuild env) c opts existing = Inr (cfg, st)"
    and dry: "\<not> DryRun opts"
    using assms unfolding eqn by (cases "enrichImportArtifacts (ImpHome env) (NowBuild env) c opts existing") (auto split: if_splits)
  obtain r es where p: "publishImportArtifacts env opts existing cfg st (ServerConfigPath (ImpHome env) (CandNamespace c) (CandServer c))
       (ServerStatePath (ImpHome env) (CandNamespace c) (CandServer c)) d = (r, es)" by fastforce
  have s: "s = (case r of None \<Rightarrow> Imported | Some e \<Rightarrow> Failed e)" "ds = es"
    using assms(1) dry unfolding eqn en sum.case prod.case p by (auto split: option.splits)
  have "TailnetLockError env = None" using p s assms(2) by (auto simp: publishImportArtifacts_def split: option.splits)
  with p s have w: "writeImportArtifacts env opts existing cfg st (ServerConfigPath (ImpHome env) (CandNamespace c) (CandServer c))
       (ServerStatePath (ImpHome env) (CandNamespace c) (CandServer c)) d = (r, ds)" by (simp add: publishImportArtifacts_def)
  show thesis
    by (rule that [OF ex en w _ dry marker(1)]) (use s marker(2) res(2) in \<open>auto split: option.splits\<close>)
qed

lemma one_attempts:
  assumes "importOne env opts wait c d = (s, ds)" "ds \<noteq> [] \<or> s = Imported"
  shows "executeImportAttempt env opts c (StateOn (wait d) \<noteq> NoState) (wait d) = (s, ds) \<and> CandServer c \<noteq> '''' \<and> LabelsOK c"
proof -
  have "executeImportAttempt env opts c e x = (s, ds) \<Longrightarrow> \<not> DryRun opts" for e x
    by (erule attempt_writes [OF _ assms(2)])
  then show ?thesis using assms by (auto simp: importOne_def split: option.splits if_splits)
qed

text \<open>
  What the marker of a candidate promises to later imports, whatever their environment: the same
  candidate resumes, any other one fails before it writes.
\<close>

definition reserved_for :: "Candidate \<Rightarrow> import_disk \<Rightarrow> bool" where
  "reserved_for c d \<longleftrightarrow> (\<forall>env. MarkerReadError env = None \<longrightarrow> importIsResumable env d c = Inr True
     \<and> (\<forall>opts c' ex. markerForCandidate c' \<noteq> markerForCandidate c \<longrightarrow>
          executeImportAttempt env opts c' ex d = (Failed (MarkerMismatch (CandNamespace c') (CandServer c')), [])))"

lemma marked_reserves: "MarkerOn d = Some (markerForCandidate c) \<Longrightarrow> reserved_for c d"
  by (auto simp: reserved_for_def executeImportAttempt_def importIsResumable_def loadImportMarker_def)

text \<open>
  C14. Wherever an import stops, each file system that it leaves is the one it found, or is reserved by a
  marker for this candidate, or is the completed import. Reserved means that a rerun of the same candidate
  resumes, and that an import of any other server or provider resource into the same place fails before it
  writes. An import writes only for a candidate with ownership labels, never in a dry run, never over the
  marker of another candidate, and over an existing state only when forced or resuming.
\<close>

theorem import_resumable:
  assumes "importOne env opts wait c d = (s, ds)" "d' \<in> set ds"
  shows "(d' = wait d \<or> (s = Imported \<and> d' = last ds) \<or> (MarkerOn d' = Some (markerForCandidate c) \<and> reserved_for c d'))
    \<and> LabelsOK c \<and> \<not> DryRun opts \<and> (\<forall>m. MarkerOn (wait d) = Some m \<longrightarrow> m = markerForCandidate c)
    \<and> (StateOn (wait d) \<noteq> NoState \<and> \<not> Force opts \<longrightarrow> MarkerOn (wait d) = Some (markerForCandidate c))"
proof -
  have ds: "ds \<noteq> [] \<or> s = Imported" using assms(2) by auto
  from one_attempts [OF assms(1) ds] have run: "executeImportAttempt env opts c (StateOn (wait d) \<noteq> NoState) (wait d) = (s, ds)" and ok: "LabelsOK c"
    by blast+
  show ?thesis
  proof (rule attempt_writes [OF run ds])
    fix existing cfg st r
    assume en: "enrichImportArtifacts (ImpHome env) (NowBuild env) c opts existing = Inr (cfg, st)"
      and w: "writeImportArtifacts env opts existing cfg st (ServerConfigPath (ImpHome env) (CandNamespace c) (CandServer c))
         (ServerStatePath (ImpHome env) (CandNamespace c) (CandServer c)) (wait d) = (r, ds)"
      and g: "s = Imported \<longleftrightarrow> r = None" "\<not> DryRun opts" "\<forall>m. MarkerOn (wait d) = Some m \<longrightarrow> m = markerForCandidate c"
        "StateOn (wait d) \<noteq> NoState \<and> \<not> Force opts \<longrightarrow> MarkerOn (wait d) = Some (markerForCandidate c)"
    from transaction_moments [OF w assms(2)]
    have "d' = wait d \<or> (s = Imported \<and> d' = last ds) \<or> MarkerOn d' = Some (markerForCandidate c)"
      unfolding enriched(1) [OF en] using g(1) by blast
    then have moments: "d' = wait d \<or> (s = Imported \<and> d' = last ds) \<or> (MarkerOn d' = Some (markerForCandidate c) \<and> reserved_for c d')"
      using marked_reserves by blast
    show ?thesis by (intro conjI moments ok g(2,3,4))
  qed
qed

text \<open>The end of an import that went through, over what it found.\<close>

lemma imported_files:
  assumes "importOne env opts wait c d = (Imported, ds)"
  obtains existing cfg st where
    "(if StateOn (wait d) \<noteq> NoState then load_existing env opts (wait d) else Inr none_existing) = Inr existing"
    "enrichImportArtifacts (ImpHome env) (NowBuild env) c opts existing = Inr (cfg, st)"
    "ds \<noteq> []" "published_files env opts existing cfg st (ServerConfigPath (ImpHome env) (CandNamespace c) (CandServer c))
       (ServerStatePath (ImpHome env) (CandNamespace c) (CandServer c)) (wait d) (last ds)"
proof -
  have or: "ds \<noteq> [] \<or> Imported = Imported" by simp
  from one_attempts [OF assms or] have run: "executeImportAttempt env opts c (StateOn (wait d) \<noteq> NoState) (wait d) = (Imported, ds)" by blast
  show thesis
  proof (rule attempt_writes [OF run or])
    fix existing cfg st r
    assume ex: "(if StateOn (wait d) \<noteq> NoState then load_existing env opts (wait d) else Inr none_existing) = Inr existing"
      and en: "enrichImportArtifacts (ImpHome env) (NowBuild env) c opts existing = Inr (cfg, st)"
      and w: "writeImportArtifacts env opts existing cfg st (ServerConfigPath (ImpHome env) (CandNamespace c) (CandServer c))
         (ServerStatePath (ImpHome env) (CandNamespace c) (CandServer c)) (wait d) = (r, ds)"
      and r: "Imported = Imported \<longleftrightarrow> r = None"
    from r have "r = None" by simp
    with w transaction_done show thesis by (intro that [OF ex en]) blast+
  qed
qed

lemma saved_state:
  assumes "saveStateUnlocked now wr s old = (None, new)"
  shows "\<exists>n. new = StateFile n '''' \<and> StateNamespace n = StateNamespace s \<and> StateServer n = StateServer s \<and> TailscaleIn n = TailscaleIn s
        \<and> CloudflareIn n = CloudflareIn s \<and> CID (ComputeIn n) = CID (ComputeIn s) \<and> CProvider (ComputeIn n) = CProvider (ComputeIn s)"
  using assms by (auto simp: saveStateUnlocked_def normalize_state_def persisted_def Let_def split: sum.splits option.splits)

lemma registered:
  assumes "UpdateRegistry now None (\<lambda>reg. Inr (Upsert t e reg)) disk = (None, disk')" "file_wf disk"
  shows "\<exists>reg x. LoadRegistry (Inr disk') = Inr reg \<and> reg_map reg (EntryNamespace e, EntryServer e) = Some x
    \<and> StatePath x = StatePath e \<and> ConfigPath x = ConfigPath e \<and> CredentialsPath x = CredentialsPath e"
proof -
  have "case (None :: registry_error option) of Some x \<Rightarrow> disk' = disk
    | None \<Rightarrow> \<exists>r r' r''. LoadRegistry (Inr disk) = Inr r \<and> (Inr (Upsert t e r) :: (string, Registry) result) = Inr r' \<and> LoadRegistry (Inr disk') = Inr r''
        \<and> (\<forall>k. reg_map r'' k = map_option (keyed (fst k) (snd k)) (reg_map r' k)) \<and> (disk' = NoFile \<longleftrightarrow> Namespaces r' = [])"
    by (rule update_registry_spec [OF assms]) (auto intro: Upsert_refines(1))
  then obtain r r'' where r: "LoadRegistry (Inr disk) = Inr r" "LoadRegistry (Inr disk') = Inr r''"
    and m: "\<forall>k. reg_map r'' k = map_option (keyed (fst k) (snd k)) (reg_map (Upsert t e r) k)"
    by auto

  have "reg_inv r" using load_inv [OF assms(2) r(1)] .
  then have "reg_map (Upsert t e r) (EntryNamespace e, EntryServer e) = Some (stamped t (reg_map r (EntryNamespace e, EntryServer e)) e)"
    using Upsert_refines(2) by simp
  with m r(2) show ?thesis by (auto simp: keyed_def stamped_def Let_def split: option.splits)
qed


text \<open>
  An import looks a tunnel up by its name, and records it as imported. Only what the existing state shows
  that serverpro made is carried over.
\<close>

lemma matched_not_owned: "MatchCloudflareTunnel listed c cfg = Inr t \<Longrightarrow> \<not> OwnsTunnel t"
  by (auto simp: MatchCloudflareTunnel_def OwnsTunnel_def no_cloudflare_def CloudflareTunnelImported_def CloudflareTunnelCreated_def Let_def
      split: sum.splits option.splits)

lemma built_cloudflare: "CloudflareIn (buildImportState now c cfg existing)
    = (case ExistingState existing of None \<Rightarrow> CloudflareIn zero_state | Some old \<Rightarrow> CloudflareIn old)"
  by (simp add: buildImportState_def Let_def split: option.splits)

lemma zero_not_owned: "\<not> OwnsTunnel (CloudflareIn zero_state)"
  by (simp add: zero_state_def OwnsTunnel_def no_cloudflare_def)

lemma kept_owned:
  assumes "OwnsTunnel (keep_provenance existing t)" "\<not> OwnsTunnel t"
  shows "\<exists>old. ExistingState existing = Some old \<and> OwnsTunnel (CloudflareIn old) \<and> TunnelID (CloudflareIn old) = TunnelID (keep_provenance existing t)"
  using assms by (auto simp: keep_provenance_def OwnsTunnel_def split: option.splits if_splits)

lemma enriched_owned:
  assumes en: "enrichImportArtifacts home now c opts existing = Inr (cfg, st)" and own: "OwnsTunnel (CloudflareIn st)"
    and match: "\<And>enrich. EnrichCloudflare opts = Some enrich \<Longrightarrow> \<exists>listed. enrich = MatchCloudflareTunnel listed"
  shows "\<exists>old. ExistingState existing = Some old \<and> OwnsTunnel (CloudflareIn old) \<and> TunnelID (CloudflareIn old) = TunnelID (CloudflareIn st)"
proof -
  let ?cfg = "buildImportConfig home c opts existing" and ?st = "buildImportState now c (buildImportConfig home c opts existing) existing"
  from en obtain cfg1 st1 where e1: "enrich_tailscale opts existing c (?cfg, ?st) = Inr (cfg1, st1)"
    and e2: "enrich_cloudflare opts existing c (cfg1, st1) = Inr (cfg, st)"
    by (auto simp: enrichImportArtifacts_def Let_def bindR_eq_Inr)
  have cf1: "CloudflareIn st1 = CloudflareIn ?st"
    using e1 by (auto simp: enrich_tailscale_def bindR_eq_Inr Let_def split: option.splits if_splits)
  show ?thesis
  proof (cases "st = st1")
    case True
    with own cf1 show ?thesis using zero_not_owned by (auto simp: built_cloudflare split: option.splits)
  next
    case False
    with e2 obtain enrich t where enr: "EnrichCloudflare opts = Some enrich" "enrich c cfg1 = Inr t" "CloudflareIn st = keep_provenance existing t"
      by (auto simp: enrich_cloudflare_def bindR_eq_Inr Let_def split: option.splits if_splits)
    have "\<not> OwnsTunnel t" using match [OF enr(1)] enr(2) matched_not_owned by blast
    with own enr(3) kept_owned show ?thesis by metis
  qed
qed

text \<open>
  C16. Import never acquires the right to delete a tunnel: when the state that an import leaves owns its
  tunnel, the state found before owned the very same tunnel. A tunnel that was only matched by its name
  is not deleted with the server.
\<close>

theorem import_never_claims_tunnel:
  assumes "importOne env opts wait c d = (Imported, ds)" "StateOn (last ds) = StateFile s project" "OwnsTunnel (CloudflareIn s)"
    and "\<And>enrich. EnrichCloudflare opts = Some enrich \<Longrightarrow> \<exists>listed. enrich = MatchCloudflareTunnel listed"
  shows "\<exists>old. LoadState (StateReadError env) (StateOn (wait d)) = Inr old \<and> OwnsTunnel (CloudflareIn old)
    \<and> TunnelID (CloudflareIn old) = TunnelID (CloudflareIn s)"
proof (rule imported_files [OF assms(1)])
  fix existing cfg st
  assume ex: "(if StateOn (wait d) \<noteq> NoState then load_existing env opts (wait d) else Inr none_existing) = Inr existing"
    and en: "enrichImportArtifacts (ImpHome env) (NowBuild env) c opts existing = Inr (cfg, st)" and ne: "ds \<noteq> []"
    and pub: "published_files env opts existing cfg st (ServerConfigPath (ImpHome env) (CandNamespace c) (CandServer c))
       (ServerStatePath (ImpHome env) (CandNamespace c) (CandServer c)) (wait d) (last ds)"
  from pub assms(2) have "CloudflareIn s = CloudflareIn st"
    using saved_state [of "NowState env" None st "StateOn (wait d)"] unfolding published_files_def by auto
  with assms(3) have own: "OwnsTunnel (CloudflareIn st)" by simp
  have "\<exists>old. ExistingState existing = Some old \<and> OwnsTunnel (CloudflareIn old) \<and> TunnelID (CloudflareIn old) = TunnelID (CloudflareIn st)"
    by (rule enriched_owned [OF en own assms(4)])
  moreover have "ExistingState existing = Some old \<Longrightarrow> LoadState (StateReadError env) (StateOn (wait d)) = Inr old" for old
    using ex by (auto simp: load_existing_def none_existing_def Let_def split: if_splits sum.splits option.splits)
  ultimately show ?thesis using \<open>CloudflareIn s = CloudflareIn st\<close> by auto
qed

section \<open>A sample import\<close>

definition sample_import_env :: "importWriteStage option \<Rightarrow> import_env" where
  "sample_import_env stop =
     \<lparr>ImpHome = Some ''/home/op'', ImpCwd = Some ''/'', ImpYaml = sample_codec, ImpDuration = (\<lambda>_. Some 0), ImpCreds = sample_env,
      MarkerReadError = None, ConfigReadError = None, StateReadError = None, StatError = None, StatAgainError = None,
      StageError = (\<lambda>s. if Some s = stop then Some ''no space'' else None), WorkflowLockError = None, TailnetLockError = None,
      NowBuild = 1, NowState = 2, NowRegistry = 3\<rparr>"

definition sample_candidate :: Candidate where
  "sample_candidate =
     \<lparr>CandProvider = ''hetzner'', CandID = ''42'', CandName = ''web-1'', CandNamespace = ''prod'', CandServer = ''web'', CandIPv4 = ''192.0.2.1'',
      CandLocation = ''nbg1'', CandSize = ''cx22'', CandImage = ''ubuntu-24.04'', LabelsOK = True, LocalState = ''missing'', CandRecord = zero_record\<rparr>"

definition sample_import_options :: ImportOptions where
  "sample_import_options =
     \<lparr>OptProviderToken = ''token'', OptTailscaleToken = '''', OptCloudflareToken = '''', OptCloudflareAccount = '''', OptAdminUser = ''admin'',
      OptTailnet = ''example.ts.net'', WithTailscale = False, WithCloudflare = False, Force = False, DryRun = False,
      EnrichTailscale = None, EnrichCloudflare = None\<rparr>"

definition bare_disk :: import_disk where
  "bare_disk = \<lparr>MarkerOn = None, ConfigOn = None, CredentialsOn = None, StateOn = NoState, RegistryOn = NoFile\<rparr>"

definition sample_import :: "importWriteStage option \<Rightarrow> import_status \<times> import_disk list" where
  "sample_import stop = importOne (sample_import_env stop) sample_import_options id sample_candidate bare_disk"

lemma crashed: "(case sample_import (Some StageState) of (s, ds) \<Rightarrow> length ds = 4 \<and> s \<noteq> Imported \<and> MarkerOn (last ds) \<noteq> None)"
  by code_simp

lemma went_through: "(case sample_import None of (s, ds) \<Rightarrow> s = Imported)"
  by code_simp

lemma importOne_sample: "importOne (sample_import_env stop) sample_import_options id sample_candidate bare_disk
    = (fst (sample_import stop), snd (sample_import stop))"
  by (simp add: sample_import_def)

lemma import_resumable_witness:
  "MarkerOn (last (snd (sample_import (Some StageState)))) = Some (markerForCandidate sample_candidate)
    \<and> reserved_for sample_candidate (last (snd (sample_import (Some StageState))))"
proof -
  have c: "snd (sample_import (Some StageState)) \<noteq> []" "fst (sample_import (Some StageState)) \<noteq> Imported"
    "MarkerOn (last (snd (sample_import (Some StageState)))) \<noteq> None"
    using crashed by (auto split: prod.splits)
  have bare: "MarkerOn (id bare_disk) = None" by (simp add: bare_disk_def)
  show ?thesis
    using import_resumable [OF importOne_sample [of "Some StageState"] last_in_set [OF c(1)]] c(2,3) bare by auto
qed


text \<open>A forced import over a state that owns its tunnel, with the tunnel listed again.\<close>

definition owning_state :: State where
  "owning_state = zero_state\<lparr>StateSchema := 1, StateNamespace := ''prod'', StateServer := ''web'', ComputeIn := no_compute\<lparr>CID := ''42''\<rparr>,
     CloudflareIn := \<lparr>TunnelID = ''tun'', TunnelStateName = ''web-1'', Provenance = CloudflareTunnelCreated\<rparr>\<rparr>"

definition tunnel_options :: ImportOptions where
  "tunnel_options = sample_import_options\<lparr>Force := True, WithCloudflare := True,
     EnrichCloudflare := Some (MatchCloudflareTunnel (Inr [\<lparr>TunnelIDOf = ''tun'', TunnelNameOf = ''web-1'', TunnelStatus = ''healthy'', TunnelCreatedAt = ''''\<rparr>]))\<rparr>"

definition reimport :: "import_status \<times> import_disk list" where
  "reimport = importOne (sample_import_env None) tunnel_options id sample_candidate (bare_disk\<lparr>StateOn := StateFile owning_state ''''\<rparr>)"

lemma reimported: "(case reimport of (s, ds) \<Rightarrow> s = Imported \<and>
    (case StateOn (last ds) of StateFile s _ \<Rightarrow> OwnsTunnel (CloudflareIn s) | _ \<Rightarrow> False))"
  by code_simp

lemma import_never_claims_tunnel_witness:
  "\<exists>old s p. LoadState None (StateFile owning_state '''') = Inr old \<and> StateOn (last (snd reimport)) = StateFile s p
    \<and> OwnsTunnel (CloudflareIn old) \<and> TunnelID (CloudflareIn old) = TunnelID (CloudflareIn s)"
proof -
  obtain s p where st: "StateOn (last (snd reimport)) = StateFile s p" "OwnsTunnel (CloudflareIn s)"
    using reimported unfolding case_prod_beta by (cases "StateOn (last (snd reimport))") simp_all
  have run: "importOne (sample_import_env None) tunnel_options id sample_candidate (bare_disk\<lparr>StateOn := StateFile owning_state ''''\<rparr>)
      = (Imported, snd reimport)"
    using reimported by (auto simp: reimport_def split: prod.splits)
  have "\<exists>listed. enrich = MatchCloudflareTunnel listed" if "EnrichCloudflare tunnel_options = Some enrich" for enrich
    using that by (auto simp: tunnel_options_def)
  from import_never_claims_tunnel [OF run st this] show ?thesis using st(1) by (auto simp: sample_import_env_def)
qed

text \<open>
  The guard of an import looks at the state file only: where it is missing, a config file that is there
  is replaced without \<open>--force\<close>, and no comparison with what was read stands before it.
\<close>

lemma fresh_import_overwrites_config:
  "(case importOne (sample_import_env None) sample_import_options id sample_candidate (bare_disk\<lparr>ConfigOn := Some ''by hand''\<rparr>) of
      (s, ds) \<Rightarrow> s = Imported \<and> ConfigOn (last ds) = Some ''yaml'')"
  by code_simp

text \<open>A forced import that finds the config changed under it stops, but its marker stays on the disk.\<close>

definition changed_under :: "import_error option \<times> import_disk list" where
  "changed_under = run_writes [write_marker (sample_import_env None) owning_state,
     write_config (sample_import_env None) \<lparr>ExistingState = Some owning_state, ExistingConfig = None\<rparr> web_config] (bare_disk\<lparr>ConfigOn := Some ''by hand''\<rparr>)"

lemma stopped_import_leaves_marker:
  "(case changed_under of (e, ds) \<Rightarrow> e = Some (ConfigWriteFailed ErrSourceChanged) \<and> MarkerOn (last ds) \<noteq> None)"
  by code_simp

end
