(* ===== verification/Workflow_Locks.thy ===== *)
theory Workflow_Locks
  imports Go_Strings
begin

text \<open>
  How concurrent runs of the program exclude each other (internal/state/registry_lock.go, the \<open>flock\<close>
  primitives of internal/privatefile, and the workflows of internal/cli and internal/importsync that
  take the locks).

  A lock is a file. To lock it, a process opens it, which creates a missing file, and then asks for the
  lock of the \<^emph>\<open>inode\<close> it opened, again and again until no other open file conflicts. Some lock files
  lie beside the artifacts of a server and are removed with them, so a process may end up with the lock
  of a file that is no longer the one of that name. The world below has names, inodes and processes, and
  every interleaving of their steps. A process may stop at any point, by an error, a cancelled context or
  a crash; the kernel then drops its locks.

  A lock file is named by what its name is made of: the hash of an identity (SHA-256, taken as free of
  collisions) or the path of the artifact beside it.
\<close>

section \<open>Locks and scripts\<close>

datatype lock_file =
    ArtifactGuard | RegistryLock | NamespaceLock string | TailnetGlobal | TailnetLock string
  | OperationLock string | StateLock string | ConfigLock string | CredentialLock string

datatype lock_mode = Shared | Exclusive

text \<open>What a process does with lock files, in order. \<open>Unlink\<close> is the removal of the file.\<close>

datatype action = Acquire lock_file lock_mode | Release lock_file | Unlink lock_file

text \<open>The locks around a body, released in reverse as the deferred unlocks do.\<close>

definition locked :: "lock_file \<Rightarrow> lock_mode \<Rightarrow> action list \<Rightarrow> action list" where
  "locked l m body = Acquire l m # body @ [Release l]"

definition lockLocalArtifact :: "lock_file \<Rightarrow> action list \<Rightarrow> action list" where
  "lockLocalArtifact l body = locked ArtifactGuard Shared (locked l Exclusive body)"

definition LockServerOperation :: "string \<Rightarrow> action list \<Rightarrow> action list" where
  "LockServerOperation statePath body = lockLocalArtifact (OperationLock statePath) body"

definition LockLocalArtifactCleanup :: "action list \<Rightarrow> action list" where
  "LockLocalArtifactCleanup body = locked ArtifactGuard Exclusive body"

text \<open>An empty identity is an error, and nothing is locked.\<close>

definition lockNamespaceOperation :: "string \<Rightarrow> lock_mode \<Rightarrow> action list \<Rightarrow> action list" where
  "lockNamespaceOperation namespace mode body =
     (let identity = trim_space namespace in if identity = '''' then [] else locked (NamespaceLock identity) mode body)"

definition LockNamespaceOperation :: "string \<Rightarrow> action list \<Rightarrow> action list" where
  "LockNamespaceOperation namespace body = lockNamespaceOperation namespace Shared body"

definition LockNamespaceOperationExclusive :: "string \<Rightarrow> action list \<Rightarrow> action list" where
  "LockNamespaceOperationExclusive namespace body = lockNamespaceOperation namespace Exclusive body"

definition LockServerWorkflow :: "string \<Rightarrow> string \<Rightarrow> action list \<Rightarrow> action list" where
  "LockServerWorkflow namespace statePath body = LockNamespaceOperation namespace (LockServerOperation statePath body)"

definition tokenRelativeTailnetIdentity :: string where
  "tokenRelativeTailnetIdentity = ''-''"

definition LockTailnetPolicy :: "string \<Rightarrow> action list \<Rightarrow> action list" where
  "LockTailnetPolicy tailnet body =
     (let identity = trim_space tailnet in
      if identity = '''' then []
      else if identity = tokenRelativeTailnetIdentity then locked TailnetGlobal Exclusive body
      else locked TailnetGlobal Shared (locked (TailnetLock identity) Exclusive body))"

text \<open>The locks of one write to a local file.\<close>

datatype local_write = WriteState string | WriteConfig string | WriteCredentials string | WriteRegistry

fun write_locks :: "local_write \<Rightarrow> action list" where
  "write_locks (WriteState path) = lockLocalArtifact (StateLock path) []"
| "write_locks (WriteConfig path) = lockLocalArtifact (ConfigLock path) []"
| "write_locks (WriteCredentials path) = lockLocalArtifact (CredentialLock path) []"
| "write_locks WriteRegistry = locked RegistryLock Exclusive []"

definition writes :: "local_write list \<Rightarrow> action list" where
  "writes ws = concat (map write_locks ws)"

section \<open>The workflows\<close>

text \<open>
  The lock files that a cleanup removes lie beside the config, the credentials and the state of a server:
  those named here, or all in the trees of a namespace.
\<close>

definition unlinkable :: "lock_file \<Rightarrow> bool" where
  "unlinkable l = (case l of OperationLock _ \<Rightarrow> True | StateLock _ \<Rightarrow> True | ConfigLock _ \<Rightarrow> True | CredentialLock _ \<Rightarrow> True | _ \<Rightarrow> False)"

definition cleanup_locks :: "lock_file list \<Rightarrow> action list" where
  "cleanup_locks files = LockLocalArtifactCleanup (map Unlink (filter unlinkable files) @ write_locks WriteRegistry)"

definition artifact_locks :: "string \<times> string \<times> string \<Rightarrow> lock_file list" where
  "artifact_locks p = (case p of (config, credentials, st) \<Rightarrow> [ConfigLock config, StateLock st, OperationLock st, CredentialLock credentials])"

definition executeApprovedServerDelete_locks :: "string \<Rightarrow> string \<times> string \<times> string \<Rightarrow> local_write list \<Rightarrow> action list" where
  "executeApprovedServerDelete_locks statePath artifacts ws =
     LockServerOperation statePath (writes ws) @ cleanup_locks (artifact_locks artifacts)"

text \<open>
  The locks that each workflow takes, in its order, with the writes that it may make between them.
  Reads take no lock. A body that returns early, with an error or because nothing is to do, is a prefix
  that stops.
\<close>

definition runCreateCommand_locks :: "string \<Rightarrow> string \<Rightarrow> string \<Rightarrow> local_write list \<Rightarrow> local_write list \<Rightarrow> local_write list \<Rightarrow> action list" where
  "runCreateCommand_locks namespace statePath tailnet before during after =
     LockServerWorkflow namespace statePath (writes before @ LockTailnetPolicy tailnet (writes during) @ writes after)"

definition importOne_locks :: "string \<Rightarrow> string \<Rightarrow> string \<Rightarrow> local_write list \<Rightarrow> action list" where
  "importOne_locks namespace statePath tailnet during =
     LockServerWorkflow namespace statePath (LockTailnetPolicy tailnet (writes during))"

definition lockServerArtifactWorkflow :: "string \<Rightarrow> action list \<Rightarrow> action list" where
  "lockServerArtifactWorkflow namespace body = LockNamespaceOperation namespace body"

definition applyServerSSHPolicy_locks :: "string \<Rightarrow> local_write list \<Rightarrow> action list" where
  "applyServerSSHPolicy_locks tailnet during = LockTailnetPolicy tailnet (writes during)"

definition runTailnetReconcile_locks :: "string \<Rightarrow> action list" where
  "runTailnetReconcile_locks tailnet = LockTailnetPolicy tailnet []"

definition deleteServerDestructive_locks :: "string \<Rightarrow> string \<Rightarrow> string \<times> string \<times> string \<Rightarrow> local_write list \<Rightarrow> action list" where
  "deleteServerDestructive_locks namespace statePath artifacts ws =
     LockNamespaceOperationExclusive namespace (executeApprovedServerDelete_locks statePath artifacts ws)"

definition runNamespaceCreate_locks :: "string \<Rightarrow> action list" where
  "runNamespaceCreate_locks namespace = LockNamespaceOperationExclusive namespace (write_locks WriteRegistry)"

text \<open>
  Of each server of a namespace: its paths and the writes of its deletion; none when its state is missing
  and only its entry is removed. At the end the trees are removed with the lock files in them.
\<close>

type_synonym deleted_server = "string \<times> (string \<times> string \<times> string) \<times> local_write list"

fun delete_servers :: "deleted_server option list \<Rightarrow> action list" where
  "delete_servers [] = []"
| "delete_servers (None # rest) = write_locks WriteRegistry @ delete_servers rest"
| "delete_servers (Some (statePath, artifacts, ws) # rest) = executeApprovedServerDelete_locks statePath artifacts ws @ delete_servers rest"

definition runNamespaceDelete_locks :: "string \<Rightarrow> deleted_server option list \<Rightarrow> lock_file list \<Rightarrow> action list" where
  "runNamespaceDelete_locks namespace servers files =
     LockNamespaceOperationExclusive namespace (delete_servers servers @ cleanup_locks files)"

datatype workflow =
    CreateServer string string string "local_write list" "local_write list" "local_write list"
  | ImportServer string string string "local_write list"
  | UpdateServer string "local_write list" string "local_write list" "local_write list"
  | WriteFiles "local_write list"
  | ReconcileTailnet string
  | DeleteServer string string "string \<times> string \<times> string" "local_write list"
  | CreateNamespace string
  | DeleteNamespace string "deleted_server option list" "lock_file list"

fun script :: "workflow \<Rightarrow> action list" where
  "script (CreateServer namespace statePath tailnet before during after) = runCreateCommand_locks namespace statePath tailnet before during after"
| "script (ImportServer namespace statePath tailnet during) = importOne_locks namespace statePath tailnet during"
| "script (UpdateServer namespace before tailnet during after) =
     lockServerArtifactWorkflow namespace (writes before @ applyServerSSHPolicy_locks tailnet during @ writes after)"
| "script (WriteFiles ws) = writes ws"
| "script (ReconcileTailnet tailnet) = runTailnetReconcile_locks tailnet"
| "script (DeleteServer namespace statePath artifacts ws) = deleteServerDestructive_locks namespace statePath artifacts ws"
| "script (CreateNamespace namespace) = runNamespaceCreate_locks namespace"
| "script (DeleteNamespace namespace servers files) = runNamespaceDelete_locks namespace servers files"

section \<open>The world\<close>

text \<open>A process: the locks it holds, newest first; the file it opened and waits to lock; what is left.\<close>

type_synonym held = "lock_file \<times> lock_mode \<times> nat"

record process =
  Held :: "held list"
  Opened :: "held option"
  Todo :: "action list"

record lock_world =
  InodeTable :: "(lock_file, nat) gomap"
  NextInode :: nat
  Procs :: "process list"

abbreviation Inodes :: "lock_world \<Rightarrow> lock_file \<Rightarrow> nat option" where
  "Inodes w \<equiv> gm_get (InodeTable w)"

definition finished :: "process \<Rightarrow> bool" where
  "finished p \<longleftrightarrow> Opened p = None \<and> Todo p = []"

definition conflict :: "lock_mode \<Rightarrow> lock_mode \<Rightarrow> bool" where
  "conflict m m' \<longleftrightarrow> m = Exclusive \<or> m' = Exclusive"

definition launch :: "workflow \<Rightarrow> process" where
  "launch f = \<lparr>Held = [], Opened = None, Todo = script f\<rparr>"

text \<open>\<open>flock\<close> conflicts between open files, also between two of the same process.\<close>

definition blocked :: "lock_world \<Rightarrow> lock_mode \<Rightarrow> nat \<Rightarrow> bool" where
  "blocked w m i = list_ex (\<lambda>p. list_ex (\<lambda>(_, m', i'). i' = i \<and> conflict m m') (Held p)) (Procs w)"

definition open_lock :: "lock_file \<Rightarrow> lock_world \<Rightarrow> nat \<times> lock_world" where
  "open_lock l w = (case Inodes w l of
     Some i \<Rightarrow> (i, w)
   | None \<Rightarrow> (NextInode w, w\<lparr>InodeTable := gm_put l (NextInode w) (InodeTable w), NextInode := Suc (NextInode w)\<rparr>))"

definition set_proc :: "nat \<Rightarrow> process \<Rightarrow> lock_world \<Rightarrow> lock_world" where
  "set_proc p pr w = w\<lparr>Procs := (Procs w)[p := pr]\<rparr>"

text \<open>The next step of a process; none when it waits or is finished.\<close>

definition advance :: "nat \<Rightarrow> lock_world \<Rightarrow> lock_world option" where
  "advance p w =
     (if p \<ge> length (Procs w) then None
      else (let pr = Procs w ! p in
        case Opened pr of
          Some (l, m, i) \<Rightarrow>
            if blocked w m i then None
            else Some (set_proc p (pr\<lparr>Held := (l, m, i) # Held pr, Opened := None\<rparr>) w)
        | None \<Rightarrow> (case Todo pr of
            [] \<Rightarrow> None
          | Acquire l m # ts \<Rightarrow> (case open_lock l w of (i, w') \<Rightarrow> Some (set_proc p (pr\<lparr>Opened := Some (l, m, i), Todo := ts\<rparr>) w'))
          | Release l # ts \<Rightarrow> (case Held pr of
                [] \<Rightarrow> None
              | h # hs \<Rightarrow> if fst h = l then Some (set_proc p (pr\<lparr>Held := hs, Todo := ts\<rparr>) w) else None)
          | Unlink l # ts \<Rightarrow> Some (set_proc p (pr\<lparr>Todo := ts\<rparr>) (w\<lparr>InodeTable := gm_del l (InodeTable w)\<rparr>)))))"

inductive lock_step :: "lock_world \<Rightarrow> lock_world \<Rightarrow> bool" where
  Advance: "advance p w = Some w' \<Longrightarrow> lock_step w w'"
| Stop: "p < length (Procs w) \<Longrightarrow> lock_step w (set_proc p \<lparr>Held = [], Opened = None, Todo = []\<rparr> w)"

inductive reachable :: "workflow list \<Rightarrow> lock_world \<Rightarrow> bool" for ws where
  Launch: "reachable ws \<lparr>InodeTable = [], NextInode = 0, Procs = map launch ws\<rparr>"
| Step: "reachable ws w \<Longrightarrow> lock_step w w' \<Longrightarrow> reachable ws w'"

section \<open>Lock order\<close>

text \<open>
  The place of a request in the order. A request for the guard is early when it is exclusive (a cleanup
  begins) and late when it is shared (a write under other locks).
\<close>

fun rank :: "lock_file \<Rightarrow> lock_mode \<Rightarrow> nat" where
  "rank (NamespaceLock _) _ = 0"
| "rank ArtifactGuard Exclusive = 1"
| "rank (OperationLock _) _ = 2"
| "rank TailnetGlobal _ = 3"
| "rank (TailnetLock _) _ = 4"
| "rank (StateLock _) _ = 5"
| "rank (ConfigLock _) _ = 5"
| "rank (CredentialLock _) _ = 5"
| "rank ArtifactGuard Shared = 6"
| "rank RegistryLock _ = 7"

text \<open>The latest request that a held lock may block.\<close>

definition waiters :: "lock_file \<Rightarrow> lock_mode \<Rightarrow> nat" where
  "waiters l m = (if m = Shared then rank l Exclusive else max (rank l Shared) (rank l Exclusive))"

definition may_acquire :: "(lock_file \<times> lock_mode) list \<Rightarrow> lock_file \<Rightarrow> lock_mode \<Rightarrow> bool" where
  "may_acquire held l m \<longleftrightarrow> list_all (\<lambda>(l', m'). waiters l' m' < rank l m) held \<and> (unlinkable l \<longrightarrow> ArtifactGuard \<in> fst ` set held)"

fun in_order :: "(lock_file \<times> lock_mode) list \<Rightarrow> action list \<Rightarrow> bool" where
  "in_order held [] \<longleftrightarrow> held = []"
| "in_order held (Acquire l m # as) \<longleftrightarrow> may_acquire held l m \<and> in_order ((l, m) # held) as"
| "in_order held (Release l # as) \<longleftrightarrow> (case held of [] \<Rightarrow> False | h # hs \<Rightarrow> fst h = l \<and> in_order hs as)"
| "in_order held (Unlink l # as) \<longleftrightarrow> (ArtifactGuard, Exclusive) \<in> set held \<and> unlinkable l \<and> l \<notin> fst ` set held \<and> in_order held as"

text \<open>A balanced piece of a script, which may be put anywhere its first locks may be taken.\<close>

definition balanced :: "((lock_file \<times> lock_mode) list \<Rightarrow> bool) \<Rightarrow> action list \<Rightarrow> bool" where
  "balanced ok as \<longleftrightarrow> (\<forall>held rest. ok held \<longrightarrow> in_order held rest \<longrightarrow> in_order held (as @ rest))"

named_theorems balance

lemma balanced_Nil [balance]: "balanced ok []"
  by (simp add: balanced_def)

lemma balanced_append [balance]: "balanced ok as \<Longrightarrow> balanced ok bs \<Longrightarrow> balanced ok (as @ bs)"
  by (simp add: balanced_def)

lemma balanced_concat [balance]: "(\<And>as. as \<in> set ass \<Longrightarrow> balanced ok as) \<Longrightarrow> balanced ok (concat ass)"
  by (induction ass) (auto intro: balance)

lemma balanced_locked:
  assumes "balanced ok' body" "\<And>held. ok held \<Longrightarrow> may_acquire held l m \<and> ok' ((l, m) # held)"
  shows "balanced ok (locked l m body)"
  using assms by (auto simp: balanced_def locked_def)

lemma balanced_mono: "balanced ok as \<Longrightarrow> (\<And>held. ok' held \<Longrightarrow> ok held) \<Longrightarrow> balanced ok' as"
  by (auto simp: balanced_def)

text \<open>What may be held: locks that block requests up to a rank.\<close>

definition blocks_upto :: "nat \<Rightarrow> (lock_file \<times> lock_mode) list \<Rightarrow> bool" where
  "blocks_upto n held \<longleftrightarrow> list_all (\<lambda>(l, m). waiters l m \<le> n) held"

lemma blocks_upto_simps [simp]: "blocks_upto n []" "blocks_upto n ((l, m) # held) \<longleftrightarrow> waiters l m \<le> n \<and> blocks_upto n held"
  by (simp_all add: blocks_upto_def)

lemma blocks_upto_mono: "blocks_upto n held \<Longrightarrow> n \<le> k \<Longrightarrow> blocks_upto k held"
  by (auto simp: blocks_upto_def list_all_iff)

lemma blocks_upto_may_acquire: "blocks_upto n held \<Longrightarrow> n < rank l m \<Longrightarrow> \<not> unlinkable l \<or> ArtifactGuard \<in> fst ` set held \<Longrightarrow> may_acquire held l m"
  by (auto simp: blocks_upto_def may_acquire_def list_all_iff dest!: bspec intro: le_less_trans)

lemma unlinkable_rank: "unlinkable l \<Longrightarrow> 2 \<le> rank l m \<and> rank l m \<le> 5 \<and> waiters l m = rank l m"
  by (cases l; simp add: unlinkable_def waiters_def)

lemma waiters_simps [simp]:
  "waiters (NamespaceLock x) m = 0" "waiters ArtifactGuard Shared = 1" "waiters ArtifactGuard Exclusive = 6"
  "waiters TailnetGlobal m = 3" "waiters (TailnetLock x) m = 4" "waiters RegistryLock m = 7"
  by (simp_all add: waiters_def)

lemma balanced_artifact:
  assumes "unlinkable l" "n < rank l Exclusive" "balanced (blocks_upto (rank l Exclusive)) body"
  shows "balanced (blocks_upto n) (lockLocalArtifact l body)"
  unfolding lockLocalArtifact_def
proof (rule balanced_locked)
  show "balanced (\<lambda>held. blocks_upto (max n 1) held \<and> ArtifactGuard \<in> fst ` set held) (locked l Exclusive body)"
    using assms unlinkable_rank [OF assms(1), of Exclusive]
    by (intro balanced_locked [OF assms(3)]) (auto intro!: blocks_upto_may_acquire elim: blocks_upto_mono)
  show "may_acquire held ArtifactGuard Shared \<and> blocks_upto (max n 1) ((ArtifactGuard, Shared) # held) \<and> ArtifactGuard \<in> fst ` set ((ArtifactGuard, Shared) # held)"
    if "blocks_upto n held" for held
    using that assms(2) unlinkable_rank [OF assms(1), of Exclusive]
    by (auto intro!: blocks_upto_may_acquire [of n] simp: unlinkable_def elim: blocks_upto_mono)
qed

lemma balanced_writes [balance]: "balanced (blocks_upto 4) (writes ws)"
proof -
  have "balanced (blocks_upto 4) (write_locks x)" for x
  proof (cases x)
    case WriteRegistry
    have "balanced (blocks_upto 4) (locked RegistryLock Exclusive [])"
      by (rule balanced_locked [OF balanced_Nil [of "\<lambda>_. True"]]) (auto intro!: blocks_upto_may_acquire [of 4] simp: unlinkable_def)
    then show ?thesis by (simp add: WriteRegistry)
  qed (auto intro!: balanced_artifact balance simp: unlinkable_def)
  then have "balanced (blocks_upto 4) (concat (map write_locks ws))" by (intro balanced_concat) auto
  then show ?thesis by (simp add: writes_def)
qed

lemma balanced_blocks_upto: "balanced (blocks_upto n) as \<Longrightarrow> k \<le> n \<Longrightarrow> balanced (blocks_upto k) as"
  by (erule balanced_mono) (rule blocks_upto_mono)

lemma balanced_tailnet: "balanced (blocks_upto 2) (LockTailnetPolicy tailnet (writes ws))"
proof -
  have "balanced (blocks_upto 2) (locked TailnetGlobal Exclusive (writes ws))"
    by (rule balanced_locked [OF balanced_writes]) (auto intro!: blocks_upto_may_acquire [of 2] simp: unlinkable_def elim: blocks_upto_mono)
  moreover have "balanced (blocks_upto 2) (locked TailnetGlobal Shared (locked (TailnetLock x) Exclusive (writes ws)))" for x
  proof (rule balanced_locked)
    show "balanced (blocks_upto 3) (locked (TailnetLock x) Exclusive (writes ws))"
      by (rule balanced_locked [OF balanced_writes]) (auto intro!: blocks_upto_may_acquire [of 3] simp: unlinkable_def elim: blocks_upto_mono)
  qed (auto intro!: blocks_upto_may_acquire [of 2] simp: unlinkable_def elim: blocks_upto_mono)
  ultimately show ?thesis by (auto simp: LockTailnetPolicy_def Let_def intro: balance)
qed

lemma balanced_operation: "balanced (blocks_upto 2) body \<Longrightarrow> balanced (blocks_upto 1) (LockServerOperation st body)"
  unfolding LockServerOperation_def by (rule balanced_artifact) (simp_all add: unlinkable_def)

lemma balanced_unlinks:
  assumes "\<forall>l \<in> set ls. unlinkable l"
  shows "balanced (\<lambda>held. (ArtifactGuard, Exclusive) \<in> set held \<and> (\<forall>l \<in> fst ` set held. \<not> unlinkable l)) (map Unlink ls)"
  using assms by (induction ls) (auto simp: balanced_def)

lemma balanced_cleanup: "balanced (blocks_upto 0) (cleanup_locks files)"
  unfolding cleanup_locks_def LockLocalArtifactCleanup_def
proof (rule balanced_locked)
  let ?ok = "\<lambda>held. blocks_upto 6 held \<and> (ArtifactGuard, Exclusive) \<in> set held \<and> (\<forall>l \<in> fst ` set held. \<not> unlinkable l)"
  have "balanced ?ok (map Unlink (filter unlinkable files))" by (rule balanced_mono [OF balanced_unlinks]) auto
  moreover have "balanced ?ok (write_locks WriteRegistry)"
    unfolding write_locks.simps
    by (rule balanced_locked [OF balanced_Nil [of "\<lambda>_. True"]]) (auto intro!: blocks_upto_may_acquire [of 6] simp: unlinkable_def)
  ultimately show "balanced ?ok (map Unlink (filter unlinkable files) @ write_locks WriteRegistry)" by (rule balanced_append)
  fix held
  assume h: "blocks_upto 0 held"
  have "\<not> unlinkable l" if "l \<in> fst ` set held" for l
  proof
    assume u: "unlinkable l"
    from that obtain m where "(l, m) \<in> set held" by auto
    with h have "waiters l m = 0" by (auto simp: blocks_upto_def list_all_iff)
    with unlinkable_rank [OF u, of m] show False by auto
  qed
  then show "may_acquire held ArtifactGuard Exclusive \<and> ?ok ((ArtifactGuard, Exclusive) # held)"
    using h by (auto intro!: blocks_upto_may_acquire [of 0] simp: unlinkable_def elim: blocks_upto_mono)
qed

lemma in_order_namespace: "balanced (blocks_upto 0) body \<Longrightarrow> in_order [] (lockNamespaceOperation namespace mode body)"
  using balanced_locked [of "blocks_upto 0" body "\<lambda>held. held = []" "NamespaceLock (trim_space namespace)" mode]
  by (auto simp: lockNamespaceOperation_def Let_def balanced_def may_acquire_def unlinkable_def elim: allE [of _ "[]"])

lemma writes_anywhere: "n \<le> 4 \<Longrightarrow> balanced (blocks_upto n) (writes ws)"
  by (rule balanced_blocks_upto [OF balanced_writes])

lemma tailnet_anywhere: "n \<le> 2 \<Longrightarrow> balanced (blocks_upto n) (LockTailnetPolicy tailnet (writes ws))"
  by (rule balanced_blocks_upto [OF balanced_tailnet])

lemma balanced_workflow: "balanced (blocks_upto 2) body \<Longrightarrow> balanced (blocks_upto 0) (LockServerOperation st body)"
  by (rule balanced_blocks_upto [OF balanced_operation]) simp_all

lemma balanced_delete: "balanced (blocks_upto 0) (executeApprovedServerDelete_locks st artifacts ws)"
  unfolding executeApprovedServerDelete_locks_def
  by (intro balanced_append balanced_workflow balanced_cleanup writes_anywhere) simp

lemma in_order_balanced: "balanced (blocks_upto 0) as \<Longrightarrow> in_order [] as"
  using balanced_def [of "blocks_upto 0" as] by (metis append_Nil2 blocks_upto_simps(1) in_order.simps(1))

lemma balanced_registry: "balanced (blocks_upto 0) (write_locks WriteRegistry)"
  using writes_anywhere [of 0 "[WriteRegistry]"] by (simp add: writes_def)

lemma balanced_delete_servers: "balanced (blocks_upto 0) (delete_servers servers)"
  by (induction servers rule: delete_servers.induct)
    (simp_all add: balanced_Nil balanced_append balanced_registry balanced_delete del: write_locks.simps)

lemmas workflow_defs = runCreateCommand_locks_def importOne_locks_def lockServerArtifactWorkflow_def applyServerSSHPolicy_locks_def
  runTailnetReconcile_locks_def deleteServerDestructive_locks_def runNamespaceCreate_locks_def runNamespaceDelete_locks_def
  LockServerWorkflow_def LockNamespaceOperation_def LockNamespaceOperationExclusive_def

lemma script_in_order: "in_order [] (script f)"
proof (cases f)
  case (WriteFiles ws)
  then show ?thesis by (simp add: in_order_balanced writes_anywhere)
next
  case (ReconcileTailnet tailnet)
  then show ?thesis using tailnet_anywhere [of 0 tailnet "[]"] by (simp add: in_order_balanced workflow_defs writes_def)
qed (simp_all add: workflow_defs in_order_namespace balanced_workflow balanced_append balanced_delete balanced_registry
    balanced_delete_servers balanced_cleanup writes_anywhere tailnet_anywhere del: write_locks.simps)

end
