(* ===== verification/Lock_Safety.thy ===== *)
theory Lock_Safety
  imports Workflow_Locks
begin

text \<open>
  What the locks of the workflows guarantee, in every interleaving and with processes stopping at any
  point. Two processes never hold conflicting locks of one name, although lock files are removed while
  others wait: the artifact guard keeps a file from being unlinked between its opening and its release.
  No set of workflows deadlocks, because every script takes its locks in one order.
\<close>

section \<open>The invariant\<close>

definition names :: "held list \<Rightarrow> (lock_file \<times> lock_mode) list" where
  "names hs = map (\<lambda>(l, m, i). (l, m)) hs"

lemma names_simps [simp]: "names [] = []" "names ((l, m, i) # hs) = (l, m) # names hs"
  by (simp_all add: names_def)

lemma names_set: "(l, m) \<in> set (names hs) \<longleftrightarrow> (\<exists>i. (l, m, i) \<in> set hs)"
  by (force simp: names_def)

text \<open>The rest of a script, with the lock that is waited for.\<close>

definition pending :: "process \<Rightarrow> action list" where
  "pending pr = (case Opened pr of None \<Rightarrow> Todo pr | Some (l, m, i) \<Rightarrow> Acquire l m # Todo pr)"

fun guarded :: "(lock_file \<times> lock_mode) list \<Rightarrow> bool" where
  "guarded [] \<longleftrightarrow> True"
| "guarded ((l, m) # hs) \<longleftrightarrow> (unlinkable l \<longrightarrow> ArtifactGuard \<in> fst ` set hs) \<and> guarded hs"

lemma guarded_set: "guarded hs \<Longrightarrow> (l, m) \<in> set hs \<Longrightarrow> unlinkable l \<Longrightarrow> ArtifactGuard \<in> fst ` set hs"
  by (induction hs rule: guarded.induct) auto

definition proc_ok :: "process \<Rightarrow> bool" where
  "proc_ok pr \<longleftrightarrow> in_order (names (Held pr)) (pending pr) \<and> guarded (names (Held pr))"

definition entries :: "process \<Rightarrow> held set" where
  "entries pr = set (Held pr) \<union> set_option (Opened pr)"

definition compatible :: "held list \<Rightarrow> held list \<Rightarrow> bool" where
  "compatible hs hs' \<longleftrightarrow> (\<forall>l m i l' m'. (l, m, i) \<in> set hs \<longrightarrow> (l', m', i) \<in> set hs' \<longrightarrow> \<not> conflict m m')"

definition current :: "(lock_file \<Rightarrow> nat option) \<Rightarrow> process \<Rightarrow> bool" where
  "current inodes pr \<longleftrightarrow> (\<forall>l m i. (l, m, i) \<in> entries pr \<longrightarrow> inodes l = Some i)"

definition inodes_ok :: "lock_world \<Rightarrow> bool" where
  "inodes_ok w \<longleftrightarrow> (\<forall>l i. Inodes w l = Some i \<longrightarrow> i < NextInode w \<and> (\<forall>l'. Inodes w l' = Some i \<longrightarrow> l' = l))"

definition lock_inv :: "lock_world \<Rightarrow> bool" where
  "lock_inv w \<longleftrightarrow> inodes_ok w
     \<and> (\<forall>p < length (Procs w). proc_ok (Procs w ! p) \<and> current (Inodes w) (Procs w ! p))
     \<and> (\<forall>p < length (Procs w). \<forall>q < length (Procs w). p \<noteq> q \<longrightarrow> compatible (Held (Procs w ! p)) (Held (Procs w ! q)))"

lemma currentD: "current f pr \<Longrightarrow> (l, m, i) \<in> set (Held pr) \<Longrightarrow> f l = Some i"
  by (auto simp: current_def entries_def)

lemma conflict_sym: "conflict m m' = conflict m' m"
  by (auto simp: conflict_def)

lemma compatible_sym: "compatible hs hs' = compatible hs' hs"
  unfolding compatible_def using conflict_sym by blast

lemma lock_invD:
  "lock_inv w \<Longrightarrow> inodes_ok w"
  "lock_inv w \<Longrightarrow> p < length (Procs w) \<Longrightarrow> proc_ok (Procs w ! p)"
  "lock_inv w \<Longrightarrow> p < length (Procs w) \<Longrightarrow> current (Inodes w) (Procs w ! p)"
  "lock_inv w \<Longrightarrow> p < length (Procs w) \<Longrightarrow> q < length (Procs w) \<Longrightarrow> p \<noteq> q \<Longrightarrow> compatible (Held (Procs w ! p)) (Held (Procs w ! q))"
  by (simp_all add: lock_inv_def)

text \<open>One process moves.\<close>

lemma inv_update:
  assumes "lock_inv w" "p < length (Procs w)" "Procs w' = (Procs w)[p := pr]" "inodes_ok w'"
    and "proc_ok pr" "current (Inodes w') pr"
    and "\<And>q. q < length (Procs w) \<Longrightarrow> q \<noteq> p \<Longrightarrow> current (Inodes w') (Procs w ! q) \<and> compatible (Held pr) (Held (Procs w ! q))"
  shows "lock_inv w'"
  using assms lock_invD(2,4) [OF assms(1)] unfolding lock_inv_def
  by (auto simp: nth_list_update compatible_sym [of _ "Held pr"])

lemma set_proc_simps [simp]:
  "Procs (set_proc p pr w) = (Procs w)[p := pr]" "InodeTable (set_proc p pr w) = InodeTable w" "NextInode (set_proc p pr w) = NextInode w"
  "inodes_ok (set_proc p pr w) = inodes_ok w"
  by (simp_all add: set_proc_def inodes_ok_def)

lemma not_blocked: "\<not> blocked w m i \<Longrightarrow> q < length (Procs w) \<Longrightarrow> (l', m', i) \<in> set (Held (Procs w ! q)) \<Longrightarrow> \<not> conflict m m'"
  by (fastforce simp: blocked_def list_ex_iff dest: nth_mem)

lemma stop_inv:
  assumes "lock_inv w" "p < length (Procs w)"
  shows "lock_inv (set_proc p \<lparr>Held = [], Opened = None, Todo = []\<rparr> w)"
proof (rule inv_update [OF assms])
  fix q
  assume "q < length (Procs w)"
  then show "current (Inodes (set_proc p \<lparr>Held = [], Opened = None, Todo = []\<rparr> w)) (Procs w ! q)
      \<and> compatible (Held \<lparr>Held = [], Opened = None, Todo = []\<rparr>) (Held (Procs w ! q))"
    using lock_invD(3) [OF assms(1)] by (simp add: compatible_def)
qed (use lock_invD(1) [OF assms(1)] in \<open>auto simp: proc_ok_def pending_def current_def entries_def\<close>)

lemma lock_taken:
  assumes inv: "lock_inv w" and p: "p < length (Procs w)" and op: "Opened (Procs w ! p) = Some (l, m, i)" and free: "\<not> blocked w m i"
  shows "lock_inv (set_proc p ((Procs w ! p)\<lparr>Held := (l, m, i) # Held (Procs w ! p), Opened := None\<rparr>) w)"
proof (rule inv_update [OF inv p])
  let ?pr = "Procs w ! p"
  have ok: "proc_ok ?pr" "current (Inodes w) ?pr" using lock_invD(2,3) [OF inv p] by auto
  show "proc_ok (?pr\<lparr>Held := (l, m, i) # Held ?pr, Opened := None\<rparr>)"
    using ok(1) op by (simp add: proc_ok_def pending_def may_acquire_def)
  show "current (Inodes (set_proc p (?pr\<lparr>Held := (l, m, i) # Held ?pr, Opened := None\<rparr>) w)) (?pr\<lparr>Held := (l, m, i) # Held ?pr, Opened := None\<rparr>)"
    using ok(2) op by (auto simp: current_def entries_def)
  fix q
  assume q: "q < length (Procs w)" "q \<noteq> p"
  have "compatible (Held ?pr) (Held (Procs w ! q))" using lock_invD(4) [OF inv p q(1)] q(2) by auto
  moreover have "\<not> conflict m m'" if "(l', m', i) \<in> set (Held (Procs w ! q))" for l' m'
    by (rule not_blocked [OF free q(1) that])
  ultimately show "current (Inodes (set_proc p (?pr\<lparr>Held := (l, m, i) # Held ?pr, Opened := None\<rparr>) w)) (Procs w ! q)
      \<and> compatible (Held (?pr\<lparr>Held := (l, m, i) # Held ?pr, Opened := None\<rparr>)) (Held (Procs w ! q))"
    using lock_invD(3) [OF inv q(1)] by (auto simp: compatible_def)
qed (use lock_invD(1) [OF inv] in simp_all)

lemma open_lock_spec:
  assumes "inodes_ok w" "open_lock l w = (i, w')"
  shows "inodes_ok w'" "Inodes w' l = Some i" "Procs w' = Procs w" "\<And>l' j. Inodes w l' = Some j \<Longrightarrow> Inodes w' l' = Some j"
proof -
  have fresh: "Inodes w l' \<noteq> Some (NextInode w)" for l' using assms(1) by (auto simp: inodes_ok_def)
  show "inodes_ok w'" "Inodes w' l = Some i" "Procs w' = Procs w" "\<And>l' j. Inodes w l' = Some j \<Longrightarrow> Inodes w' l' = Some j"
    using assms fresh by (auto simp: open_lock_def inodes_ok_def less_Suc_eq split: option.splits if_splits)
qed

lemma lock_opened:
  assumes inv: "lock_inv w" and p: "p < length (Procs w)" and op: "Opened (Procs w ! p) = None" "Todo (Procs w ! p) = Acquire l m # ts"
    and new: "open_lock l w = (i, w')"
  shows "lock_inv (set_proc p ((Procs w ! p)\<lparr>Opened := Some (l, m, i), Todo := ts\<rparr>) w')"
proof (rule inv_update [OF inv p])
  note o = open_lock_spec [OF lock_invD(1) [OF inv] new]
  let ?pr = "Procs w ! p" and ?new = "(Procs w ! p)\<lparr>Opened := Some (l, m, i), Todo := ts\<rparr>"
  show "Procs (set_proc p ?new w') = (Procs w)[p := ?new]" "inodes_ok (set_proc p ?new w')" using o by simp_all
  show "proc_ok ?new" using lock_invD(2) [OF inv p] op by (simp add: proc_ok_def pending_def)
  show "current (Inodes (set_proc p ?new w')) ?new"
    using lock_invD(3) [OF inv p] op o(2,4) by (auto simp: current_def entries_def)
  fix q
  assume q: "q < length (Procs w)" "q \<noteq> p"
  show "current (Inodes (set_proc p ?new w')) (Procs w ! q) \<and> compatible (Held ?new) (Held (Procs w ! q))"
    using lock_invD(3) [OF inv q(1)] lock_invD(4) [OF inv p q(1)] q(2) o(4) by (auto simp: current_def)
qed

lemma lock_released:
  assumes inv: "lock_inv w" and p: "p < length (Procs w)" and op: "Opened (Procs w ! p) = None" "Todo (Procs w ! p) = Release l # ts"
    and held: "Held (Procs w ! p) = (l, m, i) # hs"
  shows "lock_inv (set_proc p ((Procs w ! p)\<lparr>Held := hs, Todo := ts\<rparr>) w)"
proof (rule inv_update [OF inv p])
  let ?new = "(Procs w ! p)\<lparr>Held := hs, Todo := ts\<rparr>"
  show "proc_ok ?new" using lock_invD(2) [OF inv p] op held by (simp add: proc_ok_def pending_def)
  show "current (Inodes (set_proc p ?new w)) ?new"
    using lock_invD(3) [OF inv p] op held by (auto simp: current_def entries_def)
  fix q
  assume q: "q < length (Procs w)" "q \<noteq> p"
  show "current (Inodes (set_proc p ?new w)) (Procs w ! q) \<and> compatible (Held ?new) (Held (Procs w ! q))"
    using lock_invD(3) [OF inv q(1)] lock_invD(4) [OF inv p q(1)] q(2) held by (auto simp: compatible_def)
qed (use lock_invD(1) [OF inv] in simp_all)

text \<open>Whoever has a file open that a cleanup removes holds the guard; so nobody has while one runs.\<close>

lemma open_needs_guard:
  assumes "proc_ok pr" "(l, m, i) \<in> entries pr" "unlinkable l"
  shows "\<exists>m' j. (ArtifactGuard, m', j) \<in> set (Held pr)"
proof -
  have "ArtifactGuard \<in> fst ` set (names (Held pr))"
  proof (cases "(l, m, i) \<in> set (Held pr)")
    case True
    then have "(l, m) \<in> set (names (Held pr))" by (auto simp: names_set)
    then show ?thesis using assms(1,3) guarded_set by (simp add: proc_ok_def)
  next
    case False
    with assms(2) have "Opened pr = Some (l, m, i)" by (simp add: entries_def)
    with assms(1,3) show ?thesis by (simp add: proc_ok_def pending_def may_acquire_def)
  qed
  then show ?thesis by (force simp: names_def)
qed

lemma lock_unlinked:
  assumes inv: "lock_inv w" and p: "p < length (Procs w)" and op: "Opened (Procs w ! p) = None" "Todo (Procs w ! p) = Unlink l # ts"
  shows "lock_inv (set_proc p ((Procs w ! p)\<lparr>Todo := ts\<rparr>) (w\<lparr>InodeTable := gm_del l (InodeTable w)\<rparr>))"
proof (rule inv_update [OF inv p])
  let ?pr = "Procs w ! p" and ?new = "(Procs w ! p)\<lparr>Todo := ts\<rparr>" and ?w = "w\<lparr>InodeTable := gm_del l (InodeTable w)\<rparr>"
  have ord: "(ArtifactGuard, Exclusive) \<in> set (names (Held ?pr))" "unlinkable l" "l \<notin> fst ` set (names (Held ?pr))"
    "in_order (names (Held ?pr)) ts" "guarded (names (Held ?pr))"
    using lock_invD(2) [OF inv p] op by (simp_all add: proc_ok_def pending_def)
  then obtain g where g: "(ArtifactGuard, Exclusive, g) \<in> set (Held ?pr)" by (auto simp: names_set)
  have g_cur: "Inodes w ArtifactGuard = Some g" using lock_invD(3) [OF inv p] g by (auto simp: current_def entries_def)
  show "inodes_ok (set_proc p ?new ?w)" using lock_invD(1) [OF inv] by (auto simp: inodes_ok_def)
  show "proc_ok ?new" using ord op by (simp add: proc_ok_def pending_def)
  have mine: "(l, m, i) \<notin> entries ?pr" for m i
    using ord(3) op(1) by (force simp: entries_def names_def)
  then show "current (Inodes (set_proc p ?new ?w)) ?new"
    using lock_invD(3) [OF inv p] by (auto simp: current_def entries_def)
  fix q
  assume q: "q < length (Procs w)" "q \<noteq> p"
  have comp: "compatible (Held ?pr) (Held (Procs w ! q))" using lock_invD(4) [OF inv p q(1)] q(2) by auto
  have "(l, m, i) \<notin> entries (Procs w ! q)" for m i
  proof
    assume "(l, m, i) \<in> entries (Procs w ! q)"
    from open_needs_guard [OF lock_invD(2) [OF inv q(1)] this ord(2)] obtain m' j where
      h: "(ArtifactGuard, m', j) \<in> set (Held (Procs w ! q))" by blast
    then have "Inodes w ArtifactGuard = Some j" using lock_invD(3) [OF inv q(1)] by (auto simp: current_def entries_def)
    with g_cur h have "(ArtifactGuard, m', g) \<in> set (Held (Procs w ! q))" by simp
    with g comp have "\<not> conflict Exclusive m'" unfolding compatible_def by blast
    then show False by (simp add: conflict_def)
  qed
  then show "current (Inodes (set_proc p ?new ?w)) (Procs w ! q) \<and> compatible (Held ?new) (Held (Procs w ! q))"
    using lock_invD(3) [OF inv q(1)] comp by (auto simp: current_def)
qed simp

lemma advance_inv:
  assumes inv: "lock_inv w" and step: "advance p w = Some w'"
  shows "lock_inv w'"
proof -
  have p: "p < length (Procs w)" using step by (auto simp: advance_def split: if_splits)
  show ?thesis
  proof (cases "Opened (Procs w ! p)")
    case (Some e)
    obtain l m i where e: "e = (l, m, i)" by (cases e)
    with step p Some lock_taken [OF inv p, of l m i] show ?thesis by (auto simp: advance_def Let_def split: if_splits)
  next
    case None
    show ?thesis
    proof (cases "Todo (Procs w ! p)")
      case Nil
      with step p None show ?thesis by (simp add: advance_def)
    next
      case (Cons a ts)
      show ?thesis
      proof (cases a)
        case (Acquire l m)
        obtain i w1 where "open_lock l w = (i, w1)" by fastforce
        with step p None Cons Acquire lock_opened [OF inv p None, of l m ts i w1] show ?thesis by (auto simp: advance_def Let_def)
      next
        case (Release l)
        with step p None Cons lock_released [OF inv p None, of l ts] show ?thesis
          by (auto simp: advance_def Let_def split: list.splits if_splits)
      next
        case (Unlink l)
        with step p None Cons lock_unlinked [OF inv p None, of l ts] show ?thesis by (auto simp: advance_def Let_def)
      qed
    qed
  qed
qed

lemma reachable_inv: "reachable ws w \<Longrightarrow> lock_inv w"
proof (induction rule: reachable.induct)
  case Launch
  show ?case
    by (auto simp: lock_inv_def inodes_ok_def proc_ok_def pending_def current_def entries_def compatible_def script_in_order launch_def)
next
  case (Step w w')
  then show ?case by (auto elim!: lock_step.cases intro: advance_inv stop_inv)
qed

section \<open>Exclusion\<close>

text \<open>
  C17. Two processes never hold conflicting locks of one name, whatever workflows run, however they
  interleave and wherever they stop. That holds although a cleanup unlinks lock files that others may
  wait for: every lock held is the lock of the file that its name stands for now.
\<close>

theorem locks_exclude:
  assumes "reachable ws w" "p < length (Procs w)" "q < length (Procs w)" "p \<noteq> q"
    and "(l, m, i) \<in> set (Held (Procs w ! p))" "(l, m', j) \<in> set (Held (Procs w ! q))"
  shows "m = Shared \<and> m' = Shared \<and> Inodes w l = Some i \<and> Inodes w l = Some j"
proof -
  note inv = reachable_inv [OF assms(1)]
  have cur: "Inodes w l = Some i" "Inodes w l = Some j"
    using currentD [OF lock_invD(3) [OF inv assms(2)] assms(5)] currentD [OF lock_invD(3) [OF inv assms(3)] assms(6)] by simp_all
  then have "(l, m', i) \<in> set (Held (Procs w ! q))" using assms(6) by simp
  with lock_invD(4) [OF inv assms(2-4)] assms(5) have "\<not> conflict m m'" unfolding compatible_def by blast
  then show ?thesis using cur by (cases m; cases m') (simp_all add: conflict_def)
qed

section \<open>Progress\<close>

lemma rank_waiters: "conflict m m' \<Longrightarrow> rank l m \<le> waiters l m'"
  by (cases m; cases m') (auto simp: conflict_def waiters_def)

lemma rank_bound: "rank l m \<le> 7"
  by (cases "(l, m)" rule: rank.cases) simp_all

text \<open>A process that cannot move waits for a lock that another unfinished process holds.\<close>

lemma stuck_waits:
  assumes inv: "lock_inv w" and p: "p < length (Procs w)" and un: "\<not> finished (Procs w ! p)" and none: "advance p w = None"
  shows "\<exists>l m i. Opened (Procs w ! p) = Some (l, m, i) \<and> blocked w m i"
proof (cases "Opened (Procs w ! p)")
  case (Some e)
  then show ?thesis using none p by (cases e) (auto simp: advance_def Let_def split: if_splits)
next
  case None
  with un obtain a ts where todo: "Todo (Procs w ! p) = a # ts" by (cases "Todo (Procs w ! p)") (auto simp: finished_def)
  with lock_invD(2) [OF inv p] None have ord: "in_order (names (Held (Procs w ! p))) (a # ts)" by (simp add: proc_ok_def pending_def)
  have "advance p w \<noteq> None"
  proof (cases a)
    case (Release l)
    with ord show ?thesis using None p todo by (cases "Held (Procs w ! p)") (auto simp: advance_def Let_def)
  qed (use None p todo in \<open>auto simp: advance_def Let_def split: prod.splits\<close>)
  with none show ?thesis by simp
qed

lemma blocked_higher:
  assumes inv: "lock_inv w" and p: "p < length (Procs w)" and op: "Opened (Procs w ! p) = Some (l, m, i)" and bl: "blocked w m i"
    and stuck: "\<forall>q w'. advance q w \<noteq> Some w'"
  shows "\<exists>q l' m' j. q < length (Procs w) \<and> Opened (Procs w ! q) = Some (l', m', j) \<and> blocked w m' j \<and> rank l m < rank l' m'"
proof -
  from bl obtain q l1 m1 where q: "q < length (Procs w)" and h: "(l1, m1, i) \<in> set (Held (Procs w ! q))" and c: "conflict m m1"
    unfolding blocked_def list_ex_iff by (fastforce simp: in_set_conv_nth [of _ "Procs w"])
  have "Inodes w l = Some i" "Inodes w l1 = Some i"
    using lock_invD(3) [OF inv p] lock_invD(3) [OF inv q] op h by (auto simp: current_def entries_def)
  with lock_invD(1) [OF inv] have l1: "l1 = l" by (auto simp: inodes_ok_def)
  have ok: "in_order (names (Held (Procs w ! q))) (pending (Procs w ! q))" using lock_invD(2) [OF inv q] by (simp add: proc_ok_def)
  have un: "\<not> finished (Procs w ! q)"
  proof
    assume "finished (Procs w ! q)"
    with ok have "names (Held (Procs w ! q)) = []" by (simp add: finished_def pending_def)
    with h show False by (simp add: names_def)
  qed
  have "advance q w = None" using stuck by (cases "advance q w") auto
  from stuck_waits [OF inv q un this] obtain l' m' j where w: "Opened (Procs w ! q) = Some (l', m', j)" "blocked w m' j" by blast
  with ok have may: "may_acquire (names (Held (Procs w ! q))) l' m'" by (simp add: pending_def)
  have "(l, m1) \<in> set (names (Held (Procs w ! q)))" using h by (auto simp: names_set l1)
  with may have "waiters l m1 < rank l' m'" by (auto simp: may_acquire_def list_all_iff)
  with rank_waiters [OF c, of l] have "rank l m < rank l' m'" by simp
  with q w show ?thesis by blast
qed

lemma no_deadlock:
  assumes inv: "lock_inv w" and p: "p < length (Procs w)" "\<not> finished (Procs w ! p)"
  shows "\<exists>q w'. advance q w = Some w'"
proof (rule ccontr)
  assume "\<nexists>q w'. advance q w = Some w'"
  then have stuck: "\<forall>q w'. advance q w \<noteq> Some w'" by simp
  then have "advance p w = None" by (cases "advance p w") auto
  from stuck_waits [OF inv p this] obtain l m i where start: "Opened (Procs w ! p) = Some (l, m, i)" "blocked w m i" by blast
  have "\<exists>q l' m' j. q < length (Procs w) \<and> Opened (Procs w ! q) = Some (l', m', j) \<and> blocked w m' j \<and> n \<le> rank l' m'" for n
  proof (induction n)
    case 0
    show ?case using start p(1) by blast
  next
    case (Suc n)
    then obtain q l' m' j where q: "q < length (Procs w)" "Opened (Procs w ! q) = Some (l', m', j)" "blocked w m' j" "n \<le> rank l' m'" by blast
    from blocked_higher [OF inv q(1-3) stuck] q(4) show ?case by (meson Suc_leI le_less_trans)
  qed
  from this [of 8] obtain l' m' where "8 \<le> rank l' m'" by blast
  with rank_bound [of l' m'] show False by simp
qed

text \<open>How many steps are left at most.\<close>

definition proc_steps :: "process \<Rightarrow> nat" where
  "proc_steps pr = 2 * length (Todo pr) + (if Opened pr = None then 0 else 1)"

definition steps_left :: "lock_world \<Rightarrow> nat" where
  "steps_left w = sum_list (map proc_steps (Procs w))"

lemma set_proc_steps:
  assumes "p < length (Procs w)" "proc_steps pr < proc_steps (Procs w ! p)"
  shows "steps_left (set_proc p pr w) < steps_left w"
proof -
  have "sum_list (xs[k := (y :: nat)]) < sum_list xs" if "k < length xs" "y < xs ! k" for xs k y
    using that by (induction xs arbitrary: k) (auto simp: nth_Cons split: nat.splits)
  then show ?thesis using assms by (simp add: steps_left_def map_update)
qed

lemma advance_decreases:
  assumes "advance p w = Some w'"
  shows "steps_left w' < steps_left w"
proof -
  have p: "p < length (Procs w)" using assms by (auto simp: advance_def split: if_splits)
  have same: "steps_left (set_proc p pr v) < steps_left w" if "Procs v = Procs w" "proc_steps pr < proc_steps (Procs w ! p)" for pr v
    using set_proc_steps [of p v pr] p that by (simp add: steps_left_def)
  show ?thesis
    using assms p
    by (auto simp: advance_def Let_def open_lock_def split: option.splits list.splits action.splits prod.splits if_splits
        intro!: same simp: proc_steps_def)
qed

text \<open>
  C18. Workflows never deadlock and always end: in every state that any of them can reach together, with
  any of them stopped on the way, either all are finished or one can take its next step; and no run of
  such steps is longer than the number of steps left.
\<close>

theorem workflows_finish:
  assumes "reachable ws w"
  shows "((\<forall>p. advance p w = None) \<longleftrightarrow> list_all finished (Procs w)) \<and> (\<forall>p w'. advance p w = Some w' \<longrightarrow> steps_left w' < steps_left w)"
proof (intro conjI iffI allI impI)
  assume none: "\<forall>p. advance p w = None"
  show "list_all finished (Procs w)"
    using no_deadlock [OF reachable_inv [OF assms]] none by (force simp: list_all_length)
next
  fix p
  assume "list_all finished (Procs w)"
  then show "advance p w = None" by (auto simp: advance_def finished_def list_all_length Let_def)
next
  fix p w'
  assume "advance p w = Some w'"
  then show "steps_left w' < steps_left w" by (rule advance_decreases)
qed

section \<open>A sample\<close>

text \<open>Two states are written side by side.\<close>

definition sample_workflows :: "workflow list" where
  "sample_workflows = [WriteFiles [WriteState ''a''], WriteFiles [WriteState ''b'']]"

definition launched :: lock_world where
  "launched = \<lparr>InodeTable = [], NextInode = 0, Procs = map launch sample_workflows\<rparr>"

fun scheduled :: "nat list \<Rightarrow> lock_world \<Rightarrow> lock_world" where
  "scheduled [] w = w"
| "scheduled (p # ps) w = (case advance p w of None \<Rightarrow> scheduled ps w | Some w' \<Rightarrow> scheduled ps w')"

lemma scheduled_reachable: "reachable ws w \<Longrightarrow> reachable ws (scheduled ps w)"
proof (induction ps arbitrary: w)
  case (Cons p ps)
  have "reachable ws w'" if "advance p w = Some w'" for w'
    by (rule reachable.Step [OF Cons.prems lock_step.Advance [OF that]])
  then show ?case using Cons by (simp split: option.split)
qed simp

lemma sample_reachable: "reachable sample_workflows (scheduled ps launched)"
  unfolding launched_def by (rule scheduled_reachable) (rule reachable.Launch)

definition side_by_side :: lock_world where
  "side_by_side = scheduled [0, 0, 1, 1] launched"

lemma sharing: "length (Procs side_by_side) = 2 \<and> (ArtifactGuard, Shared, 0) \<in> set (Held (Procs side_by_side ! 0))
    \<and> (ArtifactGuard, Shared, 0) \<in> set (Held (Procs side_by_side ! 1)) \<and> \<not> list_all finished (Procs side_by_side)"
  by code_simp

lemma side_by_side_reachable: "reachable sample_workflows side_by_side"
  unfolding side_by_side_def by (rule sample_reachable)

lemma locks_exclude_witness: "Inodes side_by_side ArtifactGuard = Some 0"
proof -
  have "0 < length (Procs side_by_side)" "1 < length (Procs side_by_side)" "(0::nat) \<noteq> 1" using sharing by simp_all
  from locks_exclude [OF side_by_side_reachable this] sharing show ?thesis by blast
qed

lemma workflows_finish_witness: "\<not> (\<forall>p. advance p side_by_side = None)"
  using workflows_finish [OF side_by_side_reachable] sharing by blast

end
