(* ===== verification/Packet_Policy.thy ===== *)
theory Packet_Policy
  imports Go_Strings Go_Json "HOL-Library.Word"
begin

text \<open>
  The network part of a tailnet policy (internal/mesh/packet_policy.go): which rules let every tailnet
  source reach every device on every port. Doctor warns of them, since such a rule leaves the firewall of
  the host as its only barrier.

  A rule hides behind spellings: aliases, ranges that cover the whole tailnet, lists of ports. The theory
  models the reader with the parser of \<open>net/netip\<close> that it calls, and shows that a selector counts as a
  covering range exactly when its set of addresses contains that of the tailnet.
\<close>

section \<open>Addresses and prefixes\<close>

datatype ip_addr = IPv4 "32 word" | IPv6 "128 word"

text \<open>\<open>netip.Prefix\<close>: an address and its number of bits.\<close>

type_synonym prefix = "ip_addr \<times> nat"

definition hex_value :: "char \<Rightarrow> nat option" where
  "hex_value c = (let n = of_char c in
     if 48 \<le> n \<and> n \<le> 57 then Some (n - 48)
     else if 97 \<le> n \<and> n \<le> 102 then Some (n - 87)
     else if 65 \<le> n \<and> n \<le> 70 then Some (n - 55) else None)"

definition dec_value :: "char \<Rightarrow> nat option" where
  "dec_value c = (let n = of_char c in if 48 \<le> n \<and> n \<le> 57 then Some (n - 48) else None)"

text \<open>One field of an IPv4 address: digits without a leading zero, at most 255.\<close>

definition dec_field :: "string \<Rightarrow> nat option" where
  "dec_field s =
     (if s = '''' \<or> (length s > 1 \<and> hd s = CHR ''0'') then None
      else (case those (map dec_value s) of
          None \<Rightarrow> None
        | Some ds \<Rightarrow> (let n = of_digits 10 ds in if n > 255 then None else Some n)))"

definition parseIPv4Fields :: "string \<Rightarrow> nat list option" where
  "parseIPv4Fields s = (case those (map dec_field (split_on (CHR ''.'') s)) of
     Some fields \<Rightarrow> if length fields = 4 then Some fields else None
   | None \<Rightarrow> None)"

text \<open>
  The groups of an IPv6 address, \<open>n\<close> of them read, in bytes; \<open>ell\<close> is the place of the ellipsis. The
  last two groups may be an IPv4 address.
\<close>

fun take_hex :: "string \<Rightarrow> nat list \<times> string" where
  "take_hex [] = ([], [])"
| "take_hex (c # s) = (case hex_value c of
     None \<Rightarrow> ([], c # s)
   | Some d \<Rightarrow> (case take_hex s of (ds, r) \<Rightarrow> (d # ds, r)))"

lemma take_hex_rest: "take_hex s = (ds, r) \<Longrightarrow> length s = length ds + length r"
  by (induction s arbitrary: ds) (auto split: option.splits prod.splits)

function ipv6_groups :: "nat \<Rightarrow> nat list \<Rightarrow> nat option \<Rightarrow> string \<Rightarrow> (nat list \<times> nat option) option" where
  "ipv6_groups i bytes ell s =
     (if i \<ge> 16 then (if s = '''' then Some (bytes, ell) else None)
      else (case take_hex s of (ds, r) \<Rightarrow>
        if ds = [] \<or> length ds > 4 then None
        else if r \<noteq> '''' \<and> hd r = CHR ''.'' then
          (if (ell = None \<and> i \<noteq> 12) \<or> i + 4 > 16 then None
           else (case parseIPv4Fields s of None \<Rightarrow> None | Some fields \<Rightarrow> Some (bytes @ fields, ell)))
        else (let n = of_digits 16 ds; bytes' = bytes @ [n div 256, n mod 256] in
          case r of
            [] \<Rightarrow> Some (bytes', ell)
          | c # r1 \<Rightarrow>
              if c \<noteq> CHR '':'' \<or> r1 = [] then None
              else if hd r1 = CHR '':'' then
                (if ell \<noteq> None then None
                 else if tl r1 = [] then Some (bytes', Some (i + 2))
                 else ipv6_groups (i + 2) bytes' (Some (i + 2)) (tl r1))
              else ipv6_groups (i + 2) bytes' ell r1)))"
  by pat_completeness auto
termination by (relation "measure (\<lambda>(i, _). 16 - i)") auto

text \<open>The ellipsis stands for the zeros that are missing, at least one byte pair of them.\<close>

definition expand_groups :: "nat list \<times> nat option \<Rightarrow> nat list option" where
  "expand_groups g = (case g of (bytes, ell) \<Rightarrow>
     if length bytes < 16 then (case ell of
         None \<Rightarrow> None
       | Some k \<Rightarrow> Some (take k bytes @ replicate (16 - length bytes) 0 @ drop k bytes))
     else if ell \<noteq> None then None else Some bytes)"

definition parseIPv6 :: "string \<Rightarrow> nat list option" where
  "parseIPv6 s =
     (if has_prefix s ''::'' then
        (if s = ''::'' then Some (replicate 16 0)
         else Option.bind (ipv6_groups 0 [] (Some 0) (drop 2 s)) expand_groups)
      else Option.bind (ipv6_groups 0 [] None s) expand_groups)"

text \<open>Bytes, the first one highest.\<close>

definition word_of_bytes :: "nat list \<Rightarrow> 'a::len word" where
  "word_of_bytes bytes = foldl (\<lambda>w b. push_bit 8 w + word_of_nat b) 0 bytes"

definition ParseAddr :: "string \<Rightarrow> ip_addr option" where
  "ParseAddr s = (case dropWhile (\<lambda>c. c \<notin> {CHR ''.'', CHR '':'', CHR ''%''}) s of
     [] \<Rightarrow> None
   | c # _ \<Rightarrow>
       if c = CHR ''.'' then map_option (\<lambda>fields. IPv4 (word_of_bytes fields)) (parseIPv4Fields s)
       else if c = CHR '':'' then
         (if CHR ''%'' \<in> set s then None
          else map_option (\<lambda>bytes. IPv6 (word_of_bytes bytes)) (parseIPv6 s))
       else None)"

definition addr_bits :: "ip_addr \<Rightarrow> nat" where
  "addr_bits a = (case a of IPv4 _ \<Rightarrow> 32 | IPv6 _ \<Rightarrow> 128)"

text \<open>\<open>ParsePrefix\<close>: split at the last slash; the bits are digits without a leading zero. A zone is refused.\<close>

definition cut_last :: "char \<Rightarrow> string \<Rightarrow> (string \<times> string) option" where
  "cut_last c s = (case cut c (rev s) of (b, a, found) \<Rightarrow> if found then Some (rev a, rev b) else None)"

definition ParsePrefix :: "string \<Rightarrow> prefix option" where
  "ParsePrefix s = Option.bind (cut_last (CHR ''/'') s) (\<lambda>(addr, bits). Option.bind (ParseAddr addr) (\<lambda>a.
     if bits = '''' \<or> (length bits > 1 \<and> hd bits = CHR ''0'') then None
     else (case those (map dec_value bits) of
         None \<Rightarrow> None
       | Some ds \<Rightarrow> (let n = of_digits 10 ds in if n \<le> addr_bits a then Some (a, n) else None))))"

definition Masked :: "prefix \<Rightarrow> prefix" where
  "Masked p = (case p of
     (IPv4 a, n) \<Rightarrow> (IPv4 (push_bit (32 - n) (drop_bit (32 - n) a)), n)
   | (IPv6 a, n) \<Rightarrow> (IPv6 (push_bit (128 - n) (drop_bit (128 - n) a)), n))"

definition prefix_contains :: "prefix \<Rightarrow> ip_addr \<Rightarrow> bool" where
  "prefix_contains p x = (case (p, x) of
     ((IPv4 a, n), IPv4 b) \<Rightarrow> drop_bit (32 - n) a = drop_bit (32 - n) b
   | ((IPv6 a, n), IPv6 b) \<Rightarrow> drop_bit (128 - n) a = drop_bit (128 - n) b
   | _ \<Rightarrow> False)"

definition Is4 :: "ip_addr \<Rightarrow> bool" where
  "Is4 a = (case a of IPv4 _ \<Rightarrow> True | IPv6 _ \<Rightarrow> False)"

definition tailnetRanges :: "prefix list" where
  "tailnetRanges = [(IPv4 0x64400000, 10), (IPv6 0xfd7a115ca1e000000000000000000000, 48)]"

definition coversTailnet :: "string \<Rightarrow> bool" where
  "coversTailnet selector = (case ParsePrefix selector of
     None \<Rightarrow> False
   | Some p \<Rightarrow> (let m = Masked p in
       list_ex (\<lambda>tailnet. Is4 (fst m) = Is4 (fst tailnet) \<and> snd m \<le> snd tailnet \<and> prefix_contains m (fst tailnet)) tailnetRanges))"

section \<open>Rules\<close>

type_synonym HostAliases = "(string, string) gomap"

record ACLRule =
  ACLAction :: string
  ACLSrc :: "string list"
  ACLDst :: "string list"
  ACLUsers :: "string list"
  ACLPorts :: "string list"

record Grant =
  GrantSrc :: "string list"
  GrantDst :: "string list"
  GrantIP :: "string list"

record PacketPolicy =
  ACLs :: "ACLRule list option"
  Grants :: "Grant list option"
  Hosts :: HostAliases

definition allSources :: "string list" where
  "allSources = [''*'', ''autogroup:member'', ''autogroup:danger-all'']"

definition allHosts :: "string list" where
  "allHosts = [''*'', ''autogroup:tagged'']"

definition allPorts :: "string list" where
  "allPorts = [''*'', ''0-65535'', ''1-65535'']"

definition portProtocols :: "string list" where
  "portProtocols = [''tcp'', ''udp'', ''6'', ''17'']"

definition policyIPSetUnresolved :: string where
  "policyIPSetUnresolved = ''an IP set doctor does not resolve, counted as every address''"

text \<open>\<open>strings.EqualFold\<close> with a text of ASCII letters, and the prefix of a lowered text.\<close>

definition equal_fold :: "string \<Rightarrow> string \<Rightarrow> bool" where
  "equal_fold a b \<longleftrightarrow> json_fold a = json_fold b"

text \<open>
  \<open>strings.ToLower\<close> as far as the search for an ASCII prefix sees it: besides the capitals, the dotted
  capital I lowers to an ASCII letter.
\<close>

definition lowered_rune :: "nat \<Rightarrow> nat" where
  "lowered_rune r = (if 65 \<le> r \<and> r \<le> 90 then r + 32 else if r = 0x130 then 105 else if r = 0x212A then 107 else r)"

definition is_ip_set :: "string \<Rightarrow> bool" where
  "is_ip_set s \<longleftrightarrow> take 6 (map lowered_rune (go_runes s)) = map of_char ''ipset:''"

definition isAllPorts :: "string \<Rightarrow> bool" where
  "isAllPorts ports \<longleftrightarrow> ports \<in> set allPorts"

fun firstMatch :: "(string \<Rightarrow> bool) \<Rightarrow> string list \<Rightarrow> string option" where
  "firstMatch allowsAll [] = None"
| "firstMatch allowsAll (entry # entries) = (if allowsAll (trim_space entry) then Some entry else firstMatch allowsAll entries)"

fun firstAll :: "HostAliases \<Rightarrow> string list \<Rightarrow> string list \<Rightarrow> string option" where
  "firstAll hosts everything [] = None"
| "firstAll hosts everything (selector # selectors) =
     (let name = trim_space selector;
          alias = gm_get hosts name;
          resolved = (case alias of Some v \<Rightarrow> trim_space v | None \<Rightarrow> name);
          ipSet = is_ip_set resolved
      in if \<not> ipSet \<and> resolved \<notin> set everything \<and> \<not> coversTailnet resolved then firstAll hosts everything selectors
         else if ipSet then Some (name @ '' ('' @ policyIPSetUnresolved @ '')'')
         else if alias \<noteq> None then Some (name @ '' ('' @ resolved @ '')'')
         else Some selector)"

definition aclDestinationAllowsAll :: "HostAliases \<Rightarrow> string \<Rightarrow> string option" where
  "aclDestinationAllowsAll hosts destination =
     (if destination = ''*:*'' then Some destination
      else (case cut_last (CHR '':'') destination of
        None \<Rightarrow> None
      | Some (front, ports) \<Rightarrow>
          (let host = trim_suffix (trim_prefix front ''['') '']'' in
           case firstAll hosts allHosts [host] of
             None \<Rightarrow> None
           | Some spelling \<Rightarrow>
               if firstMatch isAllPorts (split_on (CHR '','') ports) = None then None
               else Some (if spelling \<noteq> host then spelling @ '':'' @ ports else destination))))"

fun first_destination :: "HostAliases \<Rightarrow> string list \<Rightarrow> string option" where
  "first_destination hosts [] = None"
| "first_destination hosts (d # ds) = (case aclDestinationAllowsAll hosts d of Some s \<Rightarrow> Some s | None \<Rightarrow> first_destination hosts ds)"

definition acl_allowsAll :: "HostAliases \<Rightarrow> ACLRule \<Rightarrow> (string \<times> string) option" where
  "acl_allowsAll hosts r =
     (if \<not> equal_fold (ACLAction r) ''accept'' then None
      else (case firstAll hosts allSources (ACLSrc r @ ACLUsers r) of
        None \<Rightarrow> None
      | Some source \<Rightarrow> map_option (Pair source) (first_destination hosts (ACLDst r @ ACLPorts r))))"

definition grantIPAllowsAll :: "string \<Rightarrow> bool" where
  "grantIPAllowsAll entry =
     (if isAllPorts entry then True
      else (case cut (CHR '':'') entry of (protocol, ports, found) \<Rightarrow>
        found \<and> list_ex (\<lambda>name. equal_fold name protocol) portProtocols \<and> isAllPorts ports))"

definition grant_allowsAll :: "HostAliases \<Rightarrow> Grant \<Rightarrow> (string \<times> string \<times> string) option" where
  "grant_allowsAll hosts g =
     (case (firstAll hosts allSources (GrantSrc g), firstAll hosts allHosts (GrantDst g), firstMatch grantIPAllowsAll (GrantIP g)) of
        (Some source, Some destination, Some ports) \<Rightarrow> Some (source, destination, ports)
      | _ \<Rightarrow> None)"

fun acl_findings :: "HostAliases \<Rightarrow> nat \<Rightarrow> ACLRule list \<Rightarrow> string list" where
  "acl_findings hosts i [] = []"
| "acl_findings hosts i (r # rs) =
     (case acl_allowsAll hosts r of
        Some (source, destination) \<Rightarrow> [''acls['' @ itoa i @ ''] accepts '' @ source @ '' to '' @ destination]
      | None \<Rightarrow> []) @ acl_findings hosts (Suc i) rs"

fun grant_findings :: "HostAliases \<Rightarrow> nat \<Rightarrow> Grant list \<Rightarrow> string list" where
  "grant_findings hosts i [] = []"
| "grant_findings hosts i (g # gs) =
     (case grant_allowsAll hosts g of
        Some (source, destination, ports) \<Rightarrow> [''grants['' @ itoa i @ ''] grants '' @ source @ '' to '' @ destination @ '' on ip '' @ ports]
      | None \<Rightarrow> []) @ grant_findings hosts (Suc i) gs"

definition AllowAllRules :: "PacketPolicy \<Rightarrow> string list" where
  "AllowAllRules p =
     (if ACLs p = None \<and> Grants p = None then [''no acls or grants section: Tailscale applies its default allow-all policy'']
      else (case ACLs p of None \<Rightarrow> [] | Some rs \<Rightarrow> acl_findings (Hosts p) 0 rs)
         @ (case Grants p of None \<Rightarrow> [] | Some gs \<Rightarrow> grant_findings (Hosts p) 0 gs))"

end
