(* ===== verification/Packet_Safety.thy ===== *)
theory Packet_Safety
  imports Packet_Policy
begin

text \<open>
  What the reading of a policy's network rules guarantees: a range counts as the whole tailnet exactly
  when its addresses contain those of the tailnet, and a finding stands for every rule, and only for a
  rule, that opens every source, device and port.
\<close>

section \<open>Ranges\<close>

text \<open>The addresses of a prefix, as an interval of numbers.\<close>

definition in_interval :: "nat \<Rightarrow> nat \<Rightarrow> nat \<Rightarrow> bool" where
  "in_interval k a x \<longleftrightarrow> a div 2 ^ k * 2 ^ k \<le> x \<and> x < a div 2 ^ k * 2 ^ k + 2 ^ k"

definition in_block :: "prefix \<Rightarrow> ip_addr \<Rightarrow> bool" where
  "in_block p x = (case (p, x) of
     ((IPv4 a, n), IPv4 b) \<Rightarrow> in_interval (32 - n) (unat a) (unat b)
   | ((IPv6 a, n), IPv6 b) \<Rightarrow> in_interval (128 - n) (unat a) (unat b)
   | _ \<Rightarrow> False)"

definition block :: "prefix \<Rightarrow> ip_addr set" where
  "block p = {x. in_block p x}"

lemma in_interval_div: "in_interval k a x \<longleftrightarrow> x div 2 ^ k = a div 2 ^ k"
proof
  assume i: "in_interval k a x"
  have "a div 2 ^ k \<le> x div 2 ^ k" using i by (metis div_le_mono in_interval_def nonzero_mult_div_cancel_right power_not_zero zero_neq_numeral)
  moreover have "x < (a div 2 ^ k + 1) * 2 ^ k" using i by (simp add: in_interval_def algebra_simps)
  then have "x div 2 ^ k < a div 2 ^ k + 1" by (simp add: less_mult_imp_div_less)
  ultimately show "x div 2 ^ k = a div 2 ^ k" by simp
next
  assume d: "x div 2 ^ k = a div 2 ^ k"
  have "x = x div 2 ^ k * 2 ^ k + x mod 2 ^ k" by (rule div_mult_mod_eq [symmetric])
  moreover have "x mod 2 ^ k < 2 ^ k" by simp
  ultimately show "in_interval k a x" unfolding in_interval_def d [symmetric] by (metis add_less_cancel_left le_add1)
qed

text \<open>A block is inside another one exactly when it is no larger and starts in it.\<close>

lemma interval_subset:
  assumes "t mod 2 ^ kt = 0" "t + 2 ^ kt \<le> N"
  shows "(\<forall>x < N. in_interval kt t x \<longrightarrow> in_interval k a x) \<longleftrightarrow> kt \<le> k \<and> a div 2 ^ k = t div 2 ^ k"
proof
  assume all: "\<forall>x < N. in_interval kt t x \<longrightarrow> in_interval k a x"
  have t: "t < N" using assms(2) by (meson le_add1 less_le_trans less_add_same_cancel1 zero_less_numeral zero_less_power)
  have start: "in_interval k a t" using all t by (simp add: in_interval_div)
  then have eq: "a div 2 ^ k = t div 2 ^ k" by (simp add: in_interval_div)
  have "kt \<le> k"
  proof (rule ccontr)
    assume "\<not> kt \<le> k"
    then have lt: "(2 :: nat) ^ k < 2 ^ kt" by simp
    have "t div 2 ^ kt * 2 ^ kt = t" using assms(1) by auto
    then have "in_interval kt t (t + 2 ^ k)" unfolding in_interval_def using lt by simp
    moreover have "t + 2 ^ k < N" using lt assms(2) by linarith
    ultimately have "in_interval k a (t + 2 ^ k)" using all by blast
    then have "(t + 2 ^ k) div 2 ^ k = t div 2 ^ k" using eq by (simp add: in_interval_div)
    moreover have "(t + 2 ^ k) div 2 ^ k = t div 2 ^ k + 1" by (rule div_add_self2) simp
    ultimately show False by linarith
  qed
  with eq show "kt \<le> k \<and> a div 2 ^ k = t div 2 ^ k" by simp
next
  assume r: "kt \<le> k \<and> a div 2 ^ k = t div 2 ^ k"
  show "\<forall>x < N. in_interval kt t x \<longrightarrow> in_interval k a x"
  proof (intro allI impI)
    fix x
    assume "in_interval kt t x"
    then have d: "x div 2 ^ kt = t div 2 ^ kt" by (simp add: in_interval_div)
    have up: "y div 2 ^ k = y div 2 ^ kt div 2 ^ (k - kt)" for y :: nat
      using r by (metis div_mult2_eq le_add_diff_inverse power_add)
    show "in_interval k a x" using r d up [of x] up [of t] by (simp add: in_interval_div)
  qed
qed

lemma drop_bit_div: "drop_bit k (w :: 'a::len word) = drop_bit k v \<longleftrightarrow> unat w div 2 ^ k = unat v div 2 ^ k"
  by (metis unat_drop_bit_eq drop_bit_eq_div word_unat_eq_iff)

lemma drop_masked: "drop_bit k (push_bit k (drop_bit k (w :: 'a::len word))) = drop_bit k w"
  by (rule bit_eqI) (auto simp: bit_simps dest: bit_imp_le_length)

lemma masked_contains: "prefix_contains (Masked p) x = prefix_contains p x" "snd (Masked p) = snd p" "Is4 (fst (Masked p)) = Is4 (fst p)"
  by (auto simp: Masked_def prefix_contains_def Is4_def drop_masked split: ip_addr.splits prod.splits)

lemma words_as_nats: "(\<forall>b :: 'a::len word. P (unat b)) \<longleftrightarrow> (\<forall>x < 2 ^ LENGTH('a). P x)"
proof (intro iffI allI impI)
  fix x :: nat
  assume "\<forall>b :: 'a word. P (unat b)" "x < 2 ^ LENGTH('a)"
  moreover have "unat (word_of_nat x :: 'a word) = x" using \<open>x < _\<close> by (simp add: unat_of_nat take_bit_nat_eq_self)
  ultimately show "P x" by metis
next
  fix b :: "'a word"
  assume "\<forall>x < 2 ^ LENGTH('a). P x"
  then show "P (unat b)" using unsigned_less [of b] by blast
qed

lemma parsed_bits: "ParsePrefix s = Some (a, n) \<Longrightarrow> n \<le> addr_bits a"
  by (auto simp: ParsePrefix_def bind_eq_Some_conv Let_def split: if_splits option.splits)

lemma tailnet4:
  assumes "n \<le> 32"
  shows "(\<forall>b :: 32 word. in_interval 22 0x64400000 (unat b) \<longrightarrow> in_interval (32 - n) a (unat b))
    \<longleftrightarrow> n \<le> 10 \<and> a div 2 ^ (32 - n) = 0x64400000 div 2 ^ (32 - n)"
proof -
  have "(\<forall>b :: 32 word. in_interval 22 0x64400000 (unat b) \<longrightarrow> in_interval (32 - n) a (unat b))
      \<longleftrightarrow> (\<forall>x < 2 ^ LENGTH(32). in_interval 22 0x64400000 x \<longrightarrow> in_interval (32 - n) a x)"
    by (rule words_as_nats)
  also have "\<dots> \<longleftrightarrow> 22 \<le> 32 - n \<and> a div 2 ^ (32 - n) = 0x64400000 div 2 ^ (32 - n)"
    by (rule interval_subset) simp_all
  also have "22 \<le> 32 - n \<longleftrightarrow> n \<le> 10" using assms by arith
  finally show ?thesis .
qed

lemma tailnet6:
  assumes "n \<le> 128"
  shows "(\<forall>b :: 128 word. in_interval 80 0xfd7a115ca1e000000000000000000000 (unat b) \<longrightarrow> in_interval (128 - n) a (unat b))
    \<longleftrightarrow> n \<le> 48 \<and> a div 2 ^ (128 - n) = 0xfd7a115ca1e000000000000000000000 div 2 ^ (128 - n)"
proof -
  have "(\<forall>b :: 128 word. in_interval 80 0xfd7a115ca1e000000000000000000000 (unat b) \<longrightarrow> in_interval (128 - n) a (unat b))
      \<longleftrightarrow> (\<forall>x < 2 ^ LENGTH(128). in_interval 80 0xfd7a115ca1e000000000000000000000 x \<longrightarrow> in_interval (128 - n) a x)"
    by (rule words_as_nats)
  also have "\<dots> \<longleftrightarrow> 80 \<le> 128 - n \<and> a div 2 ^ (128 - n) = 0xfd7a115ca1e000000000000000000000 div 2 ^ (128 - n)"
    by (rule interval_subset) simp_all
  also have "80 \<le> 128 - n \<longleftrightarrow> n \<le> 48" using assms by arith
  finally show ?thesis .
qed

lemma covers_parsed:
  assumes "ParsePrefix s = Some p"
  shows "coversTailnet s \<longleftrightarrow> (\<exists>tailnet \<in> set tailnetRanges. snd p \<le> snd tailnet \<and> prefix_contains p (fst tailnet))"
proof -
  have "Is4 (fst p) = Is4 (fst t)" if "prefix_contains p (fst t)" for t
    using that by (cases p; cases t; cases "fst p"; cases "fst t") (simp_all add: prefix_contains_def Is4_def)
  then show ?thesis
    unfolding coversTailnet_def assms option.case Let_def masked_contains list_ex_iff by blast
qed

lemma block4:
  assumes "n \<le> 32"
  shows "(\<forall>x. in_block (IPv4 0x64400000, 10) x \<longrightarrow> in_block (IPv4 w, n) x) \<longleftrightarrow> n \<le> 10 \<and> prefix_contains (IPv4 w, n) (IPv4 0x64400000)"
proof -
  have lit: "unat (0x64400000 :: 32 word) = 0x64400000" by simp
  have "(\<forall>x. in_block (IPv4 0x64400000, 10) x \<longrightarrow> in_block (IPv4 w, n) x)
      \<longleftrightarrow> (\<forall>b :: 32 word. in_interval 22 0x64400000 (unat b) \<longrightarrow> in_interval (32 - n) (unat w) (unat b))"
    unfolding in_block_def using lit by (auto split: ip_addr.splits)
  also have "\<dots> \<longleftrightarrow> n \<le> 10 \<and> unat w div 2 ^ (32 - n) = 0x64400000 div 2 ^ (32 - n)" by (rule tailnet4 [OF assms])
  also have "\<dots> \<longleftrightarrow> n \<le> 10 \<and> prefix_contains (IPv4 w, n) (IPv4 0x64400000)"
    unfolding prefix_contains_def prod.case ip_addr.case drop_bit_div lit by (rule refl)
  finally show ?thesis .
qed

lemma block6:
  assumes "n \<le> 128"
  shows "(\<forall>x. in_block (IPv6 0xfd7a115ca1e000000000000000000000, 48) x \<longrightarrow> in_block (IPv6 w, n) x)
    \<longleftrightarrow> n \<le> 48 \<and> prefix_contains (IPv6 w, n) (IPv6 0xfd7a115ca1e000000000000000000000)"
proof -
  have lit: "unat (0xfd7a115ca1e000000000000000000000 :: 128 word) = 0xfd7a115ca1e000000000000000000000" by simp
  have "(\<forall>x. in_block (IPv6 0xfd7a115ca1e000000000000000000000, 48) x \<longrightarrow> in_block (IPv6 w, n) x)
      \<longleftrightarrow> (\<forall>b :: 128 word. in_interval 80 0xfd7a115ca1e000000000000000000000 (unat b) \<longrightarrow> in_interval (128 - n) (unat w) (unat b))"
    unfolding in_block_def using lit by (auto split: ip_addr.splits)
  also have "\<dots> \<longleftrightarrow> n \<le> 48 \<and> unat w div 2 ^ (128 - n) = 0xfd7a115ca1e000000000000000000000 div 2 ^ (128 - n)" by (rule tailnet6 [OF assms])
  also have "\<dots> \<longleftrightarrow> n \<le> 48 \<and> prefix_contains (IPv6 w, n) (IPv6 0xfd7a115ca1e000000000000000000000)"
    unfolding prefix_contains_def prod.case ip_addr.case drop_bit_div lit by (rule refl)
  finally show ?thesis .
qed

text \<open>A block of one family is not inside one of the other.\<close>

lemma block_family:
  assumes "\<forall>x. in_block (a, n) x \<longrightarrow> in_block p x"
  shows "Is4 a = Is4 (fst p)"
proof -
  have "in_block (a, n) a" by (cases a) (simp_all add: in_block_def in_interval_div)
  with assms have "in_block p a" by blast
  then show ?thesis by (cases p; cases a; cases "fst p") (simp_all add: in_block_def Is4_def)
qed

text \<open>
  C24. A selector counts as a range over the tailnet exactly when it is a CIDR whose addresses contain every
  address of one of the two tailnet ranges, 100.64.0.0/10 and fd7a:115c:a1e0::/48, whatever host bits it
  is written with.
\<close>

theorem covers_tailnet_exact:
  "coversTailnet s \<longleftrightarrow> (\<exists>p tailnet. ParsePrefix s = Some p \<and> tailnet \<in> set tailnetRanges \<and> block tailnet \<subseteq> block p)"
proof (cases "ParsePrefix s")
  case None
  then show ?thesis by (simp add: coversTailnet_def)
next
  case (Some p)
  obtain a n where p: "p = (a, n)" by (cases p)
  have n: "n \<le> addr_bits a" using parsed_bits Some p by simp
  have same: "(\<forall>x. in_block t x \<longrightarrow> in_block p x) \<longleftrightarrow> snd p \<le> snd t \<and> prefix_contains p (fst t)" if "t \<in> set tailnetRanges" for t
  proof (cases "Is4 (fst t) = Is4 a")
    case False
    then have "\<not> prefix_contains p (fst t)" by (cases a; cases "fst t") (simp_all add: p prefix_contains_def Is4_def)
    with False block_family [of "fst t" "snd t" p] show ?thesis by (auto simp: p)
  next
    case True
    from that consider "t = (IPv4 0x64400000, 10)" | "t = (IPv6 0xfd7a115ca1e000000000000000000000, 48)"
      unfolding tailnetRanges_def list.set insert_iff by blast
    then show ?thesis
    proof cases
      case 1
      with True obtain w where "a = IPv4 w" by (cases a) (simp_all add: Is4_def)
      then show ?thesis using block4 [of n w] n unfolding 1 p by (simp add: addr_bits_def)
    next
      case 2
      with True obtain w where "a = IPv6 w" by (cases a) (simp_all add: Is4_def)
      then show ?thesis using block6 [of n w] n unfolding 2 p by (simp add: addr_bits_def)
    qed
  qed
  show ?thesis unfolding covers_parsed [OF Some] Some option.inject block_def Collect_mono_iff using same by blast
qed

section \<open>Findings\<close>

text \<open>A selector stands for everything: by its value behind an alias, as an IP set, or as a range.\<close>

definition resolved :: "HostAliases \<Rightarrow> string \<Rightarrow> string" where
  "resolved hosts s = (case gm_get hosts (trim_space s) of Some v \<Rightarrow> trim_space v | None \<Rightarrow> trim_space s)"

definition selects_all :: "HostAliases \<Rightarrow> string list \<Rightarrow> string \<Rightarrow> bool" where
  "selects_all hosts everything s \<longleftrightarrow>
     is_ip_set (resolved hosts s) \<or> resolved hosts s \<in> set everything \<or> coversTailnet (resolved hosts s)"

definition opens_destination :: "HostAliases \<Rightarrow> string \<Rightarrow> bool" where
  "opens_destination hosts d \<longleftrightarrow> d = ''*:*'' \<or> (\<exists>front ports. cut_last (CHR '':'') d = Some (front, ports)
     \<and> selects_all hosts allHosts (trim_suffix (trim_prefix front ''['') '']'')
     \<and> (\<exists>e \<in> set (split_on (CHR '','') ports). isAllPorts (trim_space e)))"

definition opens_acl :: "HostAliases \<Rightarrow> ACLRule \<Rightarrow> bool" where
  "opens_acl hosts r \<longleftrightarrow> equal_fold (ACLAction r) ''accept''
     \<and> (\<exists>s \<in> set (ACLSrc r) \<union> set (ACLUsers r). selects_all hosts allSources s)
     \<and> (\<exists>d \<in> set (ACLDst r) \<union> set (ACLPorts r). opens_destination hosts d)"

definition opens_grant :: "HostAliases \<Rightarrow> Grant \<Rightarrow> bool" where
  "opens_grant hosts g \<longleftrightarrow> (\<exists>s \<in> set (GrantSrc g). selects_all hosts allSources s)
     \<and> (\<exists>d \<in> set (GrantDst g). selects_all hosts allHosts d) \<and> (\<exists>e \<in> set (GrantIP g). grantIPAllowsAll (trim_space e))"

lemma firstMatch_None: "firstMatch P es = None \<longleftrightarrow> (\<forall>e \<in> set es. \<not> P (trim_space e))"
  by (induction es) auto

lemma firstAll_None: "firstAll hosts everything ss = None \<longleftrightarrow> (\<forall>s \<in> set ss. \<not> selects_all hosts everything s)"
  by (induction ss) (auto simp: selects_all_def resolved_def Let_def)

lemma destination_None: "aclDestinationAllowsAll hosts d = None \<longleftrightarrow> \<not> opens_destination hosts d"
proof -
  let ?host = "\<lambda>front. trim_suffix (trim_prefix front ''['') '']''"
  have one: "firstAll hosts allHosts [h] = None \<longleftrightarrow> \<not> selects_all hosts allHosts h" for h
    by (simp add: firstAll_None del: firstAll.simps)
  show ?thesis
    by (cases "firstAll hosts allHosts [?host (fst (the (cut_last (CHR '':'') d)))]")
      (use one [of "?host (fst (the (cut_last (CHR '':'') d)))"] in
        \<open>auto simp: aclDestinationAllowsAll_def opens_destination_def firstMatch_None Let_def simp del: firstAll.simps split: option.splits\<close>)
qed

lemma first_destination_None: "first_destination hosts ds = None \<longleftrightarrow> (\<forall>d \<in> set ds. \<not> opens_destination hosts d)"
  by (induction ds) (auto simp flip: destination_None split: option.splits)

lemma bex_Un_append: "(\<exists>x \<in> set xs \<union> set ys. P x) \<longleftrightarrow> \<not> (\<forall>x \<in> set (xs @ ys). \<not> P x)"
  by auto

lemma acl_opens: "acl_allowsAll hosts r = None \<longleftrightarrow> \<not> opens_acl hosts r"
  unfolding acl_allowsAll_def opens_acl_def bex_Un_append
    firstAll_None [symmetric] first_destination_None [symmetric]
  by (cases "firstAll hosts allSources (ACLSrc r @ ACLUsers r)") simp_all

lemma bex_not: "(\<exists>x \<in> set xs. P x) \<longleftrightarrow> \<not> (\<forall>x \<in> set xs. \<not> P x)"
  by auto

lemma grant_opens: "grant_allowsAll hosts g = None \<longleftrightarrow> \<not> opens_grant hosts g"
  unfolding grant_allowsAll_def opens_grant_def bex_not firstAll_None [symmetric] firstMatch_None [symmetric]
  by (cases "firstAll hosts allSources (GrantSrc g)"; cases "firstAll hosts allHosts (GrantDst g)";
      cases "firstMatch grantIPAllowsAll (GrantIP g)") simp_all

lemma acl_count: "length (acl_findings hosts i rs) = length (filter (opens_acl hosts) rs)"
  by (induction rs arbitrary: i) (auto simp flip: acl_opens split: option.split)

lemma grant_count: "length (grant_findings hosts i gs) = length (filter (opens_grant hosts) gs)"
  by (induction gs arbitrary: i) (auto simp flip: grant_opens split: option.split)


end
