(* ===== verification/Shell_Quote.thy ===== *)
theory Shell_Quote
  imports Redact
begin

text \<open>
  Quoting for shell scripts (internal/shell/quote.go). Every remote script splices values of the
  configuration through \<open>Quote\<close>. The specification is how a POSIX shell reads a word: what stands between
  single quotes is literal, a backslash outside of them makes the next character literal, a blank or an
  operator ends the word, and any other special character outside of quotes is not literal.
\<close>

abbreviation single_quote :: char where
  "single_quote \<equiv> CHR 0x27"

abbreviation backslash :: char where
  "backslash \<equiv> CHR 0x5C"

definition Quote :: "string \<Rightarrow> string" where
  "Quote s = [single_quote] @ replace_all [single_quote] [single_quote, backslash, single_quote, single_quote] s @ [single_quote]"

definition ends_word :: "char \<Rightarrow> bool" where
  "ends_word c \<longleftrightarrow> c \<in> set '' ;&|<>()'' \<or> c = CHR 0x09 \<or> c = CHR 0x0A"

definition special :: "char \<Rightarrow> bool" where
  "special c \<longleftrightarrow> c \<in> set ''$*?[#~{}!%='' \<or> c = CHR 0x22 \<or> c = CHR 0x60"

text \<open>
  A literal word at the start of a text, and the text behind it; \<open>quoted\<close> says whether it starts inside
  single quotes. There is none when a quote stays open or a special character is met outside.
\<close>

fun read_word :: "bool \<Rightarrow> string \<Rightarrow> (string \<times> string) option" where
  "read_word True [] = None"
| "read_word True (c # s) =
     (if c = single_quote then read_word False s else map_option (\<lambda>(w, r). (c # w, r)) (read_word True s))"
| "read_word False [] = Some ([], [])"
| "read_word False (c # s) =
     (if c = single_quote then read_word True s
      else if c = backslash then (case s of [] \<Rightarrow> None | d # t \<Rightarrow> map_option (\<lambda>(w, r). (d # w, r)) (read_word False t))
      else if ends_word c then Some ([], c # s)
      else if special c then None
      else map_option (\<lambda>(w, r). (c # w, r)) (read_word False s))"

lemma replace_quote:
  "replace_all [single_quote] new s = concat (map (\<lambda>c. if c = single_quote then new else [c]) s)"
proof (induction s)
  case (Cons c s)
  show ?case
  proof (cases "c = single_quote")
    case True
    then show ?thesis using replace_match [of "[single_quote]" new s] Cons by simp
  next
    case False
    then show ?thesis using replace_step [of "[single_quote]" c s new] Cons by (simp add: has_prefix_iff)
  qed
qed simp

lemma read_quoted:
  "read_word True (concat (map (\<lambda>c. if c = single_quote then [single_quote, backslash, single_quote, single_quote] else [c]) s) @ single_quote # rest)
     = map_option (\<lambda>(w, r). (s @ w, r)) (read_word False rest)"
proof (induction s)
  case (Cons c s)
  then show ?case by (cases "read_word False rest") auto
qed (simp add: option.map_ident_strong)

text \<open>
  C35. A quoted value is one literal word of the script, whatever bytes it holds: where a blank, an
  operator or the end follows, the shell reads exactly the value and stops there.
\<close>

theorem quote_roundtrip:
  assumes "rest = [] \<or> ends_word (hd rest)"
  shows "read_word False (Quote s @ rest) = Some (s, rest)"
proof -
  have sep: "\<not> ends_word single_quote" "\<not> ends_word backslash" by (simp_all add: ends_word_def)
  have "read_word False rest = Some ([], rest)" using assms sep by (cases rest) auto
  then show ?thesis using read_quoted [of s rest] by (simp add: Quote_def replace_quote)
qed

lemma quote_roundtrip_witness:
  "read_word False (Quote (''a'' @ [single_quote] @ ''; rm -rf $HOME'') @ '' --flag'') = Some (''a'' @ [single_quote] @ ''; rm -rf $HOME'', '' --flag'')"
  by (rule quote_roundtrip) (simp add: ends_word_def)

end
