(* ===== verification/Spec2Isabelle.thy ===== *)
theory Spec2Isabelle
  imports Ownership Policy_Patch Mesh_Device Policy_Reconcile Compute_Model State_Registry Config_Policy
    Credentials_Store Tunnel_Preflight State_Model Provision Provision_Safety External_Cleanup Server_Delete
    Hetzner_Safety Digitalocean_Safety Vultr_Safety Import_Safety Lock_Safety Packet_Safety Shell_Quote
begin

text \<open>
  serverpro is a command line program, written in Go, that creates, hardens, watches and deletes servers
  at three compute providers and connects them to a Tailscale tailnet and to Cloudflare tunnels. This
  development models the part of it that decides what is created, changed and deleted: the code under
  internal/ of the repository, translated definition by definition, with the theorems that make it
  correct. This theory gathers the others; each of them opens with what it holds.

  \<^bold>\<open>The parts and how they interact.\<close> A command reads the configuration (config), the credentials
  (credentials), the state of one server and the registry of all servers (state), and takes the locks of
  its workflow (state, privatefile). The create run (lifecycle) edits the tailnet policy, makes a tunnel,
  a server and an auth key, waits for the host in the tailnet, hardens it and checkpoints the state after
  every step. The delete run (cli) freezes what the operator approved, reads it again under the locks,
  checks every tracked resource, deletes the server through the provider's adapter, then the resources
  outside it, then the local files. The import (importsync) rebuilds the local files from a provider's
  inventory. Ownership labels (ownership) tell whose a live resource is; every deletion rests on them.

  \<^bold>\<open>Theories and sources.\<close>

  \<^item> Prelude: \<open>Go_Prelude\<close> (strings, maps, errors as values), \<open>Go_Strings\<close> (UTF-8, strings, strconv,
    unicode), \<open>Go_Json\<close> (encoding/json), \<open>Go_Paths\<close> (path/filepath).
  \<^item> \<open>Ownership\<close>: internal/ownership/labels.go.
  \<^item> \<open>Mesh_Types\<close>, \<open>Mesh_Device\<close>: internal/mesh (types.go, device.go) and the wait for a device in
    internal/provider/tailscale/devices.go.
  \<^item> \<open>Packet_Policy\<close>, \<open>Packet_Safety\<close>: internal/mesh/packet_policy.go with the parser of net/netip:
    which rules of a policy let every source reach everything.
  \<^item> \<open>Policy_Patch\<close>, \<open>Ssh_Policy\<close>, \<open>Policy_Client\<close>, \<open>Policy_Reconcile\<close>: the tailnet policy in
    internal/provider/tailscale (policy*.go). The document, its rules, the HuJSON patch that carries an edit
    into the operator's file, the write guarded by the ETag, and the removal of stale entries.
  \<^item> \<open>Config_Names\<close>, \<open>Config_Model\<close>, \<open>Config_Policy\<close>: internal/config and internal/servername.
    Names, scopes, paths, defaults, validation and the file; what validation promises to the policy client.
  \<^item> \<open>Private_File\<close>: internal/privatefile, the atomic write on a file system that can lose power.
  \<^item> \<open>Credentials_Store\<close>: internal/credentials.
  \<^item> \<open>State_Registry\<close>, \<open>State_Model\<close>: internal/state (registry*.go, state.go, target.go).
  \<^item> \<open>Workflow_Locks\<close>, \<open>Lock_Safety\<close>: internal/state/registry_lock.go, the \<open>flock\<close> primitives of
    internal/privatefile, and the order in which the workflows of internal/cli and internal/importsync lock.
  \<^item> \<open>Compute_Model\<close>: internal/compute. \<open>Redact\<close>: internal/redact, internal/provider/providerutil.
  \<^item> \<open>Cloud_Api\<close>, \<open>Compute_Adapter\<close>: calls of a provider's API (internal/provider/httpjson) and the
    contract of an adapter.
  \<^item> \<open>Hetzner_Compute\<close>, \<open>Hetzner_Safety\<close>, \<open>Digitalocean_Compute\<close>, \<open>Digitalocean_Safety\<close>,
    \<open>Vultr_Compute\<close>, \<open>Vultr_Safety\<close>: internal/provider/hetzner, digitalocean and vultr.
  \<^item> \<open>Shell_Quote\<close>: internal/shell/quote.go, against the way a POSIX shell reads a word.
  \<^item> \<open>Tunnel_Preflight\<close>: internal/ingress/tunnel.go and the check in internal/lifecycle/openssh.go that no
    tunnel reaches the SSH server.
  \<^item> \<open>Provision\<close>, \<open>Provision_Safety\<close>: internal/lifecycle, the create run.
  \<^item> \<open>External_Cleanup\<close>, \<open>Server_Delete\<close>: internal/cli (server_delete_*.go,
    server_power_delete_commands.go, provider_flag_guard.go), the delete run.
  \<^item> \<open>Import_Model\<close>, \<open>Import_Transaction\<close>, \<open>Import_Safety\<close>: internal/importsync.

  \<^bold>\<open>How state, effects and errors are modelled.\<close> A struct is a record, an enumeration a datatype, a map an
  association list of which the lemmas see only the lookup; an error is the left side of a sum or a value
  of \<open>option\<close>, one constructor for each place that raises it, and every early return is a branch. Local
  files are held decoded and handed from operation to operation. A service outside the repository is a
  function from the calls made so far to its next answer, so that it may change between two calls in any
  way; the calls of a run are kept in a trace or a log, and safety is stated on it: every call is licensed
  by what stands before it. The provider adapters are computations of the state monad over such a trace.
  Locks are a step relation on processes, lock files and inodes.

  \<^bold>\<open>Interfaces.\<close> Locales hold what several components share, with an interpretation on the model of each:
  \<open>compute_adapter\<close> (a provider's deletion, three adapters), \<open>tracked_resource\<close> (a resource that the
  state tracks outside the provider: device, tunnel, key), \<open>rule_keeper\<close> (an edit that keeps one SSH rule,
  three kinds).

  \<^bold>\<open>What the lemmas show.\<close>

  \<^item> Create: every resource that a run made is named by the state it leaves or was deleted again; a server
    is made at most once, behind a validated policy; a run without error has hardened the host.
  \<^item> Delete: nothing is deleted that was not approved, read again and shown as owned; wherever a run stops,
    the state still names what may be left; a run without error leaves nothing of the server.
  \<^item> Adapters: a create asks for at most one server, behind an access policy of its own; a deletion is
    licensed by reads of the same run, and passes only when the resources are gone; waits end.
  \<^item> Import: crash safe behind its marker, complete on success, and never the owner of a foreign tunnel.
  \<^item> Policy: a patch reproduces the computed document, rendering fails closed, edits keep what is not theirs,
    are idempotent and reversible, a reconcile takes only what was planned and approved, and the warnings of
    an open network policy are exact.
  \<^item> Local files: atomic and crash-safe writes, confinement of secrets, a registry that behaves as one map,
    locks that exclude in every interleaving without a deadlock.
  \<^item> Names and labels: round trips, injectivity of the namespace tag, character sets, hidden secrets;
    a value spliced into a shell script is read back as one literal word.

  \<^bold>\<open>Bounds and fuel.\<close> No definition runs on fuel that a theorem could run out of unnoticed. Loops with a
  deadline take the number of turns that the deadline leaves: \<open>Polls\<close> (the wait for a provider's action),
  \<open>Waits\<close> (a tunnel with open connections), the list of turns of \<open>WaitDevice\<close> and of the probes of a
  host. What happens at the deadline is a branch of the code and of the model, so each number, zero
  included, is a run of the code. \<open>Pages\<close> is the number of page reads that the deadline of the context
  leaves; the next one fails. The loops over pages of DigitalOcean and Vultr also stop at a page that they
  have seen before; Hetzner's has no such guard.

  \<^bold>\<open>What is not modelled.\<close> Shell text that runs on the host (cloud-init, bootstrap tools, tunnel
  installation, the reboot gate, git deployment, the remote checks and repairs of doctor): its meaning is
  that of tools which are not in the repository; where the create run depends on it, the outcome of a step
  is a parameter. Prompts, printed rows and command construction. The catalogs of the providers and the
  diagnosis that doctor prints. The transport of HTTP: headers, redirects, limits of bodies. Parsers of the
  library that a component only calls (YAML, net/url, HuJSON, time.ParseDuration) are parameters, with what
  the code relies on as named hypotheses. SHA-256, which names two kinds of lock files, is taken as
  free of collisions.
\<close>


end
